(* ===== verification/Prelude.thy ===== *)
theory Prelude
  imports Main "HOL-Library.List_Lexorder" "HOL-Library.Char_ord"
begin

text \<open>
  Shared vocabulary of the development: Go's result convention, ordered search, and the
  collections of facts the component theories extend.

  A Go call that returns \<open>(value, error)\<close> is a value of \<open>'e + 'a\<close>, \<open>Inl\<close> for
  the error. Code that can also dereference a nil pointer has the three-valued
  \<open>outcome\<close>, so that a panic is a result of its own and never a hidden default.
  A loop with an early \<open>return\<close> is \<open>first_some\<close>: the first element of the range whose
  body returns. Strings are byte lists; \<open>\<le>\<close> on them is Go's lexicographic \<open><=\<close>.
\<close>

named_theorems store_simps \<open>effect of each store operation on each table\<close>
named_theorems frame_simps \<open>fields an operation leaves alone\<close>

datatype ('e, 'a) outcome = Done 'a | Fail 'e | NilDeref

text \<open>A call whose error branch is taken at once: \<open>if err != nil { ... }\<close>.\<close>

definition if_ok :: "('e + 'a) \<times> 'w \<Rightarrow> ('e \<Rightarrow> 'w \<Rightarrow> 'r) \<Rightarrow> ('a \<Rightarrow> 'w \<Rightarrow> 'r) \<Rightarrow> 'r" where
  "if_ok c err k = (case c of (Inl e, w) \<Rightarrow> err e w | (Inr a, w) \<Rightarrow> k a w)"

text \<open>Evaluation inlines it, so that only the branch taken is computed.\<close>

declare if_ok_def [code_unfold]

lemma if_ok_simps [simp]: "if_ok (Inl e, w) err k = err e w" "if_ok (Inr a, w) err k = k a w"
  by (simp_all add: if_ok_def)

lemma if_ok_split: "P (if_ok c err k) \<longleftrightarrow>
    (\<forall>e w. c = (Inl e, w) \<longrightarrow> P (err e w)) \<and> (\<forall>a w. c = (Inr a, w) \<longrightarrow> P (k a w))"
  by (cases c; cases "fst c") auto

section \<open>Early return from a loop\<close>

primrec first_some :: "('a \<Rightarrow> 'b option) \<Rightarrow> 'a list \<Rightarrow> 'b option" where
  "first_some f [] = None"
| "first_some f (x # xs) = (case f x of None \<Rightarrow> first_some f xs | Some r \<Rightarrow> Some r)"

lemma first_some_None_iff: "first_some f xs = None \<longleftrightarrow> (\<forall>x \<in> set xs. f x = None)"
  by (induction xs) (auto split: option.splits)

lemma first_some_SomeE:
  assumes "first_some f xs = Some r"
  obtains ys x zs where "xs = ys @ x # zs" "f x = Some r" "\<forall>y \<in> set ys. f y = None"
  using assms
proof (induction xs arbitrary: thesis)
  case Nil
  then show ?case by simp
next
  case (Cons x xs)
  show ?case
  proof (cases "f x")
    case None
    with Cons.prems(2) have "first_some f xs = Some r" by simp
    then obtain ys z zs where "xs = ys @ z # zs" "f z = Some r" "\<forall>y \<in> set ys. f y = None"
      using Cons.IH by blast
    with None show ?thesis by (intro Cons.prems(1) [of "x # ys" z zs]) auto
  next
    case (Some r')
    with Cons.prems(2) show ?thesis by (intro Cons.prems(1) [of "[]" x xs]) auto
  qed
qed

text \<open>
  \<open>least_in T o\<close> says that \<open>o\<close> is the answer to "the least element of \<open>T\<close>, if any".
  A search over a list whose elements own disjoint, increasing regions is correct as soon
  as the search inside each region is.
\<close>

definition least_in :: "'t::linorder set \<Rightarrow> 't option \<Rightarrow> bool" where
  "least_in T o' \<longleftrightarrow>
     (case o' of None \<Rightarrow> T = {} | Some r \<Rightarrow> r \<in> T \<and> (\<forall>u \<in> T. r \<le> u))"

lemma least_in_None [simp]: "least_in T None \<longleftrightarrow> T = {}"
  by (simp add: least_in_def)

lemma least_in_Some [simp]: "least_in T (Some r) \<longleftrightarrow> r \<in> T \<and> (\<forall>u \<in> T. r \<le> u)"
  by (simp add: least_in_def)

lemma least_in_first_some:
  assumes region: "\<And>x. x \<in> set xs \<Longrightarrow> least_in (T \<inter> I x) (f x)"
    and ordered: "sorted_wrt (\<lambda>x y. \<forall>a \<in> I x. \<forall>b \<in> I y. a < b) xs"
  shows "least_in (T \<inter> (\<Union>x \<in> set xs. I x)) (first_some f xs)"
  using assms
proof (induction xs)
  case Nil
  then show ?case by simp
next
  case (Cons x xs)
  have IH: "least_in (T \<inter> (\<Union>y \<in> set xs. I y)) (first_some f xs)"
    using Cons.prems by (intro Cons.IH) auto
  have hd: "least_in (T \<inter> I x) (f x)" using Cons.prems(1) by simp
  have lt: "a < b" if "a \<in> I x" "b \<in> (\<Union>y \<in> set xs. I y)" for a b
    using that Cons.prems(2) by auto
  show ?case
  proof (cases "f x")
    case None
    with hd have empty: "T \<inter> I x = {}" by simp
    then have "T \<inter> (\<Union>y \<in> set (x # xs). I y) = T \<inter> (\<Union>y \<in> set xs. I y)" by auto
    with IH None show ?thesis by simp
  next
    case (Some r)
    with hd have r: "r \<in> T" "r \<in> I x" "\<forall>u \<in> T \<inter> I x. r \<le> u" by auto
    have "r \<le> u" if "u \<in> T \<inter> (\<Union>y \<in> set (x # xs). I y)" for u
      using that r lt [OF r(2)] by (auto intro: less_imp_le)
    with Some r show ?thesis by auto
  qed
qed

lemma least_in_cong: "A = B \<Longrightarrow> least_in A o' = least_in B o'"
  by simp

lemma least_in_singleton:
  "least_in (T \<inter> {c}) (if c \<in> T then Some c else None)"
  by auto

section \<open>Association lists read as Go maps\<close>

text \<open>
  Tables are lists of rows. \<open>upsert\<close> is SQL's \<open>INSERT ... ON CONFLICT DO UPDATE\<close> on the
  rows that match \<open>p\<close>: update the matching row in place, or append the new row.
\<close>

definition upsert :: "('r \<Rightarrow> bool) \<Rightarrow> ('r \<Rightarrow> 'r) \<Rightarrow> 'r \<Rightarrow> 'r list \<Rightarrow> 'r list" where
  "upsert p upd new rows =
     (if \<exists>r \<in> set rows. p r then map (\<lambda>r. if p r then upd r else r) rows else rows @ [new])"

definition update_where :: "('r \<Rightarrow> bool) \<Rightarrow> ('r \<Rightarrow> 'r) \<Rightarrow> 'r list \<Rightarrow> 'r list" where
  "update_where p upd rows = map (\<lambda>r. if p r then upd r else r) rows"

definition rows_affected :: "('r \<Rightarrow> bool) \<Rightarrow> 'r list \<Rightarrow> nat" where
  "rows_affected p rows = length (filter p rows)"

lemma find_upsert_other:
  assumes "\<And>r. q r \<Longrightarrow> \<not> p r" "\<And>r. p r \<Longrightarrow> \<not> q (upd r)" "\<not> q new"
  shows "find q (upsert p upd new rows) = find q rows"
proof -
  have "find q (map (\<lambda>r. if p r then upd r else r) rows) = find q rows"
    using assms(1,2) by (induction rows) auto
  moreover have "find q (rows @ [new]) = find q rows"
    using assms(3) by (induction rows) auto
  ultimately show ?thesis by (simp add: upsert_def)
qed

lemma find_update_where_other:
  assumes "\<And>r. q r \<Longrightarrow> \<not> p r" "\<And>r. p r \<Longrightarrow> \<not> q (upd r)"
  shows "find q (update_where p upd rows) = find q rows"
  using assms unfolding update_where_def by (induction rows) auto

lemma find_update_where_same:
  assumes "\<And>r. q (upd r) = q r" "\<And>r. q r \<Longrightarrow> p r"
  shows "find q (update_where p upd rows) = map_option upd (find q rows)"
  using assms unfolding update_where_def by (induction rows) auto

lemma find_upsert_same:
  assumes "\<And>r. p (upd r) = p r" "p new"
  shows "find p (upsert p upd new rows) =
    Some (case find p rows of None \<Rightarrow> new | Some r \<Rightarrow> upd r)"
proof -
  have hit: "find p (map (\<lambda>r. if p r then upd r else r) rows) = map_option upd (find p rows)"
    using assms(1) by (induction rows) auto
  have miss: "\<forall>r \<in> set rows. \<not> p r \<Longrightarrow> find p (rows @ [new]) = Some new \<and> find p rows = None"
    using assms(2) by (induction rows) auto
  show ?thesis
  proof (cases "\<exists>r \<in> set rows. p r")
    case True
    then have "find p rows \<noteq> None" by (auto simp: find_None_iff)
    with True hit show ?thesis by (auto simp: upsert_def)
  next
    case False
    with miss show ?thesis by (auto simp: upsert_def)
  qed
qed

lemma set_update_where: "set (update_where p upd rows) = (\<lambda>r. if p r then upd r else r) ` set rows"
  by (simp add: update_where_def)

lemma find_SomeD: "find p xs = Some x \<Longrightarrow> x \<in> set xs \<and> p x"
  by (induction xs) (auto split: if_splits)

lemma map_key_update_where:
  "(\<And>r. key (upd r) = key r) \<Longrightarrow> map key (update_where p upd rows) = map key rows"
  by (simp add: update_where_def)

lemma distinct_map_upsert:
  assumes "distinct (map key rows)" "\<And>r. key (upd r) = key r"
    and "\<And>r. key r = key new \<Longrightarrow> p r"
  shows "distinct (map key (upsert p upd new rows))"
proof (cases "\<exists>r \<in> set rows. p r")
  case True
  then have "map key (upsert p upd new rows) = map key rows"
    using assms(2) by (simp add: upsert_def)
  with assms(1) show ?thesis by metis
next
  case False
  with assms(1,3) show ?thesis by (auto simp: upsert_def)
qed

end
