(* ===== verification/Go_Strings.thy ===== *)
theory Go_Strings
  imports Prelude
begin

text \<open>
  The functions of Go's \<open>strings\<close>, \<open>bytes\<close> and \<open>strconv\<close> packages that the sources
  use, on byte strings. \<open>space_len\<close> recognises the UTF-8 encodings of the white space of
  \<open>unicode.IsSpace\<close>, so \<open>TrimSpace\<close> and \<open>Fields\<close> are exact on every byte string.
  \<open>ToUpper\<close> and \<open>ToLower\<close> map the ASCII letters and the non-ASCII letters whose other
  case is ASCII; every other non-ASCII rune is left alone, which no caller in the model
  can observe (they only compare against ASCII text).
\<close>

section \<open>White space\<close>

definition is_ascii_space :: "char \<Rightarrow> bool" where
  "is_ascii_space c \<longleftrightarrow> c \<in> {CHR 0x09, CHR 0x0A, CHR 0x0B, CHR 0x0C, CHR 0x0D, CHR 0x20}"

text \<open>Length of the white-space rune at the head of a string, 0 if there is none.\<close>

fun space_len :: "string \<Rightarrow> nat" where
  "space_len [] = 0"
| "space_len (a # s) =
     (if is_ascii_space a then 1
      else case s of [] \<Rightarrow> 0
      | b # s' \<Rightarrow>
        if a = CHR 0xC2 \<and> (b = CHR 0x85 \<or> b = CHR 0xA0) then 2
        else case s' of [] \<Rightarrow> 0
        | c # _ \<Rightarrow>
          if (a = CHR 0xE1 \<and> b = CHR 0x9A \<and> c = CHR 0x80)
            \<or> (a = CHR 0xE2 \<and> b = CHR 0x80 \<and>
               (CHR 0x80 \<le> c \<and> c \<le> CHR 0x8A \<or> c = CHR 0xA8 \<or> c = CHR 0xA9 \<or> c = CHR 0xAF))
            \<or> (a = CHR 0xE2 \<and> b = CHR 0x81 \<and> c = CHR 0x9F)
            \<or> (a = CHR 0xE3 \<and> b = CHR 0x80 \<and> c = CHR 0x80)
          then 3 else 0)"

text \<open>The same for the rune at the end, read on the reversed string.\<close>

definition space_len_rev :: "string \<Rightarrow> nat" where
  "space_len_rev r =
     (if space_len (rev (take 1 r)) = 1 \<and> r \<noteq> [] then 1
      else if space_len (rev (take 2 r)) = 2 then 2
      else if space_len (rev (take 3 r)) = 3 then 3 else 0)"

lemma space_len_le: "space_len s \<le> length s"
  by (cases s rule: space_len.cases) (auto split: list.splits)

lemma space_len_rev_le: "space_len_rev r \<le> length r"
proof -
  have "space_len (rev (take 2 r)) \<le> length r" "space_len (rev (take 3 r)) \<le> length r"
    using space_len_le [of "rev (take 2 r)"] space_len_le [of "rev (take 3 r)"] by auto
  then show ?thesis by (cases r) (auto simp: space_len_rev_def)
qed

function trim_left :: "string \<Rightarrow> string" where
  "trim_left s = (if space_len s = 0 then s else trim_left (drop (space_len s) s))"
  by pat_completeness auto
termination
proof (relation "measure length")
  fix s :: string
  assume "space_len s \<noteq> 0"
  moreover have "space_len s \<le> length s" by (rule space_len_le)
  ultimately show "(drop (space_len s) s, s) \<in> measure length" by simp
qed simp

function trim_rev :: "string \<Rightarrow> string" where
  "trim_rev r = (if space_len_rev r = 0 then r else trim_rev (drop (space_len_rev r) r))"
  by pat_completeness auto
termination
proof (relation "measure length")
  fix r :: string
  assume "space_len_rev r \<noteq> 0"
  moreover have "space_len_rev r \<le> length r" by (rule space_len_rev_le)
  ultimately show "(drop (space_len_rev r) r, r) \<in> measure length" by simp
qed simp

declare trim_left.simps [simp del] trim_rev.simps [simp del]

definition trim_space :: "string \<Rightarrow> string" where
  "trim_space s = rev (trim_rev (rev (trim_left s)))"

lemma trim_left_Nil [simp]: "trim_left [] = []"
  by (subst trim_left.simps) simp

lemma trim_rev_Nil [simp]: "trim_rev [] = []"
  by (subst trim_rev.simps) (simp add: space_len_rev_def)

lemma trim_space_Nil [simp]: "trim_space [] = []"
  by (simp add: trim_space_def)

lemma trim_left_idem [simp]: "trim_left (trim_left s) = trim_left s"
proof (induction s rule: trim_left.induct)
  case (1 s)
  show ?case
  proof (cases "space_len s = 0")
    case True
    then have "trim_left s = s" by (subst trim_left.simps) simp
    then show ?thesis by simp
  next
    case False
    then have "trim_left s = trim_left (drop (space_len s) s)" by (subst trim_left.simps) simp
    with "1.IH" False show ?thesis by simp
  qed
qed

lemma space_len_trim_left: "space_len (trim_left s) = 0"
proof (induction s rule: trim_left.induct)
  case (1 s)
  then show ?case by (subst trim_left.simps) auto
qed

lemma length_trim_rev: "length (trim_rev r) \<le> length r"
proof (induction r rule: trim_rev.induct)
  case (1 r)
  then show ?case by (subst trim_rev.simps) (auto simp del: drop_eq_Nil intro: le_trans)
qed

lemma length_trim_left: "length (trim_left s) \<le> length s"
proof (induction s rule: trim_left.induct)
  case (1 s)
  then show ?case by (subst trim_left.simps) (auto simp del: drop_eq_Nil intro: le_trans)
qed

lemma length_trim_space: "length (trim_space s) \<le> length s"
  using length_trim_rev [of "rev (trim_left s)"] length_trim_left [of s]
  by (simp add: trim_space_def)

text \<open>\<open>strings.Fields\<close>: the maximal runs of non-space bytes; \<open>w\<close> is the field being read.\<close>

function fields_from :: "string \<Rightarrow> string \<Rightarrow> string list" where
  "fields_from w s =
     (case s of [] \<Rightarrow> (if w = [] then [] else [rev w])
      | c # r \<Rightarrow>
        if space_len s = 0 then fields_from (c # w) r
        else (if w = [] then [] else [rev w]) @ fields_from [] (drop (space_len s) s))"
  by pat_completeness auto
termination by (relation "measure (\<lambda>(w, s). length s)") auto

declare fields_from.simps [simp del]

definition str_fields :: "string \<Rightarrow> string list" where
  "str_fields s = fields_from [] s"

section \<open>Searching and splitting\<close>

fun has_prefix :: "string \<Rightarrow> string \<Rightarrow> bool" where
  "has_prefix s [] = True"
| "has_prefix [] (p # ps) = False"
| "has_prefix (c # s) (p # ps) = (c = p \<and> has_prefix s ps)"

lemma has_prefix_iff: "has_prefix s p \<longleftrightarrow> (\<exists>t. s = p @ t)"
  by (induction s p rule: has_prefix.induct) auto

definition has_suffix :: "string \<Rightarrow> string \<Rightarrow> bool" where
  "has_suffix s p = has_prefix (rev s) (rev p)"

definition trim_prefix :: "string \<Rightarrow> string \<Rightarrow> string" where
  "trim_prefix s p = (if has_prefix s p then drop (length p) s else s)"

text \<open>\<open>strings.Index\<close>: the first position at which \<open>p\<close> occurs.\<close>

fun index_of :: "string \<Rightarrow> string \<Rightarrow> nat option" where
  "index_of [] p = (if p = [] then Some 0 else None)"
| "index_of (c # s) p =
     (if has_prefix (c # s) p then Some 0 else map_option Suc (index_of s p))"

definition contains_str :: "string \<Rightarrow> string \<Rightarrow> bool" where
  "contains_str s p = (index_of s p \<noteq> None)"

lemma index_of_Some: "index_of s p = Some i \<Longrightarrow> s = take i s @ p @ drop (i + length p) s"
proof (induction s arbitrary: i)
  case Nil
  then show ?case by (auto split: if_splits)
next
  case (Cons c s)
  show ?case
  proof (cases "has_prefix (c # s) p")
    case True
    with Cons.prems show ?thesis by (auto simp: has_prefix_iff)
  next
    case False
    with Cons.prems obtain j where j: "index_of s p = Some j" "i = Suc j" by auto
    with Cons.IH [OF j(1)] show ?thesis by simp
  qed
qed

lemma index_of_prefix: "has_prefix s p \<Longrightarrow> index_of s p = Some 0"
  by (cases s; cases p) auto

lemma contains_str_iff: "contains_str s p \<longleftrightarrow> (\<exists>a b. s = a @ p @ b)"
proof
  assume "contains_str s p"
  then obtain i where "index_of s p = Some i" by (auto simp: contains_str_def)
  then show "\<exists>a b. s = a @ p @ b" by (blast dest: index_of_Some)
next
  assume "\<exists>a b. s = a @ p @ b"
  then obtain a b where "s = a @ p @ b" by blast
  then show "contains_str s p"
  proof (induction a arbitrary: s)
    case Nil
    then have "has_prefix s p" by (simp add: has_prefix_iff)
    then show ?case by (simp add: contains_str_def index_of_prefix)
  next
    case (Cons x a)
    then show ?case by (auto simp: contains_str_def)
  qed
qed

text \<open>\<open>strings.Split\<close> on a one-byte separator: one more part than there are separators.\<close>

fun split_on :: "char \<Rightarrow> string \<Rightarrow> string list" where
  "split_on sep [] = [[]]"
| "split_on sep (c # s) =
     (if c = sep then [] # split_on sep s
      else case split_on sep s of [] \<Rightarrow> [[c]] | w # ws \<Rightarrow> (c # w) # ws)"

lemma split_on_nonempty [simp]: "split_on sep s \<noteq> []"
  by (induction s) (auto split: list.splits)

lemma split_on_parts: "w \<in> set (split_on sep s) \<Longrightarrow> sep \<notin> set w"
proof (induction s arbitrary: w)
  case (Cons c s)
  then show ?case
    by (cases "split_on sep s") (auto split: if_splits)
qed simp

text \<open>\<open>strings.SplitN(s, sep, 2)\<close>: cut at the first separator; one part if there is none.\<close>

fun split2 :: "char \<Rightarrow> string \<Rightarrow> string \<times> string option" where
  "split2 sep [] = ([], None)"
| "split2 sep (c # s) =
     (if c = sep then ([], Some s) else case split2 sep s of (a, b) \<Rightarrow> (c # a, b))"

lemma split2_Some: "split2 sep s = (a, Some b) \<Longrightarrow> s = a @ sep # b \<and> sep \<notin> set a"
  by (induction s arbitrary: a) (auto split: if_splits prod.splits)

lemma split2_None: "split2 sep s = (a, None) \<Longrightarrow> a = s \<and> sep \<notin> set s"
  by (induction s arbitrary: a) (auto split: if_splits prod.splits)

lemma split2_append [simp]: "sep \<notin> set a \<Longrightarrow> split2 sep (a @ sep # b) = (a, Some b)"
  by (induction a) auto

fun join :: "string \<Rightarrow> string list \<Rightarrow> string" where
  "join sep [] = []"
| "join sep [w] = w"
| "join sep (w # ws) = w @ sep @ join sep ws"

text \<open>
  \<open>strings.ReplaceAll\<close> for a non-empty pattern: left to right, without rescanning what was
  written. The pattern is empty in no caller.
\<close>

function replace_all :: "string \<Rightarrow> string \<Rightarrow> string \<Rightarrow> string" where
  "replace_all s p r =
     (case s of [] \<Rightarrow> []
      | c # s' \<Rightarrow>
        if p \<noteq> [] \<and> has_prefix s p then r @ replace_all (drop (length p) s) p r
        else c # replace_all s' p r)"
  by pat_completeness auto
termination by (relation "measure (\<lambda>(s, p, r). length s)") auto

declare replace_all.simps [simp del]

lemma replace_all_Nil [simp]: "replace_all [] p r = []"
  by (subst replace_all.simps) simp

lemma replace_all_Cons:
  "replace_all (c # s) p r =
     (if p \<noteq> [] \<and> has_prefix (c # s) p then r @ replace_all (drop (length p) (c # s)) p r
      else c # replace_all s p r)"
  by (subst replace_all.simps) simp

lemma replace_all_absent: "\<not> contains_str s p \<Longrightarrow> replace_all s p r = s"
proof (induction s)
  case (Cons c s)
  then show ?case
    by (auto simp: replace_all_Cons contains_str_def split: if_splits)
qed simp

section \<open>Letter case\<close>

definition upper_char :: "char \<Rightarrow> char" where
  "upper_char c = (if CHR ''a'' \<le> c \<and> c \<le> CHR ''z'' then char_of (of_char c - 32 :: nat) else c)"

definition lower_char :: "char \<Rightarrow> char" where
  "lower_char c = (if CHR ''A'' \<le> c \<and> c \<le> CHR ''Z'' then char_of (of_char c + 32 :: nat) else c)"

text \<open>U+0131 and U+017F have the upper cases I and S; U+0130 and U+212A the lower cases i and k.\<close>

fun to_upper :: "string \<Rightarrow> string" where
  "to_upper [] = []"
| "to_upper [a] = [upper_char a]"
| "to_upper (a # b # s) =
     (if a = CHR 0xC4 \<and> b = CHR 0xB1 then CHR ''I'' # to_upper s
      else if a = CHR 0xC5 \<and> b = CHR 0xBF then CHR ''S'' # to_upper s
      else upper_char a # to_upper (b # s))"

fun to_lower :: "string \<Rightarrow> string" where
  "to_lower [] = []"
| "to_lower [a] = [lower_char a]"
| "to_lower (a # b # s) =
     (if a = CHR 0xC4 \<and> b = CHR 0xB0 then CHR ''i'' # to_lower s
      else if a = CHR 0xE2 \<and> b = CHR 0x84 \<and> s \<noteq> [] \<and> hd s = CHR 0xAA
        then CHR ''k'' # to_lower (tl s)
      else lower_char a # to_lower (b # s))"

section \<open>Numbers\<close>

definition is_digit :: "char \<Rightarrow> bool" where
  "is_digit c \<longleftrightarrow> CHR ''0'' \<le> c \<and> c \<le> CHR ''9''"

definition digit_val :: "char \<Rightarrow> int" where
  "digit_val c = int (of_char c) - 48"

definition digits_val :: "string \<Rightarrow> int" where
  "digits_val s = foldl (\<lambda>n c. 10 * n + digit_val c) 0 s"

definition int_min :: int where "int_min = - (2 ^ 63)"
definition int_max :: int where "int_max = 2 ^ 63 - 1"

text \<open>A Go \<open>int\<close> is 64 bits wide on every platform the program is built for.\<close>

definition wrap64 :: "int \<Rightarrow> int" where
  "wrap64 n = (n + 2 ^ 63) mod 2 ^ 64 - 2 ^ 63"

lemma wrap64_id: "int_min \<le> n \<Longrightarrow> n \<le> int_max \<Longrightarrow> wrap64 n = n"
  by (simp add: wrap64_def int_min_def int_max_def)

lemma wrap64_range: "int_min \<le> wrap64 n \<and> wrap64 n \<le> int_max"
  by (simp add: wrap64_def int_min_def int_max_def)

lemma wrap64_over: "int_max < n \<Longrightarrow> n \<le> 2 * int_max + 1 \<Longrightarrow> wrap64 n = n - 2 ^ 64"
proof -
  assume *: "int_max < n" "n \<le> 2 * int_max + 1"
  have "(n + 2 ^ 63) mod 2 ^ 64 = (n + 2 ^ 63 - 2 ^ 64) mod 2 ^ 64"
    by (simp only: minus_mod_self2)
  also have "\<dots> = n + 2 ^ 63 - 2 ^ 64"
    using * by (intro mod_pos_pos_trivial) (auto simp: int_max_def)
  finally show ?thesis by (simp add: wrap64_def)
qed

text \<open>\<open>strconv.Atoi\<close>: an optional sign, decimal digits, and an error outside the int range.\<close>

definition atoi :: "string \<Rightarrow> int option" where
  "atoi s =
     (let (neg, ds) = (case s of [] \<Rightarrow> (False, [])
        | c # r \<Rightarrow> if c = CHR ''-'' then (True, r)
                  else if c = CHR ''+'' then (False, r) else (False, s));
          n = (if neg then - digits_val ds else digits_val ds)
      in if ds \<noteq> [] \<and> list_all is_digit ds \<and> int_min \<le> n \<and> n \<le> int_max
         then Some n else None)"

lemma atoi_range: "atoi s = Some n \<Longrightarrow> int_min \<le> n \<and> n \<le> int_max"
  by (auto simp: atoi_def Let_def split: list.splits if_splits)

end
