(* ===== verification/Go_Time.thy ===== *)
theory Go_Time
  imports Go_Strings
begin

text \<open>
  Go's \<open>time\<close> package, as far as the sources use it. An instant is a number of
  nanoseconds since 1970-01-01T00:00:00Z; the zero \<open>time.Time\<close> is 0001-01-01T00:00:00Z.
  A location is what \<open>Location.lookup\<close> returns for a Unix second: the UTC offset in force
  and the first and last (exclusive) second for which it is in force. \<open>time_date\<close> is
  \<open>time.Date\<close>: it looks the offset up at the wall clock read as UTC, and once more if the
  instant so obtained lies outside the zone found.
\<close>

type_synonym instant = int
type_synonym location = "int \<Rightarrow> int \<times> int \<times> int"

definition nanos :: int where "nanos = 1000000000"
definition minute_ns :: int where "minute_ns = 60000000000"
definition hour_ns :: int where "hour_ns = 3600000000000"

definition zero_time :: instant where
  "zero_time = - 62135596800000000000"

definition is_zero_time :: "instant \<Rightarrow> bool" where
  "is_zero_time t \<longleftrightarrow> t = zero_time"

definition utc :: location where
  "utc s = (0, int_min, int_max)"

section \<open>The civil calendar\<close>

definition is_leap :: "int \<Rightarrow> bool" where
  "is_leap y \<longleftrightarrow> y mod 4 = 0 \<and> (y mod 100 \<noteq> 0 \<or> y mod 400 = 0)"

text \<open>Days from 0001-01-01 to the first of January of year \<open>y\<close>.\<close>

definition days_before_year :: "int \<Rightarrow> int" where
  "days_before_year y = 365 * (y - 1) + (y - 1) div 4 - (y - 1) div 100 + (y - 1) div 400"

definition days_before_month :: "int \<Rightarrow> int \<Rightarrow> int" where
  "days_before_month y m =
     [0, 31, 59, 90, 120, 151, 181, 212, 243, 273, 304, 334] ! nat (m - 1)
     + (if 2 < m \<and> is_leap y then 1 else 0)"

definition days_in_month :: "int \<Rightarrow> int \<Rightarrow> int" where
  "days_in_month y m =
     (if m = 2 then (if is_leap y then 29 else 28)
      else if m \<in> {4, 6, 9, 11} then 30 else 31)"

text \<open>The day number of a date; months out of 1..12 and days out of the month carry over.\<close>

definition date_days :: "int \<Rightarrow> int \<Rightarrow> int \<Rightarrow> int" where
  "date_days y m d =
     (let y' = y + (m - 1) div 12; m' = (m - 1) mod 12 + 1
      in days_before_year y' + days_before_month y' m' + (d - 1))"

lemma div_step: "(0::int) < k \<Longrightarrow> y div k = (y - 1) div k + (if y mod k = 0 then 1 else 0)"
proof -
  assume k: "0 < k"
  have y: "y = k * (y div k) + y mod k" by simp
  show ?thesis
  proof (cases "y mod k = 0")
    case True
    with y have "y - 1 = k * (y div k - 1) + (k - 1)" by (simp add: right_diff_distrib)
    moreover have "0 \<le> k - 1" "k - 1 < k" using k by auto
    ultimately have "(y - 1) div k = y div k - 1" by (metis int_div_pos_eq)
    with True show ?thesis by simp
  next
    case False
    moreover have "0 \<le> y mod k" "y mod k < k" using k by auto
    ultimately have "0 \<le> y mod k - 1" "y mod k - 1 < k" by auto
    moreover have "y - 1 = k * (y div k) + (y mod k - 1)" using y by simp
    ultimately have "(y - 1) div k = y div k" by (metis int_div_pos_eq)
    with False show ?thesis by simp
  qed
qed

lemma mod_dvd_trans: "(a::int) dvd b \<Longrightarrow> y mod b = 0 \<Longrightarrow> y mod a = 0"
  by (meson dvd_trans mod_0_imp_dvd dvd_imp_mod_0)

lemma days_before_year_Suc:
  "days_before_year (y + 1) = days_before_year y + (if is_leap y then 366 else 365)"
proof -
  have sub: "y mod 400 = 0 \<longrightarrow> y mod 100 = 0" "y mod 100 = 0 \<longrightarrow> y mod 4 = 0"
    using mod_dvd_trans [of 100 400 y] mod_dvd_trans [of 4 100 y] by auto
  have "days_before_year (y + 1) = 365 * y + y div 4 - y div 100 + y div 400"
    by (simp add: days_before_year_def)
  also have "\<dots> = days_before_year y + 365 + (if y mod 4 = 0 then 1 else 0)
      - (if y mod 100 = 0 then 1 else 0) + (if y mod 400 = 0 then 1 else 0)"
    unfolding days_before_year_def
    by (subst div_step [of 4 y], simp, subst div_step [of 100 y], simp, subst div_step [of 400 y], simp)
      (simp only: algebra_simps)
  also have "\<dots> = days_before_year y + (if is_leap y then 366 else 365)"
    using sub by (cases "y mod 4 = 0"; cases "y mod 100 = 0"; cases "y mod 400 = 0")
      (simp_all only: is_leap_def if_True if_False simp_thms)
  finally show ?thesis .
qed

lemma days_before_year_less: "a < b \<Longrightarrow> days_before_year a < days_before_year b"
proof (induction b rule: int_gr_induct)
  case base
  show ?case using days_before_year_Suc [of a] by simp
next
  case (step i)
  then show ?case using days_before_year_Suc [of i] by (simp split: if_splits)
qed

lemma days_before_year_mono: "a \<le> b \<Longrightarrow> days_before_year a \<le> days_before_year b"
  by (metis days_before_year_less order_le_less)

text \<open>The year of a day number: start at or below it, then step up.\<close>

function year_from :: "int \<Rightarrow> int \<Rightarrow> int" where
  "year_from y n = (if days_before_year (y + 1) \<le> n then year_from (y + 1) n else y)"
  by pat_completeness auto
termination
proof (relation "measure (\<lambda>(y, n). nat (n - days_before_year y))")
  fix y n :: int
  assume "days_before_year (y + 1) \<le> n"
  moreover have "days_before_year y < days_before_year (y + 1)"
    by (rule days_before_year_less) simp
  ultimately show "((y + 1, n), y, n) \<in> measure (\<lambda>(y, n). nat (n - days_before_year y))"
    by simp
qed simp

declare year_from.simps [simp del]

definition year_of :: "int \<Rightarrow> int" where
  "year_of n = year_from ((if 0 \<le> n then n div 366 else n div 365) + 1) n"

lemma year_from_spec:
  "days_before_year y \<le> n \<Longrightarrow>
   days_before_year (year_from y n) \<le> n \<and> n < days_before_year (year_from y n + 1)"
proof (induction y n rule: year_from.induct)
  case (1 y n)
  then show ?case by (subst (1 2) year_from.simps) auto
qed

lemma int_div_le_self: "0 \<le> (a::int) \<Longrightarrow> 0 < k \<Longrightarrow> a div k \<le> a"
  by (metis div_by_1 int_one_le_iff_zero_less zdiv_mono2 zero_less_one)

lemma int_le_div_neg: "(a::int) < 0 \<Longrightarrow> 0 < k \<Longrightarrow> a \<le> a div k"
  by (metis div_by_1 int_one_le_iff_zero_less less_imp_le zdiv_mono2_neg zero_less_one)

lemma leaps_le: "0 \<le> (x::int) \<Longrightarrow> x div 4 - x div 100 + x div 400 \<le> x"
proof -
  assume x: "0 \<le> x"
  define a b c where "a = x div 4" and "b = x div 100" and "c = x div 400"
  have "c = b div 4" by (simp add: b_def c_def zdiv_zmult2_eq [symmetric])
  moreover have "0 \<le> b" "a \<le> x" using x by (simp_all add: a_def b_def int_div_le_self)
  ultimately have "c \<le> b" by (simp add: int_div_le_self)
  with \<open>a \<le> x\<close> have "a - b + c \<le> x" by simp
  then show ?thesis by (simp only: a_def b_def c_def)
qed

lemma leaps_neg: "(x::int) < 0 \<Longrightarrow> x div 4 - x div 100 + x div 400 \<le> 0"
proof -
  assume x: "x < 0"
  define a b c where "a = x div 4" and "b = x div 100" and "c = x div 400"
  have "b = a div 25" by (simp add: a_def b_def zdiv_zmult2_eq [symmetric])
  moreover have "a < 0" "c < 0" using x by (simp_all add: a_def c_def neg_imp_zdiv_neg_iff)
  ultimately have "a \<le> b" by (simp add: int_le_div_neg)
  with \<open>c < 0\<close> have "a - b + c \<le> 0" by simp
  then show ?thesis by (simp only: a_def b_def c_def)
qed

lemma days_before_year_plus:
  "days_before_year (x + 1) = 365 * x + (x div 4 - x div 100 + x div 400)"
  by (simp add: days_before_year_def)

lemma year_start_le:
  "days_before_year ((if 0 \<le> n then n div 366 else n div 365) + 1) \<le> n"
proof (cases "0 \<le> n")
  case True
  define x where "x = n div 366"
  have "366 * x \<le> n" unfolding x_def by simp
  moreover have "x div 4 - x div 100 + x div 400 \<le> x"
    using True by (intro leaps_le) (simp add: x_def)
  then have "days_before_year (x + 1) \<le> 365 * x + x"
    unfolding days_before_year_plus by (rule add_left_mono)
  ultimately have "days_before_year (x + 1) \<le> n" by simp
  with True show ?thesis by (simp only: x_def if_True)
next
  case False
  define x where "x = n div 365"
  have "365 * x \<le> n" unfolding x_def by simp
  moreover have "x div 4 - x div 100 + x div 400 \<le> 0"
    using False by (intro leaps_neg) (simp add: x_def neg_imp_zdiv_neg_iff)
  then have "days_before_year (x + 1) \<le> 365 * x + 0"
    unfolding days_before_year_plus by (rule add_left_mono)
  ultimately have "days_before_year (x + 1) \<le> n" by simp
  with False show ?thesis by (simp only: x_def if_False)
qed

lemma year_of_spec: "days_before_year (year_of n) \<le> n" "n < days_before_year (year_of n + 1)"
  using year_from_spec [OF year_start_le, of n] by (auto simp: year_of_def)

lemma year_of_eq: "days_before_year y \<le> n \<Longrightarrow> n < days_before_year (y + 1) \<Longrightarrow> year_of n = y"
  using year_of_spec [of n] days_before_year_mono [of "year_of n + 1" y]
    days_before_year_mono [of "y + 1" "year_of n"] by linarith

definition month_of :: "int \<Rightarrow> int \<Rightarrow> int" where
  "month_of y doy =
     (case find (\<lambda>m. days_before_month y m \<le> doy) [12, 11, 10, 9, 8, 7, 6, 5, 4, 3, 2] of
        None \<Rightarrow> 1 | Some m \<Rightarrow> m)"

definition civil_of :: "int \<Rightarrow> int \<times> int \<times> int" where
  "civil_of n =
     (let y = year_of n; doy = n - days_before_year y; m = month_of y doy
      in (y, m, doy - days_before_month y m + 1))"

definition valid_date :: "int \<Rightarrow> int \<Rightarrow> int \<Rightarrow> bool" where
  "valid_date y m d \<longleftrightarrow> 1 \<le> m \<and> m \<le> 12 \<and> 1 \<le> d \<and> d \<le> days_in_month y m"

lemma month_cases:
  assumes "1 \<le> (m::int)" "m \<le> 12"
  shows "m = 1 \<or> m = 2 \<or> m = 3 \<or> m = 4 \<or> m = 5 \<or> m = 6 \<or> m = 7 \<or> m = 8
    \<or> m = 9 \<or> m = 10 \<or> m = 11 \<or> m = 12"
  using assms by presburger

lemma days_before_month_Suc:
  "1 \<le> m \<Longrightarrow> m \<le> 11 \<Longrightarrow>
   days_before_month y (m + 1) = days_before_month y m + days_in_month y m"
  using month_cases [of m]
  by (auto simp: days_before_month_def days_in_month_def)

lemma days_before_month_12:
  "days_before_month y 12 + days_in_month y 12 = (if is_leap y then 366 else 365)"
  by (simp add: days_before_month_def days_in_month_def)

lemma days_before_month_1 [simp]: "days_before_month y 1 = 0"
  by (simp add: days_before_month_def)

lemma days_in_month_ge: "28 \<le> days_in_month y m"
  by (simp add: days_in_month_def)

text \<open>Within a year the months partition the days.\<close>

lemma days_before_month_less:
  assumes "m < m'" "1 \<le> m" "m' \<le> 12"
  shows "days_before_month y m + days_in_month y m \<le> days_before_month y m'"
  using assms
proof (induction m' rule: int_gr_induct)
  case base
  then show ?case using days_before_month_Suc [of m y] by simp
next
  case (step i)
  then have "days_before_month y (i + 1) = days_before_month y i + days_in_month y i"
    by (intro days_before_month_Suc) auto
  with step show ?case using days_in_month_ge [of y i] by auto
qed

lemma days_before_month_nonneg: "1 \<le> m \<Longrightarrow> m \<le> 12 \<Longrightarrow> 0 \<le> days_before_month y m"
  using month_cases [of m] by (auto simp: days_before_month_def)

lemma month_end_le_year:
  "1 \<le> m \<Longrightarrow> m \<le> 12 \<Longrightarrow>
   days_before_month y m + days_in_month y m \<le> (if is_leap y then 366 else 365)"
  using days_before_month_less [of m 12 y] days_before_month_12 [of y] days_in_month_ge [of y 12]
  by (cases "m = 12") auto

lemma date_days_valid:
  "1 \<le> m \<Longrightarrow> m \<le> 12 \<Longrightarrow>
   date_days y m d = days_before_year y + days_before_month y m + (d - 1)"
  by (simp add: date_days_def)

lemma date_days_in_year:
  assumes "valid_date y m d"
  shows "days_before_year y \<le> date_days y m d" "date_days y m d < days_before_year (y + 1)"
  using assms days_before_month_nonneg [of m y] month_end_le_year [of m y]
    days_before_year_Suc [of y]
  by (auto simp: valid_date_def date_days_valid split: if_splits)

lemma month_of_eq:
  assumes "1 \<le> m" "m \<le> 12" "days_before_month y m \<le> doy"
    and "doy < days_before_month y m + days_in_month y m"
  shows "month_of y doy = m"
proof -
  have above: "\<not> days_before_month y k \<le> doy" if "m < k" "k \<le> 12" for k
    using days_before_month_less [of m k y] that assms by auto
  show ?thesis
    using month_cases [OF assms(1,2)] assms(3) above
    by (elim disjE) (simp_all add: month_of_def)
qed

theorem civil_of_date_days:
  assumes "valid_date y m d"
  shows "civil_of (date_days y m d) = (y, m, d)"
proof -
  have y: "year_of (date_days y m d) = y"
    using date_days_in_year [OF assms] by (rule year_of_eq)
  have "month_of y (date_days y m d - days_before_year y) = m"
    using assms by (intro month_of_eq) (auto simp: valid_date_def date_days_valid)
  with y assms show ?thesis
    by (simp add: civil_of_def valid_date_def date_days_valid)
qed

lemma month_of_spec:
  assumes "0 \<le> doy" "doy < (if is_leap y then 366 else 365)"
  shows "1 \<le> month_of y doy \<and> month_of y doy \<le> 12 \<and>
    days_before_month y (month_of y doy) \<le> doy \<and>
    doy < days_before_month y (month_of y doy) + days_in_month y (month_of y doy)"
  using assms by (auto simp: month_of_def days_before_month_def days_in_month_def)

theorem date_days_civil_of:
  assumes "civil_of n = (y, m, d)"
  shows "valid_date y m d \<and> date_days y m d = n"
proof -
  have y: "y = year_of n" "m = month_of y (n - days_before_year y)"
    "d = n - days_before_year y - days_before_month y m + 1"
    using assms by (auto simp: civil_of_def Let_def)
  have "0 \<le> n - days_before_year y" "n - days_before_year y < (if is_leap y then 366 else 365)"
    using year_of_spec [of n] days_before_year_Suc [of y] y(1) by auto
  from month_of_spec [OF this] y(2,3) show ?thesis
    by (auto simp: valid_date_def date_days_valid)
qed

section \<open>Instants in a location\<close>

definition epoch_days :: int where "epoch_days = 719162"

definition weekday :: "int \<Rightarrow> int" where
  "weekday n = (n + 1) mod 7"

definition loc_sec :: "location \<Rightarrow> instant \<Rightarrow> int" where
  "loc_sec loc t = t div nanos + fst (loc (t div nanos))"

definition t_days :: "location \<Rightarrow> instant \<Rightarrow> int" where
  "t_days loc t = loc_sec loc t div 86400 + epoch_days"

definition t_year :: "location \<Rightarrow> instant \<Rightarrow> int" where
  "t_year loc t = fst (civil_of (t_days loc t))"

definition t_month :: "location \<Rightarrow> instant \<Rightarrow> int" where
  "t_month loc t = fst (snd (civil_of (t_days loc t)))"

definition t_day :: "location \<Rightarrow> instant \<Rightarrow> int" where
  "t_day loc t = snd (snd (civil_of (t_days loc t)))"

definition t_hour :: "location \<Rightarrow> instant \<Rightarrow> int" where
  "t_hour loc t = loc_sec loc t mod 86400 div 3600"

definition t_minute :: "location \<Rightarrow> instant \<Rightarrow> int" where
  "t_minute loc t = loc_sec loc t mod 3600 div 60"

definition time_date :: "location \<Rightarrow> int \<Rightarrow> int \<Rightarrow> int \<Rightarrow> int \<Rightarrow> int \<Rightarrow> instant" where
  "time_date loc y m d h mi =
     (let unix = (date_days y m d - epoch_days) * 86400 + h * 3600 + mi * 60
      in case loc unix of (off, start, stop) \<Rightarrow>
        if off \<noteq> 0 then
          let u = unix - off;
              off' = (if u < start \<or> stop \<le> u then fst (loc u) else off)
          in (unix - off') * nanos
        else unix * nanos)"

text \<open>A zone without transitions: UTC and the fixed-offset zones.\<close>

definition fixed_zone :: "location \<Rightarrow> int \<Rightarrow> bool" where
  "fixed_zone loc off \<longleftrightarrow> (\<forall>s. fst (loc s) = off) \<and> 60 dvd off"

lemma fixed_zone_utc: "fixed_zone utc 0"
  by (simp add: fixed_zone_def utc_def)

lemma time_date_fixed:
  "fixed_zone loc off \<Longrightarrow> time_date loc y m d h mi =
     ((date_days y m d - epoch_days) * 86400 + h * 3600 + mi * 60 - off) * nanos"
  by (auto simp: time_date_def fixed_zone_def Let_def split: prod.splits)
    (metis fst_conv)+

lemma loc_sec_mono: "fixed_zone loc off \<Longrightarrow> u \<le> v \<Longrightarrow> loc_sec loc u \<le> loc_sec loc v"
  by (simp add: loc_sec_def fixed_zone_def zdiv_mono1 nanos_def)

lemma loc_sec_less: "fixed_zone loc off \<Longrightarrow> loc_sec loc u < loc_sec loc v \<Longrightarrow> u < v"
  by (meson linorder_not_le loc_sec_mono)

lemma div_less_imp_less: "(a::int) div k < b div k \<Longrightarrow> 0 < k \<Longrightarrow> a < b"
  by (meson linorder_not_le zdiv_mono1)

lemma days_less:
  "fixed_zone loc off \<Longrightarrow> t_days loc u < t_days loc v \<Longrightarrow> u < v"
  by (rule loc_sec_less, assumption, rule div_less_imp_less [where k = 86400])
    (simp_all add: t_days_def)

lemma t_civil: "civil_of (t_days loc u) = (t_year loc u, t_month loc u, t_day loc u)"
  by (simp add: t_year_def t_month_def t_day_def)

lemma t_valid: "valid_date (t_year loc u) (t_month loc u) (t_day loc u)"
  and t_days_eq: "date_days (t_year loc u) (t_month loc u) (t_day loc u) = t_days loc u"
  using date_days_civil_of [OF t_civil] by auto

lemma t_month_range: "1 \<le> t_month loc u" "t_month loc u \<le> 12"
  and t_day_range: "1 \<le> t_day loc u" "t_day loc u \<le> days_in_month (t_year loc u) (t_month loc u)"
  using t_valid [of loc u] by (simp_all add: valid_date_def)

lemma t_days_split:
  "t_days loc u = days_before_year (t_year loc u) + days_before_month (t_year loc u) (t_month loc u)
     + (t_day loc u - 1)"
  using t_days_eq [of loc u] date_days_valid [OF t_month_range] by metis

lemma t_year_less: "fixed_zone loc off \<Longrightarrow> t_year loc u < t_year loc v \<Longrightarrow> u < v"
proof -
  assume fz: "fixed_zone loc off" and lt: "t_year loc u < t_year loc v"
  have "t_days loc u < days_before_year (t_year loc u + 1)"
    using date_days_in_year(2) [OF t_valid [of loc u]] by (simp add: t_days_eq)
  also have "\<dots> \<le> days_before_year (t_year loc v)"
    using lt by (intro days_before_year_mono) simp
  also have "\<dots> \<le> t_days loc v"
    using date_days_in_year(1) [OF t_valid [of loc v]] by (simp add: t_days_eq)
  finally show "u < v" by (rule days_less [OF fz])
qed

lemma t_month_less:
  assumes "fixed_zone loc off" "t_year loc u = t_year loc v" "t_month loc u < t_month loc v"
  shows "u < v"
proof (rule days_less [OF assms(1)])
  define y where "y = t_year loc v"
  have "days_before_month y (t_month loc u) + days_in_month y (t_month loc u)
      \<le> days_before_month y (t_month loc v)"
    using assms(3) t_month_range by (intro days_before_month_less) auto
  moreover have "t_day loc u \<le> days_in_month y (t_month loc u)" "1 \<le> t_day loc v"
    using t_day_range [of loc u] t_day_range [of loc v] assms(2) by (simp_all add: y_def)
  moreover have "t_year loc u = y" using assms(2) by (simp add: y_def)
  ultimately show "t_days loc u < t_days loc v"
    using t_days_split [of loc u] t_days_split [of loc v] by (simp add: y_def [symmetric])
qed

lemma t_day_less:
  assumes "fixed_zone loc off" "t_year loc u = t_year loc v" "t_month loc u = t_month loc v"
    and "t_day loc u < t_day loc v"
  shows "u < v"
proof (rule days_less [OF assms(1)])
  have "t_days loc u = days_before_year (t_year loc v) + days_before_month (t_year loc v) (t_month loc v)
     + (t_day loc u - 1)"
    using t_days_split [of loc u] assms(2,3) by (simp only:)
  then show "t_days loc u < t_days loc v"
    using t_days_split [of loc v] assms(4) by linarith
qed

lemma t_days_cong:
  "t_year loc u = t_year loc v \<Longrightarrow> t_month loc u = t_month loc v \<Longrightarrow>
   t_day loc u = t_day loc v \<Longrightarrow> t_days loc u = t_days loc v"
  by (metis t_days_eq)

lemma t_hour_less:
  assumes "fixed_zone loc off" "t_days loc u = t_days loc v" "t_hour loc u < t_hour loc v"
  shows "u < v"
proof (rule loc_sec_less [OF assms(1)])
  have "loc_sec loc u mod 86400 < loc_sec loc v mod 86400"
    using assms(3) unfolding t_hour_def by (meson linorder_not_le zdiv_mono1 zero_less_numeral)
  moreover have "loc_sec loc u div 86400 = loc_sec loc v div 86400"
    using assms(2) by (simp add: t_days_def)
  ultimately show "loc_sec loc u < loc_sec loc v"
    by (metis add_strict_left_mono mult_div_mod_eq)
qed

lemma sec_hour: "(s::int) mod 86400 = s mod 86400 div 3600 * 3600 + s mod 3600"
proof -
  have "s mod 3600 = s mod 86400 mod 3600" by (simp add: mod_mod_cancel)
  then show ?thesis by simp
qed

lemma sec_min: "(s::int) mod 3600 = s mod 3600 div 60 * 60 + s mod 60"
proof -
  have "s mod 60 = s mod 3600 mod 60" by (simp add: mod_mod_cancel)
  then show ?thesis by simp
qed

lemma sec_split:
  "(s::int) = s div 86400 * 86400 + s mod 86400 div 3600 * 3600 + s mod 3600 div 60 * 60 + s mod 60"
proof -
  have "s div 86400 * 86400 + s mod 86400 = s" by (rule div_mult_mod_eq)
  moreover note sec_hour [of s] sec_min [of s]
  ultimately show ?thesis by (simp only: add.assoc)
qed

lemma loc_sec_split:
  "loc_sec loc u = (t_days loc u - epoch_days) * 86400 + t_hour loc u * 3600
     + t_minute loc u * 60 + loc_sec loc u mod 60"
  unfolding t_days_def t_hour_def t_minute_def
  using sec_split [of "loc_sec loc u"] by (simp only: add_diff_cancel_right')

lemma t_minute_less:
  assumes "fixed_zone loc off" "t_days loc u = t_days loc v" "t_hour loc u = t_hour loc v"
    and "t_minute loc u < t_minute loc v"
  shows "u < v"
proof (rule loc_sec_less [OF assms(1)])
  define x y where "x = loc_sec loc u mod 60" and "y = loc_sec loc v mod 60"
  have "x < 60" "0 \<le> y" by (auto simp: x_def y_def)
  moreover have "loc_sec loc u = (t_days loc v - epoch_days) * 86400 + t_hour loc v * 3600
     + t_minute loc u * 60 + x" using loc_sec_split [of loc u] assms(2,3) by (simp add: x_def)
  moreover have "loc_sec loc v = (t_days loc v - epoch_days) * 86400 + t_hour loc v * 3600
     + t_minute loc v * 60 + y" using loc_sec_split [of loc v] by (simp add: y_def)
  ultimately show "loc_sec loc u < loc_sec loc v" using assms(4) by linarith
qed

text \<open>Round trip: a minute-aligned instant is \<open>time_date\<close> of its own fields.\<close>

lemma time_date_of_fields:
  assumes "fixed_zone loc off" "u mod minute_ns = 0"
  shows "time_date loc (t_year loc u) (t_month loc u) (t_day loc u) (t_hour loc u) (t_minute loc u) = u"
proof -
  have "minute_ns dvd u" using assms(2) by auto
  then obtain k where k: "u = k * minute_ns" by (metis dvd_div_mult_self)
  obtain j where j: "off = 60 * j" using assms(1) by (auto simp: fixed_zone_def dvd_def)
  have s: "u div nanos = 60 * k" by (simp add: k minute_ns_def nanos_def)
  have ls: "loc_sec loc u = 60 * (k + j)"
    using assms(1) s j by (simp add: loc_sec_def fixed_zone_def)
  then have "loc_sec loc u mod 60 = 0" by simp
  then show ?thesis
    using loc_sec_split [of loc u] ls j k assms(1)
    by (simp add: time_date_fixed t_days_eq minute_ns_def nanos_def)
qed

lemma fields_of_time_date:
  assumes "fixed_zone loc off" "valid_date y m d" "0 \<le> h" "h < 24" "0 \<le> mi" "mi < 60"
  defines "c \<equiv> time_date loc y m d h mi"
  shows "t_year loc c = y \<and> t_month loc c = m \<and> t_day loc c = d \<and> t_hour loc c = h
    \<and> t_minute loc c = mi \<and> c mod minute_ns = 0"
proof -
  define r where "r = h * 3600 + mi * 60"
  define n where "n = date_days y m d - epoch_days"
  have c: "c = (n * 86400 + r - off) * nanos"
    using assms(1) by (simp add: c_def time_date_fixed n_def r_def algebra_simps)
  have ls: "loc_sec loc c = n * 86400 + r"
    using assms(1) by (simp add: c loc_sec_def fixed_zone_def nanos_def)
  have r: "0 \<le> r" "r < 86400" using assms(3-6) by (auto simp: r_def)
  have "t_days loc c = date_days y m d" using r by (simp add: t_days_def ls n_def)
  then have civ: "civil_of (t_days loc c) = (y, m, d)"
    using civil_of_date_days [OF assms(2)] by simp
  have "(n * 86400 + r) mod 86400 = r" using r by simp
  then have "t_hour loc c = h" using assms(5,6) by (simp add: t_hour_def ls r_def)
  moreover have "(n * 86400 + r) mod 3600 = mi * 60"
  proof -
    have "n * 86400 + r = mi * 60 + 3600 * (24 * n + h)" by (simp add: r_def)
    then show ?thesis using assms(5,6) by (simp only: mod_mult_self2) simp
  qed
  then have "t_minute loc c = mi" by (simp add: t_minute_def ls)
  moreover have "c mod minute_ns = 0"
  proof -
    obtain j where "off = 60 * j" using assms(1) by (auto simp: fixed_zone_def dvd_def)
    then have "c = (n * 1440 + h * 60 + mi - j) * minute_ns"
      by (simp add: c r_def nanos_def minute_ns_def)
    then show ?thesis by simp
  qed
  ultimately show ?thesis using civ by (simp add: t_year_def t_month_def t_day_def)
qed

text \<open>\<open>time.Date(year, month+1, 0, ...).Day()\<close>, the length of a month.\<close>

definition max_days :: "int \<Rightarrow> int \<Rightarrow> int" where
  "max_days y m = snd (snd (civil_of (date_days y (m + 1) 0)))"

lemma max_days_eq:
  assumes "1 \<le> m" "m \<le> 12"
  shows "max_days y m = days_in_month y m"
proof -
  have "date_days y (m + 1) 0 = date_days y m (days_in_month y m)"
  proof (cases "m = 12")
    case True
    then show ?thesis
      using days_before_year_Suc [of y] days_before_month_12 [of y]
      by (simp add: date_days_def days_before_month_def split: if_splits)
  next
    case False
    with assms days_before_month_Suc [of m y] show ?thesis by (simp add: date_days_valid)
  qed
  moreover have "valid_date y m (days_in_month y m)"
    using assms days_in_month_ge [of y m] by (simp add: valid_date_def)
  ultimately show ?thesis by (simp add: max_days_def civil_of_date_days)
qed

text \<open>\<open>t.Truncate(time.Minute)\<close>: the zero time is itself on a minute boundary.\<close>

definition trunc_minute :: "instant \<Rightarrow> instant" where
  "trunc_minute t = t - t mod minute_ns"

lemma next_minute_le_iff:
  assumes "u mod minute_ns = 0"
  shows "t < u \<longleftrightarrow> trunc_minute t + minute_ns \<le> u"
proof -
  obtain k where k: "u = k * minute_ns" using assms by (metis dvd_div_mult_self mod_0_imp_dvd)
  have "trunc_minute t = (t div minute_ns) * minute_ns"
    by (simp add: trunc_minute_def minus_mod_eq_div_mult)
  moreover have "t < k * minute_ns \<longleftrightarrow> t div minute_ns < k"
    by (simp add: minute_ns_def) linarith
  ultimately show ?thesis using k by (auto simp: minute_ns_def)
qed

text \<open>The store keeps instants as RFC 3339 text, which drops the fraction of a second.\<close>

definition rfc3339 :: "instant \<Rightarrow> instant" where
  "rfc3339 t = t - t mod nanos"

lemma rfc3339_idem [simp]: "rfc3339 (rfc3339 t) = rfc3339 t"
  by (simp add: rfc3339_def minus_mod_eq_div_mult)

lemma rfc3339_le: "rfc3339 t \<le> t"
  by (simp add: rfc3339_def nanos_def)

lemma rfc3339_zero [simp]: "rfc3339 zero_time = zero_time"
  by (simp add: rfc3339_def zero_time_def nanos_def)

end
