(* ===== verification/Cron.thy ===== *)
theory Cron
  imports Go_Time
begin

text \<open>
  The package \<open>pkg/cron\<close>: the parser of 5-field cron expressions and the search for the
  next firing time. Go's \<open>int\<close> is 64 bits wide, so the step loop of a field is written
  with its wrap-around; because such a loop might not stop, it is a partial function whose
  divergence would be the value \<open>StepLoopRuns\<close>, and \<open>parse_field_returns\<close> shows that no
  input produces it.
\<close>

record cron =
  c_minute :: "int list"
  c_hour :: "int list"
  c_dom :: "int list"
  c_month :: "int list"
  c_dow :: "int list"
  dom_wild :: bool
  dow_wild :: bool

datatype field_error =
    BadStep string
  | BadRange string
  | BadRangeStart string
  | BadRangeEnd string
  | RangeOutOfBounds int int int int
  | RangeReversed int int
  | BadValue string
  | ValueOutOfRange int int int
  | StepLoopRuns

datatype cron_error =
    EmptyExpr
  | FieldCount nat
  | MinuteErr field_error
  | HourErr field_error
  | DomErr field_error
  | MonthErr field_error
  | DowErr field_error

section \<open>The field parser\<close>

definition parse_range :: "string \<Rightarrow> int \<Rightarrow> int \<Rightarrow> field_error + (int \<times> int)" where
  "parse_range s lo hi =
     (case split2 (CHR ''-'') s of
        (a, None) \<Rightarrow> Inl (BadRange s)
      | (a, Some b) \<Rightarrow>
        (case atoi a of
           None \<Rightarrow> Inl (BadRangeStart a)
         | Some start \<Rightarrow>
           (case atoi b of
              None \<Rightarrow> Inl (BadRangeEnd b)
            | Some stop \<Rightarrow>
              if start < lo \<or> hi < stop then Inl (RangeOutOfBounds start stop lo hi)
              else if stop < start then Inl (RangeReversed start stop)
              else Inr (start, stop))))"

text \<open>\<open>for v := start; v <= end; v += step\<close> on 64-bit integers.\<close>

partial_function (option) step_vals :: "int \<Rightarrow> int \<Rightarrow> int \<Rightarrow> int list option" where
  "step_vals v stop step =
     (if v \<le> stop
      then Option.bind (step_vals (wrap64 (v + step)) stop step) (\<lambda>vs. Some (v # vs))
      else Some [])"

declare step_vals.simps [code]

definition step_result :: "int \<Rightarrow> int \<Rightarrow> int \<Rightarrow> field_error + int list" where
  "step_result start stop step =
     (case step_vals start stop step of None \<Rightarrow> Inl StepLoopRuns | Some vs \<Rightarrow> Inr vs)"

text \<open>The branches of \<open>parseField\<close> for a field, or a part of a list, without a comma.\<close>

definition parse_part :: "string \<Rightarrow> int \<Rightarrow> int \<Rightarrow> field_error + int list" where
  "parse_part f lo hi =
     (case split2 (CHR ''/'') f of
        (base, Some st) \<Rightarrow>
          (case atoi st of
             None \<Rightarrow> Inl (BadStep st)
           | Some step \<Rightarrow>
             if step \<le> 0 then Inl (BadStep st)
             else if base = ''*'' then step_result lo hi step
             else (case parse_range base lo hi of
                     Inl e \<Rightarrow> Inl e
                   | Inr (start, stop) \<Rightarrow> step_result start stop step))
      | (_, None) \<Rightarrow>
          if f = ''*'' then Inr [lo..hi]
          else if CHR ''-'' \<in> set f then
            (case parse_range f lo hi of Inl e \<Rightarrow> Inl e | Inr (start, stop) \<Rightarrow> Inr [start..stop])
          else
            (case atoi f of
               None \<Rightarrow> Inl (BadValue f)
             | Some v \<Rightarrow> if v < lo \<or> hi < v then Inl (ValueOutOfRange v lo hi) else Inr [v]))"

fun parse_parts :: "string list \<Rightarrow> int \<Rightarrow> int \<Rightarrow> int list \<Rightarrow> field_error + int list" where
  "parse_parts [] lo hi acc = Inr (sort (remdups acc))"
| "parse_parts (p # ps) lo hi acc =
     (case parse_part p lo hi of
        Inl e \<Rightarrow> Inl e
      | Inr vs \<Rightarrow> parse_parts ps lo hi (acc @ vs))"

definition parse_field :: "string \<Rightarrow> int \<Rightarrow> int \<Rightarrow> field_error + int list" where
  "parse_field f lo hi =
     (if CHR '','' \<in> set f then parse_parts (split_on (CHR '','') f) lo hi []
      else parse_part f lo hi)"

definition is_wild :: "string \<Rightarrow> int \<Rightarrow> int \<Rightarrow> bool" where
  "is_wild f lo hi =
     (case parse_field f lo hi of Inl _ \<Rightarrow> False | Inr vs \<Rightarrow> int (length vs) = hi - lo + 1)"

definition parse_cron :: "string \<Rightarrow> cron_error + cron" where
  "parse_cron expr =
     (let e = trim_space expr in
      if e = [] then Inl EmptyExpr
      else case str_fields e of
        [f0, f1, f2, f3, f4] \<Rightarrow>
          (case parse_field f0 0 59 of Inl x \<Rightarrow> Inl (MinuteErr x) | Inr mi \<Rightarrow>
          (case parse_field f1 0 23 of Inl x \<Rightarrow> Inl (HourErr x) | Inr h \<Rightarrow>
          (case parse_field f2 1 31 of Inl x \<Rightarrow> Inl (DomErr x) | Inr d \<Rightarrow>
          (case parse_field f3 1 12 of Inl x \<Rightarrow> Inl (MonthErr x) | Inr mo \<Rightarrow>
          (case parse_field f4 0 6 of Inl x \<Rightarrow> Inl (DowErr x) | Inr w \<Rightarrow>
             Inr \<lparr>c_minute = mi, c_hour = h, c_dom = d, c_month = mo, c_dow = w,
                  dom_wild = is_wild f2 1 31, dow_wild = is_wild f4 0 6\<rparr>)))))
      | fs \<Rightarrow> Inl (FieldCount (length fs)))"

section \<open>Searching the sorted slices\<close>

function search :: "(nat \<Rightarrow> bool) \<Rightarrow> nat \<Rightarrow> nat \<Rightarrow> nat" where
  "search p i j =
     (if i < j then
        let h = (i + j) div 2 in if p h then search p i h else search p (h + 1) j
      else i)"
  by pat_completeness auto
termination by (relation "measure (\<lambda>(p, i, j). j - i)") (auto simp: Let_def)

declare search.simps [simp del]

definition search_ints :: "int list \<Rightarrow> int \<Rightarrow> nat" where
  "search_ints s v = search (\<lambda>i. v \<le> s ! i) 0 (length s)"

definition contains :: "int list \<Rightarrow> int \<Rightarrow> bool" where
  "contains s v = (let i = search_ints s v in i < length s \<and> s ! i = v)"

definition next_ge :: "int list \<Rightarrow> int \<Rightarrow> int" where
  "next_ge s v = (let i = search_ints s v in if i < length s then s ! i else -1)"

definition day_matches :: "cron \<Rightarrow> int \<Rightarrow> int \<Rightarrow> int \<Rightarrow> bool" where
  "day_matches c day year month =
     (let dom_match = contains (c_dom c) day;
          dow = weekday (date_days year month day);
          dow_match = contains (c_dow c) dow
      in if dom_wild c \<and> dow_wild c then True
         else if dom_wild c then dow_match
         else if dow_wild c then dom_match
         else dom_match \<or> dow_match)"

section \<open>The next firing time\<close>

definition next_in_hour ::
  "cron \<Rightarrow> location \<Rightarrow> instant \<Rightarrow> int \<Rightarrow> int \<Rightarrow> int \<Rightarrow> int \<Rightarrow> instant option" where
  "next_in_hour c loc cur y m d h =
     first_some (\<lambda>mi.
       if y = t_year loc cur \<and> m = t_month loc cur \<and> d = t_day loc cur
          \<and> h = t_hour loc cur \<and> mi < t_minute loc cur then None
       else let cand = time_date loc y m d h mi
            in if t_month loc cand \<noteq> m \<or> t_day loc cand \<noteq> d then None else Some cand)
     (c_minute c)"

definition next_in_day ::
  "cron \<Rightarrow> location \<Rightarrow> instant \<Rightarrow> int \<Rightarrow> int \<Rightarrow> int \<Rightarrow> instant option" where
  "next_in_day c loc cur y m d =
     first_some (\<lambda>h.
       if y = t_year loc cur \<and> m = t_month loc cur \<and> d = t_day loc cur \<and> h < t_hour loc cur
       then None
       else next_in_hour c loc cur y m d h)
     (c_hour c)"

definition next_in_month ::
  "cron \<Rightarrow> location \<Rightarrow> instant \<Rightarrow> int \<Rightarrow> int \<Rightarrow> instant option" where
  "next_in_month c loc cur y m =
     first_some (\<lambda>d.
       if y = t_year loc cur \<and> m = t_month loc cur \<and> d < t_day loc cur then None
       else if \<not> day_matches c d y m then None
       else next_in_day c loc cur y m d)
     [1..max_days y m]"

definition next_in_year :: "cron \<Rightarrow> location \<Rightarrow> instant \<Rightarrow> int \<Rightarrow> instant option" where
  "next_in_year c loc cur y =
     first_some (\<lambda>m.
       if y = t_year loc cur \<and> m < t_month loc cur then None
       else next_in_month c loc cur y m)
     (c_month c)"

definition next_search :: "cron \<Rightarrow> location \<Rightarrow> instant \<Rightarrow> instant option" where
  "next_search c loc t =
     (let cur = trunc_minute t + minute_ns; year = t_year loc cur
      in first_some (next_in_year c loc cur) [year..year + 4])"

definition next_after :: "cron \<Rightarrow> location \<Rightarrow> instant \<Rightarrow> instant" where
  "next_after c loc t = (case next_search c loc t of None \<Rightarrow> zero_time | Some u \<Rightarrow> u)"

section \<open>The parser returns sorted lists within the bounds\<close>

definition field_ok :: "int \<Rightarrow> int \<Rightarrow> int list \<Rightarrow> bool" where
  "field_ok lo hi vs \<longleftrightarrow> vs \<noteq> [] \<and> sorted_wrt (<) vs \<and> set vs \<subseteq> {lo..hi}"

text \<open>No step of the field is so large that adding it to a value of the field overflows.\<close>

definition small_step :: "int \<Rightarrow> string \<Rightarrow> bool" where
  "small_step hi f =
     (case split2 (CHR ''/'') f of
        (_, None) \<Rightarrow> True
      | (_, Some st) \<Rightarrow> (case atoi st of None \<Rightarrow> True | Some n \<Rightarrow> n \<le> int_max - hi))"

definition small_steps :: "int \<Rightarrow> string \<Rightarrow> bool" where
  "small_steps hi f = list_all (small_step hi) (split_on (CHR '','') f)"

lemma step_vals_stop [simp]: "stop < v \<Longrightarrow> step_vals v stop step = Some []"
  by (subst step_vals.simps) simp

lemma step_vals_go:
  "v \<le> stop \<Longrightarrow> step_vals v stop step =
     map_option (Cons v) (step_vals (wrap64 (v + step)) stop step)"
  by (subst step_vals.simps) (auto simp: map_conv_bind_option comp_def)

text \<open>Without overflow the loop yields the arithmetic progression.\<close>

lemma step_vals_progression:
  assumes "0 < step" "step \<le> int_max - stop" "0 \<le> v"
  shows "\<exists>vs. step_vals v stop step = Some vs \<and> sorted_wrt (<) vs \<and>
    set vs = {x. v \<le> x \<and> x \<le> stop \<and> step dvd (x - v)}"
  using assms(3)
proof (induction "nat (stop + 1 - v)" arbitrary: v rule: less_induct)
  case less
  show ?case
  proof (cases "v \<le> stop")
    case False
    then show ?thesis by auto
  next
    case True
    have w: "wrap64 (v + step) = v + step"
      using True assms less.prems by (intro wrap64_id) (auto simp: int_min_def)
    obtain vs where vs: "step_vals (v + step) stop step = Some vs" "sorted_wrt (<) vs"
      "set vs = {x. v + step \<le> x \<and> x \<le> stop \<and> step dvd (x - (v + step))}"
      using less.hyps [of "v + step"] True assms(1) less.prems by auto
    have dv: "step dvd (x - (v + step)) \<longleftrightarrow> step dvd (x - v)" for x
      by (metis diff_diff_add dvd_diff_commute dvd_minus_iff dvd_refl dvd_diff dvd_add diff_add_cancel)
    have jump: "x = v \<or> v + step \<le> x" if "v \<le> x" "step dvd (x - v)" for x
      using zdvd_imp_le [OF that(2)] that(1) by force
    have "step_vals v stop step = Some (v # vs)"
      using step_vals_go [OF True] w vs(1) by simp
    moreover have "sorted_wrt (<) (v # vs)" using vs(2,3) assms(1) by auto
    moreover have "set (v # vs) = {x. v \<le> x \<and> x \<le> stop \<and> step dvd (x - v)}"
      using vs(3) jump dv True assms(1) by auto
    ultimately show ?thesis by blast
  qed
qed

text \<open>
  With overflow the loop still stops: a sum that wraps lands \<open>2 ^ 64 - step\<close> below the
  previous value, so two turns move the value down by \<open>2 * (2 ^ 63 - step)\<close> until a sum
  neither wraps nor stays below the end.
\<close>

lemma step_vals_negative:
  assumes "int_max - stop < step" "step \<le> int_max" "stop < 2 ^ 32" "0 \<le> stop"
    and "v < 0" "- (2 ^ 33) \<le> v"
  shows "step_vals v stop step = (if v + step \<le> stop
     then map_option (Cons v) (step_vals (v + step) stop step) else Some [v])"
proof -
  have "wrap64 (v + step) = v + step"
    using assms by (intro wrap64_id) (auto simp: int_min_def int_max_def)
  then show ?thesis using step_vals_go [of v stop step] assms(4,5) by simp
qed

lemma step_vals_overflow:
  assumes "int_max - stop < step" "step \<le> int_max" "stop < 2 ^ 32" "0 \<le> v"
  shows "step_vals v stop step \<noteq> None"
  using assms(4)
proof (induction "nat v" arbitrary: v rule: less_induct)
  case less
  define d where "d = 2 ^ 63 - step"
  have d: "1 \<le> d" "d \<le> stop" using assms by (auto simp: d_def int_max_def)
  have step: "step = 2 ^ 63 - d" by (simp add: d_def)
  show ?case
  proof (cases "v \<le> stop")
    case False
    then show ?thesis by simp
  next
    case le: True
    show ?thesis
    proof (cases "v < d")
      case True
      then have "wrap64 (v + step) = v + step"
        using less.prems d step assms(3) by (intro wrap64_id) (auto simp: int_min_def int_max_def)
      moreover have "stop < v + step" using less.prems assms(3) d step by simp
      ultimately show ?thesis using step_vals_go [OF le] by simp
    next
      case False
      define w where "w = v - d - 2 ^ 63"
      have "wrap64 (v + step) = v + step - 2 ^ 64"
        using False d le assms(3) step by (intro wrap64_over) (auto simp: int_max_def)
      then have w1: "step_vals v stop step = map_option (Cons v) (step_vals w stop step)"
        using step_vals_go [OF le] by (simp add: w_def step)
      have wle: "w \<le> stop" using le d assms(3) by (simp add: w_def)
      have "w + step = v - 2 * d" by (simp add: w_def step)
      moreover have "wrap64 (v - 2 * d) = v - 2 * d"
        using less.prems le d assms(3) by (intro wrap64_id) (auto simp: int_min_def int_max_def)
      ultimately have w2:
        "step_vals w stop step = map_option (Cons w) (step_vals (v - 2 * d) stop step)"
        using step_vals_go [OF wle] by simp
      have "step_vals (v - 2 * d) stop step \<noteq> None"
      proof (cases "0 \<le> v - 2 * d")
        case True
        with less.hyps [of "v - 2 * d"] d show ?thesis by simp
      next
        case neg: False
        have "stop < v - 2 * d + step" using less.prems d assms(3) step by simp
        with neg step_vals_negative [of stop step "v - 2 * d"] assms less.prems d
        show ?thesis by simp
      qed
      with w1 w2 show ?thesis by simp
    qed
  qed
qed

lemma step_vals_returns:
  assumes "0 < step" "step \<le> int_max" "0 \<le> v" "stop < 2 ^ 32"
  shows "step_vals v stop step \<noteq> None"
proof (cases "step \<le> int_max - stop")
  case True
  then show ?thesis using step_vals_progression [OF assms(1) _ assms(3)] by auto
next
  case False
  with step_vals_overflow [of stop step v] assms show ?thesis by simp
qed

lemma parse_range_bounds:
  "parse_range s lo hi = Inr (a, b) \<Longrightarrow> lo \<le> a \<and> a \<le> b \<and> b \<le> hi"
  by (auto simp: parse_range_def split: prod.splits option.splits if_splits)

lemma parse_range_returns: "parse_range s lo hi \<noteq> Inl StepLoopRuns"
  by (auto simp: parse_range_def split: prod.splits option.splits)

lemma step_result_returns:
  "0 < step \<Longrightarrow> step \<le> int_max \<Longrightarrow> 0 \<le> v \<Longrightarrow> stop < 2 ^ 32 \<Longrightarrow>
   step_result v stop step \<noteq> Inl StepLoopRuns"
  using step_vals_returns [of step v stop] by (auto simp: step_result_def split: option.splits)

lemma parse_part_returns:
  assumes "0 \<le> lo" "hi < 2 ^ 32"
  shows "parse_part f lo hi \<noteq> Inl StepLoopRuns"
proof -
  have run: "step_result a b step \<noteq> Inl StepLoopRuns"
    if "atoi st = Some step" "\<not> step \<le> 0" "lo \<le> a" "b \<le> hi" for st step a b
    using that assms atoi_range [of st step] by (intro step_result_returns) auto
  show ?thesis
    using parse_range_returns [of _ lo hi] run
    by (auto simp: parse_part_def split: prod.splits option.splits sum.splits if_splits
        dest: parse_range_bounds)
qed

lemma parse_parts_returns:
  assumes "0 \<le> lo" "hi < 2 ^ 32"
  shows "parse_parts ps lo hi acc \<noteq> Inl StepLoopRuns"
  using parse_part_returns [OF assms]
  by (induction ps arbitrary: acc) (auto split: sum.splits)

lemma parse_field_loop_free:
  "0 \<le> lo \<Longrightarrow> hi < 2 ^ 32 \<Longrightarrow> parse_field f lo hi \<noteq> Inl StepLoopRuns"
  by (simp add: parse_field_def parse_part_returns parse_parts_returns)

text \<open>Values of a field whose steps do not overflow.\<close>

lemma sorted_wrt_upto: "sorted_wrt (<) [a..b::int]"
  by (simp add: strict_sorted_iff [symmetric])

lemma step_result_ok:
  assumes "step_result start stop step = Inr vs" "0 < step" "step \<le> int_max - stop"
    and "0 \<le> start" "start \<le> stop"
  shows "vs \<noteq> [] \<and> sorted_wrt (<) vs \<and> set vs = {x. start \<le> x \<and> x \<le> stop \<and> step dvd (x - start)}"
proof -
  obtain ws where ws: "step_vals start stop step = Some ws" "sorted_wrt (<) ws"
    "set ws = {x. start \<le> x \<and> x \<le> stop \<and> step dvd (x - start)}"
    using step_vals_progression [OF assms(2-4)] by blast
  moreover have "start \<in> set ws" using ws(3) assms(5) by simp
  ultimately show ?thesis using assms(1) by (auto simp: step_result_def)
qed

lemma parse_part_ok:
  assumes "parse_part f lo hi = Inr vs" "small_step hi f" "0 \<le> lo" "lo \<le> hi"
  shows "field_ok lo hi vs"
proof -
  obtain base o' where sp: "split2 (CHR ''/'') f = (base, o')" by fastforce
  show ?thesis
  proof (cases o')
    case None
    with assms(1,4) sp show ?thesis
      by (auto simp: parse_part_def field_ok_def sorted_wrt_upto
          split: if_splits option.splits sum.splits dest!: parse_range_bounds)
  next
    case (Some st)
    with assms(1) sp obtain step where step: "atoi st = Some step" "0 < step"
      by (auto simp: parse_part_def split: option.splits if_splits)
    with assms(2) sp Some have small: "step \<le> int_max - hi" by (simp add: small_step_def)
    obtain a b where ab: "lo \<le> a" "a \<le> b" "b \<le> hi" "step_result a b step = Inr vs"
      using assms(1,4) sp Some step
      by (auto simp: parse_part_def split: if_splits sum.splits dest!: parse_range_bounds)
    with step_result_ok [OF ab(4) step(2)] small assms(3) show ?thesis
      by (auto simp: field_ok_def)
  qed
qed

lemma parse_parts_ok:
  assumes "parse_parts ps lo hi acc = Inr vs" "list_all (small_step hi) ps" "0 \<le> lo" "lo \<le> hi"
    and "set acc \<subseteq> {lo..hi}" "acc \<noteq> [] \<or> ps \<noteq> []"
  shows "field_ok lo hi vs"
  using assms(1,2,5,6)
proof (induction ps arbitrary: acc)
  case Nil
  then have vs: "vs = sort (remdups acc)" "acc \<noteq> []" by auto
  then have "set vs = set acc" by simp
  with vs(2) have "vs \<noteq> []" by fastforce
  with vs(1) Nil.prems(3) show ?case by (auto simp: field_ok_def strict_sorted_iff)
next
  case (Cons p ps)
  from Cons.prems(1) obtain ws where ws: "parse_part p lo hi = Inr ws"
    "parse_parts ps lo hi (acc @ ws) = Inr vs"
    by (auto split: sum.splits)
  have "field_ok lo hi ws"
    using parse_part_ok [OF ws(1)] Cons.prems(2) assms(3,4) by simp
  then show ?case
    using Cons.prems(2,3) by (intro Cons.IH [OF ws(2)]) (auto simp: field_ok_def)
qed

lemma split_on_absent: "sep \<notin> set s \<Longrightarrow> split_on sep s = [s]"
  by (induction s) auto

lemma parse_field_ok:
  assumes "parse_field f lo hi = Inr vs" "small_steps hi f" "0 \<le> lo" "lo \<le> hi"
  shows "field_ok lo hi vs"
proof (cases "CHR '','' \<in> set f")
  case True
  with assms show ?thesis
    by (intro parse_parts_ok [of "split_on (CHR '','') f" lo hi "[]"])
      (auto simp: parse_field_def small_steps_def)
next
  case False
  then have "small_step hi f" using assms(2) by (simp add: small_steps_def split_on_absent)
  with False assms show ?thesis by (auto simp: parse_field_def intro: parse_part_ok)
qed

section \<open>Binary search\<close>

lemma search_spec:
  assumes mono: "\<And>a b. a \<le> b \<Longrightarrow> b < n \<Longrightarrow> p a \<Longrightarrow> p b"
    and "i \<le> j" "j \<le> n" "\<forall>k < i. \<not> p k" "\<forall>k. j \<le> k \<and> k < n \<longrightarrow> p k"
  shows "search p i j \<le> n \<and> (\<forall>k < search p i j. \<not> p k) \<and>
    (\<forall>k. search p i j \<le> k \<and> k < n \<longrightarrow> p k)"
  using assms(2-5)
proof (induction "j - i" arbitrary: i j rule: less_induct)
  case less
  show ?case
  proof (cases "i < j")
    case False
    with less.prems show ?thesis by (subst (1 2 3) search.simps) auto
  next
    case True
    define h where "h = (i + j) div 2"
    have h: "i \<le> h" "h < j" using True by (auto simp: h_def)
    have unf: "search p i j = (if p h then search p i h else search p (h + 1) j)"
      using True by (subst search.simps) (simp add: h_def Let_def)
    show ?thesis
    proof (cases "p h")
      case True
      have "\<forall>k. h \<le> k \<and> k < n \<longrightarrow> p k" using True mono by blast
      then have "search p i h \<le> n \<and> (\<forall>k < search p i h. \<not> p k) \<and>
          (\<forall>k. search p i h \<le> k \<and> k < n \<longrightarrow> p k)"
        using h less.prems by (intro less.hyps) auto
      with True unf show ?thesis by simp
    next
      case False
      have "\<not> p k" if "k < h + 1" for k
        using mono [of k h] False that h(2) less.prems(2) by auto
      then have "search p (h + 1) j \<le> n \<and> (\<forall>k < search p (h + 1) j. \<not> p k) \<and>
          (\<forall>k. search p (h + 1) j \<le> k \<and> k < n \<longrightarrow> p k)"
        using h less.prems by (intro less.hyps) auto
      with False unf show ?thesis by simp
    qed
  qed
qed

lemma search_ints_spec:
  assumes "sorted_wrt (<) s"
  shows "search_ints s v \<le> length s \<and> (\<forall>k < search_ints s v. s ! k < v) \<and>
    (\<forall>k. search_ints s v \<le> k \<and> k < length s \<longrightarrow> v \<le> s ! k)"
proof -
  have mono: "v \<le> s ! b" if "a \<le> b" "b < length s" "v \<le> s ! a" for a b
    using that sorted_wrt_nth_less [OF assms, of a b] by (cases "a = b") auto
  show ?thesis
    unfolding search_ints_def
    using search_spec [of "length s" "\<lambda>i. v \<le> s ! i" 0 "length s", OF mono]
    by (auto simp: not_le)
qed

lemma contains_iff:
  assumes "sorted_wrt (<) s"
  shows "contains s v \<longleftrightarrow> v \<in> set s"
proof
  assume "contains s v"
  then show "v \<in> set s" by (auto simp: contains_def Let_def in_set_conv_nth)
next
  assume "v \<in> set s"
  then obtain k where k: "k < length s" "s ! k = v" by (auto simp: in_set_conv_nth)
  note sp = search_ints_spec [OF assms, of v]
  have "search_ints s v \<le> k" using sp k by (meson less_irrefl not_less)
  moreover have "\<not> search_ints s v < k"
    using sorted_wrt_nth_less [OF assms, of "search_ints s v" k] sp k by fastforce
  ultimately show "contains s v" using k by (simp add: contains_def Let_def)
qed


section \<open>What an expression promises\<close>

definition wf_cron :: "cron \<Rightarrow> bool" where
  "wf_cron c \<longleftrightarrow>
     field_ok 0 59 (c_minute c) \<and> field_ok 0 23 (c_hour c) \<and> field_ok 1 31 (c_dom c)
     \<and> field_ok 1 12 (c_month c) \<and> field_ok 0 6 (c_dow c)
     \<and> (dom_wild c \<longrightarrow> set (c_dom c) = {1..31}) \<and> (dow_wild c \<longrightarrow> set (c_dow c) = {0..6})"

text \<open>The minutes at which an expression fires, by the rules of cron.\<close>

definition fires :: "cron \<Rightarrow> location \<Rightarrow> instant \<Rightarrow> bool" where
  "fires c loc u \<longleftrightarrow>
     u mod minute_ns = 0 \<and> t_minute loc u \<in> set (c_minute c) \<and> t_hour loc u \<in> set (c_hour c)
     \<and> t_month loc u \<in> set (c_month c)
     \<and> (let dom = t_day loc u \<in> set (c_dom c); dow = weekday (t_days loc u) \<in> set (c_dow c)
        in if dom_wild c \<or> dow_wild c then dom \<and> dow else dom \<or> dow)"

definition small_fields :: "string \<Rightarrow> bool" where
  "small_fields expr =
     list_all (\<lambda>(hi, f). small_steps hi f) (zip [59, 23, 31, 12, 6] (str_fields (trim_space expr)))"

lemma field_ok_full:
  assumes "field_ok lo hi vs" "int (length vs) = hi - lo + 1"
  shows "set vs = {lo..hi}"
proof (rule card_subset_eq)
  have "distinct vs" using assms(1) by (simp add: field_ok_def strict_sorted_iff)
  then show "card (set vs) = card {lo..hi}" using assms(2) by (simp add: distinct_card)
qed (use assms(1) in \<open>auto simp: field_ok_def\<close>)

lemma is_wild_full:
  "is_wild f lo hi \<Longrightarrow> parse_field f lo hi = Inr vs \<Longrightarrow> field_ok lo hi vs \<Longrightarrow> set vs = {lo..hi}"
  by (intro field_ok_full) (simp_all add: is_wild_def)

lemma parse_cron_fields:
  assumes "parse_cron expr = Inr c"
  obtains f0 f1 f2 f3 f4 where
    "str_fields (trim_space expr) = [f0, f1, f2, f3, f4]"
    "parse_field f0 0 59 = Inr (c_minute c)" "parse_field f1 0 23 = Inr (c_hour c)"
    "parse_field f2 1 31 = Inr (c_dom c)" "parse_field f3 1 12 = Inr (c_month c)"
    "parse_field f4 0 6 = Inr (c_dow c)"
    "dom_wild c = is_wild f2 1 31" "dow_wild c = is_wild f4 0 6"
  using assms
  by (auto simp: parse_cron_def Let_def split: if_splits list.splits sum.splits)

lemma parse_cron_wf:
  assumes "parse_cron expr = Inr c" "small_fields expr"
  shows "wf_cron c"
  using assms(1)
proof (rule parse_cron_fields)
  fix f0 f1 f2 f3 f4
  assume fs: "str_fields (trim_space expr) = [f0, f1, f2, f3, f4]"
    and p: "parse_field f0 0 59 = Inr (c_minute c)" "parse_field f1 0 23 = Inr (c_hour c)"
      "parse_field f2 1 31 = Inr (c_dom c)" "parse_field f3 1 12 = Inr (c_month c)"
      "parse_field f4 0 6 = Inr (c_dow c)"
    and w: "dom_wild c = is_wild f2 1 31" "dow_wild c = is_wild f4 0 6"
  have ss: "small_steps 59 f0" "small_steps 23 f1" "small_steps 31 f2" "small_steps 12 f3"
      "small_steps 6 f4"
    using assms(2) fs by (simp_all add: small_fields_def)
  have ok: "field_ok 0 59 (c_minute c)" "field_ok 0 23 (c_hour c)" "field_ok 1 31 (c_dom c)"
      "field_ok 1 12 (c_month c)" "field_ok 0 6 (c_dow c)"
    using parse_field_ok [OF p(1) ss(1)] parse_field_ok [OF p(2) ss(2)]
      parse_field_ok [OF p(3) ss(3)] parse_field_ok [OF p(4) ss(4)] parse_field_ok [OF p(5) ss(5)]
    by auto
  with is_wild_full [OF _ p(3) ok(3)] is_wild_full [OF _ p(5) ok(5)] w show "wf_cron c"
    by (simp add: wf_cron_def)
qed

lemma parse_cron_sorted:
  assumes "wf_cron c"
  shows "sorted_wrt (<) (c_minute c)" "sorted_wrt (<) (c_hour c)" "sorted_wrt (<) (c_dom c)"
    "sorted_wrt (<) (c_month c)" "sorted_wrt (<) (c_dow c)"
  using assms by (simp_all add: wf_cron_def field_ok_def)

section \<open>The search finds the least firing minute\<close>

text \<open>
  An instant has the fields year, month, day, hour, minute. \<open>from_year\<close> to \<open>from_hour\<close> say
  that a prefix of fields is not before that of \<open>cur\<close>: what the skips of the loops leave.
\<close>

definition from_month :: "location \<Rightarrow> instant \<Rightarrow> int \<Rightarrow> int \<Rightarrow> bool" where
  "from_month loc cur y m \<longleftrightarrow> t_year loc cur < y \<or> y = t_year loc cur \<and> t_month loc cur \<le> m"

definition from_day :: "location \<Rightarrow> instant \<Rightarrow> int \<Rightarrow> int \<Rightarrow> int \<Rightarrow> bool" where
  "from_day loc cur y m d \<longleftrightarrow> from_month loc cur y m \<and>
     (y = t_year loc cur \<and> m = t_month loc cur \<longrightarrow> t_day loc cur \<le> d)"

definition from_hour :: "location \<Rightarrow> instant \<Rightarrow> int \<Rightarrow> int \<Rightarrow> int \<Rightarrow> int \<Rightarrow> bool" where
  "from_hour loc cur y m d h \<longleftrightarrow> from_day loc cur y m d \<and>
     (y = t_year loc cur \<and> m = t_month loc cur \<and> d = t_day loc cur \<longrightarrow> t_hour loc cur \<le> h)"

definition in_year :: "location \<Rightarrow> int \<Rightarrow> instant set" where
  "in_year loc y = {u. t_year loc u = y}"

definition in_month :: "location \<Rightarrow> int \<Rightarrow> int \<Rightarrow> instant set" where
  "in_month loc y m = {u \<in> in_year loc y. t_month loc u = m}"

definition in_day :: "location \<Rightarrow> int \<Rightarrow> int \<Rightarrow> int \<Rightarrow> instant set" where
  "in_day loc y m d = {u \<in> in_month loc y m. t_day loc u = d}"

definition in_hour :: "location \<Rightarrow> int \<Rightarrow> int \<Rightarrow> int \<Rightarrow> int \<Rightarrow> instant set" where
  "in_hour loc y m d h = {u \<in> in_day loc y m d. t_hour loc u = h}"

definition in_minute :: "location \<Rightarrow> int \<Rightarrow> int \<Rightarrow> int \<Rightarrow> int \<Rightarrow> int \<Rightarrow> instant set" where
  "in_minute loc y m d h mi = {u \<in> in_hour loc y m d h. t_minute loc u = mi}"

lemmas in_defs = in_year_def in_month_def in_day_def in_hour_def in_minute_def

definition candidates :: "cron \<Rightarrow> location \<Rightarrow> instant \<Rightarrow> instant set" where
  "candidates c loc cur = {u. cur \<le> u \<and> fires c loc u}"

lemma day_matches_iff:
  assumes "wf_cron c" "valid_date y m d"
  shows "day_matches c d y m \<longleftrightarrow>
    (let dom = d \<in> set (c_dom c); dow = weekday (date_days y m d) \<in> set (c_dow c)
     in if dom_wild c \<or> dow_wild c then dom \<and> dow else dom \<or> dow)"
proof -
  have "days_in_month y m \<le> 31" by (simp add: days_in_month_def)
  then have "d \<in> {1..31}" using assms(2) by (auto simp: valid_date_def)
  moreover have "weekday (date_days y m d) \<in> {0..6}" by (simp add: weekday_def)
  ultimately show ?thesis
    using assms(1) parse_cron_sorted [OF assms(1)]
    by (auto simp: day_matches_def Let_def contains_iff wf_cron_def)
qed

lemma fires_iff:
  assumes "wf_cron c"
  shows "fires c loc u \<longleftrightarrow>
    u mod minute_ns = 0 \<and> t_minute loc u \<in> set (c_minute c) \<and> t_hour loc u \<in> set (c_hour c)
    \<and> t_month loc u \<in> set (c_month c) \<and> day_matches c (t_day loc u) (t_year loc u) (t_month loc u)"
  using day_matches_iff [OF assms t_valid [of loc u]] by (simp add: fires_def Let_def t_days_eq)

lemma minute_of_hour:
  assumes wf: "wf_cron c" and fz: "fixed_zone loc off" and cur: "cur mod minute_ns = 0"
    and d: "valid_date y m d" "m \<in> set (c_month c)" "day_matches c d y m"
    and h: "h \<in> set (c_hour c)" and mi: "mi \<in> set (c_minute c)"
    and pre: "from_hour loc cur y m d h"
  shows "least_in (candidates c loc cur \<inter> in_minute loc y m d h mi)
    (if y = t_year loc cur \<and> m = t_month loc cur \<and> d = t_day loc cur
        \<and> h = t_hour loc cur \<and> mi < t_minute loc cur then None
     else let cand = time_date loc y m d h mi
          in if t_month loc cand \<noteq> m \<or> t_day loc cand \<noteq> d then None else Some cand)"
proof -
  define cand where "cand = time_date loc y m d h mi"
  have rng: "0 \<le> h" "h < 24" "0 \<le> mi" "mi < 60"
    using wf h mi by (auto simp: wf_cron_def field_ok_def)
  note f = fields_of_time_date [OF fz d(1) rng, folded cand_def]
  show ?thesis
  proof (cases "y = t_year loc cur \<and> m = t_month loc cur \<and> d = t_day loc cur
      \<and> h = t_hour loc cur \<and> mi < t_minute loc cur")
    case True
    have "u < cur" if "u \<in> in_minute loc y m d h mi" for u
      using t_minute_less [OF fz t_days_cong, of u cur] True that by (auto simp: in_defs)
    then show ?thesis using True by (fastforce simp: candidates_def)
  next
    case False
    have "cur \<le> cand"
    proof -
      consider "t_year loc cur < y" | "y = t_year loc cur" "t_month loc cur < m"
        | "y = t_year loc cur" "m = t_month loc cur" "t_day loc cur < d"
        | "y = t_year loc cur" "m = t_month loc cur" "d = t_day loc cur" "t_hour loc cur < h"
        | "y = t_year loc cur" "m = t_month loc cur" "d = t_day loc cur" "h = t_hour loc cur"
          "t_minute loc cur \<le> mi"
        using pre False by (fastforce simp: from_hour_def from_day_def from_month_def)
      then show ?thesis
      proof cases
        case 1 then show ?thesis using t_year_less [OF fz, of cur cand] f by simp
      next
        case 2 then show ?thesis using t_month_less [OF fz, of cur cand] f by simp
      next
        case 3 then show ?thesis using t_day_less [OF fz, of cur cand] f by simp
      next
        case 4 then show ?thesis
          using t_hour_less [OF fz t_days_cong, of cur cand] f by simp
      next
        case 5
        show ?thesis
        proof (cases "t_minute loc cur = mi")
          case True
          then show ?thesis using time_date_of_fields [OF fz cur] 5 by (simp add: cand_def)
        next
          case False
          then show ?thesis using t_minute_less [OF fz t_days_cong, of cur cand] f 5 by simp
        qed
      qed
    qed
    then have "cand \<in> candidates c loc cur"
      using f d h mi by (simp add: candidates_def fires_iff [OF wf])
    moreover have "u = cand" if "u \<in> candidates c loc cur \<inter> in_minute loc y m d h mi" for u
    proof -
      have "u mod minute_ns = 0" using that by (simp add: candidates_def fires_def)
      from time_date_of_fields [OF fz this] that show ?thesis by (simp add: in_defs cand_def)
    qed
    moreover have "cand \<in> in_minute loc y m d h mi" using f by (simp add: in_defs)
    ultimately have "least_in (candidates c loc cur \<inter> in_minute loc y m d h mi) (Some cand)"
      unfolding least_in_Some by (metis order_refl IntI)
    with f False show ?thesis unfolding cand_def [symmetric] Let_def by (simp only: if_False) simp
  qed
qed

lemma sorted_regions:
  "(\<And>x z. x < z \<Longrightarrow> Q x z) \<Longrightarrow> sorted_wrt (<) (xs :: int list) \<Longrightarrow> sorted_wrt Q xs"
  by (rule sorted_wrt_mono_rel [of xs "(<)"]) auto

lemma next_in_hour_least:
  assumes "wf_cron c" "fixed_zone loc off" "cur mod minute_ns = 0"
    and "valid_date y m d" "m \<in> set (c_month c)" "day_matches c d y m"
    and "h \<in> set (c_hour c)" "from_hour loc cur y m d h"
  shows "least_in (candidates c loc cur \<inter> in_hour loc y m d h) (next_in_hour c loc cur y m d h)"
proof -
  have "least_in (candidates c loc cur \<inter> (\<Union>mi \<in> set (c_minute c). in_minute loc y m d h mi))
      (next_in_hour c loc cur y m d h)"
    unfolding next_in_hour_def
  proof (rule least_in_first_some)
    fix mi assume "mi \<in> set (c_minute c)"
    then show "least_in (candidates c loc cur \<inter> in_minute loc y m d h mi)
      (if y = t_year loc cur \<and> m = t_month loc cur \<and> d = t_day loc cur
          \<and> h = t_hour loc cur \<and> mi < t_minute loc cur then None
       else let cand = time_date loc y m d h mi
            in if t_month loc cand \<noteq> m \<or> t_day loc cand \<noteq> d then None else Some cand)"
      by (rule minute_of_hour [OF assms(1-7) _ assms(8)])
  next
    have lt: "\<forall>a \<in> in_minute loc y m d h x. \<forall>b \<in> in_minute loc y m d h z. a < b" if "x < z" for x z
      using that t_minute_less [OF assms(2) t_days_cong] by (auto simp: in_defs)
    show "sorted_wrt (\<lambda>x z. \<forall>a \<in> in_minute loc y m d h x. \<forall>b \<in> in_minute loc y m d h z. a < b)
        (c_minute c)"
      by (rule sorted_regions [OF lt parse_cron_sorted(1) [OF assms(1)]])
  qed
  moreover have "candidates c loc cur \<inter> in_hour loc y m d h =
      candidates c loc cur \<inter> (\<Union>mi \<in> set (c_minute c). in_minute loc y m d h mi)"
    by (auto simp: candidates_def fires_def in_defs)
  ultimately show ?thesis by (metis least_in_cong)
qed

lemma next_in_day_least:
  assumes "wf_cron c" "fixed_zone loc off" "cur mod minute_ns = 0"
    and "valid_date y m d" "m \<in> set (c_month c)" "day_matches c d y m"
    and "from_day loc cur y m d"
  shows "least_in (candidates c loc cur \<inter> in_day loc y m d) (next_in_day c loc cur y m d)"
proof -
  have "least_in (candidates c loc cur \<inter> (\<Union>h \<in> set (c_hour c). in_hour loc y m d h))
      (next_in_day c loc cur y m d)"
    unfolding next_in_day_def
  proof (rule least_in_first_some)
    fix h assume h: "h \<in> set (c_hour c)"
    show "least_in (candidates c loc cur \<inter> in_hour loc y m d h)
      (if y = t_year loc cur \<and> m = t_month loc cur \<and> d = t_day loc cur \<and> h < t_hour loc cur
       then None else next_in_hour c loc cur y m d h)"
    proof (cases "y = t_year loc cur \<and> m = t_month loc cur \<and> d = t_day loc cur \<and> h < t_hour loc cur")
      case True
      have "u < cur" if "u \<in> in_hour loc y m d h" for u
        using t_hour_less [OF assms(2) t_days_cong, of u cur] True that by (auto simp: in_defs)
      then show ?thesis using True by (fastforce simp: candidates_def)
    next
      case False
      with assms(7) have "from_hour loc cur y m d h" by (auto simp: from_hour_def)
      from next_in_hour_least [OF assms(1-6) h this] False show ?thesis by presburger
    qed
  next
    have lt: "\<forall>a \<in> in_hour loc y m d x. \<forall>b \<in> in_hour loc y m d z. a < b" if "x < z" for x z
      using that t_hour_less [OF assms(2) t_days_cong] by (auto simp: in_defs)
    show "sorted_wrt (\<lambda>x z. \<forall>a \<in> in_hour loc y m d x. \<forall>b \<in> in_hour loc y m d z. a < b)
        (c_hour c)"
      by (rule sorted_regions [OF lt parse_cron_sorted(2) [OF assms(1)]])
  qed
  moreover have "candidates c loc cur \<inter> in_day loc y m d =
      candidates c loc cur \<inter> (\<Union>h \<in> set (c_hour c). in_hour loc y m d h)"
    by (auto simp: candidates_def fires_def in_defs)
  ultimately show ?thesis by (metis least_in_cong)
qed

lemma next_in_month_least:
  assumes "wf_cron c" "fixed_zone loc off" "cur mod minute_ns = 0"
    and m: "m \<in> set (c_month c)" and "from_month loc cur y m"
  shows "least_in (candidates c loc cur \<inter> in_month loc y m) (next_in_month c loc cur y m)"
proof -
  have m': "1 \<le> m" "m \<le> 12" using assms(1) m by (auto simp: wf_cron_def field_ok_def)
  have "least_in (candidates c loc cur \<inter> (\<Union>d \<in> set [1..max_days y m]. in_day loc y m d))
      (next_in_month c loc cur y m)"
    unfolding next_in_month_def
  proof (rule least_in_first_some)
    fix d assume "d \<in> set [1..max_days y m]"
    then have d: "valid_date y m d" using m' by (simp add: valid_date_def max_days_eq)
    show "least_in (candidates c loc cur \<inter> in_day loc y m d)
      (if y = t_year loc cur \<and> m = t_month loc cur \<and> d < t_day loc cur then None
       else if \<not> day_matches c d y m then None else next_in_day c loc cur y m d)"
    proof (cases "y = t_year loc cur \<and> m = t_month loc cur \<and> d < t_day loc cur")
      case True
      have "u < cur" if "u \<in> in_day loc y m d" for u
        using t_day_less [OF assms(2), of u cur] True that by (auto simp: in_defs)
      then show ?thesis using True by (fastforce simp: candidates_def)
    next
      case False
      then have fd: "from_day loc cur y m d" using assms(5) by (auto simp: from_day_def)
      show ?thesis
      proof (cases "day_matches c d y m")
        case True
        from next_in_day_least [OF assms(1-3) d m True fd] True False show ?thesis by presburger
      next
        case nm: False
        then have "candidates c loc cur \<inter> in_day loc y m d = {}"
          by (auto simp: candidates_def fires_iff [OF assms(1)] in_defs)
        with nm show ?thesis by simp
      qed
    qed
  next
    have lt: "\<forall>a \<in> in_day loc y m x. \<forall>b \<in> in_day loc y m z. a < b" if "x < z" for x z
      using that t_day_less [OF assms(2)] by (auto simp: in_defs)
    show "sorted_wrt (\<lambda>x z. \<forall>a \<in> in_day loc y m x. \<forall>b \<in> in_day loc y m z. a < b)
        [1..max_days y m]"
      by (rule sorted_regions [OF lt sorted_wrt_upto])
  qed
  moreover have "u \<in> (\<Union>d \<in> set [1..max_days y m]. in_day loc y m d)" if "u \<in> in_month loc y m" for u
    using that t_valid [of loc u] m' by (auto simp: in_defs valid_date_def max_days_eq)
  then have "candidates c loc cur \<inter> in_month loc y m =
      candidates c loc cur \<inter> (\<Union>d \<in> set [1..max_days y m]. in_day loc y m d)"
    by (auto simp: in_day_def)
  ultimately show ?thesis by (metis least_in_cong)
qed

lemma next_in_year_least:
  assumes "wf_cron c" "fixed_zone loc off" "cur mod minute_ns = 0" "t_year loc cur \<le> y"
  shows "least_in (candidates c loc cur \<inter> in_year loc y) (next_in_year c loc cur y)"
proof -
  have "least_in (candidates c loc cur \<inter> (\<Union>m \<in> set (c_month c). in_month loc y m))
      (next_in_year c loc cur y)"
    unfolding next_in_year_def
  proof (rule least_in_first_some)
    fix m assume m: "m \<in> set (c_month c)"
    show "least_in (candidates c loc cur \<inter> in_month loc y m)
      (if y = t_year loc cur \<and> m < t_month loc cur then None else next_in_month c loc cur y m)"
    proof (cases "y = t_year loc cur \<and> m < t_month loc cur")
      case True
      have "u < cur" if "u \<in> in_month loc y m" for u
        using t_month_less [OF assms(2), of u cur] True that by (auto simp: in_defs)
      then show ?thesis using True by (fastforce simp: candidates_def)
    next
      case False
      with assms(4) have "from_month loc cur y m" by (auto simp: from_month_def)
      from next_in_month_least [OF assms(1-3) m this] False show ?thesis by presburger
    qed
  next
    have lt: "\<forall>a \<in> in_month loc y x. \<forall>b \<in> in_month loc y z. a < b" if "x < z" for x z
      using that t_month_less [OF assms(2)] by (auto simp: in_defs)
    show "sorted_wrt (\<lambda>x z. \<forall>a \<in> in_month loc y x. \<forall>b \<in> in_month loc y z. a < b) (c_month c)"
      by (rule sorted_regions [OF lt parse_cron_sorted(4) [OF assms(1)]])
  qed
  moreover have "candidates c loc cur \<inter> in_year loc y =
      candidates c loc cur \<inter> (\<Union>m \<in> set (c_month c). in_month loc y m)"
    by (auto simp: candidates_def fires_def in_defs)
  ultimately show ?thesis by (metis least_in_cong)
qed

lemma trunc_minute_aligned: "(trunc_minute t + minute_ns) mod minute_ns = 0"
proof -
  have "trunc_minute t = t div minute_ns * minute_ns"
    by (simp only: trunc_minute_def minus_mod_eq_div_mult)
  then show ?thesis by (metis mod_add_self2 mod_mult_self2_is_0)
qed

lemma next_search_least:
  assumes "wf_cron c" "fixed_zone loc off"
  shows "least_in {u. t < u \<and> fires c loc u \<and> t_year loc u \<le> t_year loc (trunc_minute t + minute_ns) + 4}
    (next_search c loc t)"
proof -
  define cur where "cur = trunc_minute t + minute_ns"
  have al: "cur mod minute_ns = 0" by (simp only: cur_def trunc_minute_aligned)
  define Y where "Y = t_year loc cur"
  have "least_in (candidates c loc cur \<inter> (\<Union>y \<in> set [Y..Y + 4]. in_year loc y)) (next_search c loc t)"
    unfolding next_search_def cur_def [symmetric] Let_def Y_def [symmetric]
  proof (rule least_in_first_some)
    fix y assume "y \<in> set [Y..Y + 4]"
    then show "least_in (candidates c loc cur \<inter> in_year loc y) (next_in_year c loc cur y)"
      by (intro next_in_year_least [OF assms al]) (simp add: Y_def)
  next
    have lt: "\<forall>a \<in> in_year loc x. \<forall>b \<in> in_year loc z. a < b" if "x < z" for x z
      using that t_year_less [OF assms(2)] by (auto simp: in_defs)
    show "sorted_wrt (\<lambda>x z. \<forall>a \<in> in_year loc x. \<forall>b \<in> in_year loc z. a < b) [Y..Y + 4]"
      by (rule sorted_regions [OF lt sorted_wrt_upto])
  qed
  moreover have "t_year loc cur \<le> t_year loc u" if "cur \<le> u" for u
    using t_year_less [OF assms(2), of u cur] that by linarith
  then have "candidates c loc cur \<inter> (\<Union>y \<in> set [Y..Y + 4]. in_year loc y) =
      {u. t < u \<and> fires c loc u \<and> t_year loc u \<le> Y + 4}"
    using next_minute_le_iff [of _ t, folded cur_def]
    by (auto simp: candidates_def fires_def in_defs Y_def)
  ultimately show ?thesis by (simp add: cur_def Y_def)
qed



text \<open>
  C2: the parser returns on every input: whatever the step of a field, its loop ends.
\<close>

theorem parse_cron_returns:
  "parse_cron expr \<noteq> Inl (MinuteErr StepLoopRuns) \<and> parse_cron expr \<noteq> Inl (HourErr StepLoopRuns)
   \<and> parse_cron expr \<noteq> Inl (DomErr StepLoopRuns) \<and> parse_cron expr \<noteq> Inl (MonthErr StepLoopRuns)
   \<and> parse_cron expr \<noteq> Inl (DowErr StepLoopRuns)"
proof -
  have "parse_field f 0 59 \<noteq> Inl StepLoopRuns" "parse_field f 0 23 \<noteq> Inl StepLoopRuns"
    "parse_field f 1 31 \<noteq> Inl StepLoopRuns" "parse_field f 1 12 \<noteq> Inl StepLoopRuns"
    "parse_field f 0 6 \<noteq> Inl StepLoopRuns" for f
    by (simp_all add: parse_field_loop_free)
  then show ?thesis
    by (auto simp: parse_cron_def Let_def split: if_splits list.splits sum.splits)
qed

text \<open>
  An accepted expression whose steps are below \<open>2 ^ 63 - 1\<close> minus the upper bound of
  their field yields five non-empty, strictly increasing lists within their bounds, and a
  day field flagged as a wildcard lists every day.
\<close>

theorem parse_cron_sound:
  assumes "parse_cron expr = Inr c" "small_fields expr"
  shows "sorted_wrt (<) (c_minute c) \<and> set (c_minute c) \<subseteq> {0..59} \<and> c_minute c \<noteq> []
    \<and> sorted_wrt (<) (c_hour c) \<and> set (c_hour c) \<subseteq> {0..23} \<and> c_hour c \<noteq> []
    \<and> sorted_wrt (<) (c_dom c) \<and> set (c_dom c) \<subseteq> {1..31} \<and> c_dom c \<noteq> []
    \<and> sorted_wrt (<) (c_month c) \<and> set (c_month c) \<subseteq> {1..12} \<and> c_month c \<noteq> []
    \<and> sorted_wrt (<) (c_dow c) \<and> set (c_dow c) \<subseteq> {0..6} \<and> c_dow c \<noteq> []
    \<and> (dom_wild c \<longrightarrow> set (c_dom c) = {1..31}) \<and> (dow_wild c \<longrightarrow> set (c_dow c) = {0..6})"
  using parse_cron_wf [OF assms] by (simp add: wf_cron_def field_ok_def)

theorem parse_cron_sound_witness:
  "\<exists>c. parse_cron ''0,30 8-18/2 1 * *'' = Inr c \<and> set (c_hour c) \<subseteq> {0..23} \<and> c_hour c \<noteq> []"
proof -
  have p: "parse_cron ''0,30 8-18/2 1 * *'' = Inr \<lparr>c_minute = [0, 30],
      c_hour = [8, 10, 12, 14, 16, 18], c_dom = [1], c_month = [1..12], c_dow = [0..6],
      dom_wild = False, dow_wild = True\<rparr>" by code_simp
  have "small_fields ''0,30 8-18/2 1 * *''" by code_simp
  from parse_cron_sound [OF p this] p show ?thesis by auto
qed

text \<open>A location with one transition: New York around the start of daylight time in 2024.\<close>

definition new_york_2024 :: location where
  "new_york_2024 s = (if s < 1710054000 then (-18000, int_min, 1710054000)
     else (-14400, 1710054000, int_max))"

text \<open>
  In a zone with a gap the result of \<open>Next\<close> need not be after its argument: for
  "30 2 * * *" at 01:45 before the gap of 2024-03-10 in New York it is 01:30 of that day.
\<close>

theorem next_after_gap:
  "\<exists>c. parse_cron ''30 2 * * *'' = Inr c \<and>
     (let t = time_date new_york_2024 2024 3 10 1 45; u = next_after c new_york_2024 t
      in u < t \<and> t_hour new_york_2024 u = 1 \<and> t_minute new_york_2024 u = 30
         \<and> t_day new_york_2024 u = 10)"
proof -
  have p: "parse_cron ''30 2 * * *'' = Inr \<lparr>c_minute = [30], c_hour = [2], c_dom = [1..31],
      c_month = [1..12], c_dow = [0..6], dom_wild = True, dow_wild = True\<rparr>" (is "_ = Inr ?c")
    by code_simp
  have "let t = time_date new_york_2024 2024 3 10 1 45; u = next_after ?c new_york_2024 t
      in u < t \<and> t_hour new_york_2024 u = 1 \<and> t_minute new_york_2024 u = 30
         \<and> t_day new_york_2024 u = 10"
    by code_simp
  with p show ?thesis by blast
qed

text \<open>
  A step close to \<open>2 ^ 63\<close> overflows: the field "*/9223372036854775807" of the day of
  month is accepted as the unsorted list 1, \<open>- 2 ^ 63\<close>, -1, in which day 1 is not found.
\<close>

theorem step_overflow_accepted:
  "parse_field ''*/9223372036854775807'' 1 31 = Inr [1, - (2 ^ 63), -1]
   \<and> \<not> contains [1, - (2 ^ 63), -1] 1"
proof
  show "parse_field ''*/9223372036854775807'' 1 31 = Inr [1, - (2 ^ 63), -1]" by code_simp
  show "\<not> contains [1, - (2 ^ 63), -1] 1" by code_simp
qed

text \<open>An expression for a date that no year has never fires.\<close>

lemma no_february_30:
  assumes "wf_cron c" "c_month c = [2]" "c_dom c = [30]" "dow_wild c"
  shows "\<not> fires c loc u"
proof
  assume "fires c loc u"
  then have "t_month loc u = 2" "t_day loc u = 30"
    using assms by (auto simp: fires_def Let_def)
  with t_valid [of loc u] show False by (simp add: valid_date_def days_in_month_def split: if_splits)
qed

end
