(* ===== verification/Entities.thy ===== *)
theory Entities
  imports Go_Time "HOL-Library.AList"
begin

text \<open>
  The records of \<open>internal/domain/entity\<close> and \<open>internal/domain/dto\<close>. Identifiers are strings
  and the empty string is the zero value ("none"); a nil-able time is an option; a Go map from
  strings to strings is an association list with distinct keys. A field name carries a prefix
  for its type because Isabelle's selectors share one name space.
\<close>

type_synonym string_map = "(string \<times> string) list"

record tenant =
  tn_id :: string
  tn_name :: string
  tn_instructions :: string
  tn_default_agent :: string
  tn_join_policy :: string
  tn_rejection :: string
  tn_group_mode :: string
  tn_allowed_skills :: "string list"
  tn_allowed_tools :: "string list"
  tn_deleted_at :: "instant option"
  tn_created_at :: instant

abbreviation "JoinPolicyOpen \<equiv> ''open''"
abbreviation "JoinPolicyInviteRequired \<equiv> ''invite_required''"
abbreviation "JoinPolicyClosed \<equiv> ''closed''"
abbreviation "GroupModeAll \<equiv> ''all''"
abbreviation "GroupModeMentionOnly \<equiv> ''mention_only''"

record user =
  us_id :: string
  us_tenant :: string
  us_name :: string
  us_preferred_channel :: string
  us_deleted_at :: "instant option"
  us_created_at :: instant

record user_identity =
  ui_tenant :: string
  ui_channel :: string
  ui_external :: string
  ui_user :: string

record tenant_mapping =
  tm_channel :: string
  tm_external :: string
  tm_tenant :: string

record agent =
  ag_id :: string
  ag_tenant :: string
  ag_name :: string
  ag_instructions :: string
  ag_created_at :: instant

record chat =
  ch_id :: string
  ch_tenant :: string
  ch_channel :: string
  ch_external :: string
  ch_user :: string
  ch_is_group :: bool
  ch_name :: string
  ch_agent :: string
  ch_delivery :: string_map
  ch_indication :: string_map
  ch_created_at :: instant

record invite_code =
  iv_code :: string
  iv_type :: string
  iv_tenant :: string
  iv_target :: string
  iv_used_by :: string
  iv_created_at :: instant
  iv_revoked_at :: "instant option"

record memory =
  mm_tenant :: string
  mm_owner_type :: string
  mm_owner_id :: string
  mm_content :: string
  mm_updated_at :: instant

record journal_entry =
  jr_id :: string
  jr_tenant :: string
  jr_user :: string
  jr_chat :: string
  jr_conv :: string
  jr_category :: string
  jr_content :: string
  jr_message :: string
  jr_created_at :: instant

record error_log_entry =
  el_id :: string
  el_tenant :: string
  el_user :: string
  el_ref_type :: string
  el_ref_id :: string
  el_content :: string
  el_created_at :: instant

record summary =
  sm_id :: string
  sm_tenant :: string
  sm_conv :: string
  sm_content :: string
  sm_message :: string
  sm_created_at :: instant

datatype secret_scope = ScopeTenant | ScopeUser

record secret =
  sc_id :: string
  sc_key :: string
  sc_value :: string
  sc_scope :: secret_scope
  sc_mode :: string
  sc_tenant :: string
  sc_user :: string
  sc_created_at :: instant
  sc_updated_at :: instant

abbreviation "SecretModeValue \<equiv> ''value''"
abbreviation "SecretModeFile \<equiv> ''file''"

record secret_token =
  tk_id :: string
  tk_keys :: "string list"
  tk_modes :: string_map
  tk_tenant :: string
  tk_user :: string
  tk_conv :: string
  tk_chat :: string
  tk_expires_at :: instant
  tk_used :: bool

section \<open>Messages\<close>

datatype message_kind = KindUnset | KindMessage | KindReaction | KindCron
datatype role = RoleUnset | RoleSystem | RoleUser | RoleAssistant | RoleTool

record tool_call =
  tc_id :: string
  tc_name :: string
  tc_arguments :: string

record attachment =
  at_id :: string
  at_kind :: string
  at_filename :: string
  at_mime :: string
  at_size :: int
  at_path :: string
  at_caption :: string

record message =
  ms_id :: string
  ms_tenant :: string
  ms_user :: string
  ms_agent :: string
  ms_conv :: string
  ms_chat :: string
  ms_is_group :: bool
  ms_ext_user :: string
  ms_ext_message :: string
  ms_ext_reply_to :: string
  ms_kind :: message_kind
  ms_replied_to :: string
  ms_target :: string
  ms_caused_by :: string
  ms_role :: role
  ms_content :: string
  ms_tool_calls :: "tool_call list"
  ms_tool_call_id :: string
  ms_tool_name :: string
  ms_attachments :: "attachment list"
  ms_is_mention :: bool
  ms_evicted :: bool
  ms_metadata :: string_map
  ms_created_at :: instant

definition zero_message :: message where
  "zero_message = \<lparr>ms_id = [], ms_tenant = [], ms_user = [], ms_agent = [], ms_conv = [],
     ms_chat = [], ms_is_group = False, ms_ext_user = [], ms_ext_message = [],
     ms_ext_reply_to = [], ms_kind = KindUnset, ms_replied_to = [], ms_target = [],
     ms_caused_by = [], ms_role = RoleUnset, ms_content = [], ms_tool_calls = [],
     ms_tool_call_id = [], ms_tool_name = [], ms_attachments = [], ms_is_mention = False,
     ms_evicted = False, ms_metadata = [], ms_created_at = zero_time\<rparr>"

text \<open>\<open>Message.NewReply\<close>, at the time \<open>t\<close> its \<open>time.Now\<close> reads.\<close>

definition new_reply :: "message \<Rightarrow> string \<Rightarrow> role \<Rightarrow> instant \<Rightarrow> message" where
  "new_reply m mid r t = zero_message\<lparr>ms_id := mid, ms_tenant := ms_tenant m, ms_user := ms_user m,
     ms_agent := ms_agent m, ms_chat := ms_chat m, ms_is_group := ms_is_group m,
     ms_conv := ms_conv m, ms_caused_by := ms_id m, ms_replied_to := ms_id m,
     ms_target := ms_id m, ms_role := r, ms_created_at := t\<rparr>"

section \<open>Scheduled tasks\<close>

record cron_entry =
  ce_id :: string
  ce_tenant :: string
  ce_agent :: string
  ce_user :: string
  ce_chat :: string
  ce_is_group :: bool
  ce_name :: string
  ce_instructions :: string
  ce_type :: string
  ce_expr :: string
  ce_next_run_at :: "instant option"
  ce_status :: string
  ce_created_at :: instant
  ce_metadata :: string_map
  ce_conv :: string
  ce_message :: string

record cron_run =
  cr_id :: string
  cr_entry :: string
  cr_tenant :: string
  cr_status :: string
  cr_error :: string
  cr_started_at :: instant
  cr_finished_at :: "instant option"

text \<open>
  \<open>CronEntry.MessageMetadata\<close>; \<open>fmt\<close> is the text of an instant in RFC 3339, which the
  sources only pass on.
\<close>

definition message_metadata :: "(instant \<Rightarrow> string) \<Rightarrow> cron_entry \<Rightarrow> string_map" where
  "message_metadata fmt e =
     AList.update ''cron_created_at'' (fmt (ce_created_at e))
       (AList.update ''cron_type'' (ce_type e)
         (AList.update ''cron_name'' (ce_name e) (ce_metadata e)))"

section \<open>Messages between channels and runtime\<close>

record incoming_message =
  in_id :: string
  in_tenant :: string
  in_user :: string
  in_chat :: string
  in_content :: string
  in_attachments :: "attachment list"
  in_is_group :: bool
  in_is_mention :: bool
  in_metadata :: string_map
  in_delivery :: string_map
  in_reply_to :: string
  in_indication :: string_map
  in_agent_name :: string
  in_tenant_name :: string
  in_user_name :: string
  in_group_name :: string
  in_received_at :: instant

record outgoing_message =
  om_id :: string
  om_tenant :: string
  om_channel :: string
  om_chat :: string
  om_kind :: message_kind
  om_target :: string
  om_content :: string
  om_attachments :: "attachment list"
  om_metadata :: string_map
  om_delivery :: string_map

end
