(* ===== verification/Store.thy ===== *)
theory Store
  imports Entities
begin

text \<open>
  The SQLite store, \<open>pkg/plugins/store/sqlite\<close>. A table is the list of its rows in insertion
  order; a statement is a function on the database that also says whether a constraint
  (primary key, unique index, foreign key) rejects it. The \<open>world\<close> holds the database and
  what the program draws from outside: the clock, the supply of fresh identifiers, and a
  schedule of failing database calls (\<open>True\<close>: the call returns an error and does nothing).
  \<open>SetMaxOpenConns(1)\<close> makes every call atomic. Instants are stored as RFC 3339 text,
  hence truncated to seconds; an \<open>ORDER BY\<close> is a stable sort on the insertion order.
\<close>

record db =
  d_tenants :: "tenant list"
  d_users :: "user list"
  d_identities :: "user_identity list"
  d_mappings :: "tenant_mapping list"
  d_agents :: "agent list"
  d_chats :: "chat list"
  d_invites :: "invite_code list"
  d_memories :: "memory list"
  d_journal :: "journal_entry list"
  d_messages :: "message list"
  d_summaries :: "summary list"
  d_cron :: "cron_entry list"
  d_runs :: "cron_run list"
  d_secrets :: "secret list"
  d_tokens :: "secret_token list"
  d_errors :: "error_log_entry list"

definition empty_db :: db where
  "empty_db = \<lparr>d_tenants = [], d_users = [], d_identities = [], d_mappings = [], d_agents = [],
     d_chats = [], d_invites = [], d_memories = [], d_journal = [], d_messages = [],
     d_summaries = [], d_cron = [], d_runs = [], d_secrets = [], d_tokens = [], d_errors = []\<rparr>"

record world =
  w_db :: db
  w_now :: instant
  w_ids :: "nat \<Rightarrow> string"
  w_drawn :: nat
  w_faults :: "bool list"

datatype db_error = DbFault | DbConstraint | DbNoRow | DbNotApplied

text \<open>\<open>util.NewID\<close>.\<close>

definition new_id :: "world \<Rightarrow> string \<times> world" where
  "new_id w = (w_ids w (w_drawn w), w\<lparr>w_drawn := Suc (w_drawn w)\<rparr>)"

definition faulty :: "bool list \<Rightarrow> bool" where
  "faulty fs = (fs \<noteq> [] \<and> hd fs)"

definition db_query :: "(db \<Rightarrow> 'a) \<Rightarrow> world \<Rightarrow> (db_error + 'a) \<times> world" where
  "db_query q w =
     (let w' = w\<lparr>w_faults := tl (w_faults w)\<rparr>
      in if faulty (w_faults w) then (Inl DbFault, w') else (Inr (q (w_db w)), w'))"

definition db_exec :: "(db \<Rightarrow> db_error + db) \<Rightarrow> world \<Rightarrow> (db_error + unit) \<times> world" where
  "db_exec s w =
     (let w' = w\<lparr>w_faults := tl (w_faults w)\<rparr>
      in if faulty (w_faults w) then (Inl DbFault, w')
         else case s (w_db w) of Inl e \<Rightarrow> (Inl e, w') | Inr d \<Rightarrow> (Inr (), w'\<lparr>w_db := d\<rparr>))"

text \<open>A transaction: each statement may fail, and then none of them takes effect.\<close>

fun tx_run :: "(db \<Rightarrow> db_error + db) list \<Rightarrow> db \<Rightarrow> bool list \<Rightarrow> (db_error + db) \<times> bool list" where
  "tx_run [] d fs = (Inr d, fs)"
| "tx_run (s # ss) d fs =
     (if faulty fs then (Inl DbFault, tl fs)
      else case s d of Inl e \<Rightarrow> (Inl e, tl fs) | Inr d' \<Rightarrow> tx_run ss d' (tl fs))"

definition db_tx :: "(db \<Rightarrow> db_error + db) list \<Rightarrow> world \<Rightarrow> (db_error + unit) \<times> world" where
  "db_tx ss w =
     (case tx_run ([Inr] @ ss @ [Inr]) (w_db w) (w_faults w) of
        (Inl e, fs) \<Rightarrow> (Inl e, w\<lparr>w_faults := fs\<rparr>)
      | (Inr d, fs) \<Rightarrow> (Inr (), w\<lparr>w_db := d, w_faults := fs\<rparr>))"

section \<open>Tenants, users, agents\<close>

definition live_tenant :: "string \<Rightarrow> db \<Rightarrow> tenant option" where
  "live_tenant tid d = find (\<lambda>t. tn_id t = tid \<and> tn_deleted_at t = None) (d_tenants d)"

definition has_tenant :: "string \<Rightarrow> db \<Rightarrow> bool" where
  "has_tenant tid d = list_ex (\<lambda>t. tn_id t = tid) (d_tenants d)"

definition get_tenant :: "string \<Rightarrow> world \<Rightarrow> (db_error + tenant option) \<times> world" where
  "get_tenant tid = db_query (live_tenant tid)"

definition list_tenants :: "world \<Rightarrow> (db_error + tenant list) \<times> world" where
  "list_tenants = db_query (\<lambda>d. filter (\<lambda>t. tn_deleted_at t = None) (d_tenants d))"

definition save_tenant :: "string \<Rightarrow> tenant \<Rightarrow> world \<Rightarrow> (db_error + unit) \<times> world" where
  "save_tenant tid t = db_exec (\<lambda>d. Inr (d\<lparr>d_tenants := upsert (\<lambda>r. tn_id r = tid)
     (\<lambda>r. r\<lparr>tn_name := tn_name t, tn_instructions := tn_instructions t,
        tn_default_agent := tn_default_agent t, tn_join_policy := tn_join_policy t,
        tn_rejection := tn_rejection t, tn_group_mode := tn_group_mode t,
        tn_allowed_skills := tn_allowed_skills t, tn_allowed_tools := tn_allowed_tools t\<rparr>)
     (t\<lparr>tn_id := tid, tn_deleted_at := None, tn_created_at := rfc3339 (tn_created_at t)\<rparr>)
     (d_tenants d)\<rparr>))"

definition delete_tenant :: "string \<Rightarrow> world \<Rightarrow> (db_error + unit) \<times> world" where
  "delete_tenant tid w = db_exec (\<lambda>d. Inr (d\<lparr>d_tenants := update_where
     (\<lambda>r. tn_id r = tid \<and> tn_deleted_at r = None)
     (\<lambda>r. r\<lparr>tn_deleted_at := Some (rfc3339 (w_now w))\<rparr>) (d_tenants d)\<rparr>)) w"

definition get_agent :: "string \<Rightarrow> string \<Rightarrow> world \<Rightarrow> (db_error + agent option) \<times> world" where
  "get_agent tid aid = db_query (\<lambda>d. find (\<lambda>a. ag_tenant a = tid \<and> ag_id a = aid) (d_agents d))"

definition save_agent :: "string \<Rightarrow> agent \<Rightarrow> world \<Rightarrow> (db_error + unit) \<times> world" where
  "save_agent tid a = db_exec (\<lambda>d.
     if list_ex (\<lambda>r. ag_id r = ag_id a) (d_agents d) \<or> has_tenant tid d
     then Inr (d\<lparr>d_agents := upsert (\<lambda>r. ag_id r = ag_id a)
       (\<lambda>r. r\<lparr>ag_name := ag_name a, ag_instructions := ag_instructions a\<rparr>)
       (a\<lparr>ag_tenant := tid, ag_created_at := rfc3339 (ag_created_at a)\<rparr>) (d_agents d)\<rparr>)
     else Inl DbConstraint)"

definition list_agents :: "string \<Rightarrow> world \<Rightarrow> (db_error + agent list) \<times> world" where
  "list_agents tid = db_query (\<lambda>d.
     sort_key ag_created_at (filter (\<lambda>a. ag_tenant a = tid) (d_agents d)))"

definition live_user :: "string \<Rightarrow> string \<Rightarrow> db \<Rightarrow> user option" where
  "live_user tid uid d =
     find (\<lambda>u. us_tenant u = tid \<and> us_id u = uid \<and> us_deleted_at u = None) (d_users d)"

definition has_user :: "string \<Rightarrow> string \<Rightarrow> db \<Rightarrow> bool" where
  "has_user tid uid d = list_ex (\<lambda>u. us_tenant u = tid \<and> us_id u = uid) (d_users d)"

definition get_user :: "string \<Rightarrow> string \<Rightarrow> world \<Rightarrow> (db_error + user option) \<times> world" where
  "get_user tid uid = db_query (live_user tid uid)"

definition identity_of :: "string \<Rightarrow> string \<Rightarrow> string \<Rightarrow> db \<Rightarrow> user_identity option" where
  "identity_of tid chan ext d = find (\<lambda>i. ui_tenant i = tid \<and> ui_channel i = chan
     \<and> ui_external i = ext) (d_identities d)"

definition user_by_channel :: "string \<Rightarrow> string \<Rightarrow> string \<Rightarrow> db \<Rightarrow> user option" where
  "user_by_channel tid chan ext d =
     Option.bind (identity_of tid chan ext d) (\<lambda>i. live_user tid (ui_user i) d)"

definition get_user_by_channel ::
  "string \<Rightarrow> string \<Rightarrow> string \<Rightarrow> world \<Rightarrow> (db_error + user option) \<times> world" where
  "get_user_by_channel tid chan ext = db_query (user_by_channel tid chan ext)"

definition save_user :: "string \<Rightarrow> user \<Rightarrow> world \<Rightarrow> (db_error + unit) \<times> world" where
  "save_user tid u = db_exec (\<lambda>d.
     if has_tenant tid d
     then Inr (d\<lparr>d_users := upsert (\<lambda>r. us_tenant r = tid \<and> us_id r = us_id u)
       (\<lambda>r. r\<lparr>us_name := us_name u, us_preferred_channel := us_preferred_channel u\<rparr>)
       (u\<lparr>us_tenant := tid, us_deleted_at := None, us_created_at := rfc3339 (us_created_at u)\<rparr>)
       (d_users d)\<rparr>)
     else Inl DbConstraint)"

definition delete_user :: "string \<Rightarrow> string \<Rightarrow> world \<Rightarrow> (db_error + unit) \<times> world" where
  "delete_user tid uid w = db_exec (\<lambda>d. Inr (d\<lparr>d_users := update_where
     (\<lambda>r. us_tenant r = tid \<and> us_id r = uid \<and> us_deleted_at r = None)
     (\<lambda>r. r\<lparr>us_deleted_at := Some (rfc3339 (w_now w))\<rparr>) (d_users d)\<rparr>)) w"

definition list_users :: "string \<Rightarrow> world \<Rightarrow> (db_error + user list) \<times> world" where
  "list_users tid = db_query (\<lambda>d.
     filter (\<lambda>u. us_tenant u = tid \<and> us_deleted_at u = None) (d_users d))"

text \<open>SQLite's \<open>LIKE\<close>: \<open>%\<close> any text, \<open>_\<close> any character, ASCII letters without case.\<close>

fun sql_like :: "string \<Rightarrow> string \<Rightarrow> bool" where
  "sql_like [] s = (s = [])"
| "sql_like (p # ps) [] = (p = CHR ''%'' \<and> sql_like ps [])"
| "sql_like (p # ps) (c # cs) =
     (if p = CHR ''%'' then sql_like ps (c # cs) \<or> sql_like (p # ps) cs
      else (p = CHR ''_'' \<or> lower_char p = lower_char c) \<and> sql_like ps cs)"

definition search_users :: "string \<Rightarrow> string \<Rightarrow> world \<Rightarrow> (db_error + user list) \<times> world" where
  "search_users tid q = db_query (\<lambda>d. filter (\<lambda>u. us_tenant u = tid \<and> us_deleted_at u = None
     \<and> sql_like (''%'' @ q @ ''%'') (us_name u)) (d_users d))"

definition get_external_id ::
  "string \<Rightarrow> string \<Rightarrow> string \<Rightarrow> world \<Rightarrow> (db_error + string) \<times> world" where
  "get_external_id tid uid chan = db_query (\<lambda>d.
     case find (\<lambda>i. ui_tenant i = tid \<and> ui_user i = uid \<and> ui_channel i = chan) (d_identities d)
     of None \<Rightarrow> [] | Some i \<Rightarrow> ui_external i)"

definition add_user_identity ::
  "string \<Rightarrow> string \<Rightarrow> string \<Rightarrow> string \<Rightarrow> world \<Rightarrow> (db_error + unit) \<times> world" where
  "add_user_identity tid chan ext uid = db_exec (\<lambda>d.
     if has_user tid uid d
     then Inr (d\<lparr>d_identities := upsert
       (\<lambda>r. ui_tenant r = tid \<and> ui_channel r = chan \<and> ui_external r = ext)
       (\<lambda>r. r\<lparr>ui_user := uid\<rparr>)
       \<lparr>ui_tenant = tid, ui_channel = chan, ui_external = ext, ui_user = uid\<rparr>
       (d_identities d)\<rparr>)
     else Inl DbConstraint)"

end
