(* ===== verification/Store_Records.thy ===== *)
theory Store_Records
  imports Store "HOL-Library.Product_Lexorder"
begin

text \<open>
  The store's records of conversations: chats, messages, summaries, journal and memory
  (\<open>chat.go\<close>, \<open>message.go\<close>, \<open>summary.go\<close>, \<open>journal.go\<close>, \<open>memory.go\<close>). The full-text index
  of SQLite is a parameter: \<open>fts q rows\<close> lists the matching rows in rank order.
\<close>

section \<open>Chats\<close>

definition chat_at :: "string \<Rightarrow> string \<Rightarrow> string \<Rightarrow> chat \<Rightarrow> bool" where
  "chat_at tid chan ext r \<longleftrightarrow> ch_tenant r = tid \<and> ch_channel r = chan \<and> ch_external r = ext"

definition save_chat :: "string \<Rightarrow> chat \<Rightarrow> world \<Rightarrow> (db_error + unit) \<times> world" where
  "save_chat tid c w =
     (let (cid, w1) = (if ch_id c = [] then new_id w else (ch_id c, w))
      in db_exec (\<lambda>d.
        if \<not> list_ex (chat_at tid (ch_channel c) (ch_external c)) (d_chats d)
           \<and> list_ex (\<lambda>r. ch_id r = cid) (d_chats d)
        then Inl DbConstraint
        else Inr (d\<lparr>d_chats := upsert (chat_at tid (ch_channel c) (ch_external c))
          (\<lambda>r. r\<lparr>ch_delivery := ch_delivery c, ch_indication := ch_indication c,
             ch_user := ch_user c, ch_name := ch_name c, ch_agent := ch_agent c\<rparr>)
          (c\<lparr>ch_id := cid, ch_tenant := tid, ch_created_at := rfc3339 (ch_created_at c)\<rparr>)
          (d_chats d)\<rparr>)) w1)"

definition get_chat :: "string \<Rightarrow> string \<Rightarrow> world \<Rightarrow> (db_error + chat option) \<times> world" where
  "get_chat tid cid = db_query (\<lambda>d. find (\<lambda>c. ch_id c = cid \<and> ch_tenant c = tid) (d_chats d))"

definition chat_by_channel :: "string \<Rightarrow> string \<Rightarrow> string \<Rightarrow> db \<Rightarrow> chat option" where
  "chat_by_channel tid chan ext d = find (chat_at tid chan ext) (d_chats d)"

definition get_chat_by_channel ::
  "string \<Rightarrow> string \<Rightarrow> string \<Rightarrow> world \<Rightarrow> (db_error + chat option) \<times> world" where
  "get_chat_by_channel tid chan ext = db_query (chat_by_channel tid chan ext)"

definition get_dm_chat :: "string \<Rightarrow> string \<Rightarrow> world \<Rightarrow> (db_error + chat option) \<times> world" where
  "get_dm_chat tid uid = db_query (\<lambda>d.
     find (\<lambda>c. ch_tenant c = tid \<and> ch_user c = uid \<and> \<not> ch_is_group c) (d_chats d))"

definition search_chats ::
  "string \<Rightarrow> string \<Rightarrow> string \<Rightarrow> world \<Rightarrow> (db_error + chat list) \<times> world" where
  "search_chats tid uid q = db_query (\<lambda>d. filter (\<lambda>c. ch_tenant c = tid \<and> ch_is_group c
     \<and> sql_like (''%'' @ q @ ''%'') (ch_name c)
     \<and> list_ex (\<lambda>m. ms_chat m = ch_id c \<and> ms_tenant m = ch_tenant c \<and> ms_user m = uid)
         (d_messages d)) (d_chats d))"

section \<open>Messages\<close>

text \<open>
  \<open>INSERT OR IGNORE\<close>: a message whose ID is taken, or whose platform ID is already in its
  chat, is dropped without an error. The columns \<open>is_group\<close> and \<open>metadata\<close> are not stored.
\<close>

definition message_taken :: "message \<Rightarrow> message \<Rightarrow> bool" where
  "message_taken m r \<longleftrightarrow> ms_id r = ms_id m
     \<or> (ms_ext_message m \<noteq> [] \<and> ms_chat r = ms_chat m \<and> ms_ext_message r = ms_ext_message m)"

definition message_row :: "message \<Rightarrow> message" where
  "message_row m = m\<lparr>ms_is_group := False, ms_metadata := [], ms_evicted := False,
     ms_created_at := rfc3339 (ms_created_at m)\<rparr>"

definition save_message :: "message \<Rightarrow> world \<Rightarrow> (db_error + unit) \<times> world" where
  "save_message m = db_exec (\<lambda>d.
     if list_ex (message_taken m) (d_messages d) then Inr d
     else Inr (d\<lparr>d_messages := d_messages d @ [message_row m]\<rparr>))"

text \<open>An update to a platform ID the chat already has violates the unique index.\<close>

definition update_external_message_id ::
  "string \<Rightarrow> string \<Rightarrow> world \<Rightarrow> (db_error + unit) \<times> world" where
  "update_external_message_id mid ext = db_exec (\<lambda>d.
     if ext \<noteq> [] \<and> list_ex (\<lambda>m. ms_id m = mid \<and> list_ex (\<lambda>r. ms_id r \<noteq> mid
          \<and> ms_chat r = ms_chat m \<and> ms_ext_message r = ext) (d_messages d)) (d_messages d)
     then Inl DbConstraint
     else Inr (d\<lparr>d_messages := update_where (\<lambda>m. ms_id m = mid)
       (\<lambda>m. m\<lparr>ms_ext_message := ext\<rparr>) (d_messages d)\<rparr>))"

record message_filter =
  mf_conv :: string
  mf_chat :: string
  mf_ext_message :: string
  mf_user :: string
  mf_message :: string
  mf_up_to :: "string option"
  mf_before :: "instant option"
  mf_after :: "instant option"
  mf_roles :: "role list"
  mf_evicted :: "bool option"
  mf_query :: string
  mf_tail :: bool
  mf_limit :: int
  mf_offset :: int

definition no_filter :: message_filter where
  "no_filter = \<lparr>mf_conv = [], mf_chat = [], mf_ext_message = [], mf_user = [], mf_message = [],
     mf_up_to = None, mf_before = None, mf_after = None, mf_roles = [], mf_evicted = None,
     mf_query = [], mf_tail = False, mf_limit = 0, mf_offset = 0\<rparr>"

definition message_matches :: "string \<Rightarrow> message_filter \<Rightarrow> message \<Rightarrow> bool" where
  "message_matches tid f m \<longleftrightarrow> ms_tenant m = tid
     \<and> (mf_conv f = [] \<or> ms_conv m = mf_conv f)
     \<and> (mf_chat f = [] \<or> ms_chat m = mf_chat f)
     \<and> (mf_ext_message f = [] \<or> ms_ext_message m = mf_ext_message f)
     \<and> (mf_user f = [] \<or> ms_user m = mf_user f)
     \<and> (mf_message f = [] \<or> ms_id m = mf_message f)
     \<and> (case mf_up_to f of None \<Rightarrow> True | Some i \<Rightarrow> ms_id m \<le> i)
     \<and> (case mf_before f of None \<Rightarrow> True | Some t \<Rightarrow> ms_created_at m < rfc3339 t)
     \<and> (case mf_after f of None \<Rightarrow> True | Some t \<Rightarrow> rfc3339 t < ms_created_at m)
     \<and> (mf_roles f = [] \<or> ms_role m \<in> set (mf_roles f))
     \<and> (case mf_evicted f of None \<Rightarrow> True | Some b \<Rightarrow> ms_evicted m = b)"

definition message_key :: "message \<Rightarrow> instant \<times> string" where
  "message_key m = (ms_created_at m, ms_id m)"

text \<open>\<open>LIMIT\<close> and \<open>OFFSET\<close>, which the query has only when the limit is positive.\<close>

definition page :: "int \<Rightarrow> int \<Rightarrow> 'a list \<Rightarrow> 'a list" where
  "page limit offset xs =
     (if 0 < limit then take (nat limit) (drop (nat offset) xs) else xs)"

definition select_messages ::
  "(string \<Rightarrow> message list \<Rightarrow> message list) \<Rightarrow> string \<Rightarrow> message_filter \<Rightarrow> db \<Rightarrow> message list" where
  "select_messages fts tid f d =
     (let q = trim_space (mf_query f) \<noteq> [];
          rows = filter (message_matches tid f)
            (if q then fts (mf_query f) (d_messages d) else d_messages d)
      in if mf_tail f \<and> 0 < mf_limit f
         then rev (page (mf_limit f) (mf_offset f) (rev (sort_key message_key rows)))
         else if q then page (mf_limit f) (mf_offset f) rows
         else page (mf_limit f) (mf_offset f) (sort_key message_key rows))"

definition get_messages ::
  "(string \<Rightarrow> message list \<Rightarrow> message list) \<Rightarrow> string \<Rightarrow> message_filter \<Rightarrow> world
   \<Rightarrow> (db_error + message list) \<times> world" where
  "get_messages fts tid f = db_query (select_messages fts tid f)"

definition last_conversation :: "string \<Rightarrow> string \<Rightarrow> db \<Rightarrow> string" where
  "last_conversation tid cid d =
     (case rev (sort_key message_key
        (filter (\<lambda>m. ms_tenant m = tid \<and> ms_chat m = cid) (d_messages d))) of
        [] \<Rightarrow> [] | m # _ \<Rightarrow> ms_conv m)"

definition get_last_conversation_id :: "message \<Rightarrow> world \<Rightarrow> (db_error + string) \<times> world" where
  "get_last_conversation_id m = db_query (last_conversation (ms_tenant m) (ms_chat m))"

definition evict_messages ::
  "string \<Rightarrow> string \<Rightarrow> string list \<Rightarrow> world \<Rightarrow> (db_error + unit) \<times> world" where
  "evict_messages tid conv ids w =
     (if ids = [] then (Inr (), w)
      else db_tx [\<lambda>d. Inr (d\<lparr>d_messages := update_where
        (\<lambda>m. ms_tenant m = tid \<and> ms_conv m = conv \<and> ms_id m \<in> set ids)
        (\<lambda>m. m\<lparr>ms_evicted := True\<rparr>) (d_messages d)\<rparr>)] w)"

section \<open>Summaries\<close>

definition save_summary :: "string \<Rightarrow> summary \<Rightarrow> world \<Rightarrow> (db_error + unit) \<times> world" where
  "save_summary tid s = db_exec (\<lambda>d.
     if list_ex (\<lambda>r. sm_id r = sm_id s) (d_summaries d) then Inl DbConstraint
     else Inr (d\<lparr>d_summaries := d_summaries d @
       [s\<lparr>sm_tenant := tid, sm_created_at := rfc3339 (sm_created_at s)\<rparr>]\<rparr>))"

definition summary_key :: "summary \<Rightarrow> instant \<times> string" where
  "summary_key s = (sm_created_at s, sm_id s)"

definition summaries_of :: "string \<Rightarrow> string \<Rightarrow> db \<Rightarrow> summary list" where
  "summaries_of tid conv d = sort_key summary_key
     (filter (\<lambda>s. sm_tenant s = tid \<and> sm_conv s = conv) (d_summaries d))"

definition get_latest_summary ::
  "string \<Rightarrow> string \<Rightarrow> world \<Rightarrow> (db_error + summary option) \<times> world" where
  "get_latest_summary tid conv = db_query (\<lambda>d.
     case rev (summaries_of tid conv d) of [] \<Rightarrow> None | s # _ \<Rightarrow> Some s)"

definition list_summaries ::
  "string \<Rightarrow> string \<Rightarrow> int \<Rightarrow> int \<Rightarrow> world \<Rightarrow> (db_error + summary list) \<times> world" where
  "list_summaries tid conv offset limit = db_query (\<lambda>d.
     let rows = summaries_of tid conv d
     in if 0 < limit then take (nat limit) (drop (nat offset) rows)
        else drop (nat offset) rows)"

section \<open>Journal and memory\<close>

definition append_journal :: "string \<Rightarrow> journal_entry \<Rightarrow> world \<Rightarrow> (db_error + unit) \<times> world" where
  "append_journal tid e w =
     (let (jid, w1) = new_id w
      in db_exec (\<lambda>d.
        if list_ex (\<lambda>r. jr_id r = jid) (d_journal d) then Inl DbConstraint
        else Inr (d\<lparr>d_journal := d_journal d @
          [e\<lparr>jr_id := jid, jr_tenant := tid, jr_created_at := rfc3339 (w_now w)\<rparr>]\<rparr>)) w1)"

record journal_filter =
  jf_user :: string
  jf_chat :: string
  jf_conv :: string
  jf_categories :: "string list"
  jf_query :: string
  jf_before :: instant

definition journal_matches :: "string \<Rightarrow> journal_filter \<Rightarrow> journal_entry \<Rightarrow> bool" where
  "journal_matches tid f e \<longleftrightarrow> jr_tenant e = tid
     \<and> (jf_user f = [] \<or> jr_user e = jf_user f)
     \<and> (jf_chat f = [] \<or> jr_chat e = [] \<or> jr_chat e = jf_chat f)
     \<and> (jf_categories f = [] \<or> jr_category e \<in> set (jf_categories f))
     \<and> (jf_conv f = [] \<or> jr_conv e = jf_conv f)
     \<and> (is_zero_time (jf_before f) \<or> jr_created_at e < rfc3339 (jf_before f))"

definition get_journal ::
  "(string \<Rightarrow> journal_entry list \<Rightarrow> journal_entry list) \<Rightarrow> string \<Rightarrow> journal_filter \<Rightarrow> world
   \<Rightarrow> (db_error + journal_entry list) \<times> world" where
  "get_journal fts tid f = db_query (\<lambda>d. sort_key jr_created_at (filter (journal_matches tid f)
     (if trim_space (jf_query f) \<noteq> [] then fts (jf_query f) (d_journal d) else d_journal d)))"

definition memory_of :: "string \<Rightarrow> string \<Rightarrow> string \<Rightarrow> db \<Rightarrow> memory option" where
  "memory_of tid ot oid d =
     find (\<lambda>m. mm_tenant m = tid \<and> mm_owner_type m = ot \<and> mm_owner_id m = oid) (d_memories d)"

definition get_memory ::
  "string \<Rightarrow> string \<Rightarrow> string \<Rightarrow> world \<Rightarrow> (db_error + memory option) \<times> world" where
  "get_memory tid ot oid = db_query (memory_of tid ot oid)"

definition save_memory :: "string \<Rightarrow> memory \<Rightarrow> world \<Rightarrow> (db_error + unit) \<times> world" where
  "save_memory tid m w =
     (let at = rfc3339 (if is_zero_time (mm_updated_at m) then w_now w else mm_updated_at m)
      in db_exec (\<lambda>d.
        if has_tenant tid d
        then Inr (d\<lparr>d_memories := upsert
          (\<lambda>r. mm_tenant r = tid \<and> mm_owner_type r = mm_owner_type m \<and> mm_owner_id r = mm_owner_id m)
          (\<lambda>r. r\<lparr>mm_content := mm_content m, mm_updated_at := at\<rparr>)
          (m\<lparr>mm_tenant := tid, mm_updated_at := at\<rparr>) (d_memories d)\<rparr>)
        else Inl DbConstraint) w)"

end
