(* ===== verification/Store_Ops.thy ===== *)
theory Store_Ops
  imports Store_Records
begin

text \<open>
  The store's operational tables: scheduled tasks and their runs, secrets and one-time tokens,
  invite codes, tenant mappings, the error log, and the transaction that merges two users
  (\<open>cron.go\<close>, \<open>secret.go\<close>, \<open>invite.go\<close>, \<open>tenant_mapping.go\<close>, \<open>errorlog.go\<close>).
\<close>

section \<open>Scheduled tasks\<close>

definition save_cron_entry :: "string \<Rightarrow> cron_entry \<Rightarrow> world \<Rightarrow> (db_error + unit) \<times> world" where
  "save_cron_entry tid e w =
     (let at = if is_zero_time (ce_created_at e) then w_now w else ce_created_at e
      in db_exec (\<lambda>d.
        if list_ex (\<lambda>r. ce_id r = ce_id e) (d_cron d) then Inl DbConstraint
        else Inr (d\<lparr>d_cron := d_cron d @ [e\<lparr>ce_tenant := tid, ce_created_at := rfc3339 at,
          ce_next_run_at := map_option rfc3339 (ce_next_run_at e)\<rparr>]\<rparr>)) w)"

definition cron_entry_of :: "string \<Rightarrow> string \<Rightarrow> db \<Rightarrow> cron_entry option" where
  "cron_entry_of tid eid d = find (\<lambda>e. ce_id e = eid \<and> ce_tenant e = tid) (d_cron d)"

definition get_cron_entry ::
  "string \<Rightarrow> string \<Rightarrow> world \<Rightarrow> (db_error + cron_entry option) \<times> world" where
  "get_cron_entry tid eid = db_query (cron_entry_of tid eid)"

definition list_cron_entries ::
  "string \<Rightarrow> string \<Rightarrow> world \<Rightarrow> (db_error + cron_entry list) \<times> world" where
  "list_cron_entries tid uid = db_query (\<lambda>d. sort_key (\<lambda>e. - ce_created_at e)
     (filter (\<lambda>e. ce_tenant e = tid \<and> ce_user e = uid) (d_cron d)))"

text \<open>Active entries of every tenant, entries without a next run last.\<close>

definition active_cron_entries :: "db \<Rightarrow> cron_entry list" where
  "active_cron_entries d =
     sort_key (\<lambda>e. case ce_next_run_at e of None \<Rightarrow> (1::nat, 0) | Some t \<Rightarrow> (0, t))
       (filter (\<lambda>e. ce_status e = ''active'') (d_cron d))"

definition list_active_cron_entries :: "world \<Rightarrow> (db_error + cron_entry list) \<times> world" where
  "list_active_cron_entries = db_query active_cron_entries"

definition delete_cron_entry :: "string \<Rightarrow> string \<Rightarrow> world \<Rightarrow> (db_error + unit) \<times> world" where
  "delete_cron_entry tid eid = db_exec (\<lambda>d.
     Inr (d\<lparr>d_cron := filter (\<lambda>e. \<not> (ce_id e = eid \<and> ce_tenant e = tid)) (d_cron d)\<rparr>))"

definition cron_row :: "string \<Rightarrow> string \<Rightarrow> cron_entry \<Rightarrow> bool" where
  "cron_row tid eid e \<longleftrightarrow> ce_id e = eid \<and> ce_tenant e = tid"

definition set_cron_status :: "string \<Rightarrow> string \<Rightarrow> string \<Rightarrow> db \<Rightarrow> db" where
  "set_cron_status tid eid st d =
     d\<lparr>d_cron := update_where (cron_row tid eid) (\<lambda>e. e\<lparr>ce_status := st\<rparr>) (d_cron d)\<rparr>"

definition update_cron_status ::
  "string \<Rightarrow> string \<Rightarrow> string \<Rightarrow> world \<Rightarrow> (db_error + unit) \<times> world" where
  "update_cron_status tid eid st = db_exec (\<lambda>d. Inr (set_cron_status tid eid st d))"

definition set_cron_next_run :: "string \<Rightarrow> string \<Rightarrow> instant option \<Rightarrow> db \<Rightarrow> db" where
  "set_cron_next_run tid eid nxt d =
     d\<lparr>d_cron := update_where (cron_row tid eid)
       (\<lambda>e. e\<lparr>ce_next_run_at := map_option rfc3339 nxt\<rparr>) (d_cron d)\<rparr>"

definition update_cron_next_run ::
  "string \<Rightarrow> string \<Rightarrow> instant option \<Rightarrow> world \<Rightarrow> (db_error + unit) \<times> world" where
  "update_cron_next_run tid eid nxt = db_exec (\<lambda>d. Inr (set_cron_next_run tid eid nxt d))"

definition insert_cron_run :: "string \<Rightarrow> cron_run \<Rightarrow> world \<Rightarrow> (db_error + unit) \<times> world" where
  "insert_cron_run tid r = db_exec (\<lambda>d.
     if list_ex (\<lambda>x. cr_id x = cr_id r) (d_runs d) then Inl DbConstraint
     else Inr (d\<lparr>d_runs := d_runs d @ [r\<lparr>cr_tenant := tid,
       cr_started_at := rfc3339 (cr_started_at r),
       cr_finished_at := map_option rfc3339 (cr_finished_at r)\<rparr>]\<rparr>))"

definition finish_run :: "string \<Rightarrow> string \<Rightarrow> string \<Rightarrow> string \<Rightarrow> instant option \<Rightarrow> db \<Rightarrow> db" where
  "finish_run tid rid st err fin d =
     d\<lparr>d_runs := update_where (\<lambda>r. cr_id r = rid \<and> cr_tenant r = tid)
       (\<lambda>r. r\<lparr>cr_status := st, cr_error := err, cr_finished_at := map_option rfc3339 fin\<rparr>)
       (d_runs d)\<rparr>"

definition update_cron_run ::
  "string \<Rightarrow> string \<Rightarrow> string \<Rightarrow> string \<Rightarrow> instant option \<Rightarrow> world \<Rightarrow> (db_error + unit) \<times> world" where
  "update_cron_run tid rid st err fin = db_exec (\<lambda>d. Inr (finish_run tid rid st err fin d))"

definition list_cron_runs ::
  "string \<Rightarrow> string \<Rightarrow> int \<Rightarrow> world \<Rightarrow> (db_error + cron_run list) \<times> world" where
  "list_cron_runs tid eid limit = db_query (\<lambda>d.
     (if limit < 0 then (\<lambda>rs. rs) else take (nat limit)) (sort_key (\<lambda>r. - cr_started_at r)
       (filter (\<lambda>r. cr_entry r = eid \<and> cr_tenant r = tid) (d_runs d))))"

section \<open>Invite codes\<close>

definition save_invite_code :: "invite_code \<Rightarrow> world \<Rightarrow> (db_error + unit) \<times> world" where
  "save_invite_code c = db_exec (\<lambda>d.
     if list_ex (\<lambda>r. iv_code r = iv_code c) (d_invites d) then Inl DbConstraint
     else Inr (d\<lparr>d_invites := d_invites d @ [c\<lparr>iv_created_at := rfc3339 (iv_created_at c),
       iv_revoked_at := map_option rfc3339 (iv_revoked_at c)\<rparr>]\<rparr>))"

definition invite_of :: "string \<Rightarrow> db \<Rightarrow> invite_code option" where
  "invite_of code d = find (\<lambda>r. iv_code r = code) (d_invites d)"

definition get_invite_code :: "string \<Rightarrow> world \<Rightarrow> (db_error + invite_code option) \<times> world" where
  "get_invite_code code = db_query (invite_of code)"

definition list_invite_codes ::
  "string \<Rightarrow> string \<Rightarrow> world \<Rightarrow> (db_error + invite_code list) \<times> world" where
  "list_invite_codes typ tid = db_query (\<lambda>d. sort_key (\<lambda>c. - iv_created_at c)
     (filter (\<lambda>c. (typ = [] \<or> iv_type c = typ) \<and> (tid = [] \<or> iv_tenant c = tid)) (d_invites d)))"

definition revoke_invite_code :: "string \<Rightarrow> world \<Rightarrow> (db_error + unit) \<times> world" where
  "revoke_invite_code code w = db_exec (\<lambda>d. Inr (d\<lparr>d_invites := update_where
     (\<lambda>r. iv_code r = code \<and> iv_revoked_at r = None)
     (\<lambda>r. r\<lparr>iv_revoked_at := Some (rfc3339 (w_now w))\<rparr>) (d_invites d)\<rparr>)) w"

text \<open>The guarded update: the number of rows affected tells whether the code was free.\<close>

definition code_free :: "string \<Rightarrow> invite_code \<Rightarrow> bool" where
  "code_free code r \<longleftrightarrow> iv_code r = code \<and> iv_used_by r = [] \<and> iv_revoked_at r = None"

definition use_invite_code :: "string \<Rightarrow> string \<Rightarrow> world \<Rightarrow> (db_error + unit) \<times> world" where
  "use_invite_code code uid = db_exec (\<lambda>d.
     if rows_affected (code_free code) (d_invites d) = 0 then Inl DbNotApplied
     else Inr (d\<lparr>d_invites := update_where (code_free code) (\<lambda>r. r\<lparr>iv_used_by := uid\<rparr>)
       (d_invites d)\<rparr>))"

section \<open>Tenant mappings\<close>

definition mapping_at :: "string \<Rightarrow> string \<Rightarrow> tenant_mapping \<Rightarrow> bool" where
  "mapping_at chan ext r \<longleftrightarrow> tm_channel r = chan \<and> tm_external r = ext"

definition mapped_tenant :: "string \<Rightarrow> string \<Rightarrow> db \<Rightarrow> string" where
  "mapped_tenant chan ext d =
     (case find (mapping_at chan ext) (d_mappings d) of None \<Rightarrow> [] | Some m \<Rightarrow> tm_tenant m)"

definition save_tenant_mapping :: "tenant_mapping \<Rightarrow> world \<Rightarrow> (db_error + unit) \<times> world" where
  "save_tenant_mapping m = db_exec (\<lambda>d.
     if has_tenant (tm_tenant m) d
     then Inr (d\<lparr>d_mappings :=
       filter (\<lambda>r. \<not> mapping_at (tm_channel m) (tm_external m) r) (d_mappings d) @ [m]\<rparr>)
     else Inl DbConstraint)"

definition get_tenant_by_mapping :: "string \<Rightarrow> string \<Rightarrow> world \<Rightarrow> (db_error + string) \<times> world" where
  "get_tenant_by_mapping chan ext = db_query (mapped_tenant chan ext)"

definition delete_tenant_mapping :: "string \<Rightarrow> string \<Rightarrow> world \<Rightarrow> (db_error + unit) \<times> world" where
  "delete_tenant_mapping chan ext = db_exec (\<lambda>d.
     Inr (d\<lparr>d_mappings := filter (\<lambda>r. \<not> mapping_at chan ext r) (d_mappings d)\<rparr>))"

definition list_tenant_mappings :: "string \<Rightarrow> world \<Rightarrow> (db_error + tenant_mapping list) \<times> world" where
  "list_tenant_mappings tid = db_query (\<lambda>d.
     sort_key tm_channel (filter (\<lambda>m. tid = [] \<or> tm_tenant m = tid) (d_mappings d)))"

text \<open>\<open>MergeUser\<close>: the statements of its transaction, in order.\<close>

definition require_user :: "string \<Rightarrow> string \<Rightarrow> db \<Rightarrow> db_error + db" where
  "require_user tid uid d = (if live_user tid uid d = None then Inl DbNoRow else Inr d)"

definition merge_statements :: "string \<Rightarrow> string \<Rightarrow> string \<Rightarrow> (db \<Rightarrow> db_error + db) list" where
  "merge_statements tid src dst =
     [require_user tid src,
      require_user tid dst,
      \<lambda>d. Inr (d\<lparr>d_identities := update_where (\<lambda>i. ui_tenant i = tid \<and> ui_user i = src)
        (\<lambda>i. i\<lparr>ui_user := dst\<rparr>) (d_identities d)\<rparr>),
      \<lambda>d. Inr (d\<lparr>d_identities :=
        filter (\<lambda>i. \<not> (ui_tenant i = tid \<and> ui_user i = src)) (d_identities d)\<rparr>),
      \<lambda>d. Inr (d\<lparr>d_messages := update_where (\<lambda>m. ms_tenant m = tid \<and> ms_user m = src)
        (\<lambda>m. m\<lparr>ms_user := dst\<rparr>) (d_messages d)\<rparr>),
      \<lambda>d. Inr (d\<lparr>d_journal := update_where (\<lambda>e. jr_tenant e = tid \<and> jr_user e = src)
        (\<lambda>e. e\<lparr>jr_user := dst\<rparr>) (d_journal d)\<rparr>),
      \<lambda>d. Inr (d\<lparr>d_cron := update_where (\<lambda>e. ce_tenant e = tid \<and> ce_user e = src)
        (\<lambda>e. e\<lparr>ce_user := dst\<rparr>) (d_cron d)\<rparr>),
      \<lambda>d. Inr (d\<lparr>d_errors := update_where (\<lambda>e. el_tenant e = tid \<and> el_user e = src)
        (\<lambda>e. e\<lparr>el_user := dst\<rparr>) (d_errors d)\<rparr>),
      \<lambda>d. Inr (d\<lparr>d_users := filter (\<lambda>u. \<not> (us_tenant u = tid \<and> us_id u = src)) (d_users d)\<rparr>)]"

definition merge_user :: "string \<Rightarrow> string \<Rightarrow> string \<Rightarrow> world \<Rightarrow> (db_error + unit) \<times> world" where
  "merge_user tid src dst = db_tx (merge_statements tid src dst)"

section \<open>Secrets and tokens\<close>

definition secret_at :: "string \<Rightarrow> string \<Rightarrow> string \<Rightarrow> secret \<Rightarrow> bool" where
  "secret_at tid uid key r \<longleftrightarrow> sc_tenant r = tid \<and> sc_user r = uid \<and> sc_key r = key"

definition save_secret :: "string \<Rightarrow> secret \<Rightarrow> world \<Rightarrow> (db_error + unit) \<times> world" where
  "save_secret tid s w =
     (let now = rfc3339 (w_now w);
          created = (if is_zero_time (sc_created_at s) then now else rfc3339 (sc_created_at s));
          mode = (if sc_mode s = [] then SecretModeValue else sc_mode s)
      in db_exec (\<lambda>d.
        if list_ex (\<lambda>r. sc_id r = sc_id s \<and> \<not> secret_at tid (sc_user s) (sc_key s) r) (d_secrets d)
        then Inl DbConstraint
        else Inr (d\<lparr>d_secrets := upsert (secret_at tid (sc_user s) (sc_key s))
          (\<lambda>r. r\<lparr>sc_id := sc_id s, sc_value := sc_value s, sc_scope := sc_scope s,
             sc_mode := mode, sc_updated_at := now\<rparr>)
          (s\<lparr>sc_tenant := tid, sc_mode := mode, sc_created_at := created, sc_updated_at := now\<rparr>)
          (d_secrets d)\<rparr>)) w)"

definition get_secret ::
  "string \<Rightarrow> string \<Rightarrow> string \<Rightarrow> world \<Rightarrow> (db_error + secret option) \<times> world" where
  "get_secret tid uid key = db_query (\<lambda>d. find (secret_at tid uid key) (d_secrets d))"

definition secrets_of :: "string \<Rightarrow> string \<Rightarrow> db \<Rightarrow> secret list" where
  "secrets_of tid uid d = sort_key sc_key
     (filter (\<lambda>s. sc_tenant s = tid \<and> (sc_user s = [] \<or> sc_user s = uid)) (d_secrets d))"

definition list_secrets :: "string \<Rightarrow> string \<Rightarrow> world \<Rightarrow> (db_error + secret list) \<times> world" where
  "list_secrets tid uid = db_query (secrets_of tid uid)"

definition delete_secret :: "string \<Rightarrow> string \<Rightarrow> string \<Rightarrow> world \<Rightarrow> (db_error + unit) \<times> world" where
  "delete_secret tid uid key = db_exec (\<lambda>d.
     Inr (d\<lparr>d_secrets := filter (\<lambda>r. \<not> secret_at tid uid key r) (d_secrets d)\<rparr>))"

definition save_secret_token :: "secret_token \<Rightarrow> world \<Rightarrow> (db_error + unit) \<times> world" where
  "save_secret_token t = db_exec (\<lambda>d.
     if list_ex (\<lambda>r. tk_id r = tk_id t) (d_tokens d) then Inl DbConstraint
     else Inr (d\<lparr>d_tokens := d_tokens d @
       [t\<lparr>tk_expires_at := rfc3339 (tk_expires_at t), tk_used := False\<rparr>]\<rparr>))"

definition token_of :: "string \<Rightarrow> db \<Rightarrow> secret_token option" where
  "token_of tid d = find (\<lambda>r. tk_id r = tid) (d_tokens d)"

definition get_secret_token :: "string \<Rightarrow> world \<Rightarrow> (db_error + secret_token option) \<times> world" where
  "get_secret_token tid = db_query (token_of tid)"

definition token_free :: "string \<Rightarrow> secret_token \<Rightarrow> bool" where
  "token_free tid r \<longleftrightarrow> tk_id r = tid \<and> \<not> tk_used r"

definition consume_secret_token :: "string \<Rightarrow> world \<Rightarrow> (db_error + unit) \<times> world" where
  "consume_secret_token tid = db_exec (\<lambda>d.
     if rows_affected (token_free tid) (d_tokens d) = 0 then Inl DbNotApplied
     else Inr (d\<lparr>d_tokens := update_where (token_free tid) (\<lambda>r. r\<lparr>tk_used := True\<rparr>)
       (d_tokens d)\<rparr>))"

section \<open>The error log\<close>

definition append_error_log :: "string \<Rightarrow> error_log_entry \<Rightarrow> world \<Rightarrow> (db_error + unit) \<times> world" where
  "append_error_log tid e w =
     (let (eid, w1) = new_id w;
          at = if is_zero_time (el_created_at e) then w_now w else el_created_at e
      in db_exec (\<lambda>d.
        if list_ex (\<lambda>r. el_id r = eid) (d_errors d) then Inl DbConstraint
        else Inr (d\<lparr>d_errors := d_errors d @
          [e\<lparr>el_id := eid, el_tenant := tid, el_created_at := rfc3339 at\<rparr>]\<rparr>)) w1)"

definition get_error_log ::
  "string \<Rightarrow> string \<Rightarrow> string \<Rightarrow> int \<Rightarrow> world \<Rightarrow> (db_error + error_log_entry list) \<times> world" where
  "get_error_log tid uid ref limit = db_query (\<lambda>d.
     take (nat (if limit \<le> 0 then 50 else limit)) (sort_key (\<lambda>e. - el_created_at e)
       (filter (\<lambda>e. el_tenant e = tid \<and> el_user e = uid \<and> (ref = [] \<or> el_ref_type e = ref))
         (d_errors d))))"

end
