(* ===== verification/Store_Laws.thy ===== *)
theory Store_Laws
  imports Store_Ops
begin

text \<open>
  What the store promises: its key and reference constraints as an invariant of every
  operation, a failed call changes no table, the merge of two users, and the guarded updates
  that make invite codes and secret tokens usable once.
\<close>

section \<open>Calls and transactions\<close>

lemma db_query_world: "db_query q w = (r, w') \<Longrightarrow> w_db w' = w_db w"
  by (auto simp: db_query_def Let_def split: if_splits)

lemma db_exec_error: "db_exec s w = (Inl e, w') \<Longrightarrow> w_db w' = w_db w"
  by (auto simp: db_exec_def Let_def split: if_splits sum.splits)

lemma db_exec_ok: "db_exec s w = (Inr x, w') \<Longrightarrow> s (w_db w) = Inr (w_db w')"
  by (auto simp: db_exec_def Let_def split: if_splits sum.splits)

lemma db_exec_calm: "w_faults w = [] \<Longrightarrow> db_exec s w =
    (case s (w_db w) of Inl e \<Rightarrow> (Inl e, w) | Inr d \<Rightarrow> (Inr (), w\<lparr>w_db := d\<rparr>))"
  by (auto simp: db_exec_def faulty_def Let_def split: sum.splits)

lemma db_query_calm: "w_faults w = [] \<Longrightarrow> db_query q w = (Inr (q (w_db w)), w)"
  by (auto simp: db_query_def faulty_def Let_def)

lemma db_exec_keeps:
  assumes "db_exec s w = (r, w')" "P (w_db w)" "\<And>d. P (w_db w) \<Longrightarrow> s (w_db w) = Inr d \<Longrightarrow> P d"
  shows "P (w_db w')"
  using assms by (auto simp: db_exec_def Let_def split: if_splits sum.splits)

lemma tx_run_keeps:
  assumes "\<And>s d d'. s \<in> set ss \<Longrightarrow> P d \<Longrightarrow> s d = Inr d' \<Longrightarrow> P d'"
  shows "tx_run ss d fs = (Inr d', fs') \<Longrightarrow> P d \<Longrightarrow> P d'"
  using assms by (induction ss d fs rule: tx_run.induct) (auto split: if_splits sum.splits)

lemma db_tx_error: "db_tx ss w = (Inl e, w') \<Longrightarrow> w_db w' = w_db w"
  by (auto simp: db_tx_def split: prod.splits sum.splits)

section \<open>Keys and references\<close>

definition dedup_key :: "message \<Rightarrow> string \<times> string" where
  "dedup_key m = (ms_chat m, ms_ext_message m)"

definition dedup_keys :: "message list \<Rightarrow> (string \<times> string) list" where
  "dedup_keys ms = map dedup_key (filter (\<lambda>m. ms_ext_message m \<noteq> []) ms)"

definition user_key :: "user \<Rightarrow> string \<times> string" where
  "user_key u = (us_tenant u, us_id u)"

definition identity_key :: "user_identity \<Rightarrow> string \<times> string \<times> string" where
  "identity_key i = (ui_tenant i, ui_channel i, ui_external i)"

definition mapping_key :: "tenant_mapping \<Rightarrow> string \<times> string" where
  "mapping_key m = (tm_channel m, tm_external m)"

definition chat_key :: "chat \<Rightarrow> string \<times> string \<times> string" where
  "chat_key c = (ch_tenant c, ch_channel c, ch_external c)"

definition secret_key :: "secret \<Rightarrow> string \<times> string \<times> string" where
  "secret_key s = (sc_tenant s, sc_user s, sc_key s)"

definition db_keys :: "db \<Rightarrow> bool" where
  "db_keys d \<longleftrightarrow> distinct (map tn_id (d_tenants d)) \<and> distinct (map user_key (d_users d))
     \<and> distinct (map identity_key (d_identities d)) \<and> distinct (map mapping_key (d_mappings d))
     \<and> distinct (map ag_id (d_agents d))
     \<and> distinct (map ch_id (d_chats d)) \<and> distinct (map chat_key (d_chats d))
     \<and> distinct (map iv_code (d_invites d)) \<and> distinct (map ms_id (d_messages d))
     \<and> distinct (dedup_keys (d_messages d)) \<and> distinct (map sm_id (d_summaries d))
     \<and> distinct (map ce_id (d_cron d)) \<and> distinct (map cr_id (d_runs d))
     \<and> distinct (map secret_key (d_secrets d)) \<and> distinct (map tk_id (d_tokens d))"

text \<open>A foreign key: every value of a column occurs in the referenced key column.\<close>

definition refs :: "'k list \<Rightarrow> 'k list \<Rightarrow> bool" where
  "refs xs ys \<longleftrightarrow> set xs \<subseteq> set ys"

definition db_refs :: "db \<Rightarrow> bool" where
  "db_refs d \<longleftrightarrow> refs (map us_tenant (d_users d)) (map tn_id (d_tenants d))
     \<and> refs (map (\<lambda>i. (ui_tenant i, ui_user i)) (d_identities d)) (map user_key (d_users d))
     \<and> refs (map tm_tenant (d_mappings d)) (map tn_id (d_tenants d))"

definition db_inv :: "db \<Rightarrow> bool" where
  "db_inv d \<longleftrightarrow> db_keys d \<and> db_refs d"

lemma set_map_upsert:
  assumes "\<And>r. key (upd r) = key r"
  shows "set (map key rows) \<subseteq> set (map key (upsert p upd new rows))"
proof (cases "\<exists>r \<in> set rows. p r")
  case True
  then have "map key (upsert p upd new rows) = map key rows"
    using assms by (simp add: upsert_def)
  then show ?thesis by simp
next
  case False
  then show ?thesis by (auto simp: upsert_def)
qed

lemma refs_upsert_right:
  "refs xs (map key rows) \<Longrightarrow> (\<And>r. key (upd r) = key r) \<Longrightarrow>
   refs xs (map key (upsert p upd new rows))"
  unfolding refs_def by (erule order_trans) (rule set_map_upsert)

lemma refs_where_left:
  assumes "refs (map key rows) ys" "\<And>r. p r \<Longrightarrow> key r \<in> set ys \<Longrightarrow> key (upd r) \<in> set ys"
  shows "refs (map key (update_where p upd rows)) ys"
proof -
  have "key (if p r then upd r else r) \<in> set ys" if "r \<in> set rows" for r
    using assms that by (auto simp: refs_def)
  then show ?thesis by (auto simp: refs_def update_where_def)
qed

lemma refs_upsert_left:
  assumes "refs (map key rows) ys" "\<And>r. p r \<Longrightarrow> key r \<in> set ys \<Longrightarrow> key (upd r) \<in> set ys"
    and "key new \<in> set ys"
  shows "refs (map key (upsert p upd new rows)) ys"
proof (cases "\<exists>r \<in> set rows. p r")
  case True
  then have "upsert p upd new rows = update_where p upd rows"
    by (simp add: upsert_def update_where_def)
  with refs_where_left [OF assms(1,2)] show ?thesis by simp
next
  case False
  with assms(1,3) show ?thesis by (auto simp: upsert_def refs_def)
qed

lemma refs_filter_left: "refs (map key rows) ys \<Longrightarrow> refs (map key (filter p rows)) ys"
  by (auto simp: refs_def)

lemma refs_append_left:
  "refs (map key rows) ys \<Longrightarrow> key new \<in> set ys \<Longrightarrow> refs (map key (rows @ [new])) ys"
  by (auto simp: refs_def)

lemma distinct_map_where:
  "distinct (map key rows) \<Longrightarrow> (\<And>r. key (upd r) = key r) \<Longrightarrow>
   distinct (map key (update_where p upd rows))"
  by (simp add: map_key_update_where)

lemmas key_defs = user_key_def identity_key_def mapping_key_def chat_key_def secret_key_def

lemma list_ex_set: "list_ex p xs \<longleftrightarrow> (\<exists>x \<in> set xs. p x)"
  by (simp add: list_ex_iff)

text \<open>A second key of a table whose rows are found by the first.\<close>

lemma distinct_map_upsert_fresh:
  assumes "distinct (map key rows)" "\<And>r. key (upd r) = key r"
    and "\<not> (\<exists>r \<in> set rows. p r) \<Longrightarrow> key new \<notin> key ` set rows"
  shows "distinct (map key (upsert p upd new rows))"
proof (cases "\<exists>r \<in> set rows. p r")
  case True
  then have "map key (upsert p upd new rows) = map key rows"
    using assms(2) by (simp add: upsert_def)
  with assms(1) show ?thesis by metis
next
  case False
  with assms(1,3) show ?thesis by (auto simp: upsert_def)
qed

lemmas inv_defs = db_inv_def db_keys_def db_refs_def

lemmas inv_intros = distinct_map_upsert distinct_map_where distinct_map_filter
  refs_upsert_right refs_upsert_left refs_where_left refs_filter_left refs_append_left

section \<open>Every operation keeps the keys and references\<close>

lemma save_tenant_inv: "save_tenant tid t w = (r, w') \<Longrightarrow> db_inv (w_db w) \<Longrightarrow> db_inv (w_db w')"
  unfolding save_tenant_def
  by (erule db_exec_keeps, assumption) (auto simp: inv_defs intro!: inv_intros)

lemma delete_tenant_inv: "delete_tenant tid w = (r, w') \<Longrightarrow> db_inv (w_db w) \<Longrightarrow> db_inv (w_db w')"
  unfolding delete_tenant_def
  by (erule db_exec_keeps, assumption) (auto simp: inv_defs map_key_update_where)

lemma save_agent_inv: "save_agent tid t w = (r, w') \<Longrightarrow> db_inv (w_db w) \<Longrightarrow> db_inv (w_db w')"
  unfolding save_agent_def
  by (erule db_exec_keeps, assumption) (auto simp: inv_defs intro!: inv_intros split: if_splits)

lemma save_user_inv: "save_user tid t w = (r, w') \<Longrightarrow> db_inv (w_db w) \<Longrightarrow> db_inv (w_db w')"
  unfolding save_user_def
  by (erule db_exec_keeps, assumption)
    (auto simp: inv_defs key_defs has_tenant_def list_ex_set intro!: inv_intros split: if_splits)

lemma delete_user_inv: "delete_user tid uid w = (r, w') \<Longrightarrow> db_inv (w_db w) \<Longrightarrow> db_inv (w_db w')"
  unfolding delete_user_def
  by (erule db_exec_keeps, assumption) (auto simp: inv_defs key_defs map_key_update_where)

lemma add_user_identity_inv:
  "add_user_identity tid c e u w = (r, w') \<Longrightarrow> db_inv (w_db w) \<Longrightarrow> db_inv (w_db w')"
  unfolding add_user_identity_def
  by (erule db_exec_keeps, assumption)
    (auto simp: inv_defs key_defs has_user_def list_ex_set intro!: inv_intros split: if_splits)

lemma chat_row_inv:
  assumes "db_inv d" "\<not> (\<not> list_ex (chat_at tid chan ext) (d_chats d)
      \<and> list_ex (\<lambda>r. ch_id r = ch_id new) (d_chats d))"
    and "chat_key new = (tid, chan, ext)"
    and "\<And>r. ch_id (upd r) = ch_id r" "\<And>r. chat_key (upd r) = chat_key r"
  shows "db_inv (d\<lparr>d_chats := upsert (chat_at tid chan ext) upd new (d_chats d)\<rparr>)"
proof -
  have "distinct (map ch_id (upsert (chat_at tid chan ext) upd new (d_chats d)))"
    using assms by (intro distinct_map_upsert_fresh) (auto simp: inv_defs list_ex_set)
  moreover have "distinct (map chat_key (upsert (chat_at tid chan ext) upd new (d_chats d)))"
    using assms by (intro distinct_map_upsert) (auto simp: inv_defs chat_at_def chat_key_def)
  ultimately show ?thesis using assms(1) by (simp add: inv_defs)
qed

lemma save_chat_inv:
  assumes "save_chat tid c w = (r, w')" "db_inv (w_db w)"
  shows "db_inv (w_db w')"
proof -
  obtain cid w1 where n: "(if ch_id c = [] then new_id w else (ch_id c, w)) = (cid, w1)" by force
  then have "w_db w1 = w_db w" by (auto simp: new_id_def split: if_splits)
  with assms(2) have "db_inv (w_db w1)" by simp
  with assms(1) n show ?thesis
    unfolding save_chat_def Let_def
    by (simp, elim db_exec_keeps)
      (auto intro!: chat_row_inv simp: chat_key_def simp del: de_Morgan_conj split: if_splits)
qed

lemma dedup_keys_append:
  "dedup_keys (ms @ [m]) = dedup_keys ms @ (if ms_ext_message m = [] then [] else [dedup_key m])"
  by (simp add: dedup_keys_def)

lemma save_message_inv: "save_message m w = (r, w') \<Longrightarrow> db_inv (w_db w) \<Longrightarrow> db_inv (w_db w')"
  unfolding save_message_def
  by (erule db_exec_keeps, assumption)
    (auto simp: inv_defs list_ex_set message_taken_def message_row_def dedup_keys_append
      dedup_key_def dedup_keys_def split: if_splits; blast)

lemma dedup_keys_same:
  assumes "\<And>m. m \<in> set ms \<Longrightarrow> dedup_key (f m) = dedup_key m"
  shows "dedup_keys (map f ms) = dedup_keys ms"
  using assms by (induction ms) (auto simp: dedup_keys_def dedup_key_def)

lemma evict_messages_inv:
  assumes "evict_messages tid conv ids w = (r, w')" "db_inv (w_db w)"
  shows "db_inv (w_db w')"
proof -
  have "db_inv (d\<lparr>d_messages := update_where p (\<lambda>m. m\<lparr>ms_evicted := True\<rparr>) (d_messages d)\<rparr>)"
    if "db_inv d" for d p
    using that dedup_keys_same [of "d_messages d" "\<lambda>m. if p m then m\<lparr>ms_evicted := True\<rparr> else m"]
    by (auto simp: inv_defs map_key_update_where dedup_key_def update_where_def [symmetric])
  then show ?thesis
    using assms unfolding evict_messages_def db_tx_def
    by (auto split: if_splits prod.splits sum.splits)
qed

lemma dedup_keys_update:
  assumes "distinct (dedup_keys ms)" "distinct (map ms_id ms)"
    and free: "ext = [] \<or> (\<forall>m \<in> set ms. ms_id m = mid \<longrightarrow>
      (\<forall>r \<in> set ms. ms_id r = mid \<or> dedup_key r \<noteq> (ms_chat m, ext)))"
  shows "distinct (dedup_keys (update_where (\<lambda>m. ms_id m = mid) (\<lambda>m. m\<lparr>ms_ext_message := ext\<rparr>) ms))"
proof (cases "\<exists>m \<in> set ms. ms_id m = mid")
  case False
  then have "update_where (\<lambda>m. ms_id m = mid) (\<lambda>m. m\<lparr>ms_ext_message := ext\<rparr>) ms = ms"
    by (auto simp: update_where_def intro!: map_idI)
  with assms(1) show ?thesis by simp
next
  case True
  then obtain m xs ys where ms: "ms = xs @ m # ys" "ms_id m = mid"
    by (auto simp: in_set_conv_decomp)
  have others: "\<forall>r \<in> set xs \<union> set ys. ms_id r \<noteq> mid" using assms(2) ms by (force simp: image_iff)
  then have upd: "update_where (\<lambda>m. ms_id m = mid) (\<lambda>m. m\<lparr>ms_ext_message := ext\<rparr>) ms
      = xs @ m\<lparr>ms_ext_message := ext\<rparr> # ys"
    using ms by (auto simp: update_where_def intro!: map_idI)
  have parts: "dedup_keys (as @ x # bs) =
      dedup_keys as @ (if ms_ext_message x = [] then [] else [dedup_key x]) @ dedup_keys bs" for as x bs
    by (simp add: dedup_keys_def)
  have "(ms_chat m, ext) \<notin> dedup_key ` (set xs \<union> set ys)" if "ext \<noteq> []"
    using free that ms others by (auto simp: image_iff; metis)
  then show ?thesis
    using assms(1) ms(1) unfolding upd parts
    by (auto simp: dedup_keys_def dedup_key_def split: if_splits)
qed

lemma update_external_message_id_inv:
  assumes "update_external_message_id mid ext w = (r, w')" "db_inv (w_db w)"
  shows "db_inv (w_db w')"
proof -
  have "db_inv (d\<lparr>d_messages := update_where (\<lambda>m. ms_id m = mid)
      (\<lambda>m. m\<lparr>ms_ext_message := ext\<rparr>) (d_messages d)\<rparr>)"
    if "db_inv d" "\<not> (ext \<noteq> [] \<and> list_ex (\<lambda>m. ms_id m = mid \<and> list_ex (\<lambda>r. ms_id r \<noteq> mid
          \<and> ms_chat r = ms_chat m \<and> ms_ext_message r = ext) (d_messages d)) (d_messages d))" for d
  proof -
    have "distinct (dedup_keys (update_where (\<lambda>m. ms_id m = mid)
        (\<lambda>m. m\<lparr>ms_ext_message := ext\<rparr>) (d_messages d)))"
      using that by (intro dedup_keys_update) (auto simp: inv_defs list_ex_set dedup_key_def)
    then show ?thesis using that(1) by (simp add: inv_defs map_key_update_where)
  qed
  then show ?thesis
    using assms unfolding update_external_message_id_def
    by (elim db_exec_keeps) (auto split: if_splits)
qed

lemma save_summary_inv: "save_summary tid s w = (r, w') \<Longrightarrow> db_inv (w_db w) \<Longrightarrow> db_inv (w_db w')"
  unfolding save_summary_def
  by (erule db_exec_keeps, assumption)
    (auto simp: inv_defs list_ex_set split: if_splits; blast)

lemma append_journal_inv: "append_journal tid e w = (r, w') \<Longrightarrow> db_inv (w_db w) \<Longrightarrow> db_inv (w_db w')"
  unfolding append_journal_def new_id_def Let_def
  by (simp, erule db_exec_keeps) (auto simp: inv_defs split: if_splits)

lemma save_memory_inv: "save_memory tid m w = (r, w') \<Longrightarrow> db_inv (w_db w) \<Longrightarrow> db_inv (w_db w')"
  unfolding save_memory_def Let_def
  by (erule db_exec_keeps, assumption) (auto simp: inv_defs split: if_splits)

lemma save_cron_entry_inv:
  "save_cron_entry tid e w = (r, w') \<Longrightarrow> db_inv (w_db w) \<Longrightarrow> db_inv (w_db w')"
  unfolding save_cron_entry_def Let_def
  by (erule db_exec_keeps, assumption)
    (auto simp: inv_defs list_ex_set split: if_splits; blast)

lemma delete_cron_entry_inv:
  "delete_cron_entry tid eid w = (r, w') \<Longrightarrow> db_inv (w_db w) \<Longrightarrow> db_inv (w_db w')"
  unfolding delete_cron_entry_def
  by (erule db_exec_keeps, assumption) (auto simp: inv_defs intro!: inv_intros)

lemma update_cron_status_inv:
  "update_cron_status tid eid st w = (r, w') \<Longrightarrow> db_inv (w_db w) \<Longrightarrow> db_inv (w_db w')"
  unfolding update_cron_status_def set_cron_status_def
  by (erule db_exec_keeps, assumption) (auto simp: inv_defs map_key_update_where)

lemma update_cron_next_run_inv:
  "update_cron_next_run tid eid nxt w = (r, w') \<Longrightarrow> db_inv (w_db w) \<Longrightarrow> db_inv (w_db w')"
  unfolding update_cron_next_run_def set_cron_next_run_def
  by (erule db_exec_keeps, assumption) (auto simp: inv_defs map_key_update_where)

lemma insert_cron_run_inv:
  "insert_cron_run tid run w = (r, w') \<Longrightarrow> db_inv (w_db w) \<Longrightarrow> db_inv (w_db w')"
  unfolding insert_cron_run_def
  by (erule db_exec_keeps, assumption)
    (auto simp: inv_defs list_ex_set split: if_splits; blast)

lemma update_cron_run_inv:
  "update_cron_run tid rid st err fin w = (r, w') \<Longrightarrow> db_inv (w_db w) \<Longrightarrow> db_inv (w_db w')"
  unfolding update_cron_run_def finish_run_def
  by (erule db_exec_keeps, assumption) (auto simp: inv_defs map_key_update_where)

lemma save_invite_code_inv:
  "save_invite_code c w = (r, w') \<Longrightarrow> db_inv (w_db w) \<Longrightarrow> db_inv (w_db w')"
  unfolding save_invite_code_def
  by (erule db_exec_keeps, assumption)
    (auto simp: inv_defs list_ex_set split: if_splits; blast)

lemma revoke_invite_code_inv:
  "revoke_invite_code c w = (r, w') \<Longrightarrow> db_inv (w_db w) \<Longrightarrow> db_inv (w_db w')"
  unfolding revoke_invite_code_def
  by (erule db_exec_keeps, assumption) (auto simp: inv_defs map_key_update_where)

lemma use_invite_code_inv:
  "use_invite_code c u w = (r, w') \<Longrightarrow> db_inv (w_db w) \<Longrightarrow> db_inv (w_db w')"
  unfolding use_invite_code_def
  by (erule db_exec_keeps, assumption) (auto simp: inv_defs map_key_update_where split: if_splits)

lemma replace_mapping_inv:
  assumes "db_inv d" "has_tenant (tm_tenant m) d"
  shows "db_inv (d\<lparr>d_mappings :=
    filter (\<lambda>r. \<not> mapping_at (tm_channel m) (tm_external m) r) (d_mappings d) @ [m]\<rparr>)"
proof -
  have "refs (map tm_tenant (filter (\<lambda>r. \<not> mapping_at (tm_channel m) (tm_external m) r)
      (d_mappings d) @ [m])) (map tn_id (d_tenants d))"
    using assms by (intro refs_append_left refs_filter_left)
      (force simp: inv_defs has_tenant_def list_ex_set)+
  moreover have "distinct (map mapping_key
      (filter (\<lambda>r. \<not> mapping_at (tm_channel m) (tm_external m) r) (d_mappings d) @ [m]))"
    using assms(1) by (auto simp: inv_defs mapping_at_def mapping_key_def distinct_map_filter)
  ultimately show ?thesis using assms(1) by (simp add: inv_defs)
qed

lemma save_tenant_mapping_inv:
  "save_tenant_mapping m w = (r, w') \<Longrightarrow> db_inv (w_db w) \<Longrightarrow> db_inv (w_db w')"
  unfolding save_tenant_mapping_def
  by (erule db_exec_keeps, assumption) (auto intro: replace_mapping_inv split: if_splits)

lemma delete_tenant_mapping_inv:
  "delete_tenant_mapping c e w = (r, w') \<Longrightarrow> db_inv (w_db w) \<Longrightarrow> db_inv (w_db w')"
  unfolding delete_tenant_mapping_def
  by (erule db_exec_keeps, assumption) (auto simp: inv_defs intro!: inv_intros)

lemma save_secret_inv: "save_secret tid s w = (r, w') \<Longrightarrow> db_inv (w_db w) \<Longrightarrow> db_inv (w_db w')"
  unfolding save_secret_def Let_def
  by (erule db_exec_keeps, assumption)
    (auto simp: inv_defs secret_key_def secret_at_def intro!: distinct_map_upsert split: if_splits)

lemma delete_secret_inv:
  "delete_secret tid uid key w = (r, w') \<Longrightarrow> db_inv (w_db w) \<Longrightarrow> db_inv (w_db w')"
  unfolding delete_secret_def
  by (erule db_exec_keeps, assumption) (auto simp: inv_defs intro!: inv_intros)

lemma save_secret_token_inv:
  "save_secret_token t w = (r, w') \<Longrightarrow> db_inv (w_db w) \<Longrightarrow> db_inv (w_db w')"
  unfolding save_secret_token_def
  by (erule db_exec_keeps, assumption)
    (auto simp: inv_defs list_ex_set split: if_splits; blast)

lemma consume_secret_token_inv:
  "consume_secret_token t w = (r, w') \<Longrightarrow> db_inv (w_db w) \<Longrightarrow> db_inv (w_db w')"
  unfolding consume_secret_token_def
  by (erule db_exec_keeps, assumption) (auto simp: inv_defs map_key_update_where split: if_splits)

lemma append_error_log_inv:
  "append_error_log tid e w = (r, w') \<Longrightarrow> db_inv (w_db w) \<Longrightarrow> db_inv (w_db w')"
  unfolding append_error_log_def new_id_def Let_def
  by (simp, erule db_exec_keeps) (auto simp: inv_defs split: if_splits)

section \<open>Merging two users\<close>

text \<open>The database after the transaction, in closed form.\<close>

definition merged :: "string \<Rightarrow> string \<Rightarrow> string \<Rightarrow> db \<Rightarrow> db" where
  "merged tid src dst d = d\<lparr>
     d_identities := filter (\<lambda>i. \<not> (ui_tenant i = tid \<and> ui_user i = src))
       (update_where (\<lambda>i. ui_tenant i = tid \<and> ui_user i = src) (\<lambda>i. i\<lparr>ui_user := dst\<rparr>)
         (d_identities d)),
     d_messages := update_where (\<lambda>m. ms_tenant m = tid \<and> ms_user m = src)
       (\<lambda>m. m\<lparr>ms_user := dst\<rparr>) (d_messages d),
     d_journal := update_where (\<lambda>e. jr_tenant e = tid \<and> jr_user e = src)
       (\<lambda>e. e\<lparr>jr_user := dst\<rparr>) (d_journal d),
     d_cron := update_where (\<lambda>e. ce_tenant e = tid \<and> ce_user e = src)
       (\<lambda>e. e\<lparr>ce_user := dst\<rparr>) (d_cron d),
     d_errors := update_where (\<lambda>e. el_tenant e = tid \<and> el_user e = src)
       (\<lambda>e. e\<lparr>el_user := dst\<rparr>) (d_errors d),
     d_users := filter (\<lambda>u. \<not> (us_tenant u = tid \<and> us_id u = src)) (d_users d)\<rparr>"

lemma merge_user_result:
  assumes "merge_user tid src dst w = (Inr x, w')"
  shows "w_db w' = merged tid src dst (w_db w) \<and> live_user tid src (w_db w) \<noteq> None
    \<and> live_user tid dst (w_db w) \<noteq> None"
  using assms
  by (auto simp: merge_user_def db_tx_def merge_statements_def require_user_def merged_def
      split: prod.splits sum.splits if_splits)

lemma live_userD: "live_user tid uid d \<noteq> None \<Longrightarrow> (tid, uid) \<in> set (map user_key (d_users d))"
  by (auto simp: live_user_def user_key_def find_None_iff)

lemma merged_inv:
  assumes "db_inv d" "live_user tid dst d \<noteq> None"
  shows "db_inv (merged tid src dst d)"
proof -
  have keys: "db_keys (merged tid src dst d)"
  proof -
    have "dedup_keys (update_where p (\<lambda>m. m\<lparr>ms_user := dst\<rparr>) (d_messages d)) =
        dedup_keys (d_messages d)" for p
      unfolding update_where_def by (rule dedup_keys_same) (simp add: dedup_key_def)
    then show ?thesis
      using assms(1)
      by (auto simp: inv_defs merged_def key_defs map_key_update_where intro!: distinct_map_filter
          distinct_map_where)
  qed
  have "(tid, dst) \<in> set (map user_key (d_users d))" by (rule live_userD [OF assms(2)])
  then have "db_refs (merged tid src dst d)"
    using assms(1)
    by (cases "src = dst") (fastforce simp: inv_defs merged_def refs_def user_key_def
        update_where_def image_subset_iff split: if_splits)+
  with keys show ?thesis by (simp add: db_inv_def)
qed

lemma merge_user_inv:
  assumes "merge_user tid src dst w = (r, w')" "db_inv (w_db w)"
  shows "db_inv (w_db w')"
proof (cases r)
  case (Inl e)
  with assms(1) have "w_db w' = w_db w" by (auto simp: merge_user_def dest: db_tx_error)
  with assms(2) show ?thesis by simp
next
  case (Inr x)
  with assms merge_user_result [of tid src dst w x w'] merged_inv show ?thesis by auto
qed


section \<open>Reachable databases\<close>

text \<open>
  The operations of the store as steps of a machine; between them time passes and the schedule
  of failures is arbitrary.
\<close>

inductive store_step :: "world \<Rightarrow> world \<Rightarrow> bool" where
  Tick: "store_step w (w\<lparr>w_now := t\<rparr>)"
| Faults: "store_step w (w\<lparr>w_faults := fs\<rparr>)"
| Draw: "store_step w (w\<lparr>w_drawn := Suc (w_drawn w)\<rparr>)"
| SaveTenant: "save_tenant tid t w = (r, w') \<Longrightarrow> store_step w w'"
| DeleteTenant: "delete_tenant tid w = (r, w') \<Longrightarrow> store_step w w'"
| SaveAgent: "save_agent tid a w = (r, w') \<Longrightarrow> store_step w w'"
| SaveUser: "save_user tid u w = (r, w') \<Longrightarrow> store_step w w'"
| DeleteUser: "delete_user tid uid w = (r, w') \<Longrightarrow> store_step w w'"
| AddUserIdentity: "add_user_identity tid chan ext uid w = (r, w') \<Longrightarrow> store_step w w'"
| SaveChat: "save_chat tid c w = (r, w') \<Longrightarrow> store_step w w'"
| SaveMessage: "save_message m w = (r, w') \<Longrightarrow> store_step w w'"
| UpdateExternalMessageId: "update_external_message_id mid ext w = (r, w') \<Longrightarrow> store_step w w'"
| EvictMessages: "evict_messages tid conv mids w = (r, w') \<Longrightarrow> store_step w w'"
| SaveSummary: "save_summary tid s w = (r, w') \<Longrightarrow> store_step w w'"
| AppendJournal: "append_journal tid e w = (r, w') \<Longrightarrow> store_step w w'"
| SaveMemory: "save_memory tid mm w = (r, w') \<Longrightarrow> store_step w w'"
| SaveCronEntry: "save_cron_entry tid ce w = (r, w') \<Longrightarrow> store_step w w'"
| DeleteCronEntry: "delete_cron_entry tid eid w = (r, w') \<Longrightarrow> store_step w w'"
| UpdateCronStatus: "update_cron_status tid eid st w = (r, w') \<Longrightarrow> store_step w w'"
| UpdateCronNextRun: "update_cron_next_run tid eid nxt w = (r, w') \<Longrightarrow> store_step w w'"
| InsertCronRun: "insert_cron_run tid run w = (r, w') \<Longrightarrow> store_step w w'"
| UpdateCronRun: "update_cron_run tid rid st err fin w = (r, w') \<Longrightarrow> store_step w w'"
| SaveInviteCode: "save_invite_code code w = (r, w') \<Longrightarrow> store_step w w'"
| RevokeInviteCode: "revoke_invite_code cd w = (r, w') \<Longrightarrow> store_step w w'"
| UseInviteCode: "use_invite_code cd uid w = (r, w') \<Longrightarrow> store_step w w'"
| SaveTenantMapping: "save_tenant_mapping tm w = (r, w') \<Longrightarrow> store_step w w'"
| DeleteTenantMapping: "delete_tenant_mapping chan ext w = (r, w') \<Longrightarrow> store_step w w'"
| MergeUser: "merge_user tid src dst w = (r, w') \<Longrightarrow> store_step w w'"
| SaveSecret: "save_secret tid sec w = (r, w') \<Longrightarrow> store_step w w'"
| DeleteSecret: "delete_secret tid uid key w = (r, w') \<Longrightarrow> store_step w w'"
| SaveSecretToken: "save_secret_token tok w = (r, w') \<Longrightarrow> store_step w w'"
| ConsumeSecretToken: "consume_secret_token tkid w = (r, w') \<Longrightarrow> store_step w w'"
| AppendErrorLog: "append_error_log tid el w = (r, w') \<Longrightarrow> store_step w w'"

lemmas store_op_inv = save_tenant_inv
  delete_tenant_inv
  save_agent_inv
  save_user_inv
  delete_user_inv
  add_user_identity_inv
  save_chat_inv
  save_message_inv
  update_external_message_id_inv
  evict_messages_inv
  save_summary_inv
  append_journal_inv
  save_memory_inv
  save_cron_entry_inv
  delete_cron_entry_inv
  update_cron_status_inv
  update_cron_next_run_inv
  insert_cron_run_inv
  update_cron_run_inv
  save_invite_code_inv
  revoke_invite_code_inv
  use_invite_code_inv
  save_tenant_mapping_inv
  delete_tenant_mapping_inv
  merge_user_inv
  save_secret_inv
  delete_secret_inv
  save_secret_token_inv
  consume_secret_token_inv
  append_error_log_inv

lemma store_step_inv: "store_step w w' \<Longrightarrow> db_inv (w_db w) \<Longrightarrow> db_inv (w_db w')"
  by (induction rule: store_step.induct) (simp_all add: store_op_inv)

lemma empty_db_inv: "db_inv empty_db"
  by (simp add: inv_defs empty_db_def refs_def dedup_keys_def)


definition demo_tenant :: tenant where
  "demo_tenant = \<lparr>tn_id = ''t1'', tn_name = ''Acme'', tn_instructions = [], tn_default_agent = ''a1'',
     tn_join_policy = JoinPolicyOpen, tn_rejection = [], tn_group_mode = GroupModeAll,
     tn_allowed_skills = [], tn_allowed_tools = [], tn_deleted_at = None, tn_created_at = 0\<rparr>"

definition demo_user :: "string \<Rightarrow> user" where
  "demo_user uid = \<lparr>us_id = uid, us_tenant = ''t1'', us_name = ''Ann'', us_preferred_channel = ''c'',
     us_deleted_at = None, us_created_at = 0\<rparr>"

definition demo_world :: world where
  "demo_world = \<lparr>w_db = empty_db, w_now = 0, w_ids = (\<lambda>n. replicate (Suc n) (CHR ''i'')),
     w_drawn = 0, w_faults = []\<rparr>"


end
