(* ===== verification/Store_Contracts.thy ===== *)
theory Store_Contracts
  imports Store_Laws
begin

text \<open>
  Contracts of the store that its clients rest on: codes and tokens that can be spent once, as a
  locale with the store as provider, and what the merge of two users does.
\<close>

section \<open>What leaves the one-shot tables alone\<close>

definition one_shot_tables :: "db \<Rightarrow> invite_code list \<times> secret_token list" where
  "one_shot_tables d = (d_invites d, d_tokens d)"

lemma db_exec_frame:
  assumes "db_exec s w = (r, w')" "\<And>d d'. s d = Inr d' \<Longrightarrow> f d' = f d"
  shows "f (w_db w') = f (w_db w)"
  using assms by (auto simp: db_exec_def Let_def split: if_splits sum.splits)

lemma db_tx_frame:
  assumes "db_tx ss w = (r, w')" "\<And>s d d'. s \<in> set ss \<Longrightarrow> s d = Inr d' \<Longrightarrow> f d' = f d"
  shows "f (w_db w') = f (w_db w)"
proof -
  have "f d' = f d" if "tx_run ([Inr] @ ss @ [Inr]) d fs = (Inr d', fs')" for d d' fs fs'
  proof (rule tx_run_keeps [where P = "\<lambda>x. f x = f d", OF _ that])
    fix s x x'
    assume "s \<in> set ([Inr] @ ss @ [Inr])" "f x = f d" "s x = Inr x'"
    then show "f x' = f d" using assms(2) [of s x x'] by auto
  qed simp
  with assms(1) show ?thesis by (auto simp: db_tx_def simp del: tx_run.simps append.simps split: prod.splits sum.splits)
qed

lemma save_tenant_frame:
  "save_tenant tid t w = (r, w') \<Longrightarrow> one_shot_tables (w_db w') = one_shot_tables (w_db w)"
  unfolding save_tenant_def Let_def
  by (erule db_exec_frame) (auto simp: one_shot_tables_def split: if_splits)

lemma delete_tenant_frame:
  "delete_tenant tid w = (r, w') \<Longrightarrow> one_shot_tables (w_db w') = one_shot_tables (w_db w)"
  unfolding delete_tenant_def Let_def
  by (erule db_exec_frame) (auto simp: one_shot_tables_def split: if_splits)

lemma save_agent_frame:
  "save_agent tid a w = (r, w') \<Longrightarrow> one_shot_tables (w_db w') = one_shot_tables (w_db w)"
  unfolding save_agent_def Let_def
  by (erule db_exec_frame) (auto simp: one_shot_tables_def split: if_splits)

lemma save_user_frame:
  "save_user tid u w = (r, w') \<Longrightarrow> one_shot_tables (w_db w') = one_shot_tables (w_db w)"
  unfolding save_user_def Let_def
  by (erule db_exec_frame) (auto simp: one_shot_tables_def split: if_splits)

lemma delete_user_frame:
  "delete_user tid uid w = (r, w') \<Longrightarrow> one_shot_tables (w_db w') = one_shot_tables (w_db w)"
  unfolding delete_user_def Let_def
  by (erule db_exec_frame) (auto simp: one_shot_tables_def split: if_splits)

lemma add_user_identity_frame:
  "add_user_identity tid chan ext uid w = (r, w') \<Longrightarrow> one_shot_tables (w_db w') = one_shot_tables (w_db w)"
  unfolding add_user_identity_def Let_def
  by (erule db_exec_frame) (auto simp: one_shot_tables_def split: if_splits)

lemma save_chat_frame:
  "save_chat tid c w = (r, w') \<Longrightarrow> one_shot_tables (w_db w') = one_shot_tables (w_db w)"
  unfolding save_chat_def Let_def new_id_def
  by (auto split: prod.splits if_splits dest!: db_exec_frame [where f = one_shot_tables]
      simp: one_shot_tables_def)

lemma save_message_frame:
  "save_message m w = (r, w') \<Longrightarrow> one_shot_tables (w_db w') = one_shot_tables (w_db w)"
  unfolding save_message_def Let_def
  by (erule db_exec_frame) (auto simp: one_shot_tables_def split: if_splits)

lemma update_external_message_id_frame:
  "update_external_message_id mid ext w = (r, w') \<Longrightarrow> one_shot_tables (w_db w') = one_shot_tables (w_db w)"
  unfolding update_external_message_id_def Let_def
  by (erule db_exec_frame) (auto simp: one_shot_tables_def split: if_splits)

lemma evict_messages_frame:
  "evict_messages tid conv mids w = (r, w') \<Longrightarrow> one_shot_tables (w_db w') = one_shot_tables (w_db w)"
  unfolding evict_messages_def
  by (auto split: if_splits elim!: db_tx_frame simp: one_shot_tables_def)

lemma save_summary_frame:
  "save_summary tid s w = (r, w') \<Longrightarrow> one_shot_tables (w_db w') = one_shot_tables (w_db w)"
  unfolding save_summary_def Let_def
  by (erule db_exec_frame) (auto simp: one_shot_tables_def split: if_splits)

lemma append_journal_frame:
  "append_journal tid e w = (r, w') \<Longrightarrow> one_shot_tables (w_db w') = one_shot_tables (w_db w)"
  unfolding append_journal_def new_id_def Let_def
  by (simp, drule db_exec_frame [where f = one_shot_tables])
    (auto simp: one_shot_tables_def split: if_splits)

lemma save_memory_frame:
  "save_memory tid mm w = (r, w') \<Longrightarrow> one_shot_tables (w_db w') = one_shot_tables (w_db w)"
  unfolding save_memory_def Let_def
  by (erule db_exec_frame) (auto simp: one_shot_tables_def split: if_splits)

lemma save_cron_entry_frame:
  "save_cron_entry tid ce w = (r, w') \<Longrightarrow> one_shot_tables (w_db w') = one_shot_tables (w_db w)"
  unfolding save_cron_entry_def Let_def
  by (erule db_exec_frame) (auto simp: one_shot_tables_def split: if_splits)

lemma delete_cron_entry_frame:
  "delete_cron_entry tid eid w = (r, w') \<Longrightarrow> one_shot_tables (w_db w') = one_shot_tables (w_db w)"
  unfolding delete_cron_entry_def Let_def
  by (erule db_exec_frame) (auto simp: one_shot_tables_def split: if_splits)

lemma update_cron_status_frame:
  "update_cron_status tid eid st w = (r, w') \<Longrightarrow> one_shot_tables (w_db w') = one_shot_tables (w_db w)"
  unfolding update_cron_status_def set_cron_status_def Let_def
  by (erule db_exec_frame) (auto simp: one_shot_tables_def split: if_splits)

lemma update_cron_next_run_frame:
  "update_cron_next_run tid eid nxt w = (r, w') \<Longrightarrow> one_shot_tables (w_db w') = one_shot_tables (w_db w)"
  unfolding update_cron_next_run_def set_cron_next_run_def Let_def
  by (erule db_exec_frame) (auto simp: one_shot_tables_def split: if_splits)

lemma insert_cron_run_frame:
  "insert_cron_run tid run w = (r, w') \<Longrightarrow> one_shot_tables (w_db w') = one_shot_tables (w_db w)"
  unfolding insert_cron_run_def Let_def
  by (erule db_exec_frame) (auto simp: one_shot_tables_def split: if_splits)

lemma update_cron_run_frame:
  "update_cron_run tid rid st err fin w = (r, w') \<Longrightarrow> one_shot_tables (w_db w') = one_shot_tables (w_db w)"
  unfolding update_cron_run_def finish_run_def Let_def
  by (erule db_exec_frame) (auto simp: one_shot_tables_def split: if_splits)

lemma save_tenant_mapping_frame:
  "save_tenant_mapping tm w = (r, w') \<Longrightarrow> one_shot_tables (w_db w') = one_shot_tables (w_db w)"
  unfolding save_tenant_mapping_def Let_def
  by (erule db_exec_frame) (auto simp: one_shot_tables_def split: if_splits)

lemma delete_tenant_mapping_frame:
  "delete_tenant_mapping chan ext w = (r, w') \<Longrightarrow> one_shot_tables (w_db w') = one_shot_tables (w_db w)"
  unfolding delete_tenant_mapping_def Let_def
  by (erule db_exec_frame) (auto simp: one_shot_tables_def split: if_splits)

lemma merge_user_frame:
  "merge_user tid src dst w = (r, w') \<Longrightarrow> one_shot_tables (w_db w') = one_shot_tables (w_db w)"
  unfolding merge_user_def merge_statements_def require_user_def
  by (erule db_tx_frame) (auto simp: one_shot_tables_def split: if_splits)

lemma save_secret_frame:
  "save_secret tid sec w = (r, w') \<Longrightarrow> one_shot_tables (w_db w') = one_shot_tables (w_db w)"
  unfolding save_secret_def Let_def
  by (erule db_exec_frame) (auto simp: one_shot_tables_def split: if_splits)

lemma delete_secret_frame:
  "delete_secret tid uid key w = (r, w') \<Longrightarrow> one_shot_tables (w_db w') = one_shot_tables (w_db w)"
  unfolding delete_secret_def Let_def
  by (erule db_exec_frame) (auto simp: one_shot_tables_def split: if_splits)

lemma append_error_log_frame:
  "append_error_log tid el w = (r, w') \<Longrightarrow> one_shot_tables (w_db w') = one_shot_tables (w_db w)"
  unfolding append_error_log_def new_id_def Let_def
  by (simp, drule db_exec_frame [where f = one_shot_tables])
    (auto simp: one_shot_tables_def split: if_splits)

lemmas one_shot_frame = save_tenant_frame
  delete_tenant_frame
  save_agent_frame
  save_user_frame
  delete_user_frame
  add_user_identity_frame
  save_chat_frame
  save_message_frame
  update_external_message_id_frame
  evict_messages_frame
  save_summary_frame
  append_journal_frame
  save_memory_frame
  save_cron_entry_frame
  delete_cron_entry_frame
  update_cron_status_frame
  update_cron_next_run_frame
  insert_cron_run_frame
  update_cron_run_frame
  save_tenant_mapping_frame
  delete_tenant_mapping_frame
  merge_user_frame
  save_secret_frame
  delete_secret_frame
  append_error_log_frame

section \<open>Codes and tokens are spent once\<close>

locale one_shot =
  fixes spend :: "'k \<Rightarrow> 'u \<Rightarrow> world \<Rightarrow> (db_error + unit) \<times> world"
    and proper :: "'u \<Rightarrow> bool"
    and spent :: "'k \<Rightarrow> db \<Rightarrow> bool"
  assumes marks: "spend k u w = (Inr x, w') \<Longrightarrow> proper u \<Longrightarrow> spent k (w_db w')"
    and refuses: "spent k (w_db w) \<Longrightarrow> \<exists>e. fst (spend k u w) = Inl e"
    and lasting: "store_step w w' \<Longrightarrow> spent k (w_db w) \<Longrightarrow> spent k (w_db w')"
begin

lemma lasting_steps: "store_step\<^sup>*\<^sup>* w w' \<Longrightarrow> spent k (w_db w) \<Longrightarrow> spent k (w_db w')"
  by (induction rule: rtranclp_induct) (auto intro: lasting)

lemma once:
  assumes "spend k u w = (Inr x, w1)" "proper u" "store_step\<^sup>*\<^sup>* w1 w2"
  shows "\<exists>e. fst (spend k u' w2) = Inl e"
  using refuses lasting_steps [OF assms(3) marks [OF assms(1,2)]] by blast

end

definition code_spent :: "string \<Rightarrow> db \<Rightarrow> bool" where
  "code_spent code d \<longleftrightarrow>
     list_ex (\<lambda>r. iv_code r = code) (d_invites d) \<and> \<not> list_ex (code_free code) (d_invites d)"

definition token_spent :: "string \<Rightarrow> db \<Rightarrow> bool" where
  "token_spent tid d \<longleftrightarrow>
     list_ex (\<lambda>r. tk_id r = tid) (d_tokens d) \<and> \<not> list_ex (token_free tid) (d_tokens d)"

lemma spent_frame:
  assumes "one_shot_tables (w_db w') = one_shot_tables (w_db w)"
  shows "code_spent k (w_db w) \<Longrightarrow> code_spent k (w_db w')"
    and "token_spent k (w_db w) \<Longrightarrow> token_spent k (w_db w')"
  using assms by (simp_all add: one_shot_tables_def code_spent_def token_spent_def)

lemma rows_affected_0: "rows_affected p rows = 0 \<longleftrightarrow> \<not> list_ex p rows"
  by (auto simp: rows_affected_def filter_empty_conv list_ex_iff)

lemma list_ex_update_where:
  "list_ex p (update_where q upd rows) \<longleftrightarrow> list_ex (\<lambda>r. p (if q r then upd r else r)) rows"
  by (induction rows) (simp_all add: update_where_def)

lemma list_ex_weaken: "list_ex p rows \<Longrightarrow> (\<And>r. p r \<Longrightarrow> q r) \<Longrightarrow> list_ex q rows"
  by (auto simp: list_ex_iff)

lemma code_spent_update:
  assumes "code_spent k d" "\<And>r. iv_code (upd r) = iv_code r"
    and "\<And>r. p r \<Longrightarrow> code_free k (upd r) \<Longrightarrow> code_free k r"
  shows "code_spent k (d\<lparr>d_invites := update_where p upd (d_invites d)\<rparr>)"
proof -
  have "list_ex (\<lambda>r. iv_code (if p r then upd r else r) = k) (d_invites d)"
    using assms(1,2) by (auto simp: code_spent_def elim!: list_ex_weaken)
  moreover have "\<not> list_ex (\<lambda>r. code_free k (if p r then upd r else r)) (d_invites d)"
  proof
    assume "list_ex (\<lambda>r. code_free k (if p r then upd r else r)) (d_invites d)"
    then have "list_ex (code_free k) (d_invites d)"
      by (rule list_ex_weaken) (use assms(3) in \<open>simp split: if_split_asm\<close>)
    with assms(1) show False by (simp add: code_spent_def)
  qed
  ultimately show ?thesis by (simp add: code_spent_def list_ex_update_where)
qed

lemma token_spent_update:
  assumes "token_spent k d" "\<And>r. tk_id (upd r) = tk_id r"
    and "\<And>r. p r \<Longrightarrow> token_free k (upd r) \<Longrightarrow> token_free k r"
  shows "token_spent k (d\<lparr>d_tokens := update_where p upd (d_tokens d)\<rparr>)"
proof -
  have "list_ex (\<lambda>r. tk_id (if p r then upd r else r) = k) (d_tokens d)"
    using assms(1,2) by (auto simp: token_spent_def elim!: list_ex_weaken)
  moreover have "\<not> list_ex (\<lambda>r. token_free k (if p r then upd r else r)) (d_tokens d)"
  proof
    assume "list_ex (\<lambda>r. token_free k (if p r then upd r else r)) (d_tokens d)"
    then have "list_ex (token_free k) (d_tokens d)"
      by (rule list_ex_weaken) (use assms(3) in \<open>simp split: if_split_asm\<close>)
    with assms(1) show False by (simp add: token_spent_def)
  qed
  ultimately show ?thesis by (simp add: token_spent_def list_ex_update_where)
qed

lemma code_spent_append:
  assumes "code_spent k d" "\<not> list_ex (\<lambda>r. iv_code r = iv_code c) (d_invites d)"
  shows "code_spent k (d\<lparr>d_invites := d_invites d @ [c]\<rparr>)"
proof -
  have "iv_code c \<noteq> k" using assms by (fastforce simp: code_spent_def list_ex_iff)
  with assms(1) show ?thesis by (simp add: code_spent_def code_free_def)
qed

lemma token_spent_append:
  assumes "token_spent k d" "\<not> list_ex (\<lambda>r. tk_id r = tk_id t) (d_tokens d)"
  shows "token_spent k (d\<lparr>d_tokens := d_tokens d @ [t]\<rparr>)"
proof -
  have "tk_id t \<noteq> k" using assms by (fastforce simp: token_spent_def list_ex_iff)
  with assms(1) show ?thesis by (simp add: token_spent_def token_free_def)
qed

lemma code_spent_step: "store_step w w' \<Longrightarrow> code_spent k (w_db w) \<Longrightarrow> code_spent k (w_db w')"
proof (induction rule: store_step.induct)
  case (SaveInviteCode code w r w')
  then show ?case unfolding save_invite_code_def
    by (elim db_exec_keeps) (auto intro!: code_spent_append split: if_splits)
next
  case (RevokeInviteCode cd w r w')
  then show ?case unfolding revoke_invite_code_def
    by (elim db_exec_keeps)
      (auto intro!: code_spent_update simp: code_free_def split: if_splits)
next
  case (UseInviteCode cd uid w r w')
  then show ?case unfolding use_invite_code_def
    by (elim db_exec_keeps)
      (auto intro!: code_spent_update simp: code_free_def split: if_splits)
next
  case (SaveSecretToken tok w r w')
  then show ?case unfolding save_secret_token_def
    by (elim db_exec_keeps) (auto simp: code_spent_def split: if_splits)
next
  case (ConsumeSecretToken tkid w r w')
  then show ?case unfolding consume_secret_token_def
    by (elim db_exec_keeps) (auto simp: code_spent_def split: if_splits)
qed (simp | (drule one_shot_frame, erule spent_frame, assumption))+

lemma token_spent_step: "store_step w w' \<Longrightarrow> token_spent k (w_db w) \<Longrightarrow> token_spent k (w_db w')"
proof (induction rule: store_step.induct)
  case (SaveSecretToken tok w r w')
  then show ?case unfolding save_secret_token_def
    by (elim db_exec_keeps) (auto intro!: token_spent_append split: if_splits)
next
  case (ConsumeSecretToken tkid w r w')
  then show ?case unfolding consume_secret_token_def
    by (elim db_exec_keeps)
      (auto intro!: token_spent_update simp: token_free_def split: if_splits)
next
  case (SaveInviteCode code w r w')
  then show ?case unfolding save_invite_code_def
    by (elim db_exec_keeps) (auto simp: token_spent_def split: if_splits)
next
  case (RevokeInviteCode cd w r w')
  then show ?case unfolding revoke_invite_code_def
    by (elim db_exec_keeps) (auto simp: token_spent_def)
next
  case (UseInviteCode cd uid w r w')
  then show ?case unfolding use_invite_code_def
    by (elim db_exec_keeps) (auto simp: token_spent_def split: if_splits)
qed (simp | (drule one_shot_frame, erule spent_frame, assumption))+

interpretation invite: one_shot use_invite_code "\<lambda>u. u \<noteq> []" code_spent
proof
  fix k u w x w'
  assume use: "use_invite_code k u w = (Inr x, w')" and u: "u \<noteq> []"
  have d: "list_ex (code_free k) (d_invites (w_db w))" "d_invites (w_db w') =
      update_where (code_free k) (\<lambda>r. r\<lparr>iv_used_by := u\<rparr>) (d_invites (w_db w))"
    using db_exec_ok [OF use [unfolded use_invite_code_def]]
    by (auto simp: rows_affected_0 split: if_splits dest: sym)
  have "list_ex (\<lambda>r. iv_code r = k) (d_invites (w_db w'))"
    using d by (auto simp: list_ex_update_where code_free_def elim: list_ex_weaken)
  moreover have "\<not> list_ex (code_free k) (d_invites (w_db w'))"
    unfolding d(2) list_ex_update_where using u by (auto simp: list_ex_iff code_free_def split: if_splits)
  ultimately show "code_spent k (w_db w')" by (simp add: code_spent_def)
next
  fix k u :: string and w :: world
  assume "code_spent k (w_db w)"
  then show "\<exists>e. fst (use_invite_code k u w) = Inl e"
    by (auto simp: code_spent_def use_invite_code_def db_exec_def rows_affected_0 Let_def)
qed (rule code_spent_step)

interpretation token: one_shot "\<lambda>k (u::unit). consume_secret_token k" "\<lambda>u. True" token_spent
proof
  fix k w x w'
  assume use: "consume_secret_token k w = (Inr x, w')"
  have d: "list_ex (token_free k) (d_tokens (w_db w))" "d_tokens (w_db w') =
      update_where (token_free k) (\<lambda>r. r\<lparr>tk_used := True\<rparr>) (d_tokens (w_db w))"
    using db_exec_ok [OF use [unfolded consume_secret_token_def]]
    by (auto simp: rows_affected_0 split: if_splits dest: sym)
  have "list_ex (\<lambda>r. tk_id r = k) (d_tokens (w_db w'))"
    using d by (auto simp: list_ex_update_where token_free_def elim: list_ex_weaken)
  moreover have "\<not> list_ex (token_free k) (d_tokens (w_db w'))"
    unfolding d(2) list_ex_update_where by (auto simp: list_ex_iff token_free_def split: if_splits)
  ultimately show "token_spent k (w_db w')" by (simp add: token_spent_def)
next
  fix k :: string and w :: world
  assume "token_spent k (w_db w)"
  then show "\<exists>e. fst (consume_secret_token k w) = Inl e"
    by (auto simp: token_spent_def consume_secret_token_def db_exec_def rows_affected_0 Let_def)
qed (rule token_spent_step)

text \<open>
  C4: an invite code is redeemed at most once: after a successful redemption by a user with a
  non-empty ID, every later redemption fails, whatever the store does in between (other
  redemptions, revocations, merges, new codes, failing calls).
\<close>

theorem invite_code_single_use:
  assumes "use_invite_code code u w = (Inr x, w1)" "u \<noteq> []" "store_step\<^sup>*\<^sup>* w1 w2"
  shows "\<exists>e. fst (use_invite_code code u' w2) = Inl e"
  by (rule invite.once [OF assms])

definition demo_code :: "string \<Rightarrow> invite_code" where
  "demo_code typ = \<lparr>iv_code = ''ABCD-1234'', iv_type = typ, iv_tenant = ''t1'', iv_target = [],
     iv_used_by = [], iv_created_at = 0, iv_revoked_at = None\<rparr>"

theorem invite_code_single_use_witness:
  "\<exists>w1. use_invite_code ''ABCD-1234'' ''u1''
       (demo_world\<lparr>w_db := empty_db\<lparr>d_invites := [demo_code ''user'']\<rparr>\<rparr>) = (Inr (), w1)
     \<and> (\<exists>e. fst (use_invite_code ''ABCD-1234'' ''u2'' (w1\<lparr>w_now := 5\<rparr>)) = Inl e)"
proof -
  let ?w = "demo_world\<lparr>w_db := empty_db\<lparr>d_invites := [demo_code ''user'']\<rparr>\<rparr>"
  define w1 where "w1 = snd (use_invite_code ''ABCD-1234'' ''u1'' ?w)"
  have "fst (use_invite_code ''ABCD-1234'' ''u1'' ?w) = Inr ()" by code_simp
  then have use: "use_invite_code ''ABCD-1234'' ''u1'' ?w = (Inr (), w1)"
    by (simp add: w1_def prod_eq_iff)
  have "store_step\<^sup>*\<^sup>* w1 (w1\<lparr>w_now := 5\<rparr>)" by (blast intro: store_step.intros)
  from invite_code_single_use [OF use _ this] use show ?thesis by auto
qed

text \<open>
  A secret token is consumed at most once: after a successful consumption every later one
  fails, whatever the store does in between.
\<close>

theorem secret_token_single_use:
  assumes "consume_secret_token tk w = (Inr x, w1)" "store_step\<^sup>*\<^sup>* w1 w2"
  shows "\<exists>e. fst (consume_secret_token tk w2) = Inl e"
  by (rule token.once [OF assms(1) TrueI assms(2)])

definition demo_token :: secret_token where
  "demo_token = \<lparr>tk_id = ''tok'', tk_keys = [''API_KEY''], tk_modes = [], tk_tenant = ''t1'',
     tk_user = ''u1'', tk_conv = [], tk_chat = [], tk_expires_at = 900 * nanos, tk_used = False\<rparr>"

theorem secret_token_single_use_witness:
  "\<exists>w1. consume_secret_token ''tok''
       (demo_world\<lparr>w_db := empty_db\<lparr>d_tokens := [demo_token]\<rparr>\<rparr>) = (Inr (), w1)
     \<and> (\<exists>e. fst (consume_secret_token ''tok'' (w1\<lparr>w_now := 5\<rparr>)) = Inl e)"
proof -
  let ?w = "demo_world\<lparr>w_db := empty_db\<lparr>d_tokens := [demo_token]\<rparr>\<rparr>"
  define w1 where "w1 = snd (consume_secret_token ''tok'' ?w)"
  have "fst (consume_secret_token ''tok'' ?w) = Inr ()" by code_simp
  then have use: "consume_secret_token ''tok'' ?w = (Inr (), w1)"
    by (simp add: w1_def prod_eq_iff)
  have "store_step\<^sup>*\<^sup>* w1 (w1\<lparr>w_now := 5\<rparr>)" by (blast intro: store_step.intros)
  from secret_token_single_use [OF use this] use show ?thesis by auto
qed

section \<open>After a merge\<close>

lemma merged_identities:
  assumes "src \<noteq> dst"
  shows "d_identities (merged tid src dst d) =
    map (\<lambda>i. if ui_tenant i = tid \<and> ui_user i = src then i\<lparr>ui_user := dst\<rparr> else i) (d_identities d)"
proof -
  have "filter (\<lambda>i. \<not> (ui_tenant i = tid \<and> ui_user i = src)) (map (\<lambda>i. if ui_tenant i = tid
      \<and> ui_user i = src then i\<lparr>ui_user := dst\<rparr> else i) xs) =
    map (\<lambda>i. if ui_tenant i = tid \<and> ui_user i = src then i\<lparr>ui_user := dst\<rparr> else i) xs" for xs
    using assms by (induction xs) auto
  then show ?thesis by (simp add: merged_def update_where_def)
qed

lemma identity_of_merged:
  assumes "src \<noteq> dst"
  shows "identity_of t chan ext (merged tid src dst d) =
    map_option (\<lambda>i. if ui_tenant i = tid \<and> ui_user i = src then i\<lparr>ui_user := dst\<rparr> else i)
      (identity_of t chan ext d)"
proof -
  have "find q (map f xs) = map_option f (find q xs)" if "\<And>x. q (f x) = q x" for q f and xs :: "user_identity list"
    using that by (induction xs) auto
  then show ?thesis unfolding identity_of_def merged_identities [OF assms] by simp
qed

lemma live_user_merged:
  "live_user t u (merged tid src dst d) = (if t = tid \<and> u = src then None else live_user t u d)"
proof -
  have "find q (filter p xs) = find (\<lambda>x. p x \<and> q x) xs" for q p and xs :: "user list"
    by (induction xs) auto
  then show ?thesis
    by (auto simp: live_user_def merged_def find_None_iff intro!: arg_cong [where f = "\<lambda>p. find p _"])
qed

lemma none_left:
  "(\<And>r. f (upd r) = b) \<Longrightarrow> a \<noteq> b \<Longrightarrow>
   list_all (\<lambda>r. t r = tid \<longrightarrow> f r \<noteq> a) (update_where (\<lambda>r. t r = tid \<and> f r = a) upd rows)"
  by (induction rows) (simp_all add: update_where_def)

text \<open>
  C5: \<open>MergeUser\<close> of two different users either fails and changes no table, or removes the
  source user, makes every channel identity of the source resolve to the target, leaves all
  other resolutions alone, and reassigns the source's messages, journal, scheduled tasks and
  error log; chats, secrets and memories are not touched and keep the source's ID.
\<close>

theorem merge_user_reassigns:
  assumes "src \<noteq> dst" "merge_user tid src dst w = (r, w')"
  shows "case r of Inl e \<Rightarrow> w_db w' = w_db w
    | Inr _ \<Rightarrow> live_user tid src (w_db w') = None
      \<and> (\<forall>t chan ext. user_by_channel t chan ext (w_db w') =
          (case user_by_channel t chan ext (w_db w) of None \<Rightarrow> None
           | Some u \<Rightarrow> if t = tid \<and> us_id u = src then live_user tid dst (w_db w) else Some u))
      \<and> list_all (\<lambda>m. \<not> (ms_tenant m = tid \<and> ms_user m = src)) (d_messages (w_db w'))
      \<and> list_all (\<lambda>e. \<not> (jr_tenant e = tid \<and> jr_user e = src)) (d_journal (w_db w'))
      \<and> list_all (\<lambda>e. \<not> (ce_tenant e = tid \<and> ce_user e = src)) (d_cron (w_db w'))
      \<and> list_all (\<lambda>e. \<not> (el_tenant e = tid \<and> el_user e = src)) (d_errors (w_db w'))
      \<and> d_chats (w_db w') = d_chats (w_db w) \<and> d_secrets (w_db w') = d_secrets (w_db w)
      \<and> d_memories (w_db w') = d_memories (w_db w)"
proof (cases r)
  case (Inl e)
  with assms(2) show ?thesis by (auto simp: merge_user_def dest: db_tx_error)
next
  case (Inr x)
  with assms(2) have m: "w_db w' = merged tid src dst (w_db w)"
    using merge_user_result [of tid src dst w x w'] by simp
  have live: "us_id u = uid \<and> us_tenant u = t" if "live_user t uid d = Some u" for t uid d u
    using that by (auto simp: live_user_def dest: find_SomeD)
  have idt: "ui_tenant i = t" if "identity_of t chan ext d = Some i" for t chan ext d i
    using that by (auto simp: identity_of_def dest: find_SomeD)
  have other: "live_user tid dst (w_db w') = live_user tid dst (w_db w)"
    using assms(1) by (simp add: m live_user_merged)
  have src: "live_user tid src (w_db w) \<noteq> None"
    using assms(2) Inr merge_user_result [of tid src dst w x w'] by simp
  have "user_by_channel t chan ext (w_db w') =
      (case user_by_channel t chan ext (w_db w) of None \<Rightarrow> None
       | Some u \<Rightarrow> if t = tid \<and> us_id u = src then live_user tid dst (w_db w) else Some u)" for t chan ext
  proof (cases "identity_of t chan ext (w_db w)")
    case None
    then show ?thesis using assms(1) by (simp add: user_by_channel_def m identity_of_merged)
  next
    case (Some i)
    note i = Some idt [OF Some]
    show ?thesis
    proof (cases "t = tid \<and> ui_user i = src")
      case True
      from src obtain u where "live_user tid src (w_db w) = Some u" by blast
      with True i assms(1) live [OF this] other show ?thesis
        by (simp add: user_by_channel_def m identity_of_merged)
    next
      case False
      then have "user_by_channel t chan ext (w_db w') = live_user t (ui_user i) (w_db w)"
        using i assms(1) by (auto simp: user_by_channel_def m identity_of_merged live_user_merged)
      with False i live show ?thesis
        by (cases "live_user t (ui_user i) (w_db w)") (auto simp: user_by_channel_def)
    qed
  qed
  moreover have "live_user tid src (w_db w') = None" by (simp add: m live_user_merged)
  moreover have "list_all (\<lambda>r. ms_tenant r = tid \<longrightarrow> ms_user r \<noteq> src) (d_messages (w_db w'))"
    "list_all (\<lambda>r. jr_tenant r = tid \<longrightarrow> jr_user r \<noteq> src) (d_journal (w_db w'))"
    "list_all (\<lambda>r. ce_tenant r = tid \<longrightarrow> ce_user r \<noteq> src) (d_cron (w_db w'))"
    "list_all (\<lambda>r. el_tenant r = tid \<longrightarrow> el_user r \<noteq> src) (d_errors (w_db w'))"
    using assms(1) by (simp_all add: m merged_def none_left [where b = dst])
  ultimately show ?thesis using Inr by (simp add: m merged_def)
qed

theorem merge_user_reassigns_witness:
  "\<exists>w'. merge_user ''t1'' ''u1'' ''u2''
       (demo_world\<lparr>w_db := empty_db\<lparr>d_tenants := [demo_tenant],
          d_users := [demo_user ''u1'', demo_user ''u2'']\<rparr>\<rparr>) = (Inr (), w')
     \<and> live_user ''t1'' ''u1'' (w_db w') = None"
proof -
  let ?w = "demo_world\<lparr>w_db := empty_db\<lparr>d_tenants := [demo_tenant],
    d_users := [demo_user ''u1'', demo_user ''u2'']\<rparr>\<rparr>"
  obtain r w' where m: "merge_user ''t1'' ''u1'' ''u2'' ?w = (r, w')" by fastforce
  have "fst (merge_user ''t1'' ''u1'' ''u2'' ?w) = Inr ()" by code_simp
  with m merge_user_reassigns [OF _ m] show ?thesis by auto
qed

end
