(* ===== verification/Bus.thy ===== *)
theory Bus
  imports Entities
begin

text \<open>
  The in-memory transport, \<open>pkg/plugins/transport/memory\<close>: one bounded queue per topic, filled
  by \<open>Publish\<close> and drained by one dispatch goroutine, which hands each message to the topic's
  subscribers in order and swallows their errors and panics. Set-up (\<open>Init\<close>, \<open>Subscribe\<close>,
  \<open>SetMiddleware\<close>, \<open>Start\<close>) is sequential; \<open>Publish\<close>, \<open>Stop\<close> and the dispatchers run
  concurrently, so they are steps of a machine. A publisher reads the stop flag in one step
  and sends in a later one.
\<close>

abbreviation "TopicInbound \<equiv> ''inbound''"
abbreviation "TopicOutbound \<equiv> ''outbound''"

text \<open>\<open>'h\<close> is the type of handlers; the bus only stores, wraps and calls them.\<close>

record 'h bus =
  b_queue :: "string \<Rightarrow> message list option"
  b_cap :: nat
  b_subs :: "string \<Rightarrow> 'h list"
  b_mws :: "('h \<Rightarrow> 'h) list"
  b_started :: bool
  b_stopped :: bool
  b_closed :: bool

datatype bus_error = BusStopped | UnknownTopic string | AlreadyStarted | CtxDone

definition new_bus :: "'h bus" where
  "new_bus = \<lparr>b_queue = (\<lambda>_. None), b_cap = 0, b_subs = (\<lambda>_. []), b_mws = [],
     b_started = False, b_stopped = False, b_closed = False\<rparr>"

definition default_queue_size :: nat where "default_queue_size = 256"

text \<open>\<open>Init\<close> with the queue size the configuration gives.\<close>

definition bus_init :: "int \<Rightarrow> 'h bus \<Rightarrow> 'h bus" where
  "bus_init qsize b = b\<lparr>b_cap := (if qsize \<le> 0 then default_queue_size else nat qsize),
     b_queue := (b_queue b)(TopicInbound := Some [], TopicOutbound := Some [])\<rparr>"

definition set_middleware :: "('h \<Rightarrow> 'h) list \<Rightarrow> 'h bus \<Rightarrow> 'h bus" where
  "set_middleware mws b = (if b_started b then b else b\<lparr>b_mws := mws\<rparr>)"

text \<open>The loop of \<open>Subscribe\<close>, from the last middleware down to the first.\<close>

definition wrap_handler :: "('h \<Rightarrow> 'h) list \<Rightarrow> 'h \<Rightarrow> 'h" where
  "wrap_handler mws h = fold (\<lambda>i wrapped. (mws ! i) wrapped) (rev [0..<length mws]) h"

definition subscribe :: "string \<Rightarrow> 'h \<Rightarrow> 'h bus \<Rightarrow> (bus_error + unit) \<times> 'h bus" where
  "subscribe topic h b =
     (if b_started b then (Inl AlreadyStarted, b)
      else if topic \<noteq> TopicInbound \<and> topic \<noteq> TopicOutbound then (Inl (UnknownTopic topic), b)
      else (Inr (), b\<lparr>b_subs := (b_subs b)(topic := b_subs b topic @ [wrap_handler (b_mws b) h])\<rparr>))"

text \<open>
  \<open>Unsubscribe\<close> compares \<open>&h == &handler\<close>: the addresses of the loop variable and of the
  parameter, which are two different variables, so the test is false for every subscriber.
\<close>

definition same_variable :: "'h \<Rightarrow> 'h \<Rightarrow> bool" where
  "same_variable h handler = False"

definition unsubscribe :: "string \<Rightarrow> 'h \<Rightarrow> 'h bus \<Rightarrow> (bus_error + unit) \<times> 'h bus" where
  "unsubscribe topic handler b =
     (if b_started b then (Inl AlreadyStarted, b)
      else if topic \<noteq> TopicInbound \<and> topic \<noteq> TopicOutbound then (Inl (UnknownTopic topic), b)
      else let subs = b_subs b topic
           in case find (\<lambda>i. same_variable (subs ! i) handler) [0..<length subs] of
                None \<Rightarrow> (Inr (), b)
              | Some i \<Rightarrow>
                  (Inr (), b\<lparr>b_subs := (b_subs b)(topic := take i subs @ drop (Suc i) subs)\<rparr>))"

definition bus_start :: "'h bus \<Rightarrow> (bus_error + unit) \<times> 'h bus" where
  "bus_start b = (if b_started b then (Inl AlreadyStarted, b) else (Inr (), b\<lparr>b_started := True\<rparr>))"

text \<open>
  \<open>Publish\<close> by a caller that no one races: a full queue makes it wait, and with nobody
  draining it the context ends the wait.
\<close>

definition publish :: "string \<Rightarrow> message \<Rightarrow> 'h bus \<Rightarrow> (bus_error + unit) \<times> 'h bus" where
  "publish topic m b =
     (if b_stopped b then (Inl BusStopped, b)
      else case b_queue b topic of
        None \<Rightarrow> (Inl (UnknownTopic topic), b)
      | Some q \<Rightarrow>
          if length q < b_cap b
          then (Inr (), b\<lparr>b_queue := (b_queue b)(topic \<mapsto> q @ [m])\<rparr>)
          else (Inl CtxDone, b))"

section \<open>The concurrent machine\<close>

text \<open>
  A publisher is between its check and its send, or done. The history records what each topic
  accepted, what its dispatcher took, and each call of a handler.
\<close>

datatype pub_result = PubOk | PubErr bus_error | PubPanic

record 'h bus_run =
  r_bus :: "'h bus"
  r_sending :: "(string \<times> message) list"
  r_results :: "(message \<times> pub_result) list"
  r_accepted :: "string \<Rightarrow> message list"
  r_taken :: "string \<Rightarrow> message list"
  r_calls :: "(string \<times> 'h \<times> message) list"

definition run_init :: "'h bus \<Rightarrow> 'h bus_run" where
  "run_init b = \<lparr>r_bus = b, r_sending = [], r_results = [], r_accepted = (\<lambda>_. []),
     r_taken = (\<lambda>_. []), r_calls = []\<rparr>"

text \<open>The body of \<open>dispatchLoop\<close>: each subscriber is called, whatever the earlier ones returned.\<close>

definition deliver :: "'h bus \<Rightarrow> string \<Rightarrow> message \<Rightarrow> (string \<times> 'h \<times> message) list" where
  "deliver b topic m = map (\<lambda>h. (topic, h, m)) (b_subs b topic)"

inductive bus_step :: "'h bus_run \<Rightarrow> 'h bus_run \<Rightarrow> bool" where
  Refused: "b_stopped (r_bus s) \<Longrightarrow>
    bus_step s (s\<lparr>r_results := (m, PubErr BusStopped) # r_results s\<rparr>)"
| Unknown: "\<not> b_stopped (r_bus s) \<Longrightarrow> b_queue (r_bus s) topic = None \<Longrightarrow>
    bus_step s (s\<lparr>r_results := (m, PubErr (UnknownTopic topic)) # r_results s\<rparr>)"
| Checked: "\<not> b_stopped (r_bus s) \<Longrightarrow> b_queue (r_bus s) topic = Some q \<Longrightarrow>
    bus_step s (s\<lparr>r_sending := (topic, m) # r_sending s\<rparr>)"
| Sent: "(topic, m) \<in> set (r_sending s) \<Longrightarrow> \<not> b_closed (r_bus s) \<Longrightarrow>
    b_queue (r_bus s) topic = Some q \<Longrightarrow> length q < b_cap (r_bus s) \<Longrightarrow>
    bus_step s (s\<lparr>r_bus := (r_bus s)\<lparr>b_queue := (b_queue (r_bus s))(topic \<mapsto> q @ [m])\<rparr>,
      r_sending := remove1 (topic, m) (r_sending s), r_results := (m, PubOk) # r_results s,
      r_accepted := (r_accepted s)(topic := r_accepted s topic @ [m])\<rparr>)"
| Panicked: "(topic, m) \<in> set (r_sending s) \<Longrightarrow> b_closed (r_bus s) \<Longrightarrow>
    bus_step s (s\<lparr>r_sending := remove1 (topic, m) (r_sending s),
      r_results := (m, PubPanic) # r_results s\<rparr>)"
| Cancelled: "(topic, m) \<in> set (r_sending s) \<Longrightarrow>
    bus_step s (s\<lparr>r_sending := remove1 (topic, m) (r_sending s),
      r_results := (m, PubErr CtxDone) # r_results s\<rparr>)"
| StopFlag: "\<not> b_stopped (r_bus s) \<Longrightarrow>
    bus_step s (s\<lparr>r_bus := (r_bus s)\<lparr>b_stopped := True\<rparr>\<rparr>)"
| StopClose: "b_stopped (r_bus s) \<Longrightarrow> \<not> b_closed (r_bus s) \<Longrightarrow>
    bus_step s (s\<lparr>r_bus := (r_bus s)\<lparr>b_closed := True\<rparr>\<rparr>)"
| Dispatch: "b_started (r_bus s) \<Longrightarrow> b_queue (r_bus s) topic = Some (m # q) \<Longrightarrow>
    bus_step s (s\<lparr>r_bus := (r_bus s)\<lparr>b_queue := (b_queue (r_bus s))(topic \<mapsto> q)\<rparr>,
      r_taken := (r_taken s)(topic := r_taken s topic @ [m]),
      r_calls := r_calls s @ deliver (r_bus s) topic m\<rparr>)"

inductive_cases bus_stepE: "bus_step s s'"

section \<open>Set-up\<close>

lemma fold_rev_upt: "fold (\<lambda>i acc. (xs ! i) acc) (rev [0..<length xs]) h = foldr (\<lambda>x acc. x acc) xs h"
proof (induction xs arbitrary: h rule: rev_induct)
  case Nil
  then show ?case by simp
next
  case (snoc x xs)
  have "fold (\<lambda>i acc. ((xs @ [x]) ! i) acc) (rev [0..<length xs]) g =
      fold (\<lambda>i acc. (xs ! i) acc) (rev [0..<length xs]) g" for g
    by (rule fold_cong) (auto simp: nth_append)
  then show ?case by (simp add: snoc.IH)
qed

lemma wrap_handler_foldr: "wrap_handler mws h = foldr (\<lambda>w g. w g) mws h"
  unfolding wrap_handler_def by (rule fold_rev_upt)

text \<open>
  A handler is wrapped so that the first configured middleware is the outermost, whatever
  the number of middlewares; \<open>Subscribe\<close> appends it to the subscribers of its topic only.
\<close>

theorem subscribe_order:
  "wrap_handler (mw # mws) h = mw (wrap_handler mws h) \<and> wrap_handler [] h = h
   \<and> (\<not> b_started b \<and> topic \<in> {TopicInbound, TopicOutbound} \<and> subscribe topic h b = (r, b') \<longrightarrow>
      b_subs b' = (b_subs b)(topic := b_subs b topic @ [foldr (\<lambda>w g. w g) (b_mws b) h]))"
  by (auto simp: wrap_handler_foldr subscribe_def)

theorem subscribe_order_witness:
  "\<not> b_started (new_bus\<lparr>b_mws := [Suc, (\<lambda>n. 2 * n)]\<rparr>) \<and>
   b_subs (snd (subscribe TopicInbound 5 (new_bus\<lparr>b_mws := [Suc, (\<lambda>n. 2 * n)]\<rparr>))) TopicInbound = [11]"
proof -
  let ?b = "new_bus\<lparr>b_mws := [Suc, (\<lambda>n. 2 * n)]\<rparr>"
  obtain r b' where s: "subscribe TopicInbound 5 ?b = (r, b')" by fastforce
  have "\<not> b_started ?b" "b_subs ?b TopicInbound = []" by (simp_all add: new_bus_def)
  with s subscribe_order [of Suc "[]" 5 ?b TopicInbound r b'] show ?thesis by (simp add: new_bus_def)
qed

text \<open>C11: \<open>Unsubscribe\<close> never removes a subscriber.\<close>

theorem unsubscribe_keeps: "snd (unsubscribe topic h b) = b"
proof -
  have "find (\<lambda>i. same_variable (subs ! i) h) ixs = None" for subs ixs
    by (simp add: find_None_iff same_variable_def)
  then show ?thesis by (simp add: unsubscribe_def Let_def)
qed

section \<open>Delivery\<close>

definition queue_inv :: "'h bus_run \<Rightarrow> string \<Rightarrow> bool" where
  "queue_inv s topic \<longleftrightarrow> (case b_queue (r_bus s) topic of
       None \<Rightarrow> r_accepted s topic = [] \<and> r_taken s topic = []
     | Some q \<Rightarrow> r_accepted s topic = r_taken s topic @ q \<and> length q \<le> b_cap (r_bus s))"

definition bus_inv :: "'h bus_run \<Rightarrow> bool" where
  "bus_inv s \<longleftrightarrow> (\<forall>topic. queue_inv s topic)
   \<and> (\<forall>topic. filter (\<lambda>(t, _). t = topic) (r_calls s) =
        concat (map (\<lambda>m. map (\<lambda>h. (topic, h, m)) (b_subs (r_bus s) topic)) (r_taken s topic)))
   \<and> (b_closed (r_bus s) \<longrightarrow> b_stopped (r_bus s))"

lemma bus_step_static:
  "bus_step s s' \<Longrightarrow> b_subs (r_bus s') = b_subs (r_bus s) \<and> b_cap (r_bus s') = b_cap (r_bus s)
    \<and> b_started (r_bus s') = b_started (r_bus s)"
  by (induction rule: bus_step.induct) auto

lemma filter_topic:
  "filter (\<lambda>(t, _). t = topic) (map (\<lambda>h. (t', h, m)) hs) = (if t' = topic then map (\<lambda>h. (topic, h, m)) hs else [])"
  by (induction hs) auto

lemma queue_inv_step: "bus_step s s' \<Longrightarrow> queue_inv s t \<Longrightarrow> queue_inv s' t"
  by (induction rule: bus_step.induct) (auto simp: queue_inv_def split: option.splits if_splits)

lemma bus_step_inv:
  assumes "bus_step s s'" "bus_inv s"
  shows "bus_inv s'"
proof -
  have "\<forall>topic. queue_inv s' topic" using queue_inv_step [OF assms(1)] assms(2) by (simp add: bus_inv_def)
  moreover have "b_closed (r_bus s') \<longrightarrow> b_stopped (r_bus s')"
    using assms by (induction rule: bus_step.induct) (auto simp: bus_inv_def)
  moreover have "filter (\<lambda>(t, _). t = topic) (r_calls s') =
      concat (map (\<lambda>m. map (\<lambda>h. (topic, h, m)) (b_subs (r_bus s') topic)) (r_taken s' topic))" for topic
    using assms by (induction rule: bus_step.induct) (auto simp: bus_inv_def filter_topic deliver_def)
  ultimately show ?thesis unfolding bus_inv_def by blast
qed

lemma run_init_inv:
  assumes "\<forall>t q. b_queue b t = Some q \<longrightarrow> q = []" "\<not> b_closed b"
  shows "bus_inv (run_init b)"
  using assms by (fastforce simp: bus_inv_def queue_inv_def run_init_def split: option.splits)

lemma reachable_inv:
  "bus_step\<^sup>*\<^sup>* s s' \<Longrightarrow> bus_inv s \<Longrightarrow> bus_inv s' \<and> b_subs (r_bus s') = b_subs (r_bus s)
    \<and> b_cap (r_bus s') = b_cap (r_bus s)"
proof (induction rule: rtranclp_induct)
  case base
  then show ?case by simp
next
  case (step y z)
  then show ?case using bus_step_inv bus_step_static by metis
qed

text \<open>
  C6: in every interleaving of publishers, dispatchers and \<open>Stop\<close>, each topic is a bounded
  FIFO: the messages the dispatcher has taken, followed by the queue, are the messages
  accepted, in order; the queue never exceeds its capacity; and every subscriber of the topic
  has been called exactly once for each message taken, in order.
\<close>

theorem bus_delivers_fifo:
  assumes "bus_step\<^sup>*\<^sup>* (run_init (bus_init qsize b)) s" "b_queue b = (\<lambda>_. None)" "\<not> b_closed b"
    and "topic \<in> {TopicInbound, TopicOutbound}"
  shows "\<exists>q. b_queue (r_bus s) topic = Some q \<and> r_accepted s topic = r_taken s topic @ q
    \<and> length q \<le> b_cap (bus_init qsize b)
    \<and> filter (\<lambda>(t, _). t = topic) (r_calls s) =
        concat (map (\<lambda>m. map (\<lambda>h. (topic, h, m)) (b_subs b topic)) (r_taken s topic))"
proof -
  have i: "bus_inv (run_init (bus_init qsize b))"
    using assms(2,3) by (intro run_init_inv) (auto simp: bus_init_def split: if_splits)
  note r = reachable_inv [OF assms(1) i]
  have dom: "b_queue (r_bus s) topic \<noteq> None"
    using assms(1)
  proof (induction rule: rtranclp_induct)
    case base
    then show ?case using assms(4) by (auto simp: run_init_def bus_init_def)
  next
    case (step y z)
    from step(2,3) show ?case by (induction rule: bus_step.induct) auto
  qed
  with r show ?thesis by (auto simp: bus_inv_def queue_inv_def run_init_def bus_init_def split: option.splits)
qed


definition demo_message :: message where
  "demo_message = zero_message\<lparr>ms_id := ''m1'', ms_content := ''hi''\<rparr>"

theorem bus_delivers_fifo_witness:
  "\<exists>s q. bus_step\<^sup>*\<^sup>* (run_init (bus_init 1 (new_bus :: nat bus))) s
     \<and> r_accepted s TopicInbound = [demo_message] \<and> b_queue (r_bus s) TopicInbound = Some q
     \<and> [demo_message] = r_taken s TopicInbound @ q"
proof -
  let ?b = "bus_init 1 (new_bus :: nat bus)"
  define s1 where "s1 = (run_init ?b)\<lparr>r_sending := [(TopicInbound, demo_message)]\<rparr>"
  have "bus_step (run_init ?b) s1"
    using bus_step.Checked [of "run_init ?b" TopicInbound "[]" demo_message]
    by (simp add: s1_def run_init_def bus_init_def new_bus_def)
  moreover obtain s2 where "bus_step s1 s2" and s2: "r_accepted s2 TopicInbound = [demo_message]"
    using bus_step.Sent [of TopicInbound demo_message s1 "[]"]
    by (fastforce simp: s1_def run_init_def bus_init_def new_bus_def)
  ultimately have run: "bus_step\<^sup>*\<^sup>* (run_init ?b) s2"
    by (meson converse_rtranclp_into_rtranclp rtranclp.rtrancl_refl)
  have "b_queue (new_bus :: nat bus) = (\<lambda>_. None)" "\<not> b_closed (new_bus :: nat bus)"
    by (simp_all add: new_bus_def)
  from bus_delivers_fifo [OF run this, of TopicInbound] s2 run show ?thesis by auto
qed

text \<open>
  C9: \<open>Publish\<close> can panic: a publisher that has read the stop flag before \<open>Stop\<close> sends on a
  channel \<open>Stop\<close> has closed.
\<close>

theorem publish_stop_race:
  "\<exists>s. bus_step\<^sup>*\<^sup>* (run_init (bus_init 1 (new_bus :: nat bus))) s
     \<and> (demo_message, PubPanic) \<in> set (r_results s)"
proof -
  let ?b = "bus_init 1 (new_bus :: nat bus)"
  define s1 where "s1 = (run_init ?b)\<lparr>r_sending := [(TopicInbound, demo_message)]\<rparr>"
  define s2 where "s2 = s1\<lparr>r_bus := (r_bus s1)\<lparr>b_stopped := True\<rparr>\<rparr>"
  define s3 where "s3 = s2\<lparr>r_bus := (r_bus s2)\<lparr>b_closed := True\<rparr>\<rparr>"
  have "bus_step (run_init ?b) s1"
    using bus_step.Checked [of "run_init ?b" TopicInbound "[]" demo_message]
    by (simp add: s1_def run_init_def bus_init_def new_bus_def)
  moreover have "bus_step s1 s2" unfolding s2_def
    by (rule bus_step.StopFlag) (simp add: s1_def run_init_def bus_init_def new_bus_def)
  moreover have "bus_step s2 s3" unfolding s3_def
    by (rule bus_step.StopClose) (simp_all add: s2_def s1_def run_init_def bus_init_def new_bus_def)
  moreover obtain s4 where "bus_step s3 s4" "(demo_message, PubPanic) \<in> set (r_results s4)"
    using bus_step.Panicked [of TopicInbound demo_message s3] by (fastforce simp: s3_def s2_def s1_def)
  ultimately show ?thesis by (meson converse_rtranclp_into_rtranclp rtranclp.rtrancl_refl)
qed

end
