(* ===== verification/Go_Path.thy ===== *)
theory Go_Path
  imports Go_Strings
begin

text \<open>
  Go's \<open>path/filepath\<close> on Unix, as far as the sources use it, and a file system reduced to the
  set of existing files, the working directory and the directories that can be created.
\<close>

text \<open>One component of \<open>Clean\<close>; the stack holds the kept components, last first.\<close>

definition clean_step :: "bool \<Rightarrow> string list \<Rightarrow> string \<Rightarrow> string list" where
  "clean_step rooted stack c =
     (if c = [] \<or> c = ''.'' then stack
      else if c = ''..'' then
        (case stack of
           [] \<Rightarrow> if rooted then [] else [c]
         | t # rest \<Rightarrow> if t = ''..'' then c # stack else rest)
      else c # stack)"

definition path_rooted :: "string \<Rightarrow> bool" where
  "path_rooted p = (p \<noteq> [] \<and> hd p = CHR ''/'')"

definition path_comps :: "string \<Rightarrow> string list" where
  "path_comps p = rev (fold (\<lambda>c st. clean_step (path_rooted p) st c) (split_on (CHR ''/'') p) [])"

definition path_clean :: "string \<Rightarrow> string" where
  "path_clean p =
     (let cs = path_comps p
      in if path_rooted p then CHR ''/'' # join ''/'' cs
         else if cs = [] then ''.'' else join ''/'' cs)"

definition path_join :: "string list \<Rightarrow> string" where
  "path_join elems =
     (case dropWhile (\<lambda>e. e = []) elems of [] \<Rightarrow> [] | es \<Rightarrow> path_clean (join ''/'' es))"

text \<open>\<open>filepath.Base\<close>: the last element, without trailing slashes.\<close>

definition path_base :: "string \<Rightarrow> string" where
  "path_base p =
     (if p = [] then ''.''
      else case filter (\<lambda>c. c \<noteq> []) (split_on (CHR ''/'') p) of [] \<Rightarrow> ''/'' | cs \<Rightarrow> last cs)"

text \<open>\<open>filepath.Dir\<close>.\<close>

definition path_dir :: "string \<Rightarrow> string" where
  "path_dir p =
     (if CHR ''/'' \<in> set p
      then path_clean (rev (dropWhile (\<lambda>c. c \<noteq> CHR ''/'') (rev p)))
      else ''.'')"

record fs =
  fs_files :: "string list"
  fs_cwd :: string
  fs_mkdir :: "string \<Rightarrow> bool"

definition fs_abs :: "fs \<Rightarrow> string \<Rightarrow> string" where
  "fs_abs f p = (if path_rooted p then path_clean p else path_join [fs_cwd f, p])"

definition fs_exists :: "fs \<Rightarrow> string \<Rightarrow> bool" where
  "fs_exists f p = (fs_abs f p \<in> set (fs_files f))"

definition fs_write :: "string \<Rightarrow> fs \<Rightarrow> fs" where
  "fs_write p f = f\<lparr>fs_files := List.insert (fs_abs f p) (fs_files f)\<rparr>"

definition fs_remove :: "string \<Rightarrow> fs \<Rightarrow> fs" where
  "fs_remove p f = f\<lparr>fs_files := removeAll (fs_abs f p) (fs_files f)\<rparr>"

text \<open>\<open>os.Rename\<close> of a file.\<close>

definition fs_rename :: "string \<Rightarrow> string \<Rightarrow> fs \<Rightarrow> fs option" where
  "fs_rename old new f =
     (if fs_exists f old then Some (fs_write new (fs_remove old f)) else None)"

definition under_dir :: "string \<Rightarrow> string \<Rightarrow> bool" where
  "under_dir d p \<longleftrightarrow> has_prefix p (d @ ''/'')"

section \<open>Plain components\<close>

definition plain :: "string \<Rightarrow> bool" where
  "plain c \<longleftrightarrow> c \<noteq> [] \<and> c \<noteq> ''.'' \<and> c \<noteq> ''..'' \<and> CHR ''/'' \<notin> set c"

lemma clean_plain: "list_all plain cs \<Longrightarrow> fold (\<lambda>c st. clean_step r st c) cs st = rev cs @ st"
  by (induction cs arbitrary: st) (auto simp: clean_step_def plain_def)

lemma split_on_append: "split_on sep (a @ sep # b) = split_on sep a @ split_on sep b"
proof (induction a)
  case Nil
  then show ?case by simp
next
  case (Cons c a)
  then show ?case by (cases "split_on sep a") auto
qed

lemma split_on_single: "sep \<notin> set a \<Longrightarrow> split_on sep a = [a]"
  by (induction a) auto

lemma split_on_join:
  "list_all (\<lambda>c. sep \<notin> set c) cs \<Longrightarrow> cs \<noteq> [] \<Longrightarrow> split_on sep (join [sep] cs) = cs"
proof (induction cs rule: induct_list012)
  case 1
  then show ?case by simp
next
  case (2 c)
  then show ?case by (simp add: split_on_single)
next
  case (3 c d cs)
  then have "split_on sep (join [sep] (d # cs)) = d # cs" by simp
  with 3(3) show ?case by (simp add: split_on_append split_on_single)
qed

lemma plain_list: "list_all plain cs \<Longrightarrow> list_all (\<lambda>c. CHR ''/'' \<notin> set c) cs"
  by (auto simp: list_all_iff plain_def)

lemma join_head: "list_all plain cs \<Longrightarrow> \<not> path_rooted (join ''/'' cs)"
proof (cases cs)
  case (Cons c cs')
  assume "list_all plain cs"
  with Cons have "c \<noteq> []" "CHR ''/'' \<notin> set c" by (auto simp: plain_def)
  with Cons show ?thesis by (cases cs'; cases c) (auto simp: path_rooted_def)
qed (simp add: path_rooted_def)

lemma path_clean_abs:
  assumes "list_all plain cs" "cs \<noteq> []"
  shows "path_clean (CHR ''/'' # join ''/'' cs) = CHR ''/'' # join ''/'' cs"
proof -
  have "split_on (CHR ''/'') (CHR ''/'' # join ''/'' cs) = [] # cs"
    using split_on_join [OF plain_list [OF assms(1)] assms(2)] by simp
  then show ?thesis
    using clean_plain [OF assms(1), of True "[]"]
    by (simp add: path_clean_def path_comps_def path_rooted_def clean_step_def Let_def)
qed

lemma path_clean_rel:
  assumes "list_all plain cs" "cs \<noteq> []"
  shows "path_clean (join ''/'' cs) = join ''/'' cs"
  using assms split_on_join [OF plain_list [OF assms(1)] assms(2)] clean_plain [OF assms(1), of False "[]"]
    join_head [OF assms(1)]
  by (simp add: path_clean_def path_comps_def Let_def)

lemma join_append: "as \<noteq> [] \<Longrightarrow> bs \<noteq> [] \<Longrightarrow> join sep (as @ bs) = join sep as @ sep @ join sep bs"
  by (induction as rule: induct_list012) (auto simp: neq_Nil_conv)

lemma plain_nonempty: "list_all plain cs \<Longrightarrow> dropWhile (\<lambda>e. e = []) cs = cs"
  by (cases cs) (auto simp: plain_def)

lemma path_join_rel: "list_all plain cs \<Longrightarrow> cs \<noteq> [] \<Longrightarrow> path_join cs = join ''/'' cs"
  using path_clean_rel [of cs] by (auto simp: path_join_def plain_nonempty split: list.splits)

lemma path_join_abs:
  assumes "list_all plain bs" "bs \<noteq> []" "list_all plain cs"
  shows "path_join ((CHR ''/'' # join ''/'' bs) # cs) = CHR ''/'' # join ''/'' (bs @ cs)"
proof -
  have "join ''/'' ((CHR ''/'' # join ''/'' bs) # cs) = CHR ''/'' # join ''/'' (bs @ cs)"
    using assms(2) by (cases cs) (simp_all add: join_append)
  then show ?thesis
    using path_clean_abs [of "bs @ cs"] assms by (simp add: path_join_def)
qed

lemma path_base_plain:
  assumes "list_all plain cs" "cs \<noteq> []"
  shows "path_base (CHR ''/'' # join ''/'' cs) = last cs"
proof -
  have "filter (\<lambda>c. c \<noteq> []) cs = cs" using assms(1) by (auto simp: filter_id_conv list_all_iff plain_def)
  with assms show ?thesis
    using split_on_join [OF plain_list [OF assms(1)] assms(2)]
    by (simp add: path_base_def split: list.splits)
qed

end
