(* ===== verification/Scheduler.thy ===== *)
theory Scheduler
  imports Cron Store_Contracts Bus Go_Path
begin

text \<open>
  The scheduler, \<open>internal/domain/service/scheduler\<close>, and the scoped directories it copies
  attachments to (\<open>internal/infra/scopedfs\<close>). A tick lists the active entries and fires those
  that are due: the entry's state is advanced first, then a run is recorded, the synthetic
  message is published to the inbound topic, and the run is closed with the outcome.
\<close>

record 'h sys =
  s_world :: world
  s_bus :: "'h bus"
  s_fs :: fs

section \<open>Scoped directories\<close>

datatype fs_scope = ScopeUserDir | ScopeTenantDir | ScopeMessageDir | ScopeCronDir | ScopeUnknown

definition scope_dirs :: "fs_scope \<Rightarrow> string option" where
  "scope_dirs sc = (case sc of ScopeUserDir \<Rightarrow> Some ''users'' | ScopeTenantDir \<Rightarrow> Some ''tenants''
     | ScopeMessageDir \<Rightarrow> Some ''messages'' | ScopeCronDir \<Rightarrow> Some ''cron'' | ScopeUnknown \<Rightarrow> None)"

definition resolve_dir :: "string \<Rightarrow> fs_scope \<Rightarrow> string \<Rightarrow> string option" where
  "resolve_dir base sc i = map_option (\<lambda>sub. path_join [base, sub, i]) (scope_dirs sc)"

definition ensure_dir :: "string \<Rightarrow> fs_scope \<Rightarrow> string \<Rightarrow> fs \<Rightarrow> string option" where
  "ensure_dir base sc i f =
     (case resolve_dir base sc i of None \<Rightarrow> None | Some d \<Rightarrow> if fs_mkdir f d then Some d else None)"

definition message_dir :: "string \<Rightarrow> string \<Rightarrow> string \<Rightarrow> string \<Rightarrow> string" where
  "message_dir base tid conv mid = path_join [base, ''messages'', tid, conv, mid]"

definition ensure_message_dir :: "string \<Rightarrow> string \<Rightarrow> string \<Rightarrow> string \<Rightarrow> fs \<Rightarrow> string option" where
  "ensure_message_dir base tid conv mid f =
     (let d = message_dir base tid conv mid in if fs_mkdir f d then Some d else None)"

definition conversation_messages_dir :: "string \<Rightarrow> string \<Rightarrow> string \<Rightarrow> string" where
  "conversation_messages_dir base tid conv = path_join [base, ''messages'', tid, conv]"

section \<open>Copying attachments\<close>

definition copy_file :: "string \<Rightarrow> string \<Rightarrow> fs \<Rightarrow> bool \<times> fs" where
  "copy_file src dst f = (if fs_exists f src then (True, fs_write dst f) else (False, f))"

fun copy_into :: "string \<Rightarrow> attachment list \<Rightarrow> fs \<Rightarrow> attachment list \<times> fs" where
  "copy_into dir [] f = ([], f)"
| "copy_into dir (a # as) f =
     (let dst = path_join [dir, at_filename a]
      in case copy_file (at_path a) dst f of
           (False, f1) \<Rightarrow> copy_into dir as f1
         | (True, f1) \<Rightarrow>
             (let (rest, f2) = copy_into dir as f1 in (a\<lparr>at_path := dst\<rparr> # rest, f2)))"

definition copy_attachment_files ::
  "string \<Rightarrow> string \<Rightarrow> attachment list \<Rightarrow> fs \<Rightarrow> attachment list \<times> fs" where
  "copy_attachment_files base dir_id atts f =
     (if atts = [] then ([], f)
      else case ensure_dir base ScopeCronDir dir_id f of
             None \<Rightarrow> ([], f)
           | Some dir \<Rightarrow> copy_into dir atts f)"

section \<open>Firing an entry\<close>

text \<open>Step 1: advance the entry. \<open>False\<close> is an early return.\<close>

definition advance_entry :: "location \<Rightarrow> cron_entry \<Rightarrow> instant \<Rightarrow> world \<Rightarrow> bool \<times> world" where
  "advance_entry loc e now w =
     (if ce_type e = ''once'' then
        (case update_cron_status (ce_tenant e) (ce_id e) ''completed'' w of
           (Inl _, w1) \<Rightarrow> (False, w1)
         | (Inr _, w1) \<Rightarrow>
             (case update_cron_next_run (ce_tenant e) (ce_id e) None w1 of
                (Inl _, w2) \<Rightarrow> (False, w2) | (Inr _, w2) \<Rightarrow> (True, w2)))
      else if ce_type e = ''recurring'' then
        (case parse_cron (ce_expr e) of
           Inl _ \<Rightarrow> (False, w)
         | Inr c \<Rightarrow>
             (case update_cron_next_run (ce_tenant e) (ce_id e) (Some (next_after c loc now)) w of
                (Inl _, w1) \<Rightarrow> (False, w1) | (Inr _, w1) \<Rightarrow> (True, w1)))
      else (True, w))"

definition run_record :: "cron_entry \<Rightarrow> string \<Rightarrow> instant \<Rightarrow> cron_run" where
  "run_record e rid now = \<lparr>cr_id = rid, cr_entry = ce_id e, cr_tenant = ce_tenant e,
     cr_status = ''running'', cr_error = [], cr_started_at = now, cr_finished_at = None\<rparr>"

definition cron_message ::
  "(instant \<Rightarrow> string) \<Rightarrow> cron_entry \<Rightarrow> string \<Rightarrow> string \<Rightarrow> instant \<Rightarrow> message" where
  "cron_message fmt e mid conv now = zero_message\<lparr>ms_id := mid, ms_tenant := ce_tenant e,
     ms_user := ce_user e, ms_agent := ce_agent e, ms_chat := ce_chat e,
     ms_is_group := ce_is_group e, ms_kind := KindCron, ms_role := RoleUser,
     ms_content := ce_instructions e, ms_metadata := message_metadata fmt e, ms_conv := conv,
     ms_created_at := now\<rparr>"

text \<open>Step 3b; \<open>base\<close> is the data directory, \<open>None\<close> without a scoped file system.\<close>

definition attach_copies :: "string option \<Rightarrow> cron_entry \<Rightarrow> message \<Rightarrow> 'h sys \<Rightarrow> message \<times> 'h sys" where
  "attach_copies base e m s =
     (case base of None \<Rightarrow> (m, s) | Some b \<Rightarrow>
        if ce_message e = [] then (m, s)
        else case get_messages (\<lambda>_ rows. rows) (ce_tenant e) (no_filter\<lparr>mf_message := ce_message e\<rparr>)
               (s_world s) of
            (Inl _, w1) \<Rightarrow> (m, s\<lparr>s_world := w1\<rparr>)
          | (Inr [], w1) \<Rightarrow> (m, s\<lparr>s_world := w1\<rparr>)
          | (Inr (o1 # _), w1) \<Rightarrow>
              (let (copied, f1) = copy_attachment_files b (ms_id m) (ms_attachments o1) (s_fs s)
               in (if copied = [] then m else m\<lparr>ms_attachments := copied\<rparr>,
                   s\<lparr>s_world := w1, s_fs := f1\<rparr>)))"

text \<open>The text of a publish error, which is stored with the run.\<close>

definition bus_error_text :: "bus_error \<Rightarrow> string" where
  "bus_error_text e = (case e of BusStopped \<Rightarrow> ''transport.memory: bus is stopped''
     | UnknownTopic t \<Rightarrow> ''transport.memory: unknown topic'' | AlreadyStarted \<Rightarrow> ''already started''
     | CtxDone \<Rightarrow> ''context canceled'')"

definition fire_entry ::
  "(instant \<Rightarrow> string) \<Rightarrow> string option \<Rightarrow> location \<Rightarrow> cron_entry \<Rightarrow> instant \<Rightarrow> 'h sys \<Rightarrow> 'h sys" where
  "fire_entry fmt base loc e now s =
     (case advance_entry loc e now (s_world s) of
        (False, w1) \<Rightarrow> s\<lparr>s_world := w1\<rparr>
      | (True, w1) \<Rightarrow>
        (let (rid, w2) = new_id w1
         in case insert_cron_run (ce_tenant e) (run_record e rid now) w2 of
              (Inl _, w3) \<Rightarrow> s\<lparr>s_world := w3\<rparr>
            | (Inr _, w3) \<Rightarrow>
              (let (conv, w4) = (if ce_type e = ''recurring'' then new_id w3 else (ce_conv e, w3));
                   (mid, w5) = new_id w4;
                   (m, s1) = attach_copies base e (cron_message fmt e mid conv now) (s\<lparr>s_world := w5\<rparr>)
               in case publish TopicInbound m (s_bus s1) of
                    (Inl err, b) \<Rightarrow> s1\<lparr>s_bus := b, s_world := snd (update_cron_run (ce_tenant e) rid
                       ''failed'' (bus_error_text err) (Some now) (s_world s1))\<rparr>
                  | (Inr _, b) \<Rightarrow> s1\<lparr>s_bus := b, s_world := snd (update_cron_run (ce_tenant e) rid
                       ''success'' [] (Some now) (s_world s1))\<rparr>)))"

definition due :: "instant \<Rightarrow> cron_entry \<Rightarrow> bool" where
  "due now e = (case ce_next_run_at e of None \<Rightarrow> False | Some t \<Rightarrow> t \<le> now)"

definition tick ::
  "(instant \<Rightarrow> string) \<Rightarrow> string option \<Rightarrow> location \<Rightarrow> instant \<Rightarrow> 'h sys \<Rightarrow> 'h sys" where
  "tick fmt base loc now s =
     (case list_active_cron_entries (s_world s) of
        (Inl _, w1) \<Rightarrow> s\<lparr>s_world := w1\<rparr>
      | (Inr entries, w1) \<Rightarrow>
          fold (\<lambda>e s'. if due now e then fire_entry fmt base loc e now s' else s') entries
            (s\<lparr>s_world := w1\<rparr>))"

section \<open>A clock that moves on\<close>

text \<open>
  What the scheduler needs of a schedule: while it is \<open>live\<close>, the next time is later. The
  firing times it then goes through increase.
\<close>

locale schedule =
  fixes nxt :: "'c \<Rightarrow> instant \<Rightarrow> instant" and live :: "'c \<Rightarrow> instant \<Rightarrow> bool"
  assumes later: "live c t \<Longrightarrow> t < nxt c t"
    and whole: "live c t \<Longrightarrow> rfc3339 (nxt c t) = nxt c t"
begin

lemma stored_later: "live c t \<Longrightarrow> t < rfc3339 (nxt c t)"
  using later [of c t] whole [of c t] by simp

lemma times_increase:
  assumes "\<And>k. k < n \<Longrightarrow> live c ((nxt c ^^ k) t)"
  shows "t \<le> (nxt c ^^ n) t \<and> (0 < n \<longrightarrow> t < (nxt c ^^ n) t)"
  using assms
proof (induction n)
  case (Suc n)
  then show ?case using later [of c "(nxt c ^^ n) t"] by fastforce
qed simp

end

text \<open>An expression is live in a zone at a time from which the search finds a firing time.\<close>

definition live_in :: "location \<Rightarrow> cron \<Rightarrow> instant \<Rightarrow> bool" where
  "live_in loc c t \<longleftrightarrow> wf_cron c \<and> next_search c loc t \<noteq> None"

lemma minute_whole: "u mod minute_ns = 0 \<Longrightarrow> rfc3339 u = u"
proof -
  assume "u mod minute_ns = 0"
  then have "u mod nanos = 0" by (rule mod_dvd_trans [rotated]) (simp add: minute_ns_def nanos_def)
  then show ?thesis by (simp add: rfc3339_def)
qed

lemma fixed_zone_schedule:
  assumes "fixed_zone loc off"
  shows "schedule (\<lambda>c. next_after c loc) (live_in loc)"
proof
  fix c t
  assume l: "live_in loc c t"
  then obtain u where u: "next_search c loc t = Some u" and wf: "wf_cron c" by (auto simp: live_in_def)
  with next_search_least [OF wf assms, of t] have "t < u \<and> fires c loc u" by simp
  with u show "t < next_after c loc t" "rfc3339 (next_after c loc t) = next_after c loc t"
    by (auto simp: next_after_def fires_def intro: minute_whole)
qed

interpretation utc_schedule: schedule "\<lambda>c. next_after c utc" "live_in utc"
  by (rule fixed_zone_schedule [OF fixed_zone_utc])

section \<open>The table of entries during a firing\<close>

lemma insert_cron_run_cron:
  "insert_cron_run tid r w = (x, w') \<Longrightarrow> d_cron (w_db w') = d_cron (w_db w)"
  unfolding insert_cron_run_def by (erule db_exec_frame) (auto split: if_splits)

lemma update_cron_run_cron: "d_cron (w_db (snd (update_cron_run tid rid st er fin w))) = d_cron (w_db w)"
proof -
  obtain x w' where u: "update_cron_run tid rid st er fin w = (x, w')" by fastforce
  then have "d_cron (w_db w') = d_cron (w_db w)"
    unfolding update_cron_run_def by (rule db_exec_frame) (auto simp: finish_run_def)
  with u show ?thesis by simp
qed

lemma get_messages_world: "get_messages fts tid f w = (x, w') \<Longrightarrow> w_db w' = w_db w"
  unfolding get_messages_def by (erule db_query_world)

lemma new_id_db: "new_id w = (i, w') \<Longrightarrow> w_db w' = w_db w"
  by (auto simp: new_id_def)

lemma attach_copies_world:
  "attach_copies base e m s = (m', s') \<Longrightarrow>
     w_db (s_world s') = w_db (s_world s) \<and> s_bus s' = s_bus s"
  by (auto simp: attach_copies_def Let_def dest: get_messages_world
      split: option.splits if_splits prod.splits sum.splits list.splits)

text \<open>What \<open>advance_entry\<close> leaves in the rows of the entry.\<close>

definition advanced :: "location \<Rightarrow> cron_entry \<Rightarrow> instant \<Rightarrow> cron_entry \<Rightarrow> bool" where
  "advanced loc e now r \<longleftrightarrow>
     (ce_type e = ''once'' \<longrightarrow> ce_status r = ''completed'' \<and> ce_next_run_at r = None) \<and>
     (ce_type e = ''recurring'' \<longrightarrow> (\<exists>c. parse_cron (ce_expr e) = Inr c \<and>
        ce_next_run_at r = Some (rfc3339 (next_after c loc now))))"

lemma update_where_row:
  "r \<in> set (update_where (cron_row tid eid) upd rows) \<Longrightarrow> cron_row tid eid r \<Longrightarrow>
   (\<And>x. cron_row tid eid (upd x) = cron_row tid eid x) \<Longrightarrow> \<exists>x. cron_row tid eid x \<and> r = upd x
     \<and> x \<in> set rows"
  by (auto simp: update_where_def split: if_splits)

lemma advance_entry_rows:
  assumes "advance_entry loc e now w = (True, w')"
    and "r \<in> set (d_cron (w_db w'))" "cron_row (ce_tenant e) (ce_id e) r"
  shows "advanced loc e now r"
proof (cases "ce_type e = ''once''")
  case True
  then obtain w1 where
    1: "update_cron_status (ce_tenant e) (ce_id e) ''completed'' w = (Inr (), w1)" and
    2: "update_cron_next_run (ce_tenant e) (ce_id e) None w1 = (Inr (), w')"
    using assms(1) by (auto simp: advance_entry_def split: prod.splits sum.splits)
  from db_exec_ok [OF 1 [unfolded update_cron_status_def]] db_exec_ok [OF 2 [unfolded update_cron_next_run_def]]
  have d: "d_cron (w_db w') = update_where (cron_row (ce_tenant e) (ce_id e)) (\<lambda>e. e\<lparr>ce_next_run_at := None\<rparr>)
      (update_where (cron_row (ce_tenant e) (ce_id e)) (\<lambda>e. e\<lparr>ce_status := ''completed''\<rparr>) (d_cron (w_db w)))"
    by (auto simp: set_cron_status_def set_cron_next_run_def dest!: arg_cong [where f = d_cron])
  with assms(2,3) show ?thesis using True
    by (auto simp: advanced_def update_where_def cron_row_def split: if_splits)
next
  case False
  show ?thesis
  proof (cases "ce_type e = ''recurring''")
    case True
    then obtain c where c: "parse_cron (ce_expr e) = Inr c" and
      u: "update_cron_next_run (ce_tenant e) (ce_id e) (Some (next_after c loc now)) w = (Inr (), w')"
      using assms(1) False by (auto simp: advance_entry_def split: prod.splits sum.splits)
    from db_exec_ok [OF u [unfolded update_cron_next_run_def]]
    have "d_cron (w_db w') = update_where (cron_row (ce_tenant e) (ce_id e))
        (\<lambda>e. e\<lparr>ce_next_run_at := Some (rfc3339 (next_after c loc now))\<rparr>) (d_cron (w_db w))"
      by (auto simp: set_cron_next_run_def dest!: arg_cong [where f = d_cron])
    with assms(2,3) c False show ?thesis
      by (auto simp: advanced_def update_where_def cron_row_def split: if_splits)
  qed (use False in \<open>simp add: advanced_def\<close>)
qed

text \<open>A firing that reaches the bus has advanced the entry, and no later call undoes that.\<close>

lemma fire_entry_cases:
  assumes "fire_entry fmt base loc e now s = s'" "s_bus s' \<noteq> s_bus s"
  obtains w1 where "advance_entry loc e now (s_world s) = (True, w1)"
    "d_cron (w_db (s_world s')) = d_cron (w_db w1)"
proof -
  obtain ok w1 where a: "advance_entry loc e now (s_world s) = (ok, w1)" by fastforce
  have ok: "ok" using assms a by (cases ok) (auto simp: fire_entry_def)
  obtain rid w2 where i: "new_id w1 = (rid, w2)" by fastforce
  obtain x w3 where n: "insert_cron_run (ce_tenant e) (run_record e rid now) w2 = (x, w3)" by fastforce
  obtain conv w4 where c: "(if ce_type e = ''recurring'' then new_id w3 else (ce_conv e, w3)) = (conv, w4)"
    by fastforce
  obtain mid w5 where m: "new_id w4 = (mid, w5)" by fastforce
  obtain m' s1 where t: "attach_copies base e (cron_message fmt e mid conv now) (s\<lparr>s_world := w5\<rparr>) = (m', s1)"
    by fastforce
  obtain p b where p: "publish TopicInbound m' (s_bus s1) = (p, b)" by fastforce
  have x: "isl x \<Longrightarrow> s_bus s' = s_bus s"
    using assms(1) a ok i n by (auto simp: fire_entry_def Let_def isl_def)
  with assms(2) have "\<not> isl x" by blast
  then have "d_cron (w_db (s_world s')) = d_cron (w_db (s_world s1))"
    using assms(1) a ok i n c m t p
    by (cases p) (auto simp: fire_entry_def Let_def isl_def update_cron_run_cron split: sum.splits if_splits)
  also have "\<dots> = d_cron (w_db w5)" using attach_copies_world [OF t] by simp
  also have "\<dots> = d_cron (w_db w3)" using new_id_db [OF m] new_id_db [of w3 conv w4] c
    by (auto split: if_splits)
  also have "\<dots> = d_cron (w_db w1)" using insert_cron_run_cron [OF n] new_id_db [OF i] by simp
  finally have "d_cron (w_db (s_world s')) = d_cron (w_db w1)" .
  with a ok show thesis by (intro that [of w1]) simp_all
qed

section \<open>Firing once\<close>


text \<open>
  Without store failures and with room in the queue a firing publishes exactly one
  message, last in the inbound queue, which speaks for the user who made the entry, in his
  chat; a recurring entry gets a fresh conversation and a one-shot entry keeps its own; the
  run is recorded as a success.
\<close>

theorem fire_publishes_once:
  assumes "w_faults (s_world s) = []" "advance_entry loc e now (s_world s) = (True, w1)"
    and "\<not> b_stopped (s_bus s)" "b_queue (s_bus s) TopicInbound = Some q" "length q < b_cap (s_bus s)"
    and "\<forall>r \<in> set (d_runs (w_db w1)). cr_id r \<noteq> fst (new_id w1)"
  shows "\<exists>m. b_queue (s_bus (fire_entry fmt None loc e now s)) TopicInbound = Some (q @ [m])
    \<and> ms_tenant m = ce_tenant e \<and> ms_user m = ce_user e \<and> ms_agent m = ce_agent e
    \<and> ms_chat m = ce_chat e \<and> ms_kind m = KindCron \<and> ms_role m = RoleUser
    \<and> ms_content m = ce_instructions e
    \<and> ms_conv m = (if ce_type e = ''recurring'' then w_ids w1 (Suc (w_drawn w1)) else ce_conv e)
    \<and> (\<exists>r \<in> set (d_runs (w_db (s_world (fire_entry fmt None loc e now s)))).
         cr_id r = fst (new_id w1) \<and> cr_status r = ''success'' \<and> cr_entry r = ce_id e)"
proof -
  let ?rid = "fst (new_id w1)" and ?r = "run_record e (fst (new_id w1)) now"
  have calm: "w_faults w1 = []"
    using assms(1,2) by (auto simp: advance_entry_def update_cron_status_def update_cron_next_run_def
        db_exec_calm split: if_splits sum.splits)
  define w3 where "w3 = (snd (new_id w1))\<lparr>w_db := (w_db w1)\<lparr>d_runs := d_runs (w_db w1) @
      [?r\<lparr>cr_tenant := ce_tenant e, cr_started_at := rfc3339 now, cr_finished_at := None\<rparr>]\<rparr>\<rparr>"
  have ins: "insert_cron_run (ce_tenant e) ?r (snd (new_id w1)) = (Inr (), w3)"
    using calm assms(6) unfolding insert_cron_run_def
    by (subst db_exec_calm) (auto simp: w3_def new_id_def run_record_def list_ex_iff)
  define cw where "cw = (if ce_type e = ''recurring'' then new_id w3 else (ce_conv e, w3))"
  define w5 where "w5 = snd (new_id (snd cw))"
  define m where "m = cron_message fmt e (fst (new_id (snd cw))) (fst cw) now"
  have w5: "w_faults w5 = []" "w_db w5 = w_db w3"
    using calm by (simp_all add: w5_def cw_def w3_def new_id_def)
  have fire: "fire_entry fmt None loc e now s = s\<lparr>s_bus := (s_bus s)\<lparr>b_queue :=
      (b_queue (s_bus s))(TopicInbound \<mapsto> q @ [m])\<rparr>,
      s_world := snd (update_cron_run (ce_tenant e) ?rid ''success'' [] (Some now) w5)\<rparr>"
    using assms(2-5) ins
    by (simp add: fire_entry_def Let_def case_prod_beta attach_copies_def publish_def m_def cw_def w5_def)
  have "d_runs (w_db (snd (update_cron_run (ce_tenant e) ?rid ''success'' [] (Some now) w5))) =
      update_where (\<lambda>r. cr_id r = ?rid \<and> cr_tenant r = ce_tenant e)
       (\<lambda>r. r\<lparr>cr_status := ''success'', cr_error := [], cr_finished_at := Some (rfc3339 now)\<rparr>)
       (d_runs (w_db w3))"
    using w5 by (simp add: update_cron_run_def db_exec_calm finish_run_def)
  then have run: "\<exists>r \<in> set (d_runs (w_db (s_world (fire_entry fmt None loc e now s)))).
      cr_id r = ?rid \<and> cr_status r = ''success'' \<and> cr_entry r = ce_id e"
    by (simp add: fire w3_def update_where_def run_record_def)
  have "ms_conv m = (if ce_type e = ''recurring'' then w_ids w1 (Suc (w_drawn w1)) else ce_conv e)"
    by (simp add: m_def cron_message_def cw_def w3_def new_id_def)
  with run show ?thesis by (auto simp: fire m_def cron_message_def intro!: exI [of _ m])
qed

text \<open>An expression that no date satisfies.\<close>

lemma february_30_parsed:
  "parse_cron ''0 0 30 2 *'' = Inr \<lparr>c_minute = [0], c_hour = [0], c_dom = [30], c_month = [2],
     c_dow = [0..6], dom_wild = False, dow_wild = True\<rparr>"
  by code_simp

lemma february_30_next:
  assumes "fixed_zone loc off" "parse_cron ''0 0 30 2 *'' = Inr c"
  shows "next_after c loc t = zero_time"
proof -
  have s: "small_fields ''0 0 30 2 *''" by code_simp
  have "\<not> fires c loc u" for u
    using parse_cron_wf [OF assms(2) s] assms(2) february_30_parsed by (intro no_february_30) auto
  with next_search_least [OF parse_cron_wf [OF assms(2) s] assms(1), of t]
  show ?thesis by (auto simp: next_after_def least_in_def split: option.splits)
qed

text \<open>
  A recurring entry whose expression is accepted but never fires, such as "0 0 30 2 *",
  gets the zero time as its next run when it is advanced, and is then due at every tick.
\<close>

theorem never_firing_entry_always_due:
  assumes "ce_type e = ''recurring''" "ce_expr e = ''0 0 30 2 *''" "fixed_zone loc off"
    and "advance_entry loc e now w = (True, w')"
    and "r \<in> set (d_cron (w_db w'))" "ce_id r = ce_id e" "ce_tenant r = ce_tenant e" "zero_time \<le> later"
  shows "due later r"
proof -
  have "advanced loc e now r"
    using assms by (intro advance_entry_rows [OF assms(4)]) (simp_all add: cron_row_def)
  with assms(1,2,8) february_30_next [OF assms(3), of _ now] show ?thesis
    by (auto simp: advanced_def due_def)
qed

section \<open>A system with one entry\<close>

definition demo_entry :: cron_entry where
  "demo_entry = \<lparr>ce_id = ''e1'', ce_tenant = ''t1'', ce_agent = ''a1'', ce_user = ''u1'',
     ce_chat = ''c1'', ce_is_group = False, ce_name = ''standup'', ce_instructions = ''remind me'',
     ce_type = ''recurring'', ce_expr = ''0 9 * * *'', ce_next_run_at = Some 0,
     ce_status = ''active'', ce_created_at = 0, ce_metadata = [], ce_conv = ''v1'', ce_message = []\<rparr>"

definition demo_system :: "cron_entry \<Rightarrow> nat sys" where
  "demo_system e = \<lparr>s_world = demo_world\<lparr>w_db := empty_db\<lparr>d_cron := [e]\<rparr>\<rparr>,
     s_bus = bus_init 4 new_bus, s_fs = \<lparr>fs_files = [], fs_cwd = ''/'', fs_mkdir = (\<lambda>_. True)\<rparr>\<rparr>"

lemma demo_advance:
  "advance_entry utc demo_entry 0 (s_world (demo_system demo_entry)) =
     (True, (s_world (demo_system demo_entry))\<lparr>w_db := empty_db\<lparr>d_cron :=
       [demo_entry\<lparr>ce_next_run_at := Some 32400000000000\<rparr>]\<rparr>\<rparr>)"
proof -
  have p: "parse_cron (ce_expr demo_entry) = Inr \<lparr>c_minute = [0], c_hour = [9], c_dom = [1..31],
      c_month = [1..12], c_dow = [0..6], dom_wild = True, dow_wild = True\<rparr>" (is "_ = Inr ?c")
    by code_simp
  have "next_after ?c utc 0 = 32400000000000" by code_simp
  then show ?thesis
    by (simp add: advance_entry_def p) (simp add: demo_system_def demo_entry_def demo_world_def
        update_cron_next_run_def db_exec_calm set_cron_next_run_def empty_db_def update_where_def
        cron_row_def rfc3339_def nanos_def)
qed


theorem fire_publishes_once_witness:
  "\<exists>m. b_queue (s_bus (fire_entry (\<lambda>_. []) None utc demo_entry 0 (demo_system demo_entry))) TopicInbound
       = Some [m] \<and> ms_content m = ''remind me'' \<and> ms_conv m = ''ii''"
proof -
  have "\<exists>m. b_queue (s_bus (fire_entry (\<lambda>_. []) None utc demo_entry 0 (demo_system demo_entry))) TopicInbound
      = Some ([] @ [m]) \<and> ms_tenant m = ce_tenant demo_entry \<and> ms_user m = ce_user demo_entry
    \<and> ms_agent m = ce_agent demo_entry
    \<and> ms_chat m = ce_chat demo_entry \<and> ms_kind m = KindCron \<and> ms_role m = RoleUser
    \<and> ms_content m = ce_instructions demo_entry
    \<and> ms_conv m = ''ii''"
    using fire_publishes_once [OF _ demo_advance, of "[]" "\<lambda>_. []"]
    by (force simp: demo_system_def demo_world_def bus_init_def new_bus_def empty_db_def demo_entry_def)
  then show ?thesis by (auto simp: demo_entry_def)
qed

theorem never_firing_entry_always_due_witness:
  "\<exists>w' r. advance_entry utc (demo_entry\<lparr>ce_expr := ''0 0 30 2 *''\<rparr>) 0
       (s_world (demo_system (demo_entry\<lparr>ce_expr := ''0 0 30 2 *''\<rparr>))) = (True, w')
     \<and> r \<in> set (d_cron (w_db w')) \<and> ce_id r = ''e1'' \<and> due 1 r"
proof -
  let ?e = "demo_entry\<lparr>ce_expr := ''0 0 30 2 *''\<rparr>"
  obtain ok w' where a: "advance_entry utc ?e 0 (s_world (demo_system ?e)) = (ok, w')" by fastforce
  have "ok \<and> d_cron (w_db w') = [?e\<lparr>ce_next_run_at := Some zero_time\<rparr>]"
    using a february_30_next [OF fixed_zone_utc february_30_parsed, of 0]
    by (auto simp: advance_entry_def february_30_parsed demo_entry_def demo_system_def demo_world_def
        update_cron_next_run_def db_exec_calm set_cron_next_run_def empty_db_def update_where_def cron_row_def)
  with a have a': "advance_entry utc ?e 0 (s_world (demo_system ?e)) = (True, w')"
    and d: "d_cron (w_db w') = [?e\<lparr>ce_next_run_at := Some zero_time\<rparr>]" by auto
  have "due 1 (?e\<lparr>ce_next_run_at := Some zero_time\<rparr>)"
    by (rule never_firing_entry_always_due [OF _ _ fixed_zone_utc a'])
      (simp_all add: d demo_entry_def zero_time_def)
  with a' d show ?thesis by (intro exI conjI) (auto simp: demo_entry_def)
qed

end
