(* ===== verification/Store_Steps.thy ===== *)
theory Store_Steps
  imports Store_Contracts
begin

text \<open>
  Programs over the store: \<open>reaches w w'\<close> says that a run of store operations leads from one
  world to the other. The rules in \<open>reach\<close> follow the text of a program, so the laws proved of
  single steps (the invariant of the database, what stays spent) carry over to the services.
\<close>

named_theorems reach \<open>worlds a program passes through\<close>

definition reaches :: "world \<Rightarrow> world \<Rightarrow> bool" where
  "reaches = store_step\<^sup>*\<^sup>*"

lemma reaches_refl [reach]: "reaches w w"
  by (simp add: reaches_def)

lemma reaches_trans: "reaches u v \<Longrightarrow> reaches v w \<Longrightarrow> reaches u w"
  by (simp add: reaches_def)

lemma reaches_step: "reaches u v \<Longrightarrow> store_step v w \<Longrightarrow> reaches u w"
  by (simp add: reaches_def)

lemma reaches_inv: "reaches w w' \<Longrightarrow> db_inv (w_db w) \<Longrightarrow> db_inv (w_db w')"
  unfolding reaches_def by (induction rule: rtranclp_induct) (auto intro: store_step_inv)

lemma reaches_if_ok [reach]:
  assumes "reaches w (snd c)" "\<And>e w1. reaches w w1 \<Longrightarrow> reaches w (snd (err e w1))"
    "\<And>a w1. reaches w w1 \<Longrightarrow> reaches w (snd (k a w1))"
  shows "reaches w (snd (if_ok c err k))"
  using assms by (cases c; cases "fst c") auto

lemma reaches_draw [reach]: "reaches u w \<Longrightarrow> reaches u (w\<lparr>w_drawn := Suc (w_drawn w)\<rparr>)"
  by (erule reaches_step) (rule store_step.Draw)

lemma reaches_new_id [reach]: "reaches u w \<Longrightarrow> reaches u (snd (new_id w))"
  by (simp add: new_id_def reaches_draw)

lemma reaches_query [reach]: "reaches u w \<Longrightarrow> reaches u (snd (db_query q w))"
  by (erule reaches_step) (simp add: db_query_def Let_def store_step.Faults)

lemma reaches_queries [reach]:
  assumes "reaches u w"
  shows "reaches u (snd (get_tenant tid w))" "reaches u (snd (get_user tid uid w))"
    "reaches u (snd (get_agent tid aid w))" "reaches u (snd (get_user_by_channel tid chan ext w))"
    "reaches u (snd (get_tenant_by_mapping chan ext w))" "reaches u (snd (get_invite_code code w))"
    "reaches u (snd (get_chat tid cid w))" "reaches u (snd (get_chat_by_channel tid chan ext w))"
    "reaches u (snd (get_messages fts tid f w))" "reaches u (snd (get_last_conversation_id m w))"
    "reaches u (snd (get_cron_entry tid eid w))" "reaches u (snd (get_secret tid uid key w))"
    "reaches u (snd (list_invite_codes typ tid w))" "reaches u (snd (list_active_cron_entries w))"
  using reaches_query [OF assms]
  by (simp_all add: get_tenant_def get_user_def get_agent_def get_user_by_channel_def
      get_tenant_by_mapping_def get_invite_code_def get_chat_def get_chat_by_channel_def
      get_messages_def get_last_conversation_id_def get_cron_entry_def get_secret_def
      list_invite_codes_def list_active_cron_entries_def)

lemma reaches_updates [reach]:
  assumes "reaches u w"
  shows "reaches u (snd (save_tenant tid t w))" "reaches u (snd (save_agent tid a w))"
    "reaches u (snd (save_user tid us w))" "reaches u (snd (add_user_identity tid chan ext uid w))"
    "reaches u (snd (save_chat tid c w))" "reaches u (snd (save_message m w))"
    "reaches u (snd (save_tenant_mapping tm w))" "reaches u (snd (use_invite_code code uid w))"
    "reaches u (snd (merge_user tid src dst w))" "reaches u (snd (save_invite_code ic w))"
    "reaches u (snd (revoke_invite_code code w))" "reaches u (snd (save_cron_entry tid ce w))"
    "reaches u (snd (update_cron_status tid eid st w))"
    "reaches u (snd (update_cron_next_run tid eid nxt w))" "reaches u (snd (insert_cron_run tid run w))"
    "reaches u (snd (update_cron_run tid eid st er fin w))"
    "reaches u (snd (evict_messages tid conv mids w))" "reaches u (snd (save_summary tid sm w))"
    "reaches u (snd (append_journal tid je w))" "reaches u (snd (save_memory tid mm w))"
    "reaches u (snd (save_secret tid sec w))" "reaches u (snd (save_secret_token tk w))"
    "reaches u (snd (consume_secret_token tk' w))" "reaches u (snd (delete_secret tid uid key w))"
    "reaches u (snd (append_error_log tid el w))" "reaches u (snd (delete_cron_entry tid eid w))"
    "reaches u (snd (update_external_message_id mid ext w))"
  by (rule reaches_step [OF assms], rule store_step.intros, rule surjective_pairing)+

section \<open>Calls without failures\<close>

text \<open>In a world without scheduled failures every query answers and every update is decided by
  the constraints alone.\<close>

lemma calm_query [simp]: "w_faults w = [] \<Longrightarrow> db_query q w = (Inr (q (w_db w)), w)"
  by (rule db_query_calm)

lemma calm_exec: "w_faults w = [] \<Longrightarrow> db_exec s w =
    (case s (w_db w) of Inl e \<Rightarrow> (Inl e, w) | Inr d \<Rightarrow> (Inr (), w\<lparr>w_db := d\<rparr>))"
  by (rule db_exec_calm)

lemmas calm_queries = get_tenant_def get_user_def get_agent_def get_user_by_channel_def
  get_tenant_by_mapping_def get_invite_code_def get_chat_def get_chat_by_channel_def
  get_messages_def get_last_conversation_id_def get_cron_entry_def get_secret_def

end
