(* ===== verification/Onboarding.thy ===== *)
theory Onboarding
  imports Store_Steps
begin

text \<open>
  Joining a workspace, \<open>internal/domain/service/onboarding\<close>, and the administrator's invite
  commands, \<open>internal/app/cli/invite.go\<close>: finding an invite code in a message, redeeming it
  (a new tenant, a new user, a link to an existing user or tenant), joining an open tenant
  without a code, and making codes. The error of a join is always \<open>ErrRejected\<close>, so
  \<open>Fail\<close> carries the text for the user only.
\<close>

section \<open>Invite codes\<close>

definition code_char :: "char \<Rightarrow> bool" where
  "code_char c \<longleftrightarrow> is_digit c \<or> CHR ''A'' \<le> c \<and> c \<le> CHR ''Z''"

text \<open>The regular expression \<open>[A-Z0-9]{4}-[A-Z0-9]{4}\<close> at the start of a text.\<close>

definition code_at :: "string \<Rightarrow> bool" where
  "code_at s \<longleftrightarrow> 9 \<le> length s \<and> list_all code_char (take 4 s) \<and> s ! 4 = CHR ''-''
     \<and> list_all code_char (take 4 (drop 5 s))"

fun find_code :: "string \<Rightarrow> string" where
  "find_code [] = []"
| "find_code (c # s) = (if code_at (c # s) then take 9 (c # s) else find_code s)"

definition extract_code :: "string \<Rightarrow> string" where
  "extract_code content = find_code (to_upper content)"

definition invite_charset :: string where
  "invite_charset = ''ABCDEFGHIJKLMNOPQRSTUVWXYZ0123456789''"

text \<open>\<open>NewInviteCode\<close> on the eight bytes \<open>crypto/rand\<close> returns.\<close>

definition new_invite_code :: "nat list \<Rightarrow> string" where
  "new_invite_code buf =
     map (\<lambda>i. invite_charset ! (buf ! i mod length invite_charset)) [0..<4] @ ''-'' @
     map (\<lambda>i. invite_charset ! (buf ! (4 + i) mod length invite_charset)) [0..<4]"

definition validate_code :: "invite_code option \<Rightarrow> bool" where
  "validate_code ic = (case ic of None \<Rightarrow> False
     | Some c \<Rightarrow> if iv_used_by c \<noteq> [] then False else if iv_revoked_at c \<noteq> None then False else True)"

section \<open>Creating users and chats\<close>

definition create_user ::
  "string \<Rightarrow> string \<Rightarrow> incoming_message \<Rightarrow> world \<Rightarrow> (db_error + user) \<times> world" where
  "create_user tid chan m w =
     (let (uid, w1) = new_id w;
          u = \<lparr>us_id = uid, us_tenant = tid, us_name = in_user_name m, us_preferred_channel = chan,
               us_deleted_at = None, us_created_at = w_now w1\<rparr>
      in if_ok (save_user tid u w1) (\<lambda>e w2. (Inl e, w2)) (\<lambda>_ w2.
         if_ok (add_user_identity tid chan (in_user m) (us_id u) w2) (\<lambda>e w3. (Inl e, w3)) (\<lambda>_ w3.
         (Inr u, w3))))"

definition create_chat ::
  "string \<Rightarrow> string \<Rightarrow> incoming_message \<Rightarrow> string \<Rightarrow> world \<Rightarrow> (db_error + chat) \<times> world" where
  "create_chat tid chan m aid w =
     (let (cid, w1) = new_id w;
          c = \<lparr>ch_id = cid, ch_tenant = tid, ch_channel = chan, ch_external = in_chat m, ch_user = [],
               ch_is_group = in_is_group m, ch_name = in_group_name m, ch_agent = aid,
               ch_delivery = [], ch_indication = [], ch_created_at = w_now w1\<rparr>;
          (c', w2) =
            (if \<not> in_is_group m \<and> in_user m \<noteq> []
             then if_ok (get_user_by_channel tid chan (in_user m) w1) (\<lambda>_ w2. (c, w2))
               (\<lambda>u w2. (case u of None \<Rightarrow> c | Some u \<Rightarrow> c\<lparr>ch_user := us_id u\<rparr>, w2))
             else (c, w1))
      in if_ok (save_chat tid c' w2) (\<lambda>e w3. (Inl e, w3)) (\<lambda>_ w3. (Inr c', w3)))"

section \<open>Joining\<close>

abbreviation "default_rejection \<equiv> ''Please provide a valid invite code to get started.''"

record join_result =
  jn_tenant :: "tenant option"
  jn_user :: "user option"
  jn_action :: string

type_synonym join = "(string, join_result) outcome \<times> world"

definition rejected :: "'e \<Rightarrow> world \<Rightarrow> join" where
  "rejected e w = (Fail default_rejection, w)"

definition joined :: "tenant option \<Rightarrow> user option \<Rightarrow> string \<Rightarrow> world \<Rightarrow> join" where
  "joined t u act w = (Done \<lparr>jn_tenant = t, jn_user = u, jn_action = act\<rparr>, w)"

definition tenant_name :: "string \<Rightarrow> incoming_message \<Rightarrow> string" where
  "tenant_name code m =
     (let n = in_tenant_name m;
          n = (if n = [] \<and> in_user_name m \<noteq> [] then in_user_name m @ [CHR 0x27] @ ''s Workspace'' else n)
      in if n = [] then ''Tenant-'' @ take 4 code else n)"

text \<open>\<open>instr\<close> is the persona text embedded in the binary.\<close>

definition create_tenant ::
  "string \<Rightarrow> string \<Rightarrow> string \<Rightarrow> incoming_message \<Rightarrow> world \<Rightarrow> join" where
  "create_tenant instr chan code m w =
     (let (tid, w1) = new_id w;
          name = tenant_name code m;
          t = \<lparr>tn_id = tid, tn_name = name, tn_instructions = [], tn_default_agent = [],
               tn_join_policy = JoinPolicyInviteRequired, tn_rejection = default_rejection,
               tn_group_mode = GroupModeMentionOnly, tn_allowed_skills = [], tn_allowed_tools = [],
               tn_deleted_at = None, tn_created_at = w_now w1\<rparr>
      in if_ok (save_tenant tid t w1) rejected (\<lambda>_ w2.
         let (aid, w3) = new_id w2;
             a = \<lparr>ag_id = aid, ag_tenant = tid,
                  ag_name = (if in_agent_name m = [] then name @ '' Agent'' else in_agent_name m),
                  ag_instructions = instr, ag_created_at = w_now w3\<rparr>;
             t' = t\<lparr>tn_default_agent := aid\<rparr>
         in if_ok (save_agent tid a w3) rejected (\<lambda>_ w4.
            if_ok (save_tenant tid t' w4) rejected (\<lambda>_ w5.
            if_ok (create_user tid chan m w5) rejected (\<lambda>u w6.
            if_ok (if in_tenant m = [] then (Inr (), w6)
                   else save_tenant_mapping
                     \<lparr>tm_channel = chan, tm_external = in_tenant m, tm_tenant = tid\<rparr> w6)
              rejected (\<lambda>_ w7.
            if_ok (use_invite_code code (us_id u) w7) rejected (\<lambda>_ w8.
            joined (Some t') (Some u) ''tenant_created'' w8)))))))"

definition join_user ::
  "string \<Rightarrow> string \<Rightarrow> invite_code \<Rightarrow> incoming_message \<Rightarrow> world \<Rightarrow> join" where
  "join_user chan code ic m w =
     (if iv_tenant ic = [] then rejected () w
      else if_ok (get_tenant (iv_tenant ic) w) rejected (\<lambda>t w1.
        if_ok (create_user (iv_tenant ic) chan m w1) rejected (\<lambda>u w2.
        if_ok (use_invite_code code (us_id u) w2) rejected (\<lambda>_ w3.
        joined t (Some u) ''user_joined'' w3))))"

text \<open>The last part of \<open>linkUser\<close>; it dereferences the user fetched again after a merge.\<close>

definition link_identity ::
  "string \<Rightarrow> string \<Rightarrow> invite_code \<Rightarrow> incoming_message \<Rightarrow> tenant option \<Rightarrow> user option \<Rightarrow> world \<Rightarrow> join" where
  "link_identity chan code ic m t u w =
     (case u of None \<Rightarrow> (NilDeref, w) | Some u' \<Rightarrow>
        if_ok (add_user_identity (iv_tenant ic) chan (in_user m) (us_id u') w) rejected (\<lambda>_ w1.
        if_ok (use_invite_code code (iv_target ic) w1) rejected (\<lambda>_ w2.
        joined t u ''user_linked'' w2)))"

definition link_user ::
  "string \<Rightarrow> string \<Rightarrow> invite_code \<Rightarrow> incoming_message \<Rightarrow> world \<Rightarrow> join" where
  "link_user chan code ic m w =
     (let tid = iv_tenant ic; target = iv_target ic
      in if_ok (get_user tid target w) rejected (\<lambda>u w1. case u of None \<Rightarrow> rejected () w1 | Some _ \<Rightarrow>
         if_ok (get_tenant tid w1) rejected (\<lambda>t w2.
         let (ex, w3) = if_ok (get_user_by_channel tid chan (in_user m) w2)
               (\<lambda>_ w3. (None, w3)) (\<lambda>ex w3. (ex, w3))
         in case ex of
              None \<Rightarrow> link_identity chan code ic m t u w3
            | Some e \<Rightarrow>
                if us_id e = target then link_identity chan code ic m t u w3
                else if_ok (merge_user tid (us_id e) target w3) rejected (\<lambda>_ w4.
                  if_ok (get_user tid target w4) rejected (\<lambda>u' w5.
                  link_identity chan code ic m t u' w5)))))"

definition link_tenant ::
  "string \<Rightarrow> string \<Rightarrow> invite_code \<Rightarrow> incoming_message \<Rightarrow> world \<Rightarrow> join" where
  "link_tenant chan code ic m w =
     (let target = iv_target ic
      in if_ok (get_tenant target w) rejected (\<lambda>t w1.
         if t = None then rejected () w1
         else if in_tenant m = [] then rejected () w1
         else let (taken, w2) = if_ok (get_tenant_by_mapping chan (in_tenant m) w1)
                    (\<lambda>_ w2. (False, w2)) (\<lambda>ex w2. (ex \<noteq> [] \<and> ex \<noteq> target, w2))
         in if taken then (Fail ''This workspace is already linked to a different tenant.'', w2)
            else if_ok (save_tenant_mapping
                \<lparr>tm_channel = chan, tm_external = in_tenant m, tm_tenant = target\<rparr> w2) rejected (\<lambda>_ w3.
              if_ok (use_invite_code code ''system:tenant-link'' w3) rejected (\<lambda>_ w4.
              joined t None ''tenant_linked'' w4))))"

definition join_with_code ::
  "string \<Rightarrow> string \<Rightarrow> string \<Rightarrow> incoming_message \<Rightarrow> world \<Rightarrow> join" where
  "join_with_code instr chan code m w =
     if_ok (get_invite_code code w) rejected (\<lambda>ic w1. case ic of None \<Rightarrow> rejected () w1 | Some c \<Rightarrow>
       if \<not> validate_code ic then rejected () w1
       else if iv_type c = ''tenant'' then
         (if iv_target c \<noteq> [] then link_tenant chan code c m w1 else create_tenant instr chan code m w1)
       else if iv_type c = ''user'' then
         (if iv_target c \<noteq> [] then link_user chan code c m w1 else join_user chan code c m w1)
       else rejected () w1)"

definition join_tenant_without_code ::
  "string \<Rightarrow> incoming_message \<Rightarrow> string \<Rightarrow> world \<Rightarrow> join" where
  "join_tenant_without_code chan m tid w =
     if_ok (get_tenant tid w) rejected (\<lambda>t w1. case t of None \<Rightarrow> (NilDeref, w1) | Some t' \<Rightarrow>
       if tn_join_policy t' = JoinPolicyOpen then
         if_ok (create_user tid chan m w1) rejected (\<lambda>u w2. joined t (Some u) ''auto_joined'' w2)
       else (Fail (if tn_rejection t' = [] then default_rejection else tn_rejection t'), w1))"

definition join_without_code ::
  "string \<Rightarrow> incoming_message \<Rightarrow> string \<Rightarrow> world \<Rightarrow> join" where
  "join_without_code chan m tid w =
     (if tid = [] then
        (if in_tenant m = [] then rejected () w
         else if_ok (get_tenant_by_mapping chan (in_tenant m) w) rejected (\<lambda>tid' w1.
           if tid' = [] then rejected () w1 else join_tenant_without_code chan m tid' w1))
      else join_tenant_without_code chan m tid w)"

definition try_join ::
  "string \<Rightarrow> string \<Rightarrow> incoming_message \<Rightarrow> string \<Rightarrow> world \<Rightarrow> join" where
  "try_join instr chan m tid w =
     (let code = extract_code (in_content m)
      in if code \<noteq> [] then join_with_code instr chan code m w else join_without_code chan m tid w)"

definition feedback_messages :: "(string \<times> string) list" where
  "feedback_messages =
     [(''tenant_created'', ''Welcome! Your workspace has been created.''),
      (''user_joined'', ''Welcome! You have joined the workspace.''),
      (''auto_joined'', ''Welcome! You have been added to the workspace.''),
      (''user_linked'', ''Your account has been linked to this channel.''),
      (''tenant_linked'', ''This workspace has been linked to the tenant.'')]"

definition feedback_message :: "string \<Rightarrow> string" where
  "feedback_message action = (case map_of feedback_messages action of None \<Rightarrow> [] | Some m \<Rightarrow> m)"

section \<open>The administrator's commands\<close>

text \<open>
  \<open>Fail\<close> is \<open>fatalf\<close>; the random bytes are an argument, \<open>None\<close> if none could be read.
  \<open>GetUser\<close> and \<open>GetTenant\<close> return no error for a missing row, and the target checks look
  at the error only.
\<close>

definition invite_create ::
  "string \<Rightarrow> string \<Rightarrow> string \<Rightarrow> nat list option \<Rightarrow> world \<Rightarrow> (string, string) outcome \<times> world" where
  "invite_create typ tid target buf w =
     (if typ \<noteq> ''tenant'' \<and> typ \<noteq> ''user'' then (Fail ''--type'', w)
      else if typ = ''user'' \<and> tid = [] then (Fail ''--tenant is required for user codes'', w)
      else let (bad, w1) =
          (if target = [] then (False, w)
           else if typ = ''user'' then
             if_ok (get_user tid target w) (\<lambda>_ w1. (True, w1)) (\<lambda>_ w1. (False, w1))
           else if_ok (get_tenant target w) (\<lambda>_ w1. (True, w1)) (\<lambda>_ w1. (False, w1)))
        in if bad then (Fail (if typ = ''user'' then ''target user not found in tenant''
               else ''target tenant not found''), w1)
           else case buf of None \<Rightarrow> (Fail ''generate invite code'', w1) | Some bytes \<Rightarrow>
             let code = new_invite_code bytes
             in if_ok (save_invite_code \<lparr>iv_code = code, iv_type = typ, iv_tenant = tid,
                   iv_target = target, iv_used_by = [], iv_created_at = w_now w1,
                   iv_revoked_at = None\<rparr> w1)
                 (\<lambda>_ w2. (Fail ''save invite code'', w2)) (\<lambda>_ w2. (Done code, w2)))"

definition invite_status :: "invite_code \<Rightarrow> string" where
  "invite_status c = (if iv_used_by c \<noteq> [] then ''used'' else if iv_revoked_at c \<noteq> None then ''revoked''
     else ''active'')"

definition invite_list :: "string \<Rightarrow> string \<Rightarrow> world \<Rightarrow>
    (string, (string \<times> string \<times> string \<times> string \<times> instant) list) outcome \<times> world" where
  "invite_list typ tid w =
     if_ok (list_invite_codes typ tid w) (\<lambda>_ w1. (Fail ''list invite codes'', w1))
       (\<lambda>codes w1. (Done (map (\<lambda>c. (iv_code c, iv_type c, iv_target c, invite_status c, iv_created_at c))
          codes), w1))"

definition invite_revoke :: "string list \<Rightarrow> world \<Rightarrow> (string, string) outcome \<times> world" where
  "invite_revoke args w =
     (case args of [] \<Rightarrow> (Fail ''usage'', w)
      | code # _ \<Rightarrow>
          if_ok (revoke_invite_code code w) (\<lambda>_ w1. (Fail ''revoke invite code'', w1))
            (\<lambda>_ w1. (Done (''Invite code revoked: '' @ code), w1)))"

section \<open>Codes survive printing and typing\<close>

lemma to_upper_Cons:
  "of_char c < (128::nat) \<Longrightarrow> to_upper (c # s) = upper_char c # to_upper s"
  by (cases s) auto

lemma to_upper_append:
  "of_char c < (128::nat) \<Longrightarrow> to_upper (a @ c # s) = to_upper a @ to_upper (c # s)"
proof (induction a rule: to_upper.induct)
  case (3 a b r)
  then show ?case by simp
qed (auto simp: to_upper_Cons)

lemma code_char_ascii: "code_char c \<Longrightarrow> of_char c < (128::nat)"
  by (auto simp: code_char_def is_digit_def less_eq_char_def)

lemma charset_code: "i < 36 \<Longrightarrow> code_char (invite_charset ! i)"
proof -
  have "list_all code_char invite_charset" by code_simp
  moreover have "length invite_charset = 36" by code_simp
  moreover assume "i < 36"
  ultimately show ?thesis by (auto simp: list_all_length)
qed

lemma upper_char_dash: "upper_char c = CHR ''-'' \<longleftrightarrow> c = CHR ''-''"
proof
  assume u: "upper_char c = CHR ''-''"
  show "c = CHR ''-''"
  proof (cases "CHR ''a'' \<le> c \<and> c \<le> CHR ''z''")
    case True
    then have "(of_char c - 32 :: nat) mod 256 = 45"
      using arg_cong [OF u, of "of_char :: char \<Rightarrow> nat"] by (simp add: upper_char_def)
    moreover have "(n - 32) mod 256 \<noteq> 45" if "97 \<le> n" "n \<le> 122" for n :: nat
    proof -
      have "(n - 32) mod 256 = n - 32" using that by simp
      with that show ?thesis by linarith
    qed
    ultimately show ?thesis using True by (auto simp: less_eq_char_def)
  qed (use u in \<open>simp add: upper_char_def split: if_splits\<close>)
qed (simp add: upper_char_def less_eq_char_def)

lemma no_dash_upper: "CHR ''-'' \<notin> set a \<Longrightarrow> CHR ''-'' \<notin> set (to_upper a)"
  by (induction a rule: to_upper.induct) (auto simp: upper_char_dash eq_commute [of "CHR ''-''"])

lemma find_code_append:
  assumes "code_at s" "CHR ''-'' \<notin> set a" "CHR ''-'' \<notin> set (take 4 s)"
  shows "find_code (a @ s) = take 9 s"
  using assms(2)
proof (induction a)
  case Nil
  obtain c r where "s = c # r" using assms(1) by (cases s) (auto simp: code_at_def)
  with assms(1) show ?case by simp
next
  case (Cons c a)
  have "\<not> code_at ((c # a) @ s)"
  proof
    assume "code_at ((c # a) @ s)"
    then have d: "((c # a) @ s) ! 4 = CHR ''-''" by (simp add: code_at_def)
    show False
    proof (cases "4 < length (c # a)")
      case True
      with d Cons.prems show False by (metis nth_append nth_mem)
    next
      case False
      then have "s ! (4 - length (c # a)) = CHR ''-''" using d by (simp add: nth_append del: append_Cons)
      moreover have "4 - length (c # a) < 4" "9 \<le> length s" using assms(1) by (auto simp: code_at_def)
      then have "s ! (4 - length (c # a)) \<in> set (take 4 s)"
        using nth_mem [of "4 - length (c # a)" "take 4 s"] by simp
      ultimately show False using assms(3) by simp
    qed
  qed
  with Cons show ?case by simp
qed

lemma to_upper_ascii:
  "list_all (\<lambda>c. of_char c < (128::nat)) u \<Longrightarrow> to_upper (u @ r) = map upper_char u @ to_upper r"
  by (induction u) (simp_all add: to_upper_Cons)

definition is_code :: "string \<Rightarrow> bool" where
  "is_code s \<longleftrightarrow> length s = 9 \<and> code_at s"

lemma code_at_append: "is_code s \<Longrightarrow> code_at (s @ r)"
  by (auto simp: is_code_def code_at_def nth_append)

lemma code_no_dash: "is_code s \<Longrightarrow> CHR ''-'' \<notin> set (take 4 s)"
  by (auto simp: is_code_def code_at_def list_all_iff code_char_def is_digit_def less_eq_char_def)

lemma new_invite_code_is_code: "is_code (new_invite_code buf)"
proof -
  have len: "length invite_charset = 36" by code_simp
  have 4: "[0..<4] = [0, 1, 2, 3::nat]" by code_simp
  have list: "is_code ([a, b, c, d] @ ''-'' @ [e, f, g, h])"
    if "list_all code_char [a, b, c, d, e, f, g, h]" for a b c d e f g h
    using that by (simp add: is_code_def code_at_def)
  show ?thesis unfolding new_invite_code_def len 4 list.map
    by (rule list) (simp add: charset_code)
qed

text \<open>
  A code the administrator's command prints is found again in a message, in any mix of
  upper and lower case letters, after any text without a dash and before any text.
\<close>

theorem printed_code_extracted:
  assumes "CHR ''-'' \<notin> set pre" "map upper_char typed = new_invite_code buf"
    and "list_all (\<lambda>c. of_char c < (128::nat)) typed"
  shows "extract_code (pre @ typed @ post) = new_invite_code buf"
proof -
  let ?code = "new_invite_code buf"
  have c: "is_code ?code" by (rule new_invite_code_is_code)
  with assms(2) obtain a t where t: "typed = a # t" by (cases typed) (auto simp: is_code_def)
  have "to_upper (pre @ typed @ post) = to_upper pre @ to_upper (typed @ post)"
    using assms(3) to_upper_append [of a pre "t @ post"] by (simp add: t)
  also have "to_upper (typed @ post) = ?code @ to_upper post"
    using to_upper_ascii [OF assms(3)] assms(2) by simp
  finally have "extract_code (pre @ typed @ post) = take 9 (?code @ to_upper post)"
    using find_code_append [OF code_at_append [OF c] no_dash_upper [OF assms(1)], of "to_upper post"]
      code_no_dash [OF c] c
    by (simp add: extract_code_def is_code_def)
  with c show ?thesis by (simp add: is_code_def)
qed

theorem printed_code_extracted_witness:
  "extract_code ''join us with aa0c-d9zb, thanks'' = ''AA0C-D9ZB''
   \<and> new_invite_code [0, 36, 26, 2, 3, 35, 25, 1] = ''AA0C-D9ZB''"
proof -
  have n: "new_invite_code [0, 36, 26, 2, 3, 35, 25, 1] = ''AA0C-D9ZB''" by code_simp
  have "extract_code (''join us with '' @ ''aa0c-d9zb'' @ '', thanks'') = new_invite_code [0, 36, 26, 2, 3, 35, 25, 1]"
    by (rule printed_code_extracted, unfold n) code_simp+
  with n show ?thesis by simp
qed

section \<open>Joining is a run of store operations\<close>

lemma reaches_create_user [reach]: "reaches u w \<Longrightarrow> reaches u (snd (create_user tid chan m w))"
  unfolding create_user_def Let_def case_prod_beta by (auto intro!: reach)

lemma reaches_create_chat [reach]: "reaches u w \<Longrightarrow> reaches u (snd (create_chat tid chan m aid w))"
proof -
  assume u: "reaches u w"
  have "reaches u (snd (if_ok (get_user_by_channel tid chan ext (snd (new_id w)))
      (\<lambda>_ w2. (c, w2)) (\<lambda>x w2. (f x, w2))))" for ext c f
    using u by (intro reach) simp_all
  with u show ?thesis
    unfolding create_chat_def Let_def case_prod_beta by (intro reach) (auto intro: reach)
qed

lemma reaches_rejected [reach]: "reaches u w \<Longrightarrow> reaches u (snd (rejected e w))"
  by (simp add: rejected_def)

lemma reaches_joined [reach]: "reaches u w \<Longrightarrow> reaches u (snd (joined t us act w))"
  by (simp add: joined_def)

lemma reaches_create_tenant [reach]: "reaches u w \<Longrightarrow> reaches u (snd (create_tenant instr chan code m w))"
  unfolding create_tenant_def Let_def case_prod_beta
  by (intro reach; auto intro: reach)

lemma reaches_join_user [reach]: "reaches u w \<Longrightarrow> reaches u (snd (join_user chan code ic m w))"
  unfolding join_user_def by (auto intro!: reach)

lemma reaches_link_identity [reach]:
  "reaches u w \<Longrightarrow> reaches u (snd (link_identity chan code ic m t us w))"
  unfolding link_identity_def by (auto intro!: reach split: option.split)

lemma reaches_link_user [reach]: "reaches u w \<Longrightarrow> reaches u (snd (link_user chan code ic m w))"
  unfolding link_user_def Let_def case_prod_beta
  by (auto intro!: reach split: option.split)

lemma reaches_link_tenant [reach]: "reaches u w \<Longrightarrow> reaches u (snd (link_tenant chan code ic m w))"
  unfolding link_tenant_def Let_def case_prod_beta by (auto intro!: reach)

lemma reaches_join_with_code [reach]:
  "reaches u w \<Longrightarrow> reaches u (snd (join_with_code instr chan code m w))"
  unfolding join_with_code_def by (auto intro!: reach split: option.split)

lemma reaches_join_without_code [reach]:
  "reaches u w \<Longrightarrow> reaches u (snd (join_without_code chan m tid w))"
  unfolding join_without_code_def join_tenant_without_code_def
  by (auto intro!: reach split: option.split)

lemma reaches_try_join [reach]: "reaches u w \<Longrightarrow> reaches u (snd (try_join instr chan m tid w))"
  unfolding try_join_def Let_def by (auto intro!: reach)

text \<open>
  Whatever a message says, whatever the state of the store and whichever store calls fail,
  handling a join leaves the keys of the database unique and its references valid.
\<close>

theorem try_join_inv:
  assumes "db_inv (w_db w)" "try_join instr chan m tid w = (r, w')"
  shows "db_inv (w_db w')"
  using reaches_inv [OF reaches_try_join [OF reaches_refl] assms(1)] assms(2) by (metis snd_conv)

section \<open>A code joins once\<close>

lemma joined_iff [simp]: "joined t us act w = (r, w') \<longleftrightarrow>
    r = Done \<lparr>jn_tenant = t, jn_user = us, jn_action = act\<rparr> \<and> w' = w"
  by (auto simp: joined_def)

lemma rejected_iff [simp]: "rejected e w = (r, w') \<longleftrightarrow> r = Fail default_rejection \<and> w' = w"
  by (auto simp: rejected_def)

text \<open>
  Every successful way to join with a code ends with a successful \<open>UseInviteCode\<close> for a
  non-empty user; \<open>spends\<close> says so, and its rules follow the text like those of \<open>reaches\<close>.
\<close>

named_theorems spend

definition spends :: "string \<Rightarrow> world \<Rightarrow> join \<Rightarrow> bool" where
  "spends code w p \<longleftrightarrow> (\<forall>r w'. p = (Done r, w') \<longrightarrow>
     (\<exists>u w1. reaches w w1 \<and> u \<noteq> [] \<and> use_invite_code code u w1 = (Inr (), w')))"

lemma spends_if_ok:
  assumes "reaches w (snd c)"
    and "\<And>e w1. c = (Inl e, w1) \<Longrightarrow> reaches w w1 \<Longrightarrow> spends code w (err e w1)"
    and "\<And>a w1. c = (Inr a, w1) \<Longrightarrow> reaches w w1 \<Longrightarrow> spends code w (k a w1)"
  shows "spends code w (if_ok c err k)"
  using assms by (cases c; cases "fst c") auto

lemma spends_not_done [spend]:
  "spends code w (rejected e w1)" "spends code w (Fail t, w1)" "spends code w (NilDeref, w1)"
  by (simp_all add: spends_def)

lemma spends_use [spend]:
  "reaches w w1 \<Longrightarrow> u \<noteq> [] \<Longrightarrow>
   spends code w (if_ok (use_invite_code code u w1) rejected (\<lambda>_. joined t us act))"
  by (rule spends_if_ok) (auto simp: spends_def intro: reach)

definition proper_ids :: "world \<Rightarrow> bool" where
  "proper_ids w \<longleftrightarrow> (\<forall>n. w_ids w n \<noteq> [])"

lemma db_exec_ids: "db_exec s w = (r, w') \<Longrightarrow> w_ids w' = w_ids w"
  by (auto simp: db_exec_def Let_def split: if_splits sum.splits)

lemma db_tx_ids: "db_tx ss w = (r, w') \<Longrightarrow> w_ids w' = w_ids w"
  by (auto simp: db_tx_def split: prod.splits sum.splits)

lemma store_step_ids: "store_step w w' \<Longrightarrow> w_ids w' = w_ids w"
  by (induction rule: store_step.induct)
    (auto simp: save_tenant_def delete_tenant_def save_agent_def save_user_def delete_user_def
      add_user_identity_def save_chat_def save_message_def update_external_message_id_def
      evict_messages_def save_summary_def append_journal_def save_memory_def save_cron_entry_def
      delete_cron_entry_def update_cron_status_def update_cron_next_run_def insert_cron_run_def
      update_cron_run_def save_invite_code_def revoke_invite_code_def use_invite_code_def
      save_tenant_mapping_def delete_tenant_mapping_def merge_user_def save_secret_def
      delete_secret_def save_secret_token_def consume_secret_token_def append_error_log_def
      new_id_def Let_def dest!: db_exec_ids db_tx_ids split: if_splits prod.splits)

lemma reaches_proper: "reaches w w' \<Longrightarrow> proper_ids w \<Longrightarrow> proper_ids w'"
  unfolding reaches_def proper_ids_def
  by (induction rule: rtranclp_induct) (auto dest: store_step_ids)

lemma create_user_id:
  "create_user tid chan m w = (Inr u, w') \<Longrightarrow> us_id u = w_ids w (w_drawn w)"
  by (auto simp: create_user_def Let_def new_id_def if_ok_def split: prod.splits sum.splits)

lemma created_id_proper:
  "create_user tid chan m w1 = (Inr u, w') \<Longrightarrow> reaches w w1 \<Longrightarrow> proper_ids w \<Longrightarrow> us_id u \<noteq> []"
  using reaches_proper [of w w1] by (auto simp: proper_ids_def dest: create_user_id)

lemma spends_join_user [spend]:
  "proper_ids w \<Longrightarrow> reaches w w1 \<Longrightarrow> spends code w (join_user chan code ic m w1)"
  unfolding join_user_def
  by (auto intro!: spends_if_ok [of _ "get_tenant _ _"] spends_if_ok [of _ "create_user _ _ _ _"] spend reach
      dest: created_id_proper)

lemma spends_create_tenant [spend]:
  "proper_ids w \<Longrightarrow> reaches w w1 \<Longrightarrow> spends code w (create_tenant instr chan code m w1)"
  unfolding create_tenant_def Let_def case_prod_beta
  by (rule spends_if_ok [of _ "save_tenant _ _ _"], blast intro: reach, rule spend,
      rule spends_if_ok [of _ "save_agent _ _ _"], blast intro: reach, rule spend,
      rule spends_if_ok [of _ "save_tenant _ _ _"], blast intro: reach, rule spend,
      rule spends_if_ok [of _ "create_user _ _ _ _"], blast intro: reach, rule spend,
      rule spends_if_ok [of _ "if _ then _ else _"]) (auto intro!: reach spend dest: created_id_proper)

lemma spends_link_identity [spend]:
  "reaches w w1 \<Longrightarrow> iv_target ic \<noteq> [] \<Longrightarrow> spends code w (link_identity chan code ic m t us w1)"
  unfolding link_identity_def
  by (auto intro!: spends_if_ok [of _ "add_user_identity _ _ _ _ _"] spend reach split: option.split)

lemma spends_link_user [spend]:
  "reaches w w1 \<Longrightarrow> iv_target ic \<noteq> [] \<Longrightarrow> spends code w (link_user chan code ic m w1)"
  unfolding link_user_def Let_def case_prod_beta
  by (auto intro!: spends_if_ok [of _ "get_user _ _ _"] spends_if_ok [of _ "get_tenant _ _"]
      spends_if_ok [of _ "merge_user _ _ _ _"] spend reach split: option.split)

lemma spends_link_tenant [spend]:
  "reaches w w1 \<Longrightarrow> spends code w (link_tenant chan code ic m w1)"
  unfolding link_tenant_def Let_def case_prod_beta
  by (auto intro!: spends_if_ok [of _ "get_tenant _ _"] spends_if_ok [of _ "save_tenant_mapping _ _"] spend reach)

lemma spends_join_with_code:
  "proper_ids w \<Longrightarrow> spends code w (join_with_code instr chan code m w)"
  unfolding join_with_code_def
  by (auto intro!: spends_if_ok [of _ "get_invite_code _ _"] spend reach split: option.split)

text \<open>
  An invite code lets one message join, ever: once a message with the code has joined, no
  later message with the same code does, whoever sends it and whatever the store has done in
  between.
\<close>

theorem code_joins_once:
  assumes "try_join instr chan m tid w = (Done r, w1)" "extract_code (in_content m) \<noteq> []"
    and "proper_ids w" "store_step\<^sup>*\<^sup>* w1 w2"
    and "extract_code (in_content m') = extract_code (in_content m)"
  shows "fst (try_join instr chan' m' tid' w2) \<noteq> Done r'"
proof
  assume done2: "fst (try_join instr chan' m' tid' w2) = Done r'"
  let ?code = "extract_code (in_content m)"
  obtain u wa where a: "reaches w wa" "u \<noteq> []" "use_invite_code ?code u wa = (Inr (), w1)"
    using spends_join_with_code [OF assms(3), of ?code instr chan m] assms(1,2)
    by (auto simp: try_join_def spends_def)
  obtain w3 where "try_join instr chan' m' tid' w2 = (Done r', w3)"
    using done2 by (cases "try_join instr chan' m' tid' w2") auto
  moreover have "proper_ids w2"
    using assms(3,4) a(1) store_step.UseInviteCode [OF a(3)]
    by (metis reaches_def reaches_step reaches_trans reaches_proper)
  ultimately obtain u' wb where b: "reaches w2 wb" "use_invite_code ?code u' wb = (Inr (), w3)"
    using spends_join_with_code [of w2 ?code instr chan' m'] assms(2,5)
    by (auto simp: try_join_def spends_def)
  have "store_step\<^sup>*\<^sup>* w1 wb" using assms(4) b(1) by (simp add: reaches_def)
  from invite.once [OF a(3,2) this, of u'] b(2) show False by auto
qed

section \<open>Joining without a code\<close>

text \<open>
  Without a code a message changes the database only if the tenant it is for is live and
  its join policy is open; otherwise the answer is a rejection, with the tenant's own text if
  it has one, or the crash on a tenant that is gone.
\<close>

theorem no_code_needs_open_tenant:
  assumes "extract_code (in_content m) = []" "try_join instr chan m tid w = (r, w')"
  defines "t \<equiv> if tid = [] then mapped_tenant chan (in_tenant m) (w_db w) else tid"
  shows "w_db w' = w_db w \<and> (\<forall>res. r \<noteq> Done res)
    \<or> (\<exists>te. live_tenant t (w_db w) = Some te \<and> tn_join_policy te = JoinPolicyOpen)"
proof -
  have base: "w_db w2 = w_db w1 \<and> (\<forall>res. r \<noteq> Done res) \<or>
      (\<exists>te. live_tenant t (w_db w1) = Some te \<and> tn_join_policy te = JoinPolicyOpen)"
    if "join_tenant_without_code chan m t w1 = (r, w2)" for t w1 w2
    using that unfolding join_tenant_without_code_def get_tenant_def
    by (auto simp: db_query_def Let_def split: if_splits option.splits)
  show ?thesis
  proof (cases "tid = [] \<and> in_tenant m \<noteq> []")
    case True
    then show ?thesis using assms(1,2) base [of "mapped_tenant chan (in_tenant m) (w_db w)"]
      by (fastforce simp: try_join_def join_without_code_def get_tenant_by_mapping_def db_query_def
          Let_def t_def split: if_splits)
  next
    case False
    then show ?thesis using assms(1,2) base [of tid w w']
      by (auto simp: try_join_def join_without_code_def t_def split: if_splits)
  qed
qed

text \<open>
  A message without a code from a workspace mapped to a deleted tenant dereferences a nil
  tenant: \<open>GetTenant\<close> answers a missing row with nil and no error.
\<close>

theorem deleted_tenant_crashes:
  assumes "w_faults w = []" "extract_code (in_content m) = []" "in_tenant m \<noteq> []"
    and "mapped_tenant chan (in_tenant m) (w_db w) = t" "t \<noteq> []" "live_tenant t (w_db w) = None"
  shows "fst (try_join instr chan m [] w) = NilDeref"
  using assms by (simp add: try_join_def join_without_code_def join_tenant_without_code_def
      calm_queries)

section \<open>Redemptions that go wrong half way\<close>

lemma find_append_fresh: "\<forall>r \<in> set rows. \<not> p r \<Longrightarrow> p x \<Longrightarrow> find p (rows @ [x]) = Some x"
  by (induction rows) auto

lemma calm_create_user:
  assumes "w_faults w = []" "has_tenant tid (w_db w)" "\<not> has_user tid (w_ids w (w_drawn w)) (w_db w)"
  shows "\<exists>u w1. create_user tid chan m w = (Inr u, w1) \<and> us_id u = w_ids w (w_drawn w)
    \<and> w_faults w1 = [] \<and> d_invites (w_db w1) = d_invites (w_db w)
    \<and> user_by_channel tid chan (in_user m) (w_db w1) = Some (u\<lparr>us_created_at := rfc3339 (w_now w)\<rparr>)"
proof -
  let ?uid = "w_ids w (w_drawn w)"
  define u where "u = \<lparr>us_id = ?uid, us_tenant = tid, us_name = in_user_name m,
    us_preferred_channel = chan, us_deleted_at = None, us_created_at = w_now w\<rparr>"
  let ?u' = "u\<lparr>us_created_at := rfc3339 (w_now w)\<rparr>"
  define d where "d = (w_db w)\<lparr>d_users := d_users (w_db w) @ [?u'],
    d_identities := upsert (\<lambda>r. ui_tenant r = tid \<and> ui_channel r = chan \<and> ui_external r = in_user m)
      (\<lambda>r. r\<lparr>ui_user := ?uid\<rparr>)
      \<lparr>ui_tenant = tid, ui_channel = chan, ui_external = in_user m, ui_user = ?uid\<rparr>
      (d_identities (w_db w))\<rparr>"
  have new: "\<forall>r \<in> set (d_users (w_db w)). \<not> (us_tenant r = tid \<and> us_id r = ?uid)"
    using assms(3) by (auto simp: has_user_def list_ex_iff)
  have c: "create_user tid chan m w = (Inr u, w\<lparr>w_drawn := Suc (w_drawn w), w_db := d\<rparr>)"
    using assms new
    by (auto simp: create_user_def new_id_def Let_def save_user_def add_user_identity_def calm_exec
        upsert_def u_def d_def has_user_def has_tenant_def)
  have "identity_of tid chan (in_user m) d = Some
      (case identity_of tid chan (in_user m) (w_db w) of
         None \<Rightarrow> \<lparr>ui_tenant = tid, ui_channel = chan, ui_external = in_user m, ui_user = ?uid\<rparr>
       | Some r \<Rightarrow> r\<lparr>ui_user := ?uid\<rparr>)"
    unfolding identity_of_def d_def by (simp add: find_upsert_same)
  moreover have "find (\<lambda>r. us_tenant r = tid \<and> us_id r = ?uid \<and> us_deleted_at r = None)
      (d_users (w_db w) @ [?u']) = Some ?u'"
    using new by (intro find_append_fresh) (auto simp: u_def)
  then have "live_user tid ?uid d = Some ?u'" by (simp add: live_user_def d_def)
  ultimately have "user_by_channel tid chan (in_user m) d = Some ?u'"
    by (auto simp: user_by_channel_def split: option.splits)
  with c assms(1) show ?thesis by (simp add: u_def d_def)
qed

text \<open>
  C21: \<open>joinUser\<close> registers the sender before it redeems the code, so a sender who loses the
  race for a code is told that the join was rejected and is a member of the tenant from then
  on: he resolves by his channel identity.
\<close>

theorem lost_race_still_registers:
  assumes "w_faults w = []" "iv_tenant ic \<noteq> []" "has_tenant (iv_tenant ic) (w_db w)"
    and "\<not> has_user (iv_tenant ic) (w_ids w (w_drawn w)) (w_db w)"
    and "\<not> list_ex (code_free code) (d_invites (w_db w))"
  shows "\<exists>w'. join_user chan code ic m w = (Fail default_rejection, w')
    \<and> user_by_channel (iv_tenant ic) chan (in_user m) (w_db w') \<noteq> None"
proof -
  obtain u w1 where c: "create_user (iv_tenant ic) chan m w = (Inr u, w1)" "w_faults w1 = []"
    "d_invites (w_db w1) = d_invites (w_db w)"
    "user_by_channel (iv_tenant ic) chan (in_user m) (w_db w1) \<noteq> None"
    using calm_create_user [OF assms(1,3,4), of chan m] by auto
  have "use_invite_code code (us_id u) w1 = (Inl DbNotApplied, w1)"
    using c(2,3) assms(5) by (simp add: use_invite_code_def calm_exec rows_affected_0)
  with c assms(1,2) show ?thesis
    by (simp add: join_user_def get_tenant_def rejected_def)
qed

text \<open>
  A tenant-creation code redeemed from a workspace that is already mapped takes the
  workspace over: it is mapped to the new tenant afterwards. (A tenant-linking code is refused
  in that case.)
\<close>

theorem tenant_code_takes_workspace:
  assumes "create_tenant instr chan code m w = (Done res, w')" "in_tenant m \<noteq> []"
  shows "\<exists>t. jn_tenant res = Some t \<and> tn_id t = w_ids w (w_drawn w)
    \<and> mapped_tenant chan (in_tenant m) (w_db w') = tn_id t"
proof -
  let ?m = "\<lparr>tm_channel = chan, tm_external = in_tenant m, tm_tenant = w_ids w (w_drawn w)\<rparr>"
  have r: "\<exists>t. jn_tenant res = Some t \<and> tn_id t = w_ids w (w_drawn w)"
    using assms by (auto simp: create_tenant_def Let_def new_id_def if_ok_def split: prod.splits sum.splits)
  have "\<exists>u w6 w7. save_tenant_mapping ?m w6 = (Inr (), w7) \<and> use_invite_code code u w7 = (Inr (), w')"
    using assms
    by (simp add: create_tenant_def Let_def new_id_def if_ok_def split: prod.splits sum.splits) metis
  then obtain u w6 w7 where s: "save_tenant_mapping ?m w6 = (Inr (), w7)" and
    us: "use_invite_code code u w7 = (Inr (), w')" by blast
  have "find (mapping_at chan (in_tenant m)) (d_mappings (w_db w7)) =
      Some \<lparr>tm_channel = chan, tm_external = in_tenant m, tm_tenant = w_ids w (w_drawn w)\<rparr>"
  proof -
    have "find p (filter (\<lambda>r. \<not> p r) rows @ [m']) = Some m'" if "p m'" for p rows and m' :: tenant_mapping
      using that by (induction rows) auto
    moreover have "d_mappings (w_db w7) =
        filter (\<lambda>r. \<not> mapping_at chan (in_tenant m) r) (d_mappings (w_db w6)) @ [?m]"
      using db_exec_ok [OF s [unfolded save_tenant_mapping_def]]
      by (auto split: if_splits dest!: arg_cong [where f = d_mappings])
    moreover have "mapping_at chan (in_tenant m) ?m" by (simp add: mapping_at_def)
    ultimately show ?thesis by simp
  qed
  moreover have "d_mappings (w_db w') = d_mappings (w_db w7)"
    using us unfolding use_invite_code_def by (rule db_exec_frame) (auto split: if_splits)
  ultimately show ?thesis using r by (auto simp: mapped_tenant_def)
qed

text \<open>
  \<open>invite create --target\<close> does not reject a target that does not exist: the store reports
  a missing row without an error.
\<close>

theorem invite_target_unchecked:
  assumes "w_faults w = []" "typ = ''tenant'' \<or> typ = ''user'' \<and> tid \<noteq> []"
    and "\<forall>r \<in> set (d_invites (w_db w)). iv_code r \<noteq> new_invite_code buf"
  shows "\<exists>w'. invite_create typ tid target (Some buf) w = (Done (new_invite_code buf), w')
    \<and> (\<exists>r. invite_of (new_invite_code buf) (w_db w') = Some r \<and> iv_target r = target)"
proof -
  have "find (\<lambda>r. iv_code r = new_invite_code buf) (d_invites (w_db w) @ [x]) = Some x"
    if "iv_code x = new_invite_code buf" for x
    using find_append_fresh [of "d_invites (w_db w)" "\<lambda>r. iv_code r = new_invite_code buf"] assms(3) that
    by simp
  with assms show ?thesis
    by (auto simp: invite_create_def calm_queries save_invite_code_def calm_exec invite_of_def list_ex_iff Let_def)
qed

section \<open>A small store\<close>

definition demo_in :: "string \<Rightarrow> incoming_message" where
  "demo_in content = \<lparr>in_id = ''x1'', in_tenant = ''ws'', in_user = ''alice'', in_chat = ''dm'',
     in_content = content, in_attachments = [], in_is_group = False, in_is_mention = False,
     in_metadata = [], in_delivery = [], in_reply_to = [], in_indication = [], in_agent_name = [],
     in_tenant_name = [], in_user_name = ''Alice'', in_group_name = [], in_received_at = 0\<rparr>"

definition demo_invite :: "string \<Rightarrow> string \<Rightarrow> invite_code" where
  "demo_invite typ tid = \<lparr>iv_code = ''AAAA-0000'', iv_type = typ, iv_tenant = tid, iv_target = [],
     iv_used_by = [], iv_created_at = 0, iv_revoked_at = None\<rparr>"

text \<open>The tenant \<open>t1\<close>, mapped to the workspace \<open>ws\<close> of the channel \<open>tg\<close>, and one code.\<close>

definition demo_store :: "string \<Rightarrow> invite_code \<Rightarrow> world" where
  "demo_store policy ic = demo_world\<lparr>w_db := empty_db\<lparr>
     d_tenants := [demo_tenant\<lparr>tn_id := ''t1'', tn_join_policy := policy, tn_deleted_at := None\<rparr>],
     d_mappings := [\<lparr>tm_channel = ''tg'', tm_external = ''ws'', tm_tenant = ''t1''\<rparr>],
     d_invites := [ic]\<rparr>\<rparr>"

lemma demo_ids: "proper_ids (demo_store policy ic)"
  by (simp add: proper_ids_def demo_store_def demo_world_def)

lemma demo_calm: "w_faults (demo_store policy ic) = []"
  by (simp add: demo_store_def demo_world_def)

theorem code_joins_once_witness:
  "\<exists>r w1. try_join [] ''tg'' (demo_in ''hi AAAA-0000'') [] (demo_store JoinPolicyClosed (demo_invite ''user'' ''t1''))
       = (Done r, w1) \<and> jn_action r = ''user_joined''
     \<and> (\<forall>r'. fst (try_join [] ''tg'' (demo_in ''aaaa-0000'') [] (w1\<lparr>w_now := 9\<rparr>)) \<noteq> Done r')"
proof -
  let ?p = "try_join [] ''tg'' (demo_in ''hi AAAA-0000'') [] (demo_store JoinPolicyClosed (demo_invite ''user'' ''t1''))"
  have x: "extract_code (in_content (demo_in ''hi AAAA-0000'')) = ''AAAA-0000''"
    "extract_code (in_content (demo_in ''aaaa-0000'')) = ''AAAA-0000''" by code_simp+
  have "case fst ?p of Done r \<Rightarrow> jn_action r = ''user_joined'' | _ \<Rightarrow> False" by code_simp
  then obtain r w1 where d: "?p = (Done r, w1)" "jn_action r = ''user_joined''"
    by (cases ?p) (auto split: outcome.splits)
  have "store_step\<^sup>*\<^sup>* w1 (w1\<lparr>w_now := 9\<rparr>)" by (blast intro: store_step.Tick)
  then have "fst (try_join [] ''tg'' (demo_in ''aaaa-0000'') [] (w1\<lparr>w_now := 9\<rparr>)) \<noteq> Done r'" for r'
    by (intro code_joins_once [OF d(1) _ demo_ids]) (simp_all add: x)
  with d show ?thesis by blast
qed

theorem try_join_inv_witness:
  "\<exists>r w'. try_join [] ''tg'' (demo_in ''AAAA-0000'') [] (demo_world\<lparr>w_db := empty_db\<lparr>d_invites :=
      [demo_invite ''tenant'' []]\<rparr>\<rparr>) = (r, w') \<and> length (d_tenants (w_db w')) = 1 \<and> db_inv (w_db w')"
proof -
  let ?w = "demo_world\<lparr>w_db := empty_db\<lparr>d_invites := [demo_invite ''tenant'' []]\<rparr>\<rparr>"
  obtain r w' where t: "try_join [] ''tg'' (demo_in ''AAAA-0000'') [] ?w = (r, w')" by fastforce
  have "length (d_tenants (w_db (snd (try_join [] ''tg'' (demo_in ''AAAA-0000'') [] ?w)))) = 1" by code_simp
  moreover have "db_inv (w_db ?w)" using empty_db_inv by (simp add: inv_defs)
  from try_join_inv [OF this t] have "db_inv (w_db w')" .
  ultimately show ?thesis using t by auto
qed

theorem no_code_needs_open_tenant_witness:
  "\<exists>r w'. try_join [] ''tg'' (demo_in ''hello'') [] (demo_store JoinPolicyClosed (demo_invite ''user'' ''t1''))
     = (r, w') \<and> d_users (w_db w') = [] \<and> (\<forall>res. r \<noteq> Done res)"
proof -
  let ?w = "demo_store JoinPolicyClosed (demo_invite ''user'' ''t1'')"
  obtain r w' where t: "try_join [] ''tg'' (demo_in ''hello'') [] ?w = (r, w')" by fastforce
  have x: "extract_code (in_content (demo_in ''hello'')) = []" by code_simp
  have "mapped_tenant ''tg'' (in_tenant (demo_in ''hello'')) (w_db ?w) = ''t1''"
    "map_option tn_join_policy (live_tenant ''t1'' (w_db ?w)) = Some JoinPolicyClosed"
    "d_users (w_db ?w) = []" by code_simp+
  with no_code_needs_open_tenant [OF x t] t show ?thesis by auto
qed

theorem lost_race_still_registers_witness:
  "\<exists>w'. join_user ''tg'' ''AAAA-0000'' (demo_invite ''user'' ''t1'') (demo_in ''AAAA-0000'')
       (demo_store JoinPolicyClosed ((demo_invite ''user'' ''t1'')\<lparr>iv_used_by := ''bob''\<rparr>))
     = (Fail default_rejection, w') \<and> user_by_channel ''t1'' ''tg'' ''alice'' (w_db w') \<noteq> None"
proof -
  let ?w = "demo_store JoinPolicyClosed ((demo_invite ''user'' ''t1'')\<lparr>iv_used_by := ''bob''\<rparr>)"
  have f: "iv_tenant (demo_invite ''user'' ''t1'') = ''t1''" "in_user (demo_in ''AAAA-0000'') = ''alice''"
    by (simp_all add: demo_invite_def demo_in_def)
  have "has_tenant ''t1'' (w_db ?w)" "\<not> has_user ''t1'' (w_ids ?w (w_drawn ?w)) (w_db ?w)"
    "\<not> list_ex (code_free ''AAAA-0000'') (d_invites (w_db ?w))" by code_simp+
  with lost_race_still_registers [OF demo_calm, of "demo_invite ''user'' ''t1''" _ _ "''AAAA-0000''" "''tg''"
      "demo_in ''AAAA-0000''"]
  show ?thesis unfolding f by blast
qed

theorem tenant_code_takes_workspace_witness:
  "mapped_tenant ''tg'' ''ws'' (w_db (demo_store JoinPolicyClosed (demo_invite ''tenant'' []))) = ''t1''
   \<and> (\<exists>res w'. create_tenant [] ''tg'' ''AAAA-0000'' (demo_in ''AAAA-0000'')
         (demo_store JoinPolicyClosed (demo_invite ''tenant'' [])) = (Done res, w')
       \<and> mapped_tenant ''tg'' ''ws'' (w_db w') = ''i'')"
proof -
  let ?w = "demo_store JoinPolicyClosed (demo_invite ''tenant'' [])"
  let ?p = "create_tenant [] ''tg'' ''AAAA-0000'' (demo_in ''AAAA-0000'') ?w"
  have "case fst ?p of Done r \<Rightarrow> True | _ \<Rightarrow> False" by code_simp
  then obtain res w' where d: "?p = (Done res, w')" by (cases ?p) (auto split: outcome.splits)
  have f: "in_tenant (demo_in ''AAAA-0000'') = ''ws''" "w_ids ?w (w_drawn ?w) = ''i''" by code_simp+
  have "mapped_tenant ''tg'' ''ws'' (w_db ?w) = ''t1''" by code_simp
  moreover have "mapped_tenant ''tg'' ''ws'' (w_db w') = ''i''"
    using tenant_code_takes_workspace [OF d] f by auto
  ultimately show ?thesis using d by blast
qed

end
