(* ===== verification/Identity.thy ===== *)
theory Identity
  imports Onboarding
begin

text \<open>
  Identity resolution, \<open>internal/domain/service/identity\<close>: from the channel identity of a
  message to the tenant, user, agent and chat. Two in-memory caches, keyed by channel and
  external ID, answer first and are never invalidated. The resolver does not create users; it
  creates chats through the onboarding service.
\<close>

record user_entry =
  ue_tenant :: string
  ue_user :: string
  ue_agent :: string

record chat_entry =
  he_tenant :: string
  he_agent :: string
  he_chat :: string
  he_is_group :: bool

record resolver =
  rv_users :: "string \<Rightarrow> user_entry option"
  rv_chats :: "string \<Rightarrow> chat_entry option"
  rv_world :: world

record ident =
  id_tenant :: string
  id_user :: string
  id_agent :: string
  id_chat :: string
  id_is_group :: bool

definition no_ident :: ident where
  "no_ident = \<lparr>id_tenant = [], id_user = [], id_agent = [], id_chat = [], id_is_group = False\<rparr>"

datatype id_error = UnknownUser | UnknownGroup | IdStore db_error

text \<open>\<open>Fail\<close> carries the partial identity that comes with the error.\<close>

type_synonym resolution = "(ident \<times> id_error, ident) outcome \<times> resolver"

definition cache_key :: "string \<Rightarrow> string \<Rightarrow> string" where
  "cache_key chan ext = chan @ '':'' @ ext"

definition cache_user :: "string \<Rightarrow> string \<Rightarrow> resolver \<Rightarrow> user_entry option" where
  "cache_user chan ext s = rv_users s (cache_key chan ext)"

definition set_user :: "string \<Rightarrow> string \<Rightarrow> user_entry \<Rightarrow> resolver \<Rightarrow> resolver" where
  "set_user chan ext e s = s\<lparr>rv_users := (rv_users s)(cache_key chan ext \<mapsto> e)\<rparr>"

definition cache_chat :: "string \<Rightarrow> string \<Rightarrow> resolver \<Rightarrow> chat_entry option" where
  "cache_chat chan ext s = rv_chats s (cache_key chan ext)"

definition set_chat :: "string \<Rightarrow> string \<Rightarrow> chat_entry \<Rightarrow> resolver \<Rightarrow> resolver" where
  "set_chat chan ext e s = s\<lparr>rv_chats := (rv_chats s)(cache_key chan ext \<mapsto> e)\<rparr>"

text \<open>A store call made by the resolver.\<close>

definition on_store :: "(world \<Rightarrow> 'a \<times> world) \<Rightarrow> resolver \<Rightarrow> 'a \<times> resolver" where
  "on_store f s = (case f (rv_world s) of (a, w) \<Rightarrow> (a, s\<lparr>rv_world := w\<rparr>))"

definition chat_entry_of :: "string \<Rightarrow> string \<Rightarrow> chat \<Rightarrow> chat_entry" where
  "chat_entry_of tid aid c =
     \<lparr>he_tenant = tid, he_agent = aid, he_chat = ch_id c, he_is_group = ch_is_group c\<rparr>"

definition resolve_chat ::
  "string \<Rightarrow> string \<Rightarrow> incoming_message \<Rightarrow> string \<Rightarrow> resolver \<Rightarrow> (db_error + string \<times> bool) \<times> resolver" where
  "resolve_chat tid chan m aid s =
     (case cache_chat chan (in_chat m) s of
        Some e \<Rightarrow> (Inr (he_chat e, he_is_group e), s)
      | None \<Rightarrow>
        if_ok (on_store (get_chat_by_channel tid chan (in_chat m)) s) (\<lambda>e s1. (Inl e, s1)) (\<lambda>c s1.
          case c of
            Some c \<Rightarrow> (Inr (ch_id c, ch_is_group c),
                      set_chat chan (in_chat m) (chat_entry_of tid (ch_agent c) c) s1)
          | None \<Rightarrow>
              if_ok (on_store (create_chat tid chan m aid) s1) (\<lambda>e s2. (Inl e, s2)) (\<lambda>c s2.
                (Inr (ch_id c, ch_is_group c),
                 set_chat chan (in_chat m) (chat_entry_of tid (ch_agent c) c) s2))))"

definition resolve_user_inbound :: "string \<Rightarrow> incoming_message \<Rightarrow> resolver \<Rightarrow> resolution" where
  "resolve_user_inbound chan m s =
     (case cache_user chan (in_user m) s of
        Some e \<Rightarrow>
          if_ok (resolve_chat (ue_tenant e) chan m (ue_agent e) s)
            (\<lambda>e s1. (Fail (no_ident, IdStore e), s1))
            (\<lambda>(cid, grp) s1. (Done \<lparr>id_tenant = ue_tenant e, id_user = ue_user e,
               id_agent = ue_agent e, id_chat = cid, id_is_group = grp\<rparr>, s1))
      | None \<Rightarrow>
          if_ok (on_store (get_tenant_by_mapping chan (in_tenant m)) s)
            (\<lambda>_ s1. (Fail (no_ident, UnknownUser), s1)) (\<lambda>tid s1.
          if tid = [] then (Fail (no_ident, UnknownUser), s1)
          else if_ok (on_store (get_user_by_channel tid chan (in_user m)) s1)
            (\<lambda>_ s2. (Fail (no_ident, UnknownUser), s2)) (\<lambda>u s2. case u of
              None \<Rightarrow> (Fail (no_ident, UnknownUser), s2)
            | Some u \<Rightarrow>
                if_ok (on_store (get_tenant tid) s2)
                  (\<lambda>e s3. (Fail (no_ident, IdStore e), s3)) (\<lambda>t s3. case t of
                    None \<Rightarrow> (NilDeref, s3)
                  | Some t \<Rightarrow>
                      if_ok (resolve_chat tid chan m (tn_default_agent t) s3)
                        (\<lambda>e s4. (Fail (no_ident, IdStore e), s4))
                        (\<lambda>(cid, grp) s4. (Done \<lparr>id_tenant = tid, id_user = us_id u,
                           id_agent = tn_default_agent t, id_chat = cid, id_is_group = grp\<rparr>,
                           set_user chan (in_user m) \<lparr>ue_tenant = tid, ue_user = us_id u,
                             ue_agent = tn_default_agent t\<rparr> s4))))))"

definition resolve_group_sender ::
  "string \<Rightarrow> incoming_message \<Rightarrow> string \<Rightarrow> resolver \<Rightarrow> (id_error + string) \<times> resolver" where
  "resolve_group_sender chan m tid s =
     (if in_user m = [] then (Inr [], s)
      else if_ok (on_store (get_user_by_channel tid chan (in_user m)) s)
        (\<lambda>e s1. (Inl (IdStore e), s1))
        (\<lambda>u s1. (case u of None \<Rightarrow> Inl UnknownUser | Some u \<Rightarrow> Inr (us_id u), s1)))"

text \<open>The identity of the chat, completed by the sender's.\<close>

definition with_sender :: "string \<Rightarrow> incoming_message \<Rightarrow> ident \<Rightarrow> resolver \<Rightarrow> resolution" where
  "with_sender chan m ri s =
     if_ok (resolve_group_sender chan m (id_tenant ri) s)
       (\<lambda>e s1. (Fail (if e = UnknownUser then (ri, UnknownUser) else (no_ident, e)), s1))
       (\<lambda>uid s1. (Done (ri\<lparr>id_user := uid\<rparr>), s1))"

definition resolve_existing_chat :: "string \<Rightarrow> incoming_message \<Rightarrow> chat \<Rightarrow> resolver \<Rightarrow> resolution" where
  "resolve_existing_chat chan m c s =
     (let go = (\<lambda>aid s1. with_sender chan m
          \<lparr>id_tenant = ch_tenant c, id_user = [], id_agent = aid, id_chat = ch_id c,
           id_is_group = ch_is_group c\<rparr>
          (set_chat chan (in_chat m) (chat_entry_of (ch_tenant c) aid c) s1))
      in if ch_agent c \<noteq> [] then go (ch_agent c) s
         else if_ok (on_store (get_tenant (ch_tenant c)) s)
           (\<lambda>e s1. (Fail (no_ident, IdStore e), s1))
           (\<lambda>t s1. case t of None \<Rightarrow> (NilDeref, s1) | Some t \<Rightarrow> go (tn_default_agent t) s1))"

definition auto_create_chat ::
  "string \<Rightarrow> incoming_message \<Rightarrow> string \<Rightarrow> string \<Rightarrow> resolver \<Rightarrow> resolution" where
  "auto_create_chat chan m tid aid s =
     if_ok (on_store (create_chat tid chan m aid) s)
       (\<lambda>e s1. (Fail (no_ident, IdStore e), s1)) (\<lambda>c s1. resolve_existing_chat chan m c s1)"

definition resolve_group_inbound :: "string \<Rightarrow> incoming_message \<Rightarrow> resolver \<Rightarrow> resolution" where
  "resolve_group_inbound chan m s =
     (case cache_chat chan (in_chat m) s of
        Some e \<Rightarrow> with_sender chan m \<lparr>id_tenant = he_tenant e, id_user = [], id_agent = he_agent e,
          id_chat = he_chat e, id_is_group = he_is_group e\<rparr> s
      | None \<Rightarrow>
          if_ok (on_store (get_tenant_by_mapping chan (in_tenant m)) s)
            (\<lambda>_ s1. (Fail (no_ident, UnknownGroup), s1)) (\<lambda>tid s1.
          if tid = [] then (Fail (no_ident, UnknownGroup), s1)
          else if_ok (on_store (get_chat_by_channel tid chan (in_chat m)) s1)
            (\<lambda>e s2. (Fail (no_ident, IdStore e), s2)) (\<lambda>c s2. case c of
              Some c \<Rightarrow> resolve_existing_chat chan m c s2
            | None \<Rightarrow>
                if_ok (on_store (get_tenant tid) s2)
                  (\<lambda>e s3. (Fail (no_ident, IdStore e), s3)) (\<lambda>t s3. case t of
                    None \<Rightarrow> (NilDeref, s3)
                  | Some t \<Rightarrow> auto_create_chat chan m tid (tn_default_agent t) s3))))"

definition resolve :: "string \<Rightarrow> incoming_message \<Rightarrow> resolver \<Rightarrow> resolution" where
  "resolve chan m s =
     (if in_is_group m then resolve_group_inbound chan m s else resolve_user_inbound chan m s)"

definition new_resolver :: "world \<Rightarrow> resolver" where
  "new_resolver w = \<lparr>rv_users = (\<lambda>_. None), rv_chats = (\<lambda>_. None), rv_world = w\<rparr>"

section \<open>Users by ID\<close>

text \<open>\<open>UserResolver\<close>: its cache, and the loops that split off the IDs to fetch and fetch them.\<close>

record user_resolver =
  ur_cache :: "string \<Rightarrow> user option"
  ur_world :: world

fun split_cached :: "string \<Rightarrow> (string \<Rightarrow> user option) \<Rightarrow> string list \<Rightarrow> string list
    \<Rightarrow> (string \<Rightarrow> user option) \<Rightarrow> (string \<Rightarrow> user option) \<times> string list" where
  "split_cached tid cache [] seen res = (res, [])"
| "split_cached tid cache (uid # uids) seen res =
     (if uid = [] then split_cached tid cache uids seen res
      else if uid \<in> set seen then split_cached tid cache uids seen res
      else case cache (cache_key tid uid) of
             Some u \<Rightarrow> split_cached tid cache uids (uid # seen) (res(uid \<mapsto> u))
           | None \<Rightarrow> (let (r, todo) = split_cached tid cache uids (uid # seen) res
                     in (r, uid # todo)))"

fun fetch_users :: "string \<Rightarrow> string list \<Rightarrow> (string \<Rightarrow> user option) \<Rightarrow> user_resolver
    \<Rightarrow> (string \<Rightarrow> user option) \<times> user_resolver" where
  "fetch_users tid [] res s = (res, s)"
| "fetch_users tid (uid # uids) res s =
     (case get_user tid uid (ur_world s) of
        (Inl _, w) \<Rightarrow> fetch_users tid uids res (s\<lparr>ur_world := w\<rparr>)
      | (Inr None, w) \<Rightarrow> fetch_users tid uids res (s\<lparr>ur_world := w\<rparr>)
      | (Inr (Some u), w) \<Rightarrow> fetch_users tid uids (res(uid \<mapsto> u))
          (s\<lparr>ur_world := w, ur_cache := (ur_cache s)(cache_key tid uid \<mapsto> u)\<rparr>))"

definition resolve_users :: "string \<Rightarrow> string list \<Rightarrow> user_resolver
    \<Rightarrow> (string \<Rightarrow> user option) \<times> user_resolver" where
  "resolve_users tid uids s =
     (let (res, todo) = split_cached tid (ur_cache s) uids [] (\<lambda>_. None)
      in fetch_users tid todo res s)"

section \<open>The resolver is read-only for users\<close>

named_theorems chat_only \<open>programs that write chats only\<close>

definition chats_only :: "db \<Rightarrow> resolver \<Rightarrow> bool" where
  "chats_only d s \<longleftrightarrow> (\<exists>cs. w_db (rv_world s) = d\<lparr>d_chats := cs\<rparr>)"

lemma chats_only_if_ok [chat_only]:
  assumes "chats_only d (snd c)" "\<And>e s. chats_only d s \<Longrightarrow> chats_only d (snd (err e s))"
    "\<And>a s. chats_only d s \<Longrightarrow> chats_only d (snd (k a s))"
  shows "chats_only d (snd (if_ok c err k))"
  using assms by (cases c; cases "fst c") auto

lemma chats_only_cache [chat_only]:
  "chats_only d s \<Longrightarrow> chats_only d (set_user chan ext e s)"
  "chats_only d s \<Longrightarrow> chats_only d (set_chat chan ext h s)"
  by (simp_all add: chats_only_def set_user_def set_chat_def)

lemma chats_only_query [chat_only]:
  "chats_only d s \<Longrightarrow> chats_only d (snd (on_store (get_tenant tid) s))"
  "chats_only d s \<Longrightarrow> chats_only d (snd (on_store (get_tenant_by_mapping chan ext) s))"
  "chats_only d s \<Longrightarrow> chats_only d (snd (on_store (get_user_by_channel tid chan ext) s))"
  "chats_only d s \<Longrightarrow> chats_only d (snd (on_store (get_chat_by_channel tid chan ext) s))"
  by (auto simp: chats_only_def on_store_def calm_queries split: prod.splits dest!: db_query_world)

lemma save_chat_chats:
  "save_chat tid c w = (r, w') \<Longrightarrow> \<exists>cs. w_db w' = (w_db w)\<lparr>d_chats := cs\<rparr>"
proof -
  have exec: "\<exists>cs. w_db w' = (w_db w1)\<lparr>d_chats := cs\<rparr>"
    if "db_exec f w1 = (r, w')" "\<And>d d'. f d = Inr d' \<Longrightarrow> \<exists>cs. d' = d\<lparr>d_chats := cs\<rparr>" for f w1
  proof (cases r)
    case (Inl e)
    with db_exec_error [of f w1 e w'] that(1) show ?thesis by (intro exI [of _ "d_chats (w_db w1)"]) simp
  next
    case (Inr x)
    with db_exec_ok [of f w1 x w'] that show ?thesis by auto
  qed
  assume "save_chat tid c w = (r, w')"
  then obtain f w1 where "db_exec f w1 = (r, w')" "w_db w1 = w_db w"
    "\<And>d d'. f d = Inr d' \<Longrightarrow> \<exists>cs. d' = d\<lparr>d_chats := cs\<rparr>"
    unfolding save_chat_def Let_def new_id_def case_prod_beta
    by (rule that) (auto split: if_splits)
  with exec show ?thesis by metis
qed

lemma create_chat_chats:
  "create_chat tid chan m aid w = (r, w') \<Longrightarrow> \<exists>cs. w_db w' = (w_db w)\<lparr>d_chats := cs\<rparr>"
  by (auto simp: create_chat_def new_id_def if_ok_def get_user_by_channel_def Let_def
      split: if_splits prod.splits sum.splits option.splits dest!: save_chat_chats db_query_world)

lemma chats_only_create [chat_only]:
  "chats_only d s \<Longrightarrow> chats_only d (snd (on_store (create_chat tid chan m aid) s))"
  by (auto simp: chats_only_def on_store_def split: prod.splits dest!: create_chat_chats)

lemma chats_only_resolve_chat [chat_only]:
  "chats_only d s \<Longrightarrow> chats_only d (snd (resolve_chat tid chan m aid s))"
  unfolding resolve_chat_def by (auto intro!: chat_only split: option.split)

lemma chats_only_with_sender [chat_only]:
  "chats_only d s \<Longrightarrow> chats_only d (snd (with_sender chan m ri s))"
  unfolding with_sender_def resolve_group_sender_def by (auto intro!: chat_only split: option.split)

lemma chats_only_existing [chat_only]:
  "chats_only d s \<Longrightarrow> chats_only d (snd (resolve_existing_chat chan m c s))"
  unfolding resolve_existing_chat_def Let_def by (auto intro!: chat_only split: option.split)

lemma chats_only_user_inbound [chat_only]:
  "chats_only d s \<Longrightarrow> chats_only d (snd (resolve_user_inbound chan m s))"
  unfolding resolve_user_inbound_def by (auto intro!: chat_only split: option.split prod.split)

lemma chats_only_group_inbound [chat_only]:
  "chats_only d s \<Longrightarrow> chats_only d (snd (resolve_group_inbound chan m s))"
  unfolding resolve_group_inbound_def auto_create_chat_def by (auto intro!: chat_only split: option.split)

text \<open>
  Resolving a message, known or unknown, with or without store failures, writes chats only:
  it never creates, changes or deletes a user, an identity, a tenant or a mapping.
\<close>

theorem resolve_writes_chats_only:
  "\<exists>cs. w_db (rv_world (snd (resolve chan m s))) = (w_db (rv_world s))\<lparr>d_chats := cs\<rparr>"
proof -
  have "chats_only (w_db (rv_world s)) s"
    unfolding chats_only_def by (intro exI [of _ "d_chats (w_db (rv_world s))"]) simp
  then have "chats_only (w_db (rv_world s)) (snd (resolve chan m s))"
    unfolding resolve_def by (auto intro: chat_only)
  then show ?thesis by (simp add: chats_only_def)
qed

section \<open>What a resolution says\<close>

lemma db_query_value: "db_query q w = (Inr x, w') \<Longrightarrow> x = q (w_db w) \<and> w_db w' = w_db w"
  by (auto simp: db_query_def Let_def split: if_splits)

lemma resolve_chat_users: "resolve_chat tid chan m aid s = (r, s') \<Longrightarrow> rv_users s' = rv_users s"
  by (auto simp: resolve_chat_def if_ok_def on_store_def set_chat_def
      split: option.splits prod.splits sum.splits)

text \<open>
  A direct message from a sender who is not cached resolves, if it does, to the tenant its
  workspace is mapped to, to the live user registered there under the sender's channel
  identity, and to that tenant's default agent.
\<close>

theorem fresh_direct_message_identity:
  assumes "resolve chan m s = (Done ri, s')" "\<not> in_is_group m" "cache_user chan (in_user m) s = None"
  defines "d \<equiv> w_db (rv_world s)"
  shows "id_tenant ri = mapped_tenant chan (in_tenant m) d \<and> id_tenant ri \<noteq> []
    \<and> (\<exists>u. user_by_channel (id_tenant ri) chan (in_user m) d = Some u \<and> id_user ri = us_id u)
    \<and> (\<exists>t. live_tenant (id_tenant ri) d = Some t \<and> id_agent ri = tn_default_agent t)"
  using assms(1-3) unfolding d_def
  by (auto simp: resolve_def resolve_user_inbound_def if_ok_def on_store_def calm_queries
      split: option.splits prod.splits sum.splits if_splits dest!: db_query_value) metis+

lemma if_ok_Done:
  assumes "if_ok c err k = (Done r, s')" "\<And>e s. fst (err e s) \<noteq> Done r"
  obtains a s1 where "c = (Inr a, s1)" "k a s1 = (Done r, s')"
  using assms by (cases c; cases "fst c") (auto, metis fst_conv)

lemma resolved_cached:
  assumes "resolve_user_inbound chan m s = (Done ri, s1)"
  shows "cache_user chan (in_user m) s1 =
      Some \<lparr>ue_tenant = id_tenant ri, ue_user = id_user ri, ue_agent = id_agent ri\<rparr>"
proof (cases "cache_user chan (in_user m) s")
  case (Some e)
  with assms obtain cid grp where
    "resolve_chat (ue_tenant e) chan m (ue_agent e) s = (Inr (cid, grp), s1)"
    "ri = \<lparr>id_tenant = ue_tenant e, id_user = ue_user e, id_agent = ue_agent e, id_chat = cid,
       id_is_group = grp\<rparr>"
    by (auto simp: resolve_user_inbound_def elim!: if_ok_Done)
  with Some show ?thesis using resolve_chat_users by (fastforce simp: cache_user_def)
next
  case None
  with assms show ?thesis
    by (auto simp: resolve_user_inbound_def cache_user_def set_user_def elim!: if_ok_Done
        split: if_splits option.splits)
qed

text \<open>
  A resolved sender is final: for the life of the process every direct message from the
  same channel identity, from whatever workspace, gets the same tenant, user and agent, even
  after the user has been deleted or merged into another and the workspace remapped.
\<close>

theorem resolved_identity_is_final:
  assumes "resolve chan m s = (Done ri, s1)" "\<not> in_is_group m"
    and "rv_users s2 = rv_users s1" "\<not> in_is_group m'" "in_user m' = in_user m"
    and "resolve chan m' s2 = (Done ri', s3)"
  shows "id_tenant ri' = id_tenant ri \<and> id_user ri' = id_user ri \<and> id_agent ri' = id_agent ri"
proof -
  have "cache_user chan (in_user m) s1 =
      Some \<lparr>ue_tenant = id_tenant ri, ue_user = id_user ri, ue_agent = id_agent ri\<rparr>"
    using assms(1,2) by (intro resolved_cached [of _ _ s]) (simp_all add: resolve_def)
  then have "cache_user chan (in_user m') s2 =
      Some \<lparr>ue_tenant = id_tenant ri, ue_user = id_user ri, ue_agent = id_agent ri\<rparr>"
    using assms(3,5) by (simp add: cache_user_def)
  with assms(4,6) have "if_ok (resolve_chat (id_tenant ri) chan m' (id_agent ri) s2)
      (\<lambda>e s1. (Fail (no_ident, IdStore e), s1))
      (\<lambda>(cid, grp) s1. (Done \<lparr>id_tenant = id_tenant ri, id_user = id_user ri,
         id_agent = id_agent ri, id_chat = cid, id_is_group = grp\<rparr>, s1)) = (Done ri', s3)"
    by (simp add: resolve_def resolve_user_inbound_def)
  then show ?thesis by (rule if_ok_Done) auto
qed

text \<open>The cache keys of two channels differ if no channel name holds a colon.\<close>

lemma cache_key_inj:
  assumes "CHR '':'' \<notin> set a" "CHR '':'' \<notin> set b" "cache_key a x = cache_key b y"
  shows "a = b \<and> x = y"
proof -
  have "split2 (CHR '':'') (cache_key a x) = (a, Some x)" "split2 (CHR '':'') (cache_key b y) = (b, Some y)"
    using assms(1,2) split2_append [of "CHR '':''"] by (simp_all only: cache_key_def append_Cons append_Nil)
  with assms(3) show ?thesis by (metis Pair_inject option.inject)
qed

section \<open>Looking users up by ID\<close>

lemma split_cached_spec:
  "split_cached tid cache uids seen res = (res', todo) \<Longrightarrow>
     set todo = {u \<in> set uids. u \<noteq> [] \<and> u \<notin> set seen \<and> cache (cache_key tid u) = None} \<and>
     (\<forall>u. res' u = (if u \<in> set uids \<and> u \<noteq> [] \<and> u \<notin> set seen \<and> cache (cache_key tid u) \<noteq> None
        then cache (cache_key tid u) else res u))"
proof (induction uids arbitrary: seen res res' todo)
  case Nil
  then show ?case by simp
next
  case (Cons uid uids)
  consider "uid = [] \<or> uid \<in> set seen" | u where "uid \<noteq> []" "uid \<notin> set seen" "cache (cache_key tid uid) = Some u"
    | "uid \<noteq> []" "uid \<notin> set seen" "cache (cache_key tid uid) = None"
    by (cases "cache (cache_key tid uid)") auto
  then show ?case
  proof cases
    case 1
    with Cons.prems have "split_cached tid cache uids seen res = (res', todo)" by (auto split: if_splits)
    from Cons.IH [OF this] 1 show ?thesis by auto
  next
    case (2 u)
    with Cons.prems have "split_cached tid cache uids (uid # seen) (res(uid \<mapsto> u)) = (res', todo)" by simp
    from Cons.IH [OF this] 2 show ?thesis by auto
  next
    case 3
    then obtain todo' where "split_cached tid cache uids (uid # seen) res = (res', todo')" "todo = uid # todo'"
      using Cons.prems by (auto split: prod.splits)
    with 3 Cons.IH [OF this(1)] show ?thesis by auto
  qed
qed

lemma fetch_users_spec:
  "fetch_users tid todo res s = (res', s') \<Longrightarrow> w_faults (ur_world s) = [] \<Longrightarrow>
     res' = (\<lambda>u. if u \<in> set todo \<and> live_user tid u (w_db (ur_world s)) \<noteq> None
       then live_user tid u (w_db (ur_world s)) else res u)"
proof (induction todo arbitrary: res s)
  case Nil
  then show ?case by auto
next
  case (Cons uid todo)
  have g: "get_user tid uid (ur_world s) = (Inr (live_user tid uid (w_db (ur_world s))), ur_world s)"
    using Cons.prems(2) by (simp add: get_user_def)
  show ?case
  proof (cases "live_user tid uid (w_db (ur_world s))")
    case None
    with g Cons.prems have "fetch_users tid todo res s = (res', s')" by simp
    from Cons.IH [OF this Cons.prems(2)] None show ?thesis by (auto simp: fun_eq_iff)
  next
    case (Some u)
    with g Cons.prems have "fetch_users tid todo (res(uid \<mapsto> u))
        (s\<lparr>ur_cache := (ur_cache s)(cache_key tid uid \<mapsto> u)\<rparr>) = (res', s')" by simp
    from Cons.IH [OF this] Cons.prems(2) Some show ?thesis by (auto simp: fun_eq_iff)
  qed
qed

text \<open>
  Without store failures \<open>ResolveUsers\<close> is the pointwise lookup: repeated and empty IDs make
  no difference, a cached user is used as it is, any other ID gives the live user of the
  tenant, and an ID without one is absent from the result.
\<close>

theorem resolve_users_pointwise:
  assumes "w_faults (ur_world s) = []"
  shows "fst (resolve_users tid uids s) = (\<lambda>u. if u \<in> set uids \<and> u \<noteq> []
    then (case ur_cache s (cache_key tid u) of Some x \<Rightarrow> Some x
          | None \<Rightarrow> live_user tid u (w_db (ur_world s))) else None)"
proof -
  obtain res todo where sp: "split_cached tid (ur_cache s) uids [] (\<lambda>_. None) = (res, todo)" by fastforce
  obtain res' s' where f: "fetch_users tid todo res s = (res', s')" by fastforce
  show ?thesis
    using split_cached_spec [OF sp] fetch_users_spec [OF f assms]
    by (auto simp: resolve_users_def sp f fun_eq_iff split: option.splits)
qed

section \<open>A registered user\<close>

definition demo_registered :: world where
  "demo_registered = (demo_store JoinPolicyClosed (demo_invite ''user'' ''t1''))\<lparr>w_db :=
     (w_db (demo_store JoinPolicyClosed (demo_invite ''user'' ''t1'')))\<lparr>d_users := [demo_user ''u1''],
       d_identities := [\<lparr>ui_tenant = ''t1'', ui_channel = ''tg'', ui_external = ''alice'', ui_user = ''u1''\<rparr>]\<rparr>\<rparr>"

lemma demo_resolves:
  "\<exists>ri s'. resolve ''tg'' (demo_in ''hi'') (new_resolver demo_registered) = (Done ri, s') \<and> id_user ri = ''u1''"
proof -
  have "case fst (resolve ''tg'' (demo_in ''hi'') (new_resolver demo_registered)) of Done ri \<Rightarrow> id_user ri = ''u1''
    | _ \<Rightarrow> False" by code_simp
  then show ?thesis by (cases "resolve ''tg'' (demo_in ''hi'') (new_resolver demo_registered)")
      (auto split: outcome.splits)
qed

theorem fresh_direct_message_identity_witness:
  "\<exists>ri s'. resolve ''tg'' (demo_in ''hi'') (new_resolver demo_registered) = (Done ri, s')
     \<and> id_tenant ri = ''t1'' \<and> id_agent ri = ''a1''"
proof -
  obtain ri s' where r: "resolve ''tg'' (demo_in ''hi'') (new_resolver demo_registered) = (Done ri, s')"
    using demo_resolves by blast
  have f: "\<not> in_is_group (demo_in ''hi'')"
    "cache_user ''tg'' (in_user (demo_in ''hi'')) (new_resolver demo_registered) = None"
    by (simp_all add: demo_in_def cache_user_def new_resolver_def)
  have "mapped_tenant ''tg'' (in_tenant (demo_in ''hi'')) (w_db (rv_world (new_resolver demo_registered))) = ''t1''"
    "map_option tn_default_agent (live_tenant ''t1'' (w_db (rv_world (new_resolver demo_registered)))) = Some ''a1''"
    by code_simp+
  with fresh_direct_message_identity [OF r f] r show ?thesis by auto
qed

theorem resolved_identity_is_final_witness:
  "\<exists>ri s1 s2. resolve ''tg'' (demo_in ''hi'') (new_resolver demo_registered) = (Done ri, s1)
     \<and> s2 = s1\<lparr>rv_world := snd (delete_user ''t1'' ''u1'' (rv_world s1))\<rparr>
     \<and> live_user ''t1'' ''u1'' (w_db (rv_world s2)) = None
     \<and> (\<exists>ri' s3. resolve ''tg'' (demo_in ''again'') s2 = (Done ri', s3) \<and> id_user ri' = ''u1'')"
proof -
  obtain ri s1 where r: "resolve ''tg'' (demo_in ''hi'') (new_resolver demo_registered) = (Done ri, s1)"
    and u: "id_user ri = ''u1''" using demo_resolves by blast
  define s2 where "s2 = s1\<lparr>rv_world := snd (delete_user ''t1'' ''u1'' (rv_world s1))\<rparr>"
  have s1: "s1 = snd (resolve ''tg'' (demo_in ''hi'') (new_resolver demo_registered))" using r by simp
  have "live_user ''t1'' ''u1'' (w_db (rv_world s2)) = None" unfolding s2_def s1 by code_simp
  moreover have "case fst (resolve ''tg'' (demo_in ''again'') s2) of Done _ \<Rightarrow> True | _ \<Rightarrow> False"
    unfolding s2_def s1 by code_simp
  then obtain ri' s3 where r': "resolve ''tg'' (demo_in ''again'') s2 = (Done ri', s3)"
    by (cases "resolve ''tg'' (demo_in ''again'') s2") (auto split: outcome.splits)
  have "id_user ri' = ''u1''"
    using resolved_identity_is_final [OF r _ _ _ _ r'] u by (simp add: demo_in_def s2_def)
  ultimately show ?thesis using r r' unfolding s2_def by blast
qed

theorem resolve_users_pointwise_witness:
  "fst (resolve_users ''t1'' [''u1'', [], ''u1'', ''u9''] \<lparr>ur_cache = (\<lambda>_. None), ur_world = demo_registered\<rparr>)
     = (\<lambda>u. if u = ''u1'' then Some (demo_user ''u1'') else None)"
proof -
  have w: "w_faults (ur_world \<lparr>ur_cache = (\<lambda>_. None), ur_world = demo_registered\<rparr>) = []"
    by (simp add: demo_registered_def demo_calm)
  have l: "live_user ''t1'' ''u1'' (w_db demo_registered) = Some (demo_user ''u1'')"
    "live_user ''t1'' ''u9'' (w_db demo_registered) = None" by code_simp+
  show ?thesis using resolve_users_pointwise [OF w, of "''t1''"] l by (auto simp: fun_eq_iff)
qed

end
