(* ===== verification/Mapper.thy ===== *)
theory Mapper
  imports Identity
begin

text \<open>
  The mapper and the outbound router, \<open>internal/domain/service/mapper\<close> and \<open>outbound\<close>:
  channel messages to entities and back. Channel plugins are a parameter: \<open>send\<close> answers with
  the platform's message ID, or \<open>None\<close> for an error or a recovered panic.
\<close>

section \<open>Inbound\<close>

text \<open>An attachment without an ID gets a fresh one.\<close>

fun convert_attachments :: "attachment list \<Rightarrow> world \<Rightarrow> attachment list \<times> world" where
  "convert_attachments [] w = ([], w)"
| "convert_attachments (a # as) w =
     (let (i, w1) = (if at_id a = [] then new_id w else (at_id a, w));
          (rest, w2) = convert_attachments as w1
      in (a\<lparr>at_id := i\<rparr> # rest, w2))"

definition refresh_chat :: "incoming_message \<Rightarrow> ident \<Rightarrow> world \<Rightarrow> world" where
  "refresh_chat m ri w =
     if_ok (get_chat (id_tenant ri) (id_chat ri) w) (\<lambda>_ w1. w1) (\<lambda>c w1. case c of
       None \<Rightarrow> w1
     | Some c \<Rightarrow> snd (save_chat (id_tenant ri)
         (c\<lparr>ch_delivery := in_delivery m, ch_indication := in_indication m\<rparr>) w1))"

definition inbound_entity :: "incoming_message \<Rightarrow> ident \<Rightarrow> string \<Rightarrow> attachment list \<Rightarrow> message" where
  "inbound_entity m ri mid atts = zero_message\<lparr>ms_id := mid, ms_tenant := id_tenant ri,
     ms_user := id_user ri, ms_agent := id_agent ri, ms_chat := id_chat ri,
     ms_is_group := id_is_group ri, ms_ext_user := in_user m, ms_ext_message := in_id m,
     ms_ext_reply_to := in_reply_to m, ms_kind := KindMessage, ms_is_mention := in_is_mention m,
     ms_role := RoleUser, ms_content := in_content m, ms_attachments := atts,
     ms_metadata := in_metadata m, ms_created_at := in_received_at m\<rparr>"

text \<open>The message that was replied to, by its platform ID in the same chat.\<close>

definition lookup_reply :: "incoming_message \<Rightarrow> ident \<Rightarrow> world \<Rightarrow> message option \<times> world" where
  "lookup_reply m ri w =
     (if in_reply_to m = [] then (None, w)
      else if_ok (get_messages (\<lambda>_ rows. rows) (id_tenant ri)
          (no_filter\<lparr>mf_chat := id_chat ri, mf_ext_message := in_reply_to m, mf_limit := 1\<rparr>) w)
        (\<lambda>_ w1. (None, w1)) (\<lambda>ms w1. (case ms of [] \<Rightarrow> None | r # _ \<Rightarrow> Some r, w1)))"

definition partial_message :: "ident \<Rightarrow> message" where
  "partial_message ri = zero_message\<lparr>ms_tenant := id_tenant ri, ms_agent := id_agent ri,
     ms_chat := id_chat ri, ms_is_group := id_is_group ri\<rparr>"

definition to_message :: "string \<Rightarrow> incoming_message \<Rightarrow> resolver
    \<Rightarrow> (message \<times> id_error, message \<times> string) outcome \<times> resolver" where
  "to_message chan m s =
     (case resolve chan m s of
        (NilDeref, s1) \<Rightarrow> (NilDeref, s1)
      | (Fail (ri, e), s1) \<Rightarrow>
          (Fail (if e = UnknownUser then partial_message ri else zero_message, e), s1)
      | (Done ri, s1) \<Rightarrow>
          let w1 = refresh_chat m ri (rv_world s1);
              (mid, w2) = new_id w1;
              (atts, w3) = convert_attachments (in_attachments m) w2;
              e = inbound_entity m ri mid atts;
              (reply, w4) = lookup_reply m ri w3
          in (Done (case reply of None \<Rightarrow> (e, []) | Some r \<Rightarrow> (e\<lparr>ms_replied_to := ms_id r\<rparr>, ms_conv r)),
              s1\<lparr>rv_world := w4\<rparr>))"

section \<open>Outbound\<close>

definition lookup_target :: "message \<Rightarrow> world \<Rightarrow> string \<times> world" where
  "lookup_target m w =
     (if ms_target m = [] then ([], w)
      else if_ok (get_messages (\<lambda>_ rows. rows) (ms_tenant m)
          (no_filter\<lparr>mf_message := ms_target m, mf_limit := 1\<rparr>) w)
        (\<lambda>_ w1. ([], w1)) (\<lambda>ms w1. (case ms of [] \<Rightarrow> [] | r # _ \<Rightarrow> ms_ext_message r, w1)))"

definition delivery_of :: "chat \<Rightarrow> string_map" where
  "delivery_of c =
     (if (map_of (ch_delivery c) ''chat_id'' = None \<or> map_of (ch_delivery c) ''chat_id'' = Some [])
         \<and> ch_external c \<noteq> []
      then AList.update ''chat_id'' (ch_external c) (ch_delivery c) else ch_delivery c)"

definition no_outgoing :: outgoing_message where
  "no_outgoing = \<lparr>om_id = [], om_tenant = [], om_channel = [], om_chat = [], om_kind = KindUnset,
     om_target = [], om_content = [], om_attachments = [], om_metadata = [], om_delivery = []\<rparr>"

definition to_outgoing :: "message \<Rightarrow> world \<Rightarrow> (db_error + outgoing_message) \<times> world" where
  "to_outgoing m w =
     if_ok (get_chat (ms_tenant m) (ms_chat m) w) (\<lambda>e w1. (Inl e, w1)) (\<lambda>c w1. case c of
       None \<Rightarrow> (Inr no_outgoing, w1)
     | Some c \<Rightarrow>
         (let (target, w2) = lookup_target m w1
          in (Inr (no_outgoing\<lparr>om_id := ms_id m, om_channel := ch_channel c, om_chat := ch_external c,
                om_kind := ms_kind m, om_content := ms_content m, om_attachments := ms_attachments m,
                om_metadata := ms_metadata m, om_delivery := delivery_of c, om_target := target\<rparr>), w2)))"

text \<open>The handler: what it hands to a channel, and the world after it. It always returns nil.\<close>

definition outbound_handle :: "string list \<Rightarrow> (outgoing_message \<Rightarrow> string option) \<Rightarrow> message \<Rightarrow> world
    \<Rightarrow> outgoing_message option \<times> world" where
  "outbound_handle channels send m w =
     if_ok (to_outgoing m w) (\<lambda>_ w1. (None, w1)) (\<lambda>out w1.
       if om_channel out \<notin> set channels then (None, w1)
       else case send out of
         None \<Rightarrow> (Some out, w1)
       | Some ext \<Rightarrow> (Some out, if ext = [] then w1 else snd (update_external_message_id (ms_id m) ext w1)))"

section \<open>Delivery and threading\<close>


text \<open>
  A reply finds its message: after a stored message has been sent and the platform's ID for
  it recorded, an incoming reply to that ID in the same chat resolves to the message and its
  conversation, if the chat has no other message with that ID.
\<close>

theorem reply_threading:
  assumes "outbound_handle channels send m w = (Some out, w')" "send out = Some ext" "ext \<noteq> []"
    and "w_faults w = []" "r \<in> set (d_messages (w_db w))" "ms_id r = ms_id m" "ms_tenant r = ms_tenant m"
    and "\<forall>x \<in> set (d_messages (w_db w)). ms_id x = ms_id m \<longrightarrow> x = r"
    and "\<forall>x \<in> set (d_messages (w_db w)). ms_chat x = ms_chat r \<longrightarrow> ms_ext_message x \<noteq> ext"
    and "in_reply_to im = ext" "id_tenant ri = ms_tenant r" "id_chat ri = ms_chat r" "ms_chat r \<noteq> []"
  shows "\<exists>x. fst (lookup_reply im ri w') = Some x \<and> ms_id x = ms_id m \<and> ms_conv x = ms_conv r"
proof -
  have calm: "w_faults w = [] \<Longrightarrow> snd (to_outgoing m w) = w"
    by (auto simp: to_outgoing_def get_chat_def lookup_target_def get_messages_def split: option.splits)
  then have "to_outgoing m w = (Inr out, w)"
    using assms(1,4) by (auto simp: outbound_handle_def if_ok_def split: prod.splits sum.splits if_splits option.splits)
  then have w': "w' = snd (update_external_message_id (ms_id m) ext w)"
    using assms(1-3) by (auto simp: outbound_handle_def split: if_splits)
  have ok: "\<not> list_ex (\<lambda>x. ms_id x = ms_id m \<and> list_ex (\<lambda>y. ms_id y \<noteq> ms_id m
      \<and> ms_chat y = ms_chat x \<and> ms_ext_message y = ext) (d_messages (w_db w))) (d_messages (w_db w))"
    using assms(8,9) by (auto simp: list_ex_iff)
  let ?rows = "update_where (\<lambda>x. ms_id x = ms_id m) (\<lambda>x. x\<lparr>ms_ext_message := ext\<rparr>) (d_messages (w_db w))"
  have d: "d_messages (w_db w') = ?rows" "w_faults w' = []"
    using ok assms(3,4) by (simp_all add: w' update_external_message_id_def calm_exec)
  let ?f = "no_filter\<lparr>mf_chat := ms_chat r, mf_ext_message := ext, mf_limit := 1\<rparr>"
  have hit: "message_matches (ms_tenant r) ?f x \<Longrightarrow> x \<in> set ?rows \<Longrightarrow> x = r\<lparr>ms_ext_message := ext\<rparr>" for x
    using assms(3,8,9,13) by (auto simp: message_matches_def no_filter_def set_update_where split: if_splits)
  have mem: "r\<lparr>ms_ext_message := ext\<rparr> \<in> set (filter (message_matches (ms_tenant r) ?f) ?rows)"
    using assms(5,6) by (auto simp: message_matches_def no_filter_def set_update_where intro!: image_eqI [of _ _ r])
  let ?xs = "sort_key message_key (filter (message_matches (ms_tenant r) ?f) ?rows)"
  have "\<forall>x \<in> set ?xs. x = r\<lparr>ms_ext_message := ext\<rparr>" using hit by auto
  moreover have "r\<lparr>ms_ext_message := ext\<rparr> \<in> set ?xs" using mem by simp
  ultimately obtain rest where xs: "?xs = r\<lparr>ms_ext_message := ext\<rparr> # rest" by (cases ?xs) auto
  have "select_messages (\<lambda>_ rows. rows) (ms_tenant r) ?f (w_db w') = take 1 ?xs"
    using xs unfolding select_messages_def d(1) by (simp add: no_filter_def page_def)
  with xs assms(3,6,10-12) d(2) show ?thesis by (simp add: lookup_reply_def get_messages_def)
qed

section \<open>One exchange\<close>

definition demo_chat :: chat where
  "demo_chat = \<lparr>ch_id = ''c1'', ch_tenant = ''t1'', ch_channel = ''tg'', ch_external = ''dm'', ch_user = ''u1'',
     ch_is_group = False, ch_name = [], ch_agent = ''a1'', ch_delivery = [], ch_indication = [], ch_created_at = 0\<rparr>"

definition demo_answer :: message where
  "demo_answer = zero_message\<lparr>ms_id := ''m5'', ms_tenant := ''t1'', ms_conv := ''v1'', ms_chat := ''c1'',
     ms_role := RoleAssistant, ms_content := ''done''\<rparr>"

definition demo_exchange :: world where
  "demo_exchange = demo_world\<lparr>w_db := empty_db\<lparr>d_chats := [demo_chat], d_messages := [demo_answer]\<rparr>\<rparr>"

lemma demo_sent:
  "\<exists>out w'. outbound_handle [''tg''] (\<lambda>_. Some ''p77'') demo_answer demo_exchange = (Some out, w')"
proof -
  have "fst (outbound_handle [''tg''] (\<lambda>_. Some ''p77'') demo_answer demo_exchange) \<noteq> None" by code_simp
  then show ?thesis by (cases "outbound_handle [''tg''] (\<lambda>_. Some ''p77'') demo_answer demo_exchange") auto
qed


theorem reply_threading_witness:
  "\<exists>out w'. outbound_handle [''tg''] (\<lambda>_. Some ''p77'') demo_answer demo_exchange = (Some out, w')
     \<and> (\<exists>x. fst (lookup_reply ((demo_in ''thanks'')\<lparr>in_reply_to := ''p77''\<rparr>)
          (no_ident\<lparr>id_tenant := ''t1'', id_chat := ''c1''\<rparr>) w') = Some x \<and> ms_id x = ''m5'' \<and> ms_conv x = ''v1'')"
proof -
  obtain out w' where o: "outbound_handle [''tg''] (\<lambda>_. Some ''p77'') demo_answer demo_exchange = (Some out, w')"
    using demo_sent by blast
  have "\<exists>x. fst (lookup_reply ((demo_in ''thanks'')\<lparr>in_reply_to := ''p77''\<rparr>)
      (no_ident\<lparr>id_tenant := ''t1'', id_chat := ''c1''\<rparr>) w') = Some x \<and> ms_id x = ms_id demo_answer
      \<and> ms_conv x = ms_conv demo_answer"
    by (rule reply_threading [OF o refl]) (simp_all add: demo_exchange_def demo_answer_def demo_world_def
        empty_db_def zero_message_def)
  with o show ?thesis by (auto simp: demo_answer_def)
qed

end
