(* ===== verification/Conversation.thy ===== *)
theory Conversation
  imports Store_Steps "HOL-Library.Multiset"
begin

text \<open>
  The conversation service, \<open>internal/domain/service/conversation\<close>: which conversation a chat is
  in. Three maps are kept in memory: chat to conversation, conversation to chat, and
  conversation to tenant. A chat that is not in the map resumes the conversation of its last
  stored message, or starts one.
\<close>

record convs =
  cv_cache :: "string \<Rightarrow> string option"
  cv_reverse :: "string \<Rightarrow> string option"
  cv_tenants :: "string \<Rightarrow> string option"

definition new_convs :: convs where
  "new_convs = \<lparr>cv_cache = (\<lambda>_. None), cv_reverse = (\<lambda>_. None), cv_tenants = (\<lambda>_. None)\<rparr>"

definition store_mapping :: "string \<Rightarrow> string \<Rightarrow> string \<Rightarrow> convs \<Rightarrow> convs" where
  "store_mapping key conv tid c = c\<lparr>cv_cache := (cv_cache c)(key \<mapsto> conv),
     cv_reverse := (cv_reverse c)(conv \<mapsto> key), cv_tenants := (cv_tenants c)(conv \<mapsto> tid)\<rparr>"

definition resolve_conversation :: "message \<Rightarrow> convs \<times> world \<Rightarrow> (db_error + string) \<times> convs \<times> world" where
  "resolve_conversation m = (\<lambda>(c, w).
     case cv_cache c (ms_chat m) of
       Some conv \<Rightarrow> (Inr conv, c, w)
     | None \<Rightarrow>
         if_ok (get_last_conversation_id m w) (\<lambda>e w1. (Inl e, c, w1)) (\<lambda>conv w1.
           if conv \<noteq> [] then (Inr conv, store_mapping (ms_chat m) conv (ms_tenant m) c, w1)
           else let (conv, w2) = new_id w1
                in (Inr conv, store_mapping (ms_chat m) conv (ms_tenant m) c, w2)))"

definition register_conversation :: "string \<Rightarrow> string \<Rightarrow> convs \<Rightarrow> convs" where
  "register_conversation tid conv c = c\<lparr>cv_tenants := (cv_tenants c)(conv \<mapsto> tid)\<rparr>"

definition append_message :: "string \<Rightarrow> message \<Rightarrow> world \<Rightarrow> (db_error + unit) \<times> world" where
  "append_message conv m w = save_message (m\<lparr>ms_conv := conv\<rparr>) w"

definition get_history :: "(string \<Rightarrow> message list \<Rightarrow> message list) \<Rightarrow> string \<Rightarrow> int \<Rightarrow> int \<Rightarrow> string option
    \<Rightarrow> convs \<Rightarrow> world \<Rightarrow> (db_error + message list) \<times> world" where
  "get_history fts conv offset limit up_to c w =
     (case cv_tenants c conv of
        None \<Rightarrow> (Inr [], w)
      | Some tid \<Rightarrow> get_messages fts tid (no_filter\<lparr>mf_conv := conv, mf_limit := limit,
          mf_offset := offset, mf_tail := (0 < limit), mf_up_to := up_to\<rparr>) w)"

definition switch_conversation :: "message \<Rightarrow> string \<Rightarrow> convs \<Rightarrow> convs" where
  "switch_conversation m target c =
     (let c1 = (case cv_cache c (ms_chat m) of None \<Rightarrow> c
        | Some old \<Rightarrow> c\<lparr>cv_reverse := (cv_reverse c)(old := None), cv_tenants := (cv_tenants c)(old := None)\<rparr>)
      in store_mapping (ms_chat m) target (ms_tenant m) c1)"

definition reset_conversation :: "string \<Rightarrow> convs \<times> world \<Rightarrow> convs \<times> world" where
  "reset_conversation conv = (\<lambda>(c, w).
     case cv_reverse c conv of None \<Rightarrow> (c, w) | Some key \<Rightarrow>
       (case cv_tenants c conv of None \<Rightarrow> (c, w) | Some tid \<Rightarrow>
          let c1 = c\<lparr>cv_cache := (cv_cache c)(key := None), cv_reverse := (cv_reverse c)(conv := None),
                     cv_tenants := (cv_tenants c)(conv := None)\<rparr>;
              (conv', w1) = new_id w
          in (store_mapping key conv' tid c1, w1)))"

section \<open>The maps agree\<close>

text \<open>
  The conversation of a chat is registered with a tenant, and leads back to that chat; two
  chats do not share one.
\<close>

definition convs_ok :: "convs \<Rightarrow> bool" where
  "convs_ok c \<longleftrightarrow> (\<forall>key conv. cv_cache c key = Some conv \<longrightarrow>
     cv_reverse c conv = Some key \<and> cv_tenants c conv \<noteq> None)"

text \<open>A conversation that is new to the chats other than \<open>key\<close>.\<close>

definition free_for :: "string \<Rightarrow> string \<Rightarrow> convs \<Rightarrow> bool" where
  "free_for key conv c \<longleftrightarrow> (\<forall>k. k \<noteq> key \<longrightarrow> cv_cache c k \<noteq> Some conv)"

lemma store_mapping_ok: "convs_ok c \<Longrightarrow> free_for key conv c \<Longrightarrow> convs_ok (store_mapping key conv tid c)"
  by (auto simp: convs_ok_def free_for_def store_mapping_def)

lemma new_convs_ok: "convs_ok new_convs"
  by (simp add: convs_ok_def new_convs_def)

lemma register_ok: "convs_ok c \<Longrightarrow> convs_ok (register_conversation tid conv c)"
  by (auto simp: convs_ok_def register_conversation_def)

lemma switch_ok:
  assumes "convs_ok c" "free_for (ms_chat m) target c"
  shows "convs_ok (switch_conversation m target c)"
proof -
  have inj: "cv_cache c k = Some x \<Longrightarrow> cv_cache c k' = Some x \<Longrightarrow> k = k'" for k k' x
    using assms(1) by (metis convs_ok_def option.inject)
  from assms show ?thesis
    by (auto simp: convs_ok_def free_for_def switch_conversation_def store_mapping_def Let_def
        split: option.splits dest: inj)
qed

lemma resolve_cases:
  assumes "resolve_conversation m (c, w) = (Inr conv, c', w')"
  obtains "cv_cache c (ms_chat m) = Some conv" "c' = c" "w' = w"
  | "cv_cache c (ms_chat m) = None" "c' = store_mapping (ms_chat m) conv (ms_tenant m) c"
    "conv = last_conversation (ms_tenant m) (ms_chat m) (w_db w)" "conv \<noteq> []" "w_db w' = w_db w"
  | "cv_cache c (ms_chat m) = None" "c' = store_mapping (ms_chat m) conv (ms_tenant m) c"
    "last_conversation (ms_tenant m) (ms_chat m) (w_db w) = []" "conv = w_ids w (w_drawn w)"
    "w_drawn w' = Suc (w_drawn w)" "w_db w' = w_db w"
proof (cases "cv_cache c (ms_chat m)")
  case (Some x)
  with assms show ?thesis by (intro that(1)) (auto simp: resolve_conversation_def)
next
  case None
  with assms obtain w1 where q: "get_last_conversation_id m w =
      (Inr (last_conversation (ms_tenant m) (ms_chat m) (w_db w)), w1)" "w_db w1 = w_db w"
      "w_drawn w1 = w_drawn w" "w_ids w1 = w_ids w"
    by (auto simp: resolve_conversation_def get_last_conversation_id_def db_query_def Let_def split: if_splits)
  show ?thesis
  proof (cases "last_conversation (ms_tenant m) (ms_chat m) (w_db w) = []")
    case True
    with assms None q show ?thesis
      by (intro that(3)) (auto simp: resolve_conversation_def new_id_def)
  next
    case False
    with assms None q show ?thesis by (intro that(2)) (auto simp: resolve_conversation_def)
  qed
qed



section \<open>History\<close>

lemma sort_key_max_last:
  assumes "\<forall>y \<in> set xs. key y \<le> key x"
  shows "sort_key key (xs @ [x]) = sort_key key xs @ [x]"
proof (rule properties_for_sort_key)
  show "mset (sort_key key xs @ [x]) = mset (xs @ [x])" by simp
  show "filter (\<lambda>y. key k = key y) (sort_key key xs @ [x]) = filter (\<lambda>y. key k = key y) (xs @ [x])" for k
    by (simp add: sort_key_stable eq_commute [of "key k"])
  show "sorted (map key (sort_key key xs @ [x]))"
    using assms by (auto simp: sorted_append)
qed

lemma rev_page:
  "rev (page limit offset (rev xs)) =
     (if 0 < limit then drop (length xs - nat offset - nat limit) (take (length xs - nat offset) xs) else xs)"
proof -
  let ?ys = "take (length xs - nat offset) xs"
  have "drop (nat offset) (rev xs) = rev ?ys" by (simp add: drop_rev)
  moreover have "rev (take (nat limit) (rev ?ys)) = drop (length ?ys - nat limit) ?ys" by (simp add: take_rev)
  moreover have "length ?ys = length xs - nat offset" by simp
  ultimately show ?thesis unfolding page_def by (simp only: rev_rev_ident if_distrib [of rev] refl)
qed

text \<open>The messages of a conversation, oldest first.\<close>

definition conversation_messages :: "string \<Rightarrow> string \<Rightarrow> db \<Rightarrow> message list" where
  "conversation_messages tid conv d =
     sort_key message_key (filter (\<lambda>m. ms_tenant m = tid \<and> ms_conv m = conv) (d_messages d))"

lemma select_conversation:
  assumes "conv \<noteq> []"
  shows "select_messages fts tid (no_filter\<lparr>mf_conv := conv, mf_limit := limit, mf_offset := offset,
      mf_tail := (0 < limit), mf_up_to := None\<rparr>) d =
    (let xs = conversation_messages tid conv d; n = length xs - nat offset
     in if 0 < limit then drop (n - nat limit) (take n xs) else xs)"
proof -
  have m: "message_matches tid (no_filter\<lparr>mf_conv := conv, mf_limit := limit, mf_offset := offset,
      mf_tail := (0 < limit), mf_up_to := None\<rparr>) = (\<lambda>m. ms_tenant m = tid \<and> ms_conv m = conv)"
    using assms by (auto simp: message_matches_def no_filter_def fun_eq_iff)
  show ?thesis
    unfolding select_messages_def m
    using rev_page [of limit offset "conversation_messages tid conv d"]
    by (simp add: no_filter_def conversation_messages_def Let_def) (simp add: page_def)
qed

text \<open>
  C17: \<open>GetHistory\<close> with a limit returns the last messages of the conversation before the
  offset, oldest first: the full history splits into what is older, the page, and the offset
  newest messages.
\<close>

theorem history_pages_from_the_end:
  assumes "get_history fts conv offset limit None c w = (Inr out, w')" "cv_tenants c conv = Some tid"
    and "conv \<noteq> []" "0 < limit" "0 \<le> offset"
  shows "\<exists>older newest. conversation_messages tid conv (w_db w) = older @ out @ newest
    \<and> length newest = min (nat offset) (length (conversation_messages tid conv (w_db w)))
    \<and> (length out = nat limit \<or> older = [] \<and> length out \<le> nat limit)"
proof -
  let ?xs = "conversation_messages tid conv (w_db w)"
  let ?n = "length ?xs - nat offset"
  have p: "out = drop (?n - nat limit) (take ?n ?xs)"
    using assms(1,2,4) select_conversation [OF assms(3), of fts tid limit offset]
    by (auto simp: get_history_def get_messages_def db_query_def Let_def split: if_splits)
  have "?xs = take (?n - nat limit) ?xs @ out @ drop ?n ?xs"
    unfolding p by (metis append.assoc append_take_drop_id diff_le_self min.absorb1 take_take)
  moreover have "length (drop ?n ?xs) = min (nat offset) (length ?xs)" by auto
  moreover have "length out = nat limit \<or> take (?n - nat limit) ?xs = [] \<and> length out \<le> nat limit"
    unfolding p by auto
  ultimately show ?thesis by blast
qed

text \<open>
  A message appended to a conversation is the last of its history, if no message of the
  conversation is later, and a restarted service finds the chat in that conversation again, if
  no message of the chat is later.
\<close>

theorem append_then_read:
  assumes "append_message conv m w = (Inr (), w')" "\<not> list_ex (message_taken m) (d_messages (w_db w))"
    and "conv \<noteq> []"
    and "\<forall>x \<in> set (d_messages (w_db w)). ms_tenant x = ms_tenant m \<and> (ms_conv x = conv \<or> ms_chat x = ms_chat m)
           \<longrightarrow> message_key x \<le> message_key (message_row m)"
  shows "conversation_messages (ms_tenant m) conv (w_db w') =
      conversation_messages (ms_tenant m) conv (w_db w) @ [message_row (m\<lparr>ms_conv := conv\<rparr>)]
    \<and> (w_faults w' = [] \<longrightarrow> fst (resolve_conversation m (new_convs, w')) = Inr conv)"
proof -
  let ?r = "message_row (m\<lparr>ms_conv := conv\<rparr>)"
  have "message_taken (m\<lparr>ms_conv := conv\<rparr>) = message_taken m" by (simp add: message_taken_def fun_eq_iff)
  then have d: "d_messages (w_db w') = d_messages (w_db w) @ [?r]"
    using db_exec_ok [OF assms(1) [unfolded append_message_def save_message_def]] assms(2)
    by (auto split: if_splits dest!: arg_cong [where f = d_messages])
  have k: "message_key ?r = message_key (message_row m)" by (simp add: message_key_def message_row_def)
  have f: "ms_tenant ?r = ms_tenant m" "ms_conv ?r = conv" "ms_chat ?r = ms_chat m"
    by (simp_all add: message_row_def)
  have "conversation_messages (ms_tenant m) conv (w_db w') =
      conversation_messages (ms_tenant m) conv (w_db w) @ [?r]"
    unfolding conversation_messages_def d using assms(4) k f by (simp add: sort_key_max_last)
  moreover have "last_conversation (ms_tenant m) (ms_chat m) (w_db w') = conv"
    unfolding last_conversation_def d using assms(4) k f by (simp add: sort_key_max_last)
  then have "w_faults w' = [] \<longrightarrow> fst (resolve_conversation m (new_convs, w')) = Inr conv"
    using assms(3) by (simp add: resolve_conversation_def new_convs_def get_last_conversation_id_def)
  ultimately show ?thesis by blast
qed

text \<open>
  A switch drops the tenant of the conversation it leaves, so that the history of that
  conversation reads as empty afterwards, whatever it holds.
\<close>

theorem switch_hides_history:
  assumes "cv_cache c (ms_chat m) = Some old" "old \<noteq> target"
  shows "get_history fts old offset limit up_to (switch_conversation m target c) w = (Inr [], w)"
  using assms by (simp add: get_history_def switch_conversation_def store_mapping_def Let_def)

text \<open>
  A reset moves the chat to a conversation of its own: the fresh one, which resolves from
  then on and whose history is empty.
\<close>

theorem reset_starts_afresh:
  assumes "convs_ok c" "cv_cache c key = Some conv" "ms_chat m = key"
    and "\<forall>x \<in> set (d_messages (w_db w)). ms_conv x \<noteq> w_ids w (w_drawn w)" "w_ids w (w_drawn w) \<noteq> []"
    and "w_faults w = []" "reset_conversation conv (c, w) = (c', w')"
  shows "resolve_conversation m (c', w') = (Inr (w_ids w (w_drawn w)), c', w')
    \<and> fst (get_history fts (w_ids w (w_drawn w)) 0 0 None c' w') = Inr []"
proof -
  let ?new = "w_ids w (w_drawn w)"
  obtain tid where t: "cv_reverse c conv = Some key" "cv_tenants c conv = Some tid"
    using assms(1,2) by (auto simp: convs_ok_def)
  with assms(7) have c': "cv_cache c' key = Some ?new" "cv_tenants c' ?new = Some tid"
    "w' = w\<lparr>w_drawn := Suc (w_drawn w)\<rparr>"
    by (auto simp: reset_conversation_def new_id_def store_mapping_def Let_def)
  have "filter (\<lambda>m. ms_tenant m = tid \<and> ms_conv m = ?new) (d_messages (w_db w)) = []"
    using assms(4) by (simp add: filter_empty_conv)
  then have "conversation_messages tid ?new (w_db w) = []" by (simp add: conversation_messages_def)
  with c' assms(3,6) show ?thesis
    using select_conversation [OF assms(5), of fts tid 0 0]
    by (simp add: resolve_conversation_def get_history_def get_messages_def)
qed

section \<open>A conversation of three messages\<close>

definition demo_line :: "string \<Rightarrow> instant \<Rightarrow> message" where
  "demo_line i t = zero_message\<lparr>ms_id := i, ms_tenant := ''t1'', ms_conv := ''v1'', ms_chat := ''c1'',
     ms_role := RoleUser, ms_created_at := t\<rparr>"

definition demo_lines :: world where
  "demo_lines = demo_world\<lparr>w_db := empty_db\<lparr>d_messages :=
     [demo_line ''m2'' (5 * nanos), demo_line ''m1'' 0, demo_line ''m3'' (9 * nanos)]\<rparr>\<rparr>"

definition demo_convs :: convs where
  "demo_convs = store_mapping ''c1'' ''v1'' ''t1'' new_convs"

lemma demo_lines_sorted: "map ms_id (conversation_messages ''t1'' ''v1'' (w_db demo_lines)) = [''m1'', ''m2'', ''m3'']"
  by code_simp

theorem history_pages_from_the_end_witness:
  "\<exists>out. fst (get_history (\<lambda>_ ms. ms) ''v1'' 1 1 None demo_convs demo_lines) = Inr out
     \<and> map ms_id out = [''m2''] \<and> (\<exists>older newest.
        conversation_messages ''t1'' ''v1'' (w_db demo_lines) = older @ out @ newest \<and> length newest = 1)"
proof -
  let ?h = "get_history (\<lambda>_ ms. ms) ''v1'' 1 1 None demo_convs demo_lines"
  have "fst ?h = Inr (the (case fst ?h of Inr out \<Rightarrow> Some out | Inl _ \<Rightarrow> None))" by code_simp
  then obtain out w' where h: "?h = (Inr out, w')" by (cases ?h) auto
  have "case fst ?h of Inr out \<Rightarrow> map ms_id out = [''m2''] | Inl _ \<Rightarrow> False" by code_simp
  moreover have t: "cv_tenants demo_convs ''v1'' = Some ''t1''" by (simp add: demo_convs_def store_mapping_def)
  moreover have "length (conversation_messages ''t1'' ''v1'' (w_db demo_lines)) = 3"
    using arg_cong [OF demo_lines_sorted, of length] by simp
  ultimately show ?thesis using history_pages_from_the_end [OF h t] h by auto
qed

theorem append_then_read_witness:
  "\<exists>w'. append_message ''v1'' (demo_line ''m4'' (9 * nanos)) demo_lines = (Inr (), w')
     \<and> map ms_id (conversation_messages ''t1'' ''v1'' (w_db w')) = [''m1'', ''m2'', ''m3'', ''m4'']
     \<and> fst (resolve_conversation (demo_line ''m4'' (9 * nanos)) (new_convs, w')) = Inr ''v1''"
proof -
  let ?m = "demo_line ''m4'' (9 * nanos)"
  have "fst (append_message ''v1'' ?m demo_lines) = Inr ()"
    "w_faults (snd (append_message ''v1'' ?m demo_lines)) = []" by code_simp+
  then obtain w' where a: "append_message ''v1'' ?m demo_lines = (Inr (), w')" "w_faults w' = []"
    by (cases "append_message ''v1'' ?m demo_lines") auto
  have new: "\<not> list_ex (message_taken ?m) (d_messages (w_db demo_lines))" by code_simp
  have last: "\<forall>x \<in> set (d_messages (w_db demo_lines)). message_key x \<le> message_key (message_row ?m)"
    by code_simp
  have f: "ms_tenant ?m = ''t1''" "ms_id (message_row (?m\<lparr>ms_conv := ''v1''\<rparr>)) = ''m4''"
    by (simp_all add: demo_line_def message_row_def)
  show ?thesis using append_then_read [OF a(1) new] last a f demo_lines_sorted by auto
qed

theorem switch_hides_history_witness:
  "fst (get_history (\<lambda>_ ms. ms) ''v1'' 0 0 None (switch_conversation (demo_line ''m9'' 0) ''v7'' demo_convs) demo_lines) = Inr []
   \<and> conversation_messages ''t1'' ''v1'' (w_db demo_lines) \<noteq> []"
proof -
  have "cv_cache demo_convs (ms_chat (demo_line ''m9'' 0)) = Some ''v1''"
    by (simp add: demo_convs_def store_mapping_def demo_line_def)
  then have "get_history (\<lambda>_ ms. ms) ''v1'' 0 0 None (switch_conversation (demo_line ''m9'' 0) ''v7'' demo_convs) demo_lines
      = (Inr [], demo_lines)" by (rule switch_hides_history) simp
  with demo_lines_sorted show ?thesis by auto
qed

end
