(* ===== verification/Inbound.thy ===== *)
theory Inbound
  imports Mapper Conversation Scheduler
begin

text \<open>
  The runtime's inbound path, \<open>internal/app/agent/runtime.go\<close>: the handler every channel plugin
  calls with a message. It resolves the sender, lets strangers join, picks the conversation,
  moves attachment files to the message's directory, keeps unmentioned group messages out of
  the agent loop, and publishes the rest.
\<close>

record 'h app =
  ap_resolver :: resolver
  ap_convs :: convs
  ap_bus :: "'h bus"
  ap_fs :: fs
  ap_sent :: "(string \<times> outgoing_message) list"

abbreviation ap_world :: "'h app \<Rightarrow> world" where
  "ap_world s \<equiv> rv_world (ap_resolver s)"

definition set_world :: "world \<Rightarrow> 'h app \<Rightarrow> 'h app" where
  "set_world w s = s\<lparr>ap_resolver := (ap_resolver s)\<lparr>rv_world := w\<rparr>\<rparr>"

section \<open>Attachments\<close>

text \<open>The removal of the emptied download directory is left out: the model has no directories.\<close>

fun relocate_into :: "string \<Rightarrow> string list \<Rightarrow> attachment list \<Rightarrow> fs \<Rightarrow> attachment list \<times> fs" where
  "relocate_into dir ids [] f = ([], f)"
| "relocate_into dir ids (a # as) f =
     (let (a', f1) =
        (if at_path a = [] then (a, f)
         else case fs_rename (at_path a) (path_join [dir, path_base (at_path a)]) f of
                None \<Rightarrow> (a, f)
              | Some f1 \<Rightarrow> (a\<lparr>at_path := path_join (ids @ [path_base (at_path a)])\<rparr>, f1));
          (rest, f2) = relocate_into dir ids as f1
      in (a' # rest, f2))"

definition relocate_attachments ::
  "string \<Rightarrow> string \<Rightarrow> string \<Rightarrow> string \<Rightarrow> attachment list \<Rightarrow> fs \<Rightarrow> attachment list \<times> fs" where
  "relocate_attachments base tid conv mid atts f =
     (case ensure_message_dir base tid conv mid f of
        None \<Rightarrow> (atts, f)
      | Some dir \<Rightarrow> relocate_into dir [tid, conv, mid] atts f)"

section \<open>The handler\<close>

type_synonym handled = "(bus_error, unit) outcome"

definition reply_text :: "string \<Rightarrow> incoming_message \<Rightarrow> string \<Rightarrow> 'h app \<Rightarrow> 'h app" where
  "reply_text chan m txt s = s\<lparr>ap_sent := ap_sent s @ [(chan, no_outgoing\<lparr>om_channel := chan,
     om_content := txt, om_delivery := in_delivery m, om_target := in_id m\<rparr>)]\<rparr>"

definition publish_inbound :: "message \<Rightarrow> 'h app \<Rightarrow> handled \<times> 'h app" where
  "publish_inbound m s =
     (case publish TopicInbound m (ap_bus s) of
        (Inl e, b) \<Rightarrow> (Fail e, s\<lparr>ap_bus := b\<rparr>) | (Inr _, b) \<Rightarrow> (Done (), s\<lparr>ap_bus := b\<rparr>))"

text \<open>The group filter and the publication, for a message in the conversation \<open>conv\<close>.\<close>

definition route_message :: "string \<Rightarrow> message \<Rightarrow> 'h app \<Rightarrow> handled \<times> 'h app" where
  "route_message conv m s =
     (if ms_is_group m \<and> \<not> ms_is_mention m then
        if_ok (get_tenant (ms_tenant m) (ap_world s)) (\<lambda>_ w. (Done (), set_world w s)) (\<lambda>t w.
          if (case t of None \<Rightarrow> False | Some t \<Rightarrow> tn_group_mode t = GroupModeMentionOnly)
          then (Done (), set_world (snd (append_message conv m w)) s)
          else publish_inbound (m\<lparr>ms_conv := conv\<rparr>) (set_world w s))
      else publish_inbound (m\<lparr>ms_conv := conv\<rparr>) s)"

definition process_message :: "string \<Rightarrow> message \<Rightarrow> string \<Rightarrow> 'h app \<Rightarrow> handled \<times> 'h app" where
  "process_message base m reply s =
     (let c = (if reply = [] then ap_convs s else switch_conversation m reply (ap_convs s))
      in case resolve_conversation m (c, ap_world s) of
           (Inl _, c1, w1) \<Rightarrow> (Done (), set_world w1 (s\<lparr>ap_convs := c1\<rparr>))
         | (Inr conv, c1, w1) \<Rightarrow>
             (let (atts, f1) = (if ms_attachments m = [] then ([], ap_fs s)
                    else relocate_attachments base (ms_tenant m) conv (ms_id m) (ms_attachments m) (ap_fs s))
              in route_message conv (m\<lparr>ms_attachments := atts\<rparr>)
                   (set_world w1 (s\<lparr>ap_convs := c1, ap_fs := f1\<rparr>))))"

text \<open>A stranger: join, answer, and let an automatic join through.\<close>

definition onboard :: "string \<Rightarrow> string \<Rightarrow> string \<Rightarrow> incoming_message \<Rightarrow> string \<Rightarrow> 'h app \<Rightarrow> handled \<times> 'h app" where
  "onboard instr base chan m tid s =
     (case try_join instr chan m tid (ap_world s) of
        (NilDeref, w1) \<Rightarrow> (NilDeref, set_world w1 s)
      | (Fail txt, w1) \<Rightarrow> (Done (), reply_text chan m txt (set_world w1 s))
      | (Done res, w1) \<Rightarrow>
          (let txt = feedback_message (jn_action res);
               s1 = (if txt = [] then set_world w1 s else reply_text chan m txt (set_world w1 s))
           in if jn_action res \<noteq> ''auto_joined'' then (Done (), s1)
              else case to_message chan m (ap_resolver s1) of
                     (NilDeref, r) \<Rightarrow> (NilDeref, s1\<lparr>ap_resolver := r\<rparr>)
                   | (Fail _, r) \<Rightarrow> (Done (), s1\<lparr>ap_resolver := r\<rparr>)
                   | (Done (e, reply), r) \<Rightarrow> process_message base e reply (s1\<lparr>ap_resolver := r\<rparr>)))"

definition handle_inbound ::
  "string \<Rightarrow> string \<Rightarrow> string \<Rightarrow> incoming_message \<Rightarrow> 'h app \<Rightarrow> handled \<times> 'h app" where
  "handle_inbound instr base chan m s =
     (case to_message chan m (ap_resolver s) of
        (NilDeref, r) \<Rightarrow> (NilDeref, s\<lparr>ap_resolver := r\<rparr>)
      | (Done (e, reply), r) \<Rightarrow> process_message base e reply (s\<lparr>ap_resolver := r\<rparr>)
      | (Fail (partial, err), r) \<Rightarrow>
          (let s1 = s\<lparr>ap_resolver := r\<rparr>;
               tid = (if in_is_group m then ms_tenant partial else [])
           in if err = UnknownGroup \<and> \<not> in_is_mention m then (Done (), s1)
              else if err = UnknownGroup \<or> err = UnknownUser then onboard instr base chan m tid s1
              else (Done (), s1)))"

section \<open>What reaches the agent\<close>

lemma set_world_simps [simp]:
  "ap_world (set_world w s) = w" "ap_convs (set_world w s) = ap_convs s" "ap_bus (set_world w s) = ap_bus s"
  "ap_fs (set_world w s) = ap_fs s" "ap_sent (set_world w s) = ap_sent s"
  by (simp_all add: set_world_def)

lemma reply_text_simps [simp]:
  "ap_resolver (reply_text chan m txt s) = ap_resolver s" "ap_convs (reply_text chan m txt s) = ap_convs s"
  "ap_bus (reply_text chan m txt s) = ap_bus s" "ap_fs (reply_text chan m txt s) = ap_fs s"
  by (simp_all add: reply_text_def)

text \<open>\<open>accepted s s' e\<close>: one message, \<open>e\<close>, went to the end of the inbound queue.\<close>

definition accepted :: "'h app \<Rightarrow> 'h app \<Rightarrow> message \<Rightarrow> bool" where
  "accepted s s' e \<longleftrightarrow> (\<exists>q. b_queue (ap_bus s) TopicInbound = Some q \<and>
     ap_bus s' = (ap_bus s)\<lparr>b_queue := (b_queue (ap_bus s))(TopicInbound \<mapsto> q @ [e])\<rparr>)"

lemma publish_inbound_cases:
  "publish_inbound m s = (r, s') \<Longrightarrow> ap_convs s' = ap_convs s \<and> ap_resolver s' = ap_resolver s \<and>
     (ap_bus s' = ap_bus s \<or> accepted s s' m)"
  by (auto simp: publish_inbound_def publish_def accepted_def split: if_splits option.splits)

lemma resolve_conversation_convs:
  "resolve_conversation m (c, w) = (Inr conv, c', w') \<Longrightarrow> cv_cache c' (ms_chat m) = Some conv \<and> w_db w' = w_db w"
  by (erule resolve_cases) (auto simp: store_mapping_def)

lemma resolve_conversation_db: "resolve_conversation m (c, w) = (x, c', w') \<Longrightarrow> w_db w' = w_db w"
proof (cases x)
  case (Inl e)
  assume "resolve_conversation m (c, w) = (x, c', w')"
  with Inl show ?thesis
    by (auto simp: resolve_conversation_def if_ok_def get_last_conversation_id_def new_id_def
        split: option.splits prod.splits sum.splits if_splits dest!: db_query_world)
next
  case (Inr conv)
  assume "resolve_conversation m (c, w) = (x, c', w')"
  with Inr show ?thesis using resolve_conversation_convs by blast
qed

definition muted :: "message \<Rightarrow> db \<Rightarrow> bool" where
  "muted m d \<longleftrightarrow> ms_is_group m \<and> \<not> ms_is_mention m
     \<and> (\<exists>t. live_tenant (ms_tenant m) d = Some t \<and> tn_group_mode t = GroupModeMentionOnly)"

lemma route_message_published:
  assumes "route_message conv m s = (r, s')" "ap_bus s' \<noteq> ap_bus s"
  shows "accepted s s' (m\<lparr>ms_conv := conv\<rparr>) \<and> ap_convs s' = ap_convs s \<and> \<not> muted m (w_db (ap_world s))"
proof (cases "ms_is_group m \<and> \<not> ms_is_mention m")
  case False
  with assms publish_inbound_cases [of "m\<lparr>ms_conv := conv\<rparr>" s r s'] show ?thesis
    by (auto simp: route_message_def muted_def)
next
  case True
  obtain y w2 where g: "get_tenant (ms_tenant m) (ap_world s) = (y, w2)" by fastforce
  have "y \<noteq> Inl e" for e using True g assms by (auto simp: route_message_def)
  then obtain t where y: "y = Inr t" by (cases y) auto
  then have t: "t = live_tenant (ms_tenant m) (w_db (ap_world s))"
    using g by (auto simp: get_tenant_def dest: db_query_value)
  have nm: "\<not> (case t of None \<Rightarrow> False | Some t \<Rightarrow> tn_group_mode t = GroupModeMentionOnly)"
    using True g y assms by (auto simp: route_message_def split: if_splits)
  then have "\<not> muted m (w_db (ap_world s))" using t by (auto simp: muted_def)
  with True g y nm assms publish_inbound_cases [of "m\<lparr>ms_conv := conv\<rparr>" "set_world w2 s" r s']
  show ?thesis by (auto simp: route_message_def accepted_def)
qed

lemma process_message_published:
  assumes "process_message base m reply s = (r, s')" "ap_bus s' \<noteq> ap_bus s"
  shows "\<exists>e. accepted s s' e \<and> cv_cache (ap_convs s') (ms_chat e) = Some (ms_conv e)
    \<and> \<not> muted m (w_db (ap_world s)) \<and> (\<exists>atts. e = m\<lparr>ms_attachments := atts, ms_conv := ms_conv e\<rparr>)"
proof -
  define c where "c = (if reply = [] then ap_convs s else switch_conversation m reply (ap_convs s))"
  obtain x c1 w1 where rc: "resolve_conversation m (c, ap_world s) = (x, c1, w1)"
    by (cases "resolve_conversation m (c, ap_world s)")
  have "x \<noteq> Inl e" for e using rc assms by (auto simp: process_message_def c_def)
  then obtain conv where x: "x = Inr conv" by (cases x) auto
  note conv = resolve_conversation_convs [OF rc [unfolded x]]
  obtain atts f1 where af: "(if ms_attachments m = [] then ([], ap_fs s)
      else relocate_attachments base (ms_tenant m) conv (ms_id m) (ms_attachments m) (ap_fs s)) = (atts, f1)"
    by fastforce
  let ?s1 = "set_world w1 (s\<lparr>ap_convs := c1, ap_fs := f1\<rparr>)"
  have "route_message conv (m\<lparr>ms_attachments := atts\<rparr>) ?s1 = (r, s')"
    using assms(1) rc x af by (simp add: process_message_def c_def)
  from route_message_published [OF this] assms(2) conv show ?thesis
    by (intro exI [of _ "m\<lparr>ms_attachments := atts, ms_conv := conv\<rparr>"]) (auto simp: accepted_def muted_def)
qed


text \<open>
  An unmentioned group message of a tenant that wants mentions only does not reach the
  agent, and is kept in the conversation of its chat.
\<close>

theorem muted_message_kept:
  assumes "process_message base m [] s = (r, s')" "muted m (w_db (ap_world s))" "w_faults (ap_world s) = []"
    and "cv_cache (ap_convs s) (ms_chat m) = Some conv" "\<not> list_ex (message_taken m) (d_messages (w_db (ap_world s)))"
  shows "r = Done () \<and> ap_bus s' = ap_bus s
    \<and> (\<exists>x \<in> set (d_messages (w_db (ap_world s'))). ms_id x = ms_id m \<and> ms_conv x = conv \<and> ms_content x = ms_content m)"
proof -
  obtain t where t: "live_tenant (ms_tenant m) (w_db (ap_world s)) = Some t" "tn_group_mode t = GroupModeMentionOnly"
    "ms_is_group m" "\<not> ms_is_mention m" using assms(2) by (auto simp: muted_def)
  have mt: "message_taken (m\<lparr>ms_attachments := a, ms_conv := c\<rparr>) = message_taken m" for a c
    by (simp add: message_taken_def fun_eq_iff)
  have "resolve_conversation m (ap_convs s, ap_world s) = (Inr conv, ap_convs s, ap_world s)"
    using assms(4) by (simp add: resolve_conversation_def)
  moreover obtain atts f1 where "(if ms_attachments m = [] then ([], ap_fs s)
      else relocate_attachments base (ms_tenant m) conv (ms_id m) (ms_attachments m) (ap_fs s)) = (atts, f1)"
    by fastforce
  ultimately have "process_message base m [] s = route_message conv (m\<lparr>ms_attachments := atts\<rparr>)
      (set_world (ap_world s) (s\<lparr>ap_convs := ap_convs s, ap_fs := f1\<rparr>))"
    by (simp add: process_message_def)
  with assms(1,3,5) t show ?thesis
    by (auto simp: route_message_def get_tenant_def append_message_def save_message_def calm_exec mt message_row_def)
qed

section \<open>Attachments of scheduled messages\<close>

lemma copy_into_missing: "list_all (\<lambda>a. \<not> fs_exists f (at_path a)) atts \<Longrightarrow> copy_into dir atts f = ([], f)"
  by (induction atts) (auto simp: copy_file_def)

text \<open>
  The runtime stores the path of an attachment relative to the messages directory, and the
  scheduler opens it as it is, that is, relative to the working directory: a scheduled message
  gets no copy of the file, although the file is there under its full name.
\<close>

theorem scheduled_message_loses_file:
  assumes "base = CHR ''/'' # join ''/'' bs" "list_all plain bs" "bs \<noteq> []"
    and "at_path a = CHR ''/'' # join ''/'' cs" "list_all plain cs" "cs \<noteq> []"
    and "list_all plain [tid, conv, mid]" "fs_exists f (at_path a)" "fs_mkdir f = (\<lambda>_. True)"
    and "relocate_attachments base tid conv mid [a] f = ([a'], f')"
    and "path_join [fs_cwd f, at_path a'] \<notin> set (fs_files f')"
  shows "at_path a' = join ''/'' [tid, conv, mid, last cs]
    \<and> fs_exists f' (CHR ''/'' # join ''/'' (bs @ [''messages'', tid, conv, mid, last cs]))
    \<and> copy_attachment_files base did [a'] f' = ([], f')"
proof -
  have m: "plain ''messages''" by (simp add: plain_def)
  have l: "plain (last cs)" using assms(5,6) by (simp add: list_all_iff)
  have pb: "path_base (at_path a) = last cs" using path_base_plain assms(4-6) by simp
  have dir: "message_dir base tid conv mid = CHR ''/'' # join ''/'' (bs @ [''messages'', tid, conv, mid])"
    using path_join_abs [OF assms(2,3), of "[''messages'', tid, conv, mid]"] assms(1,7) m
    by (simp add: message_dir_def)
  have full: "path_join [message_dir base tid conv mid, last cs] =
      CHR ''/'' # join ''/'' (bs @ [''messages'', tid, conv, mid, last cs])"
    using path_join_abs [of "bs @ [''messages'', tid, conv, mid]" "[last cs]"] assms(2,7) m l dir by simp
  have rel: "path_join [tid, conv, mid, last cs] = join ''/'' [tid, conv, mid, last cs]"
    using path_join_rel [of "[tid, conv, mid, last cs]"] assms(7) l by simp
  have abs: "fs_abs g (CHR ''/'' # join ''/'' (bs @ [''messages'', tid, conv, mid, last cs])) =
      CHR ''/'' # join ''/'' (bs @ [''messages'', tid, conv, mid, last cs])" for g
    using path_clean_abs [of "bs @ [''messages'', tid, conv, mid, last cs]"] assms(2,7) m l
    by (simp add: fs_abs_def path_rooted_def)
  have ne: "at_path a \<noteq> []" using assms(4) by simp
  define f1 where "f1 = fs_write (path_join [message_dir base tid conv mid, last cs]) (fs_remove (at_path a) f)"
  have r: "a' = a\<lparr>at_path := join ''/'' [tid, conv, mid, last cs]\<rparr>" "f' = f1"
    using assms(10,8,9) rel ne
    by (auto simp: relocate_attachments_def ensure_message_dir_def Let_def pb fs_rename_def f1_def)
  have "fs_exists f' (CHR ''/'' # join ''/'' (bs @ [''messages'', tid, conv, mid, last cs]))"
    using abs unfolding r(2) f1_def full by (simp add: fs_exists_def fs_write_def)
  moreover have "tid \<noteq> []" "hd tid \<noteq> CHR ''/''" using assms(7) by (auto simp: plain_def) (metis hd_in_set)
  then have "\<not> path_rooted (at_path a')" unfolding r path_rooted_def by (cases tid) auto
  then have "\<not> fs_exists f' (at_path a')"
    using assms(11) r by (simp add: fs_exists_def fs_abs_def f1_def fs_write_def fs_remove_def)
  then have "copy_attachment_files base did [a'] f' = ([], f')"
    by (simp add: copy_attachment_files_def copy_into_missing del: copy_into.simps split: option.split)
  ultimately show ?thesis using r by simp
qed

section \<open>A running system\<close>

definition demo_app :: "nat app" where
  "demo_app = \<lparr>ap_resolver = new_resolver demo_registered, ap_convs = new_convs,
     ap_bus = bus_init 4 new_bus, ap_fs = \<lparr>fs_files = [''/tmp/x1/a.txt''], fs_cwd = ''/srv'',
     fs_mkdir = (\<lambda>_. True)\<rparr>, ap_sent = []\<rparr>"


theorem muted_message_kept_witness:
  "\<exists>s'. process_message ''/data'' (demo_line ''m9'' 0\<lparr>ms_is_group := True\<rparr>) []
      (demo_app\<lparr>ap_resolver := new_resolver (demo_registered\<lparr>w_db := (w_db demo_registered)\<lparr>d_tenants :=
          [demo_tenant\<lparr>tn_group_mode := GroupModeMentionOnly\<rparr>]\<rparr>\<rparr>), ap_convs := demo_convs\<rparr>) = (Done (), s')
     \<and> (\<exists>x \<in> set (d_messages (w_db (ap_world s'))). ms_id x = ''m9'' \<and> ms_conv x = ''v1'')"
proof -
  let ?m = "demo_line ''m9'' 0\<lparr>ms_is_group := True\<rparr>"
  let ?s = "demo_app\<lparr>ap_resolver := new_resolver (demo_registered\<lparr>w_db := (w_db demo_registered)\<lparr>d_tenants :=
      [demo_tenant\<lparr>tn_group_mode := GroupModeMentionOnly\<rparr>]\<rparr>\<rparr>), ap_convs := demo_convs\<rparr>"
  obtain r s' where p: "process_message ''/data'' ?m [] ?s = (r, s')" by fastforce
  have "muted ?m (w_db (ap_world ?s))"
    by (simp add: muted_def demo_line_def zero_message_def new_resolver_def live_tenant_def demo_tenant_def)
  moreover have "w_faults (ap_world ?s) = []"
    by (simp add: new_resolver_def demo_registered_def demo_store_def demo_world_def)
  moreover have "cv_cache (ap_convs ?s) (ms_chat ?m) = Some ''v1''"
    by (simp add: demo_convs_def store_mapping_def demo_line_def)
  moreover have "\<not> list_ex (message_taken ?m) (d_messages (w_db (ap_world ?s)))"
    by (simp add: new_resolver_def demo_registered_def demo_store_def empty_db_def)
  ultimately show ?thesis using muted_message_kept [OF p, of "''v1''"] p by (auto simp: demo_line_def)
qed

theorem scheduled_message_loses_file_witness:
  "\<exists>a' f'. relocate_attachments ''/data'' ''t1'' ''v1'' ''m1''
      [\<lparr>at_id = ''x'', at_kind = ''file'', at_filename = ''a.txt'', at_mime = [], at_size = 1,
        at_path = ''/tmp/x1/a.txt'', at_caption = []\<rparr>] (ap_fs demo_app) = ([a'], f')
     \<and> fs_exists f' ''/data/messages/t1/v1/m1/a.txt'' \<and> copy_attachment_files ''/data'' ''m7'' [a'] f' = ([], f')"
proof -
  let ?a = "\<lparr>at_id = ''x'', at_kind = ''file'', at_filename = ''a.txt'', at_mime = [], at_size = 1,
        at_path = ''/tmp/x1/a.txt'', at_caption = []\<rparr>"
  obtain a' f' where r: "relocate_attachments ''/data'' ''t1'' ''v1'' ''m1'' [?a] (ap_fs demo_app) = ([a'], f')"
    by (cases "relocate_attachments ''/data'' ''t1'' ''v1'' ''m1'' [?a] (ap_fs demo_app)")
      (auto simp: relocate_attachments_def ensure_message_dir_def demo_app_def Let_def split: option.splits prod.splits)
  have p: "list_all plain [''data'']" "list_all plain [''tmp'', ''x1'', ''a.txt'']"
    "list_all plain [''t1'', ''v1'', ''m1'']" by code_simp+
  have e: "fs_exists (ap_fs demo_app) (at_path ?a)" by code_simp
  have "path_join [fs_cwd (ap_fs demo_app), at_path (hd (fst (relocate_attachments ''/data'' ''t1'' ''v1'' ''m1'' [?a]
      (ap_fs demo_app))))] \<notin> set (fs_files (snd (relocate_attachments ''/data'' ''t1'' ''v1'' ''m1'' [?a]
      (ap_fs demo_app))))" by code_simp
  then have n: "path_join [fs_cwd (ap_fs demo_app), at_path a'] \<notin> set (fs_files f')" by (simp add: r)
  have "fs_exists f' (CHR ''/'' # join ''/'' ([''data''] @ [''messages'', ''t1'', ''v1'', ''m1'', last [''tmp'', ''x1'', ''a.txt'']]))
      \<and> copy_attachment_files ''/data'' ''m7'' [a'] f' = ([], f')"
    using scheduled_message_loses_file [of "''/data''" "[''data'']" ?a "[''tmp'', ''x1'', ''a.txt'']"
      "''t1''" "''v1''" "''m1''" "ap_fs demo_app" a' f' "''m7''", OF _ p(1) _ _ p(2) _ p(3) e _ r n]
    by (simp add: demo_app_def)
  with r show ?thesis by auto
qed

end
