(* ===== verification/Store_Tables.thy ===== *)
theory Store_Tables
  imports Store_Contracts
begin

text \<open>
  Tables that are read back by key: memories, secrets and tenant mappings. The interface is a
  locale, what is looked up under a key and an operation that stores a record under its key; its
  laws are what a lookup gives after an insert.
\<close>

definition store_all :: "('r \<Rightarrow> world \<Rightarrow> (db_error + unit) \<times> world) \<Rightarrow> 'r list \<Rightarrow> world \<Rightarrow> world" where
  "store_all put rs w = fold (\<lambda>r w. snd (put r w)) rs w"

lemma store_all_simps [simp]:
  "store_all put [] w = w" "store_all put (r # rs) w = store_all put rs (snd (put r w))"
  "store_all put (rs @ qs) w = store_all put qs (store_all put rs w)"
  by (simp_all add: store_all_def)

locale keyed_table =
  fixes look :: "'k \<Rightarrow> db \<Rightarrow> 'v option"
    and put :: "'r \<Rightarrow> world \<Rightarrow> (db_error + unit) \<times> world"
    and key_of :: "'r \<Rightarrow> 'k" and val_of :: "'r \<Rightarrow> 'v"
  assumes put_same: "put r w = (Inr x, w') \<Longrightarrow> look (key_of r) (w_db w') = Some (val_of r)"
    and put_other: "put r w = (Inr x, w') \<Longrightarrow> k \<noteq> key_of r \<Longrightarrow> look k (w_db w') = look k (w_db w)"
    and put_failed: "put r w = (Inl e, w') \<Longrightarrow> w_db w' = w_db w"
begin

lemma put_any:
  "look k (w_db (snd (put r w))) = (if k = key_of r \<and> (\<exists>x. fst (put r w) = Inr x) then Some (val_of r) else look k (w_db w))"
proof -
  obtain q w' where p: "put r w = (q, w')" by fastforce
  then show ?thesis using put_same [of r w _ w'] put_other [of r w _ w' k] put_failed [of r w _ w'] by (cases q) auto
qed

lemma stored_from:
  "look k (w_db (store_all put rs w)) = Some v \<Longrightarrow> look k (w_db w) = Some v \<or> (\<exists>r \<in> set rs. key_of r = k \<and> val_of r = v)"
proof (induction rs arbitrary: w)
  case (Cons r rs)
  then have "look k (w_db (snd (put r w))) = Some v \<or> (\<exists>q \<in> set rs. key_of q = k \<and> val_of q = v)" by simp
  then show ?case by (auto simp: put_any split: if_splits)
qed simp

lemma untouched: "k \<notin> key_of ` set rs \<Longrightarrow> look k (w_db (store_all put rs w)) = look k (w_db w)"
  by (induction rs arbitrary: w) (auto simp: put_any)

text \<open>The last record stored under a key is the one found.\<close>

lemma last_stored:
  assumes "fst (put r (store_all put rs w)) = Inr x" "key_of r \<notin> key_of ` set qs"
  shows "look (key_of r) (w_db (store_all put (rs @ r # qs) w)) = Some (val_of r)"
  using untouched [OF assms(2)] assms(1) by (simp add: put_any)

end

section \<open>The tables\<close>

definition memory_text :: "string \<times> string \<times> string \<Rightarrow> db \<Rightarrow> string option" where
  "memory_text k d = (case k of (tid, ot, oid) \<Rightarrow> map_option mm_content (memory_of tid ot oid d))"

lemma saved_memory:
  assumes "save_memory tid m w = (Inr x, w')"
  obtains upd new where "d_memories (w_db w') = upsert
      (\<lambda>r. mm_tenant r = tid \<and> mm_owner_type r = mm_owner_type m \<and> mm_owner_id r = mm_owner_id m) upd new (d_memories (w_db w))"
    "mm_tenant new = tid" "mm_owner_type new = mm_owner_type m" "mm_owner_id new = mm_owner_id m" "mm_content new = mm_content m"
    "\<And>r. mm_tenant (upd r) = mm_tenant r \<and> mm_owner_type (upd r) = mm_owner_type r \<and> mm_owner_id (upd r) = mm_owner_id r"
    "\<And>r. mm_content (upd r) = mm_content m"
proof -
  let ?at = "rfc3339 (if is_zero_time (mm_updated_at m) then w_now w else mm_updated_at m)"
  show thesis
    by (rule that [of "\<lambda>r. r\<lparr>mm_content := mm_content m, mm_updated_at := ?at\<rparr>" "m\<lparr>mm_tenant := tid, mm_updated_at := ?at\<rparr>"])
      (use assms in \<open>auto simp: save_memory_def db_exec_def Let_def split: if_splits\<close>)
qed

interpretation memories: keyed_table memory_text "\<lambda>(tid, m). save_memory tid m"
  "\<lambda>(tid, m). (tid, mm_owner_type m, mm_owner_id m)" "\<lambda>(tid, m). mm_content m"
proof (unfold_locales, goal_cases)
  case (1 r w x w')
  obtain tid m where r: "r = (tid, m)" by fastforce
  from 1 obtain upd new where d: "d_memories (w_db w') = upsert
      (\<lambda>r. mm_tenant r = tid \<and> mm_owner_type r = mm_owner_type m \<and> mm_owner_id r = mm_owner_id m) upd new (d_memories (w_db w))"
    "mm_tenant new = tid" "mm_owner_type new = mm_owner_type m" "mm_owner_id new = mm_owner_id m" "mm_content new = mm_content m"
    "\<And>r. mm_tenant (upd r) = mm_tenant r \<and> mm_owner_type (upd r) = mm_owner_type r \<and> mm_owner_id (upd r) = mm_owner_id r"
    "\<And>r. mm_content (upd r) = mm_content m" unfolding r prod.case by (rule saved_memory) (rule that)
  then show ?case by (simp add: r memory_text_def memory_of_def find_upsert_same split: option.split)
next
  case (2 r w x w' k)
  obtain tid m where r: "r = (tid, m)" by fastforce
  obtain t ot oid where k: "k = (t, ot, oid)" by (metis prod_cases3)
  from 2(1) obtain upd new where d: "d_memories (w_db w') = upsert
      (\<lambda>r. mm_tenant r = tid \<and> mm_owner_type r = mm_owner_type m \<and> mm_owner_id r = mm_owner_id m) upd new (d_memories (w_db w))"
    "mm_tenant new = tid" "mm_owner_type new = mm_owner_type m" "mm_owner_id new = mm_owner_id m" "mm_content new = mm_content m"
    "\<And>r. mm_tenant (upd r) = mm_tenant r \<and> mm_owner_type (upd r) = mm_owner_type r \<and> mm_owner_id (upd r) = mm_owner_id r"
    "\<And>r. mm_content (upd r) = mm_content m" unfolding r prod.case by (rule saved_memory) (rule that)
  have "memory_of t ot oid (w_db w') = memory_of t ot oid (w_db w)"
    unfolding memory_of_def d(1) by (rule find_upsert_other) (use 2(2) d(2-4,6) in \<open>auto simp: r k\<close>)
  then show ?case by (simp add: k memory_text_def)
next
  case (3 r w e w')
  then show ?case by (auto simp: save_memory_def Let_def split: prod.splits dest: db_exec_error)
qed

definition sealed_secret :: "string \<times> string \<times> string \<Rightarrow> db \<Rightarrow> string option" where
  "sealed_secret k d = (case k of (tid, uid, key) \<Rightarrow> map_option sc_value (find (secret_at tid uid key) (d_secrets d)))"

lemma saved_secret:
  assumes "save_secret tid s w = (Inr x, w')"
  obtains upd new where "d_secrets (w_db w') = upsert (secret_at tid (sc_user s) (sc_key s)) upd new (d_secrets (w_db w))"
    "secret_at tid (sc_user s) (sc_key s) new" "sc_value new = sc_value s"
    "\<And>r t u k. secret_at t u k (upd r) = secret_at t u k r" "\<And>r. sc_value (upd r) = sc_value s"
proof -
  let ?now = "rfc3339 (w_now w)" and ?mode = "if sc_mode s = [] then SecretModeValue else sc_mode s"
  show thesis
    by (rule that [of "\<lambda>r. r\<lparr>sc_id := sc_id s, sc_value := sc_value s, sc_scope := sc_scope s, sc_mode := ?mode, sc_updated_at := ?now\<rparr>"
        "s\<lparr>sc_tenant := tid, sc_mode := ?mode,
          sc_created_at := (if is_zero_time (sc_created_at s) then ?now else rfc3339 (sc_created_at s)), sc_updated_at := ?now\<rparr>"])
      (use assms in \<open>auto simp: save_secret_def db_exec_def Let_def secret_at_def split: if_splits\<close>)
qed

interpretation secrets: keyed_table sealed_secret "\<lambda>(tid, s). save_secret tid s"
  "\<lambda>(tid, s). (tid, sc_user s, sc_key s)" "\<lambda>(tid, s). sc_value s"
proof (unfold_locales, goal_cases)
  case (1 r w x w')
  obtain tid s where r: "r = (tid, s)" by fastforce
  from 1 obtain upd new where d: "d_secrets (w_db w') = upsert (secret_at tid (sc_user s) (sc_key s)) upd new (d_secrets (w_db w))"
    "secret_at tid (sc_user s) (sc_key s) new" "sc_value new = sc_value s"
    "\<And>r t u k. secret_at t u k (upd r) = secret_at t u k r" "\<And>r. sc_value (upd r) = sc_value s"
    unfolding r prod.case by (rule saved_secret) (rule that)
  then show ?case by (simp add: r sealed_secret_def find_upsert_same split: option.split)
next
  case (2 r w x w' k)
  obtain tid s where r: "r = (tid, s)" by fastforce
  obtain t u key where k: "k = (t, u, key)" by (metis prod_cases3)
  from 2(1) obtain upd new where d: "d_secrets (w_db w') = upsert (secret_at tid (sc_user s) (sc_key s)) upd new (d_secrets (w_db w))"
    "secret_at tid (sc_user s) (sc_key s) new" "sc_value new = sc_value s"
    "\<And>r t u k. secret_at t u k (upd r) = secret_at t u k r" "\<And>r. sc_value (upd r) = sc_value s"
    unfolding r prod.case by (rule saved_secret) (rule that)
  have "find (secret_at t u key) (d_secrets (w_db w')) = find (secret_at t u key) (d_secrets (w_db w))"
    unfolding d(1) by (rule find_upsert_other, unfold d(4)) (use 2(2) d(2) in \<open>auto simp: r k secret_at_def\<close>)
  then show ?case by (simp add: k sealed_secret_def)
next
  case (3 r w e w')
  then show ?case by (auto simp: save_secret_def Let_def split: prod.splits dest: db_exec_error)
qed

definition workspace_tenant :: "string \<times> string \<Rightarrow> db \<Rightarrow> string option" where
  "workspace_tenant k d = map_option tm_tenant (find (mapping_at (fst k) (snd k)) (d_mappings d))"

interpretation mappings: keyed_table workspace_tenant save_tenant_mapping "\<lambda>m. (tm_channel m, tm_external m)" tm_tenant
proof (unfold_locales, goal_cases)
  case (1 m w x w')
  have d: "d_mappings (w_db w') = filter (\<lambda>r. \<not> mapping_at (tm_channel m) (tm_external m) r) (d_mappings (w_db w)) @ [m]"
    using 1 by (auto simp: save_tenant_mapping_def db_exec_def Let_def split: if_splits)
  have "find p (filter (\<lambda>r. \<not> p r) rows @ [m]) = Some m" if "p m" for p rows
    using that by (induction rows) auto
  moreover have "mapping_at (tm_channel m) (tm_external m) m" by (simp add: mapping_at_def)
  ultimately show ?case unfolding workspace_tenant_def d fst_conv snd_conv by (simp only: option.map)
next
  case (2 m w x w' k)
  have d: "d_mappings (w_db w') = filter (\<lambda>r. \<not> mapping_at (tm_channel m) (tm_external m) r) (d_mappings (w_db w)) @ [m]"
    using 2(1) by (auto simp: save_tenant_mapping_def db_exec_def Let_def split: if_splits)
  have "find q (filter (\<lambda>r. \<not> p r) rows @ [m]) = find q rows" if "\<not> q m" "\<And>r. q r \<Longrightarrow> \<not> p r" for p q rows
    using that by (induction rows) auto
  moreover have "\<not> mapping_at (fst k) (snd k) m" "mapping_at (fst k) (snd k) r \<Longrightarrow> \<not> mapping_at (tm_channel m) (tm_external m) r" for r
    using 2(2) by (auto simp: mapping_at_def prod_eq_iff)
  ultimately show ?case unfolding workspace_tenant_def d by metis
next
  case (3 m w e w')
  then show ?case by (auto simp: save_tenant_mapping_def dest: db_exec_error)
qed

end
