(* ===== verification/Secrets.thy ===== *)
theory Secrets
  imports Store_Steps Store_Tables "HOL-Library.Multiset"
begin

text \<open>
  The secret service, \<open>internal/domain/service/secret\<close>: secrets are stored sealed, a user's
  secret shadows the tenant's of the same key, and values are struck out of text that leaves
  the sandbox. AES-GCM is a parameter: sealing and opening under a nonce of 12 bytes, the
  nonce an argument. A range over a Go map visits its entries in any order, which is the
  argument \<open>shuffle\<close>.
\<close>

record cipher =
  ci_seal :: "string \<Rightarrow> string \<Rightarrow> string"
  ci_open :: "string \<Rightarrow> string \<Rightarrow> string option"

text \<open>What \<open>cipher.AEAD\<close> documents: opening a sealed text under its nonce gives it back.\<close>

definition cipher_ok :: "cipher \<Rightarrow> bool" where
  "cipher_ok ci \<longleftrightarrow> (\<forall>n p. ci_open ci n (ci_seal ci n p) = Some p)"

definition nonce_size :: nat where "nonce_size = 12"

definition encrypt :: "cipher \<Rightarrow> string \<Rightarrow> string \<Rightarrow> string" where
  "encrypt ci nonce plain = nonce @ ci_seal ci nonce plain"

definition decrypt :: "cipher \<Rightarrow> string \<Rightarrow> string option" where
  "decrypt ci data = (if length data < nonce_size then None
     else ci_open ci (take nonce_size data) (drop nonce_size data))"

datatype secret_error = SecretDb db_error | SecretMissing | SecretSealed
  | TokenMissing | TokenUsed | TokenExpired

section \<open>One secret\<close>

definition set_secret :: "cipher \<Rightarrow> string \<Rightarrow> string \<Rightarrow> string \<Rightarrow> string \<Rightarrow> string \<Rightarrow> string \<Rightarrow> world
    \<Rightarrow> (secret_error + unit) \<times> world" where
  "set_secret ci nonce tid uid key val mode w =
     (let scope = (if uid = [] then ScopeTenant else ScopeUser);
          mode = (if mode = [] then SecretModeValue else mode);
          (i, w1) = new_id w;
          s = \<lparr>sc_id = i, sc_key = key, sc_value = encrypt ci nonce val, sc_scope = scope, sc_mode = mode,
               sc_tenant = tid, sc_user = uid, sc_created_at = w_now w, sc_updated_at = w_now w\<rparr>
      in if_ok (save_secret tid s w1) (\<lambda>e w2. (Inl (SecretDb e), w2)) (\<lambda>_ w2. (Inr (), w2)))"

definition get_secret_value :: "cipher \<Rightarrow> string \<Rightarrow> string \<Rightarrow> string \<Rightarrow> world
    \<Rightarrow> (secret_error + string) \<times> world" where
  "get_secret_value ci tid uid key w =
     if_ok (get_secret tid uid key w) (\<lambda>e w1. (Inl (SecretDb e), w1)) (\<lambda>r w1.
       case r of None \<Rightarrow> (Inl SecretMissing, w1)
       | Some s \<Rightarrow> (case decrypt ci (sc_value s) of None \<Rightarrow> (Inl SecretSealed, w1) | Some v \<Rightarrow> (Inr v, w1)))"

definition secret_exists :: "string \<Rightarrow> string \<Rightarrow> string \<Rightarrow> world \<Rightarrow> (secret_error + bool) \<times> world" where
  "secret_exists tid uid key w =
     if_ok (get_secret tid uid key w) (\<lambda>e w1. (Inl (SecretDb e), w1)) (\<lambda>r w1. (Inr (r \<noteq> None), w1))"

section \<open>The effective secrets\<close>

text \<open>The loop that the three listings share: the first of a key, or the user's over the tenant's.\<close>

fun effective :: "(string \<times> secret_scope \<times> 'v) list \<Rightarrow> (string \<times> secret_scope \<times> 'v) list
    \<Rightarrow> (string \<times> secret_scope \<times> 'v) list" where
  "effective [] acc = acc"
| "effective ((k, sc, v) # xs) acc = (case map_of acc k of
       None \<Rightarrow> effective xs (AList.update k (sc, v) acc)
     | Some (sc', v') \<Rightarrow>
         if sc' = ScopeTenant \<and> sc = ScopeUser then effective xs (AList.update k (sc, v) acc)
         else effective xs acc)"

definition secret_mode :: "secret \<Rightarrow> string" where
  "secret_mode s = (if sc_mode s = [] then SecretModeValue else sc_mode s)"

definition list_effective :: "string \<Rightarrow> string \<Rightarrow> world
    \<Rightarrow> (secret_error + (string \<times> secret_scope \<times> string) list) \<times> world" where
  "list_effective tid uid w =
     if_ok (list_secrets tid uid w) (\<lambda>e w1. (Inl (SecretDb e), w1)) (\<lambda>ss w1.
       (Inr (effective (map (\<lambda>s. (sc_key s, sc_scope s, secret_mode s)) ss) []), w1))"

definition delete_secret_value :: "string \<Rightarrow> string \<Rightarrow> string \<Rightarrow> world \<Rightarrow> (secret_error + unit) \<times> world" where
  "delete_secret_value tid uid key w =
     if_ok (delete_secret tid uid key w) (\<lambda>e w1. (Inl (SecretDb e), w1)) (\<lambda>_ w1. (Inr (), w1))"

record env_entry =
  ee_key :: string
  ee_value :: string
  ee_mode :: string

fun decrypt_entries :: "cipher \<Rightarrow> (string \<times> secret_scope \<times> string \<times> string) list
    \<Rightarrow> secret_error + env_entry list" where
  "decrypt_entries ci [] = Inr []"
| "decrypt_entries ci ((k, _, sealed, mode) # es) = (case decrypt ci sealed of
       None \<Rightarrow> Inl SecretSealed
     | Some v \<Rightarrow> (case decrypt_entries ci es of Inl e \<Rightarrow> Inl e
         | Inr rs \<Rightarrow> Inr (\<lparr>ee_key = k, ee_value = v, ee_mode = mode\<rparr> # rs)))"

definition env_vars :: "cipher \<Rightarrow> string \<Rightarrow> string \<Rightarrow> world
    \<Rightarrow> (secret_error + env_entry list) \<times> world" where
  "env_vars ci tid uid w =
     if_ok (list_secrets tid uid w) (\<lambda>e w1. (Inl (SecretDb e), w1)) (\<lambda>ss w1.
       (decrypt_entries ci (effective (map (\<lambda>s. (sc_key s, sc_scope s, sc_value s, secret_mode s)) ss) []), w1))"

section \<open>Redaction\<close>

abbreviation "REDACTED \<equiv> ''[REDACTED]''"

definition strike :: "string \<Rightarrow> string \<Rightarrow> string" where
  "strike text v = (if length v < 4 then text
     else if contains_str text v then replace_all text v REDACTED else text)"

definition effective_values :: "cipher \<Rightarrow> secret list \<Rightarrow> string list" where
  "effective_values ci ss = map (\<lambda>(k, sc, v). v) (effective
     (List.map_filter (\<lambda>s. map_option (\<lambda>v. (sc_key s, sc_scope s, v)) (decrypt ci (sc_value s))) ss) [])"

definition redact :: "(string list \<Rightarrow> string list) \<Rightarrow> cipher \<Rightarrow> bool \<Rightarrow> string \<Rightarrow> string \<Rightarrow> string \<Rightarrow> world
    \<Rightarrow> string \<times> world" where
  "redact shuffle ci on text tid uid w =
     (if \<not> on then (text, w)
      else if_ok (list_secrets tid uid w) (\<lambda>_ w1. (text, w1)) (\<lambda>ss w1.
        (foldl strike text (shuffle (effective_values ci ss)), w1)))"

section \<open>One-time entry\<close>

definition request_entry :: "string \<Rightarrow> string \<Rightarrow> string list \<Rightarrow> string_map \<Rightarrow> string \<Rightarrow> string \<Rightarrow> string \<Rightarrow> string
    \<Rightarrow> world \<Rightarrow> (secret_error + string) \<times> world" where
  "request_entry public_url tok keys modes tid uid conv chat w =
     if_ok (save_secret_token \<lparr>tk_id = tok, tk_keys = keys, tk_modes = modes, tk_tenant = tid,
         tk_user = uid, tk_conv = conv, tk_chat = chat, tk_expires_at = w_now w + 60 * minute_ns,
         tk_used = False\<rparr> w)
       (\<lambda>e w1. (Inl (SecretDb e), w1)) (\<lambda>_ w1. (Inr (public_url @ ''/secrets/'' @ tok), w1))"

definition validate_token :: "string \<Rightarrow> world \<Rightarrow> (secret_error + secret_token) \<times> world" where
  "validate_token tok w =
     if_ok (get_secret_token tok w) (\<lambda>e w1. (Inl (SecretDb e), w1)) (\<lambda>r w1. case r of
       None \<Rightarrow> (Inl TokenMissing, w1)
     | Some t \<Rightarrow> if tk_used t then (Inl TokenUsed, w1)
         else if tk_expires_at t < w_now w1 then (Inl TokenExpired, w1) else (Inr t, w1))"

text \<open>Submitted values: key, value and mode, in the order the map is visited, each with its nonce.\<close>

fun store_values :: "cipher \<Rightarrow> string \<Rightarrow> string \<Rightarrow> (string \<times> string \<times> string \<times> string) list \<Rightarrow> world
    \<Rightarrow> (secret_error + unit) \<times> world" where
  "store_values ci tid uid [] w = (Inr (), w)"
| "store_values ci tid uid ((k, v, mode, nonce) # vs) w =
     if_ok (set_secret ci nonce tid uid k v (if mode = [] then SecretModeValue else mode) w)
       (\<lambda>e w1. (Inl e, w1)) (\<lambda>_ w1. store_values ci tid uid vs w1)"

definition consume_token :: "cipher \<Rightarrow> string \<Rightarrow> (string \<times> string \<times> string \<times> string) list \<Rightarrow> world
    \<Rightarrow> (secret_error + unit) \<times> world" where
  "consume_token ci tok vals w =
     if_ok (validate_token tok w) (\<lambda>e w1. (Inl e, w1)) (\<lambda>t w1.
       if_ok (store_values ci (tk_tenant t) (tk_user t) vals w1) (\<lambda>e w2. (Inl e, w2)) (\<lambda>_ w2.
         if_ok (consume_secret_token tok w2) (\<lambda>e w3. (Inl (SecretDb e), w3)) (\<lambda>_ w3. (Inr (), w3))))"

section \<open>Redaction is complete\<close>

text \<open>
  A replacement that shares no character with a value cannot form a new occurrence of it:
  what the result contains, the text contained.
\<close>

lemma replace_all_prefix:
  assumes "r \<noteq> []" "p \<noteq> []"
  shows "replace_all s p r = v @ b \<Longrightarrow> set v \<inter> set r = {} \<Longrightarrow> \<exists>b'. s = v @ b'"
proof (induction s arbitrary: v)
  case (Cons c s)
  show ?case
  proof (cases v)
    case (Cons d v')
    have "\<not> has_prefix (c # s) p"
    proof
      assume "has_prefix (c # s) p"
      with Cons.prems(1) assms have "r @ replace_all (drop (length p) (c # s)) p r = d # v' @ b"
        by (simp add: replace_all_Cons Cons)
      with assms(1) have "d \<in> set r" by (cases r) auto
      with Cons.prems(2) Cons show False by auto
    qed
    with Cons.prems(1) have "c = d" "replace_all s p r = v' @ b"
      by (auto simp: replace_all_Cons Cons)
    with Cons.IH [of v'] Cons.prems(2) Cons show ?thesis by auto
  qed simp
qed simp

lemma disjoint_append_split:
  assumes "r @ x = a @ v @ b" "v \<noteq> []" "set v \<inter> set r = {}"
  shows "\<exists>a'. a = r @ a' \<and> x = a' @ v @ b"
proof -
  have "hd v \<notin> set r" using assms(2,3) by (cases v) auto
  moreover have "hd v \<in> set r" if "r = a @ us" "us \<noteq> []" "us @ x = v @ b" for us
    using that assms(2) by (metis hd_append2 hd_in_set Un_iff set_append)
  ultimately show ?thesis using assms(1) by (metis append_eq_append_conv2 append_Nil2 append.assoc)
qed

lemma replace_all_contains:
  assumes "r \<noteq> []" "p \<noteq> []" "v \<noteq> []" "set v \<inter> set r = {}"
  shows "replace_all s p r = a @ v @ b \<Longrightarrow> contains_str s v \<and> v \<noteq> p"
proof (induction s arbitrary: a rule: length_induct)
  case (1 s)
  show ?case
  proof (cases s)
    case Nil
    with 1(2) assms(3) show ?thesis by simp
  next
    case sc: (Cons c s')
    show ?thesis
    proof (cases "has_prefix s p")
      case True
      let ?s = "drop (length p) s"
      have "r @ replace_all ?s p r = a @ v @ b" using 1(2) True assms(2) by (simp add: sc replace_all_Cons)
      from disjoint_append_split [OF this assms(3,4)] obtain a' where "replace_all ?s p r = a' @ v @ b" by blast
      moreover have "length ?s < length s" using assms(2) sc by (cases p) auto
      ultimately have "contains_str ?s v" "v \<noteq> p" using 1(1) by blast+
      then show ?thesis by (metis append_assoc append_take_drop_id contains_str_iff)
    next
      case False
      then have eq: "c # replace_all s' p r = a @ v @ b" using 1(2) by (simp add: sc replace_all_Cons)
      show ?thesis
      proof (cases a)
        case Nil
        with eq assms(3) obtain v' where v: "v = c # v'" "replace_all s' p r = v' @ b" by (cases v) auto
        with replace_all_prefix [OF assms(1,2) v(2)] assms(4) obtain b' where "s = v @ b'" by (auto simp: sc)
        with False show ?thesis by (auto simp: has_prefix_iff contains_str_iff)
      next
        case (Cons d a'')
        with eq have "replace_all s' p r = a'' @ v @ b" by simp
        moreover have "length s' < length s" by (simp add: sc)
        ultimately have "contains_str s' v \<and> v \<noteq> p" using 1(1) by blast
        then show ?thesis by (metis sc append_Cons contains_str_iff)
      qed
    qed
  qed
qed

lemma strike_contains:
  assumes "4 \<le> length v" "set v \<inter> set REDACTED = {}" "contains_str (strike text u) v"
  shows "contains_str text v \<and> v \<noteq> u"
proof (cases "4 \<le> length u \<and> contains_str text u")
  case True
  then have "contains_str (replace_all text u REDACTED) v" using assms(3) by (simp add: strike_def)
  then obtain a b where ab: "replace_all text u REDACTED = a @ v @ b" by (auto simp: contains_str_iff)
  show ?thesis
    by (rule replace_all_contains [OF _ _ _ assms(2) ab]) (use True assms(1) in auto)
next
  case False
  then have "strike text u = text" by (auto simp: strike_def)
  with assms(3) False assms(1) show ?thesis by auto
qed

lemma foldl_strike_contains:
  assumes "4 \<le> length v" "set v \<inter> set REDACTED = {}"
  shows "contains_str (foldl strike t us) v \<Longrightarrow> contains_str t v \<and> v \<notin> set us"
proof (induction us arbitrary: t)
  case (Cons u us)
  then have "contains_str (strike t u) v" "v \<notin> set us" by auto
  with strike_contains [OF assms] show ?case by auto
qed simp

text \<open>
  C14: Whatever the order of the map, a redacted text contains no effective secret of four or
  more characters, provided that no character of the secret occurs in the replacement.
\<close>

theorem redaction_complete:
  assumes "redact shuffle ci True text tid uid w = (out, w')" "w_faults w = []"
    and "\<And>xs. mset (shuffle xs) = mset xs"
    and "v \<in> set (effective_values ci (secrets_of tid uid (w_db w)))"
    and "4 \<le> length v" "set v \<inter> set REDACTED = {}"
  shows "\<not> contains_str out v"
proof
  assume "contains_str out v"
  moreover have "out = foldl strike text (shuffle (effective_values ci (secrets_of tid uid (w_db w))))"
    using assms(1,2) by (simp add: redact_def list_secrets_def db_query_def faulty_def)
  ultimately have "v \<notin> set (shuffle (effective_values ci (secrets_of tid uid (w_db w))))"
    using foldl_strike_contains [OF assms(5,6)] by simp
  with assms(3,4) show False by (metis set_mset_mset)
qed

text \<open>
  The replacement itself can spell a secret, and a secret inside another, struck first, leaves
  the rest of the longer one in the text.
\<close>

lemma redaction_leaves:
  "foldl strike ''x ACTE y'' [''ACTE''] = ''x [REDACTED] y''"
  "contains_str (foldl strike ''x ACTE y'' [''ACTE'']) ''ACTE''"
  "foldl strike ''hunter2hunter3'' [''hunter2'', ''hunter2hunter3''] = ''[REDACTED]hunter3''"
  by code_simp+

section \<open>Storing and reading\<close>

lemma decrypt_encrypt: "cipher_ok ci \<Longrightarrow> length nonce = nonce_size \<Longrightarrow> decrypt ci (encrypt ci nonce val) = Some val"
  by (simp add: decrypt_def encrypt_def cipher_ok_def)

lemma set_secret_stored:
  assumes "set_secret ci nonce tid uid key val mode w = (Inr (), w')"
  shows "\<exists>r. find (secret_at tid uid key) (d_secrets (w_db w')) = Some r \<and> sc_value r = encrypt ci nonce val"
    and "(tid', uid', key') \<noteq> (tid, uid, key) \<Longrightarrow>
      find (secret_at tid' uid' key') (d_secrets (w_db w')) = find (secret_at tid' uid' key') (d_secrets (w_db w))"
    and "d_tokens (w_db w') = d_tokens (w_db w)"
proof -
  obtain i w1 where i: "new_id w = (i, w1)" and d1: "w_db w1 = w_db w" by (simp add: new_id_def)
  let ?new = "\<lparr>sc_id = i, sc_key = key, sc_value = encrypt ci nonce val,
      sc_scope = (if uid = [] then ScopeTenant else ScopeUser),
      sc_mode = (if mode = [] then SecretModeValue else mode),
      sc_tenant = tid, sc_user = uid, sc_created_at = w_now w, sc_updated_at = w_now w\<rparr>"
  have saved: "save_secret tid ?new w1 = (Inr (), w')"
    using assms i by (auto simp: set_secret_def if_ok_def Let_def split: sum.splits prod.splits)
  then show "d_tokens (w_db w') = d_tokens (w_db w)"
    by (auto simp: save_secret_def db_exec_def Let_def d1 split: if_splits)
  obtain upd new where rows: "d_secrets (w_db w') = upsert (secret_at tid uid key) upd new (d_secrets (w_db w))"
      and new: "secret_at tid uid key new" "sc_value new = encrypt ci nonce val"
      and same: "\<And>r t u k. secret_at t u k (upd r) = secret_at t u k r" and upd: "\<And>r. sc_value (upd r) = encrypt ci nonce val"
    using saved_secret [OF saved] by (auto simp: d1)
  have "find (secret_at tid uid key) (d_secrets (w_db w')) = Some
      (case find (secret_at tid uid key) (d_secrets (w_db w)) of None \<Rightarrow> new | Some r \<Rightarrow> upd r)"
    unfolding rows by (rule find_upsert_same) (simp_all add: same new)
  then show "\<exists>r. find (secret_at tid uid key) (d_secrets (w_db w')) = Some r \<and> sc_value r = encrypt ci nonce val"
    using new(2) upd by (auto split: option.splits)
  show "find (secret_at tid' uid' key') (d_secrets (w_db w'))
      = find (secret_at tid' uid' key') (d_secrets (w_db w))" if "(tid', uid', key') \<noteq> (tid, uid, key)"
    unfolding rows
    by (rule find_upsert_other) (use that new same in \<open>auto simp: secret_at_def\<close>)
qed

text \<open>
  A secret that was stored is read back under its tenant, user and key, and no other
  secret changes.
\<close>

theorem secret_roundtrip:
  assumes "set_secret ci nonce tid uid key val mode w = (Inr (), w')" "w_faults w' = []"
    and "cipher_ok ci" "length nonce = nonce_size"
  shows "fst (get_secret_value ci tid uid key w') = Inr val
    \<and> ((tid', uid', key') \<noteq> (tid, uid, key) \<longrightarrow>
        find (secret_at tid' uid' key') (d_secrets (w_db w')) = find (secret_at tid' uid' key') (d_secrets (w_db w)))"
proof -
  obtain r where "find (secret_at tid uid key) (d_secrets (w_db w')) = Some r" "sc_value r = encrypt ci nonce val"
    using set_secret_stored(1) [OF assms(1)] by blast
  then have "fst (get_secret_value ci tid uid key w') = Inr val"
    using assms(2) decrypt_encrypt [OF assms(3,4)]
    by (simp add: get_secret_value_def get_secret_def db_query_def faulty_def if_ok_def Let_def)
  with set_secret_stored(2) [OF assms(1)] show ?thesis by blast
qed

text \<open>A cipher that seals by reversing, and a user with a secret.\<close>

definition demo_cipher :: cipher where
  "demo_cipher = \<lparr>ci_seal = (\<lambda>_ p. rev p), ci_open = (\<lambda>_ c. Some (rev c))\<rparr>"

definition demo_vault :: world where
  "demo_vault = snd (set_secret demo_cipher ''0123456789ab'' ''t1'' ''u1'' ''KEY'' ''hunter2'' [] demo_world)"

theorem secret_roundtrip_witness:
  "fst (get_secret_value demo_cipher ''t1'' ''u1'' ''KEY'' demo_vault) = Inr ''hunter2''"
proof -
  have "fst (set_secret demo_cipher ''0123456789ab'' ''t1'' ''u1'' ''KEY'' ''hunter2'' [] demo_world) = Inr ()"
    "w_faults demo_vault = []" by code_simp+
  then have "set_secret demo_cipher ''0123456789ab'' ''t1'' ''u1'' ''KEY'' ''hunter2'' [] demo_world
      = (Inr (), demo_vault)" by (simp add: demo_vault_def prod_eq_iff)
  from secret_roundtrip [OF this \<open>w_faults demo_vault = []\<close>] show ?thesis
    by (simp add: demo_cipher_def cipher_ok_def nonce_size_def)
qed

theorem redaction_complete_witness:
  "\<exists>out w'. redact rev demo_cipher True ''It is hunter2.'' ''t1'' ''u1'' demo_vault = (out, w')
     \<and> \<not> contains_str out ''hunter2''"
proof -
  obtain out w' where r: "redact rev demo_cipher True ''It is hunter2.'' ''t1'' ''u1'' demo_vault = (out, w')"
    by fastforce
  moreover have "w_faults demo_vault = []" by code_simp
  moreover have "effective_values demo_cipher (secrets_of ''t1'' ''u1'' (w_db demo_vault)) = [''hunter2'']"
    by code_simp
  ultimately show ?thesis
    using redaction_complete [OF r, of "''hunter2''"] by simp
qed

text \<open>
  A submission that loses the race for its one-time link has stored its values all the same:
  the values are written before the token is consumed, and a failed consumption is not undone.
\<close>

lemma lost_submission_still_stores:
  assumes "validate_token tok w = (Inr t, w1)" "store_values ci (tk_tenant t) (tk_user t) vals w1 = (Inr (), w2)"
    and "consume_secret_token tok w2 = (Inl e, w3)"
  shows "consume_token ci tok vals w = (Inl (SecretDb e), w3) \<and> d_secrets (w_db w3) = d_secrets (w_db w2)"
  using assms by (auto simp: consume_token_def consume_secret_token_def db_exec_def Let_def split: if_splits)

end
