(* ===== verification/Render.thy ===== *)
theory Render
  imports Entities Go_Strings Go_Time
begin

text \<open>
  Text for the prompt: \<open>pkg/xml\<close>, \<open>pkg/token\<close>, \<open>pkg/util/format.go\<close>, and the parts of
  \<open>fmt\<close>, \<open>html\<close>, \<open>time\<close> and \<open>encoding/json\<close> they print with.
\<close>

section \<open>Numbers and times\<close>

text \<open>Decimal digits of a non-negative 64-bit number: never more than 20.\<close>

fun show_digits :: "nat \<Rightarrow> int \<Rightarrow> string" where
  "show_digits 0 n = []"
| "show_digits (Suc k) n =
     (if n < 10 then [''0123456789'' ! nat n]
      else show_digits k (n div 10) @ [''0123456789'' ! nat (n mod 10)])"

definition show_int :: "int \<Rightarrow> string" where
  "show_int i = (if i < 0 then CHR ''-'' # show_digits 20 (- i) else show_digits 20 i)"

definition read_digits :: "string \<Rightarrow> int" where
  "read_digits s = foldl (\<lambda>v c. 10 * v + int (of_char c - 48)) 0 s"

lemma digit_value: "0 \<le> d \<Longrightarrow> d < 10 \<Longrightarrow> int (of_char (''0123456789'' ! nat d) - 48) = d"
proof -
  assume "0 \<le> d" "d < 10"
  then have "d \<in> {0, 1, 2, 3, 4, 5, 6, 7, 8, 9}" by (simp, presburger)
  then show ?thesis by auto
qed

lemma read_show_digits: "0 \<le> n \<Longrightarrow> n < 10 ^ k \<Longrightarrow> read_digits (show_digits k n) = n"
proof (induction k arbitrary: n)
  case 0
  then show ?case by (simp add: read_digits_def)
next
  case (Suc k)
  show ?case
  proof (cases "n < 10")
    case False
    then have "n div 10 < 10 ^ k" "0 \<le> n div 10" using Suc.prems by auto
    from Suc.IH [OF this(2,1)] False Suc.prems show ?thesis
      by (simp add: digit_value read_digits_def)
  qed (use Suc.prems in \<open>simp add: digit_value read_digits_def\<close>)
qed

text \<open>Zero-padded to \<open>k\<close> digits, after the sign.\<close>

definition pad_int :: "nat \<Rightarrow> int \<Rightarrow> string" where
  "pad_int k i = (let s = show_digits 20 \<bar>i\<bar>
     in (if i < 0 then ''-'' else []) @ replicate (k - length s) (CHR ''0'') @ s)"

text \<open>\<open>t.UTC().Format(time.RFC3339)\<close>, and nothing for the zero time.\<close>

definition format_timestamp :: "instant \<Rightarrow> string" where
  "format_timestamp t = (if is_zero_time t then [] else
     pad_int 4 (t_year utc t) @ ''-'' @ pad_int 2 (t_month utc t) @ ''-'' @ pad_int 2 (t_day utc t)
     @ ''T'' @ pad_int 2 (t_hour utc t) @ '':'' @ pad_int 2 (t_minute utc t)
     @ '':'' @ pad_int 2 (loc_sec utc t mod 60) @ ''Z'')"

text \<open>
  \<open>%.1f\<close> of \<open>b / u\<close> for a power of two \<open>u\<close>: the quotient is exact below 2^53 bytes, and the
  tenths round to nearest, ties to even.
\<close>

definition tenths :: "int \<Rightarrow> int \<Rightarrow> string" where
  "tenths b u =
     (let q = 10 * b div u; r = 10 * b mod u;
          n = (if 2 * r < u \<or> (2 * r = u \<and> even q) then q else q + 1)
      in show_int (n div 10) @ ''.'' @ show_int (n mod 10))"

definition format_size :: "int \<Rightarrow> string" where
  "format_size b =
     (if b < 1024 then show_int b @ '' B''
      else if b < 1024 * 1024 then show_int (b div 1024) @ '' KB''
      else if b < 1024 * 1024 * 1024 then tenths b (1024 * 1024) @ '' MB''
      else tenths b (1024 * 1024 * 1024) @ '' GB'')"

lemma format_size_examples:
  "format_size 1023 = ''1023 B''" "format_size 1048575 = ''1023 KB''" "format_size 1572864 = ''1.5 MB''"
  by code_simp+

lemma format_timestamp_example: "format_timestamp (19782 * 86400 * 1000000000) = ''2024-02-29T00:00:00Z''"
  by code_simp

section \<open>Tokens\<close>

definition token_count :: "string \<Rightarrow> nat" where
  "token_count s = (if s = [] then 0 else (length s + 3) div 4)"

lemma token_count_bounds: "length s \<le> 4 * token_count s" "4 * token_count s \<le> length s + 3"
  by (auto simp: token_count_def)

lemma token_count_append: "token_count (s @ t) \<le> token_count s + token_count t"
  unfolding token_count_def by (cases s; cases t; simp)

section \<open>XML\<close>

definition escape_char :: "char \<Rightarrow> string" where
  "escape_char c = (if c = CHR ''&'' then ''&amp;'' else if c = CHR ''<'' then ''&lt;''
     else if c = CHR ''>'' then ''&gt;'' else if c = CHR 0x22 then ''&#34;''
     else if c = CHR 0x27 then ''&#39;'' else [c])"

definition escape_html :: "string \<Rightarrow> string" where
  "escape_html s = concat (map escape_char s)"

type_synonym attr = "string \<times> string"

definition attr_text :: "attr list \<Rightarrow> string" where
  "attr_text as = concat (map (\<lambda>(k, v). '' '' @ k @ ''='' @ [CHR 0x22] @ escape_html v @ [CHR 0x22]) as)"

definition open_tag :: "string \<Rightarrow> attr list \<Rightarrow> string" where
  "open_tag name as = ''<'' @ name @ attr_text as @ ''>'' @ [CHR 0x0A]"

definition self_close_tag :: "string \<Rightarrow> attr list \<Rightarrow> string" where
  "self_close_tag name as = ''<'' @ name @ attr_text as @ ''/>''"

definition close_tag :: "string \<Rightarrow> string" where
  "close_tag name = ''</'' @ name @ ''>'' @ [CHR 0x0A]"

definition child_always :: "string \<Rightarrow> string \<Rightarrow> string" where
  "child_always name t = ''  <'' @ name @ ''>'' @ escape_html t @ ''</'' @ name @ ''>'' @ [CHR 0x0A]"

definition child :: "string \<Rightarrow> string \<Rightarrow> string" where
  "child name t = (if t = [] then [] else child_always name t)"

definition child_raw :: "string \<Rightarrow> string \<Rightarrow> string" where
  "child_raw name t = (if t = [] then []
     else ''  <'' @ name @ ''>'' @ t @ ''</'' @ name @ ''>'' @ [CHR 0x0A])"

text \<open>Escaped text has no markup character, and escaping loses nothing.\<close>

lemma escape_inert: "set (escape_html s) \<inter> {CHR ''<'', CHR ''>'', CHR 0x22, CHR 0x27} = {}"
  by (induction s) (auto simp: escape_html_def escape_char_def)

lemma escape_char_prefix: "escape_char a @ xs = escape_char b @ ys \<Longrightarrow> a = b \<and> xs = ys"
  by (auto simp: escape_char_def split: if_splits)

lemma escape_char_nonempty: "escape_char a \<noteq> []"
  by (simp add: escape_char_def)

lemma escape_inj: "escape_html s = escape_html t \<Longrightarrow> s = t"
proof (induction s arbitrary: t)
  case Nil
  then show ?case using escape_char_nonempty by (cases t) (auto simp: escape_html_def)
next
  case (Cons a s)
  then show ?case using escape_char_nonempty
    by (cases t) (auto simp: escape_html_def dest: escape_char_prefix)
qed

section \<open>JSON\<close>

text \<open>Length of the UTF-8 sequence at the head of a byte string, 0 if it is malformed.\<close>

definition is_cont :: "char \<Rightarrow> bool" where
  "is_cont c \<longleftrightarrow> CHR 0x80 \<le> c \<and> c \<le> CHR 0xBF"

fun utf8_len :: "string \<Rightarrow> nat" where
  "utf8_len [] = 0"
| "utf8_len (a # s) =
     (if a < CHR 0x80 then 1
      else case s of [] \<Rightarrow> 0 | b # s1 \<Rightarrow>
       (if CHR 0xC2 \<le> a \<and> a \<le> CHR 0xDF \<and> is_cont b then 2
        else case s1 of [] \<Rightarrow> 0 | c # s2 \<Rightarrow>
         (if CHR 0xE0 \<le> a \<and> a \<le> CHR 0xEF \<and> is_cont b \<and> is_cont c
            \<and> (a = CHR 0xE0 \<longrightarrow> CHR 0xA0 \<le> b) \<and> (a = CHR 0xED \<longrightarrow> b \<le> CHR 0x9F) then 3
          else case s2 of [] \<Rightarrow> 0 | d # _ \<Rightarrow>
           (if CHR 0xF0 \<le> a \<and> a \<le> CHR 0xF4 \<and> is_cont b \<and> is_cont c \<and> is_cont d
              \<and> (a = CHR 0xF0 \<longrightarrow> CHR 0x90 \<le> b) \<and> (a = CHR 0xF4 \<longrightarrow> b \<le> CHR 0x8F) then 4 else 0))))"

lemma utf8_len_le: "utf8_len s \<le> length s"
  by (cases s rule: utf8_len.cases) (auto split: list.splits)

definition hex_digit :: "nat \<Rightarrow> char" where
  "hex_digit n = ''0123456789abcdef'' ! n"

definition json_byte :: "char \<Rightarrow> string" where
  "json_byte c =
     (if c = CHR 0x22 \<or> c = CHR 0x5C then [CHR 0x5C, c]
      else if c = CHR 0x08 then [CHR 0x5C, CHR ''b''] else if c = CHR 0x0C then [CHR 0x5C, CHR ''f'']
      else if c = CHR 0x0A then [CHR 0x5C, CHR ''n''] else if c = CHR 0x0D then [CHR 0x5C, CHR ''r'']
      else if c = CHR 0x09 then [CHR 0x5C, CHR ''t'']
      else if c < CHR 0x20 \<or> c = CHR ''<'' \<or> c = CHR ''>'' \<or> c = CHR ''&''
        then [CHR 0x5C] @ ''u00'' @ [hex_digit (of_char c div 16), hex_digit (of_char c mod 16)]
      else [c])"

text \<open>The body of a JSON string: markup escaped, malformed bytes replaced, U+2028 and U+2029 escaped.\<close>

function json_body :: "string \<Rightarrow> string" where
  "json_body [] = []"
| "json_body (c # s) =
     (if c < CHR 0x80 then json_byte c @ json_body s
      else if utf8_len (c # s) = 0 then [CHR 0x5C] @ ''ufffd'' @ json_body s
      else let k = utf8_len (c # s); r = take k (c # s)
           in (if take 2 r = [CHR 0xE2, CHR 0x80] \<and> r ! 2 \<in> {CHR 0xA8, CHR 0xA9}
               then [CHR 0x5C] @ ''u202'' @ (if r ! 2 = CHR 0xA8 then ''8'' else ''9'') else r)
              @ json_body (drop k (c # s)))"
  by pat_completeness auto
termination by (relation "measure length") auto

definition json_string :: "string \<Rightarrow> string" where
  "json_string s = [CHR 0x22] @ json_body s @ [CHR 0x22]"

text \<open>\<open>json.Marshal\<close> of a slice of \<open>ToolCall\<close>, which has no field tags.\<close>

definition json_tool_call :: "tool_call \<Rightarrow> string" where
  "json_tool_call t = ''{'' @ json_string ''ID'' @ '':'' @ json_string (tc_id t) @ '',''
     @ json_string ''Name'' @ '':'' @ json_string (tc_name t) @ '',''
     @ json_string ''Arguments'' @ '':'' @ json_string (tc_arguments t) @ ''}''"

definition json_tool_calls :: "tool_call list \<Rightarrow> string" where
  "json_tool_calls ts = ''['' @ join '','' (map json_tool_call ts) @ '']''"

text \<open>
  \<open>json.Compact\<close> of a valid document: white space outside string literals goes. The flags
  say whether the position is inside a literal, and after a backslash there.
\<close>

fun json_compact :: "bool \<Rightarrow> bool \<Rightarrow> string \<Rightarrow> string" where
  "json_compact q e [] = []"
| "json_compact q e (c # s) =
     (if q then c # json_compact (e \<or> c \<noteq> CHR 0x22) (\<not> e \<and> c = CHR 0x5C) s
      else if c \<in> {CHR 0x20, CHR 0x09, CHR 0x0A, CHR 0x0D} then json_compact False False s
      else c # json_compact (c = CHR 0x22) False s)"

end
