(* ===== verification/Window.thy ===== *)
theory Window
  imports Render Prelude
begin

text \<open>
  The history part of a prompt, \<open>prompt/render.go\<close> and the rendering functions of
  \<open>prompt/prompt.go\<close>: each message gets a context block, messages are grouped so that a
  tool call and its results stay together, and the newest groups that fit the token budget
  are kept.
\<close>

section \<open>Context blocks\<close>

definition block_attrs :: "message \<Rightarrow> (string \<Rightarrow> string option) \<Rightarrow> attr list" where
  "block_attrs m names =
     (if ms_id m \<noteq> [] then [(''msg_id'', ms_id m)] else [])
     @ (if \<not> is_zero_time (ms_created_at m) then [(''ts'', format_timestamp (ms_created_at m))] else [])
     @ (if ms_replied_to m \<noteq> [] then [(''reply_to'', ms_replied_to m)] else [])
     @ (if ms_role m = RoleUser \<and> ms_user m \<noteq> []
        then (''user_id'', ms_user m) # (case names (ms_user m) of
            None \<Rightarrow> [] | Some n \<Rightarrow> if n \<noteq> [] then [(''user_name'', n)] else [])
        else [])"

definition attachment_block :: "string \<Rightarrow> message \<Rightarrow> nat \<Rightarrow> attachment \<Rightarrow> string" where
  "attachment_block dir m i a =
     open_tag ''attachment'' [(''idx'', show_int (int i))]
     @ child ''kind'' (at_kind a) @ child ''filename'' (at_filename a)
     @ child ''size'' (format_size (at_size a)) @ child ''mime_type'' (at_mime a)
     @ child ''path'' (dir @ ''/'' @ ms_id m @ ''/'' @ at_filename a)
     @ child ''caption'' (at_caption a) @ close_tag ''attachment''"

abbreviation "newline \<equiv> CHR 0x0A"

definition build_context_block :: "message \<Rightarrow> (string \<Rightarrow> string option) \<Rightarrow> string \<Rightarrow> string" where
  "build_context_block m names dir =
     (if ms_id m = [] \<and> is_zero_time (ms_created_at m) then []
      else let attrs = block_attrs m names
           in if ms_evicted m
              then self_close_tag ''wa_msg_context'' (attrs @ [(''evicted'', [])]) @ [newline, newline]
              else if ms_attachments m = []
              then self_close_tag ''wa_msg_context'' attrs @ [newline, newline]
              else open_tag ''wa_msg_context'' attrs
                @ concat (map (\<lambda>(i, a). attachment_block dir m i a)
                    (List.enumerate 0 (ms_attachments m)))
                @ close_tag ''wa_msg_context'' @ [newline])"

definition enrich_message :: "(string \<Rightarrow> string option) \<Rightarrow> string \<Rightarrow> message \<Rightarrow> message" where
  "enrich_message names dir m =
     (let block = build_context_block m names dir
      in if ms_evicted m then
           (if ms_role m = RoleTool then m\<lparr>ms_content := []\<rparr>
            else if ms_role m = RoleAssistant \<and> ms_content m = [] \<and> ms_tool_calls m = []
            then m\<lparr>ms_content := []\<rparr>
            else if block \<noteq> [] then m\<lparr>ms_content := block\<rparr>
            else m\<lparr>ms_content := []\<rparr>)
         else if ms_role m = RoleUser \<or> (ms_role m = RoleAssistant \<and> ms_content m \<noteq> [])
             \<or> ms_role m = RoleTool
         then (if block \<noteq> [] then m\<lparr>ms_content := block @ ms_content m\<rparr> else m)
         else m)"

definition enrich_messages :: "message list \<Rightarrow> (string \<Rightarrow> string option) \<Rightarrow> string \<Rightarrow> message list" where
  "enrich_messages ms names dir = map (enrich_message names dir) ms"

section \<open>Token counts\<close>

definition with_calls :: "message \<Rightarrow> string \<Rightarrow> string" where
  "with_calls m s = (if ms_role m = RoleAssistant \<and> ms_tool_calls m \<noteq> []
     then s @ json_tool_calls (ms_tool_calls m) else s)"

definition count_prompt_footprint :: "message list \<Rightarrow> nat" where
  "count_prompt_footprint ms = sum_list (map (\<lambda>m. token_count (with_calls m (ms_content m))) ms)"

text \<open>One message of \<open>countGroupTokens\<close>; the block is counted without user names.\<close>

definition message_tokens :: "message \<Rightarrow> nat" where
  "message_tokens m =
     (let block = build_context_block m (\<lambda>_. None) ''/messages''
      in if ms_evicted m then
           (if ms_role m = RoleTool \<or>
               (ms_role m = RoleAssistant \<and> ms_content m = [] \<and> ms_tool_calls m = [])
            then 0 else token_count block)
         else token_count (with_calls m (block @ ms_content m)))"

definition count_group_tokens :: "message list \<Rightarrow> nat" where
  "count_group_tokens g = sum_list (map message_tokens g)"

section \<open>Groups\<close>

text \<open>The inner loop of \<open>groupMessages\<close>: each expected call is answered at most once.\<close>

fun take_results :: "string set \<Rightarrow> message list \<Rightarrow> message list \<times> message list" where
  "take_results expected [] = ([], [])"
| "take_results expected (m # ms) =
     (if ms_role m = RoleTool \<and> ms_tool_call_id m \<in> expected
      then (let (g, rest) = take_results (expected - {ms_tool_call_id m}) ms in (m # g, rest))
      else ([], m # ms))"

lemma take_results_append: "take_results E ms = (g, rest) \<Longrightarrow> g @ rest = ms"
  by (induction E ms arbitrary: g rest rule: take_results.induct) (auto split: if_splits prod.splits)

lemma take_results_tools: "take_results E ms = (g, rest) \<Longrightarrow> \<forall>m \<in> set g. ms_role m = RoleTool"
  by (induction E ms arbitrary: g rest rule: take_results.induct) (auto split: if_splits prod.splits)

lemma take_results_length: "length (snd (take_results E ms)) \<le> length ms"
  using take_results_append [of E ms] by (cases "take_results E ms") (auto dest: arg_cong [where f = length])

function group_messages :: "message list \<Rightarrow> message list list" where
  "group_messages [] = []"
| "group_messages (m # ms) =
     (if ms_role m = RoleAssistant \<and> ms_tool_calls m \<noteq> []
      then (let (g, rest) = take_results (set (map tc_id (ms_tool_calls m))) ms
            in (m # g) # group_messages rest)
      else [m] # group_messages ms)"
  by pat_completeness auto
termination
proof (relation "measure length", goal_cases)
  case (2 m ms x g rest)
  then show ?case
    using take_results_length [of "set (map tc_id (ms_tool_calls m))" ms] by (auto dest: sym)
qed auto

text \<open>The walk from the newest group back: the number of groups that fit the budget.\<close>

fun groups_that_fit :: "nat list \<Rightarrow> int \<Rightarrow> nat" where
  "groups_that_fit [] remaining = 0"
| "groups_that_fit (t # ts) remaining =
     (if int t \<le> remaining then Suc (groups_that_fit ts (remaining - int t)) else 0)"

definition window_messages :: "message list list \<Rightarrow> int \<Rightarrow> message list" where
  "window_messages groups budget =
     (let k = groups_that_fit (map count_group_tokens (rev groups)) budget
      in concat (drop (length groups - k) groups))"

definition window_history :: "message list \<Rightarrow> int \<Rightarrow> message list" where
  "window_history history budget =
     (if history = [] \<or> budget \<le> 0 then [] else window_messages (group_messages history) budget)"

definition trim_history_after_summary :: "message list \<Rightarrow> string \<Rightarrow> message list" where
  "trim_history_after_summary history bound =
     (if bound = [] then history else filter (\<lambda>m. \<not> (ms_id m = [] \<or> ms_id m \<le> bound)) history)"

section \<open>What the window keeps\<close>

lemma groups_that_fit_le: "groups_that_fit ts b \<le> length ts"
  by (induction ts b rule: groups_that_fit.induct) auto

lemma groups_that_fit_fits: "0 \<le> b \<Longrightarrow> int (sum_list (take (groups_that_fit ts b) ts)) \<le> b"
proof (induction ts b rule: groups_that_fit.induct)
  case (2 t ts b)
  then show ?case by (cases "int t \<le> b") auto
qed simp

lemma groups_that_fit_maximal:
  "groups_that_fit ts b < length ts \<Longrightarrow> b < int (sum_list (take (Suc (groups_that_fit ts b)) ts))"
proof (induction ts b rule: groups_that_fit.induct)
  case (2 t ts b)
  then show ?case by (cases "int t \<le> b") auto
qed simp

lemma concat_group_messages: "concat (group_messages ms) = ms"
proof (induction ms rule: group_messages.induct)
  case (2 m ms)
  show ?case
  proof (cases "ms_role m = RoleAssistant \<and> ms_tool_calls m \<noteq> []")
    case True
    obtain g rest where t: "take_results (set (map tc_id (ms_tool_calls m))) ms = (g, rest)"
      by fastforce
    with 2(1) [OF True refl t [symmetric]] True take_results_append [OF t] show ?thesis by simp
  qed (use 2 in auto)
qed simp

lemma group_messages_nonempty: "g \<in> set (group_messages ms) \<Longrightarrow> g \<noteq> []"
  by (induction ms rule: group_messages.induct) (auto split: if_splits prod.splits)

lemma sum_take_rev: "sum_list (take k (rev xs)) = sum_list (drop (length xs - k) (xs :: nat list))"
  by (simp add: take_rev)

lemma window_suffix: "\<exists>older. history = older @ window_history history budget"
proof (cases "history = [] \<or> budget \<le> 0")
  case False
  then show ?thesis
    using concat_group_messages [of history]
    by (metis append_take_drop_id concat_append window_history_def window_messages_def)
qed (auto simp: window_history_def)

text \<open>
  C11: The window is the longest suffix of the history, cut between groups, whose tokens fit
  the budget: tool results stay with their calls, and one group more would not fit.
\<close>

theorem window_longest_suffix:
  assumes "0 < budget"
  shows "\<exists>older newer. group_messages history = older @ newer
    \<and> window_history history budget = concat newer
    \<and> history = concat older @ window_history history budget
    \<and> int (sum_list (map count_group_tokens newer)) \<le> budget
    \<and> (older \<noteq> [] \<longrightarrow> budget < int (sum_list (map count_group_tokens (last older # newer))))"
proof -
  define gs where "gs = group_messages history"
  define ts where "ts = map count_group_tokens gs"
  define k where "k = groups_that_fit (rev ts) budget"
  define older where "older = take (length gs - k) gs"
  define newer where "newer = drop (length gs - k) gs"
  have k: "k \<le> length gs" using groups_that_fit_le [of "rev ts" budget] by (simp add: k_def ts_def)
  have split: "gs = older @ newer" by (simp add: older_def newer_def)
  have win: "window_history history budget = concat newer"
    using assms by (cases "history = []")
      (auto simp: window_history_def window_messages_def newer_def k_def ts_def gs_def Let_def rev_map)
  have fits: "int (sum_list (map count_group_tokens newer)) \<le> budget"
    using groups_that_fit_fits [of budget "rev ts", folded k_def] assms
    by (simp add: sum_take_rev newer_def drop_map ts_def)
  have more: "budget < int (sum_list (map count_group_tokens (last older # newer)))" if "older \<noteq> []"
  proof -
    from that have lt: "k < length gs" using k by (auto simp: older_def)
    have "last older = gs ! (length gs - Suc k)"
    proof -
      have "length older = length gs - k" by (simp add: older_def)
      then have "last older = older ! (length gs - Suc k)" using last_conv_nth [OF that] by simp
      also have "\<dots> = gs ! (length gs - Suc k)" using lt by (simp add: older_def)
      finally show ?thesis .
    qed
    then have "last older # newer = drop (length gs - Suc k) gs"
      using lt Cons_nth_drop_Suc [of "length gs - Suc k" gs] by (simp add: newer_def Suc_diff_Suc)
    with groups_that_fit_maximal [of "rev ts" budget, folded k_def] lt show ?thesis
      by (simp add: sum_take_rev drop_map ts_def del: take_Suc)
  qed
  have "history = concat older @ concat newer"
    using concat_group_messages [of history] split by (simp add: gs_def)
  with split win fits more show ?thesis by (intro exI [of _ older] exI [of _ newer]) (auto simp: gs_def)
qed

text \<open>A block without attachments has one tag: names and identifiers cannot open another.\<close>

lemma attr_text_no_tag:
  "\<forall>(k, v) \<in> set as. CHR ''<'' \<notin> set k \<Longrightarrow> CHR ''<'' \<notin> set (attr_text as)"
  using escape_inert by (fastforce simp: attr_text_def)

lemma block_attrs_keys: "\<forall>(k, v) \<in> set (block_attrs m names). CHR ''<'' \<notin> set k"
  by (auto simp: block_attrs_def split: option.splits if_splits)

lemma context_block_one_tag:
  assumes "ms_attachments m = []" "build_context_block m names dir \<noteq> []"
  shows "count_list (build_context_block m names dir) (CHR ''<'') = 1"
proof -
  have "CHR ''<'' \<notin> set (attr_text (block_attrs m names @ extra))" if "extra \<in> {[], [(''evicted'', [])]}" for extra
    using that block_attrs_keys [of m names] by (intro attr_text_no_tag) auto
  from this [of "[]"] this [of "[(''evicted'', [])]"] assms show ?thesis
    by (auto simp: build_context_block_def Let_def self_close_tag_def count_list_0_iff split: if_splits)
qed

text \<open>A question, a tool call with its result, and the answer; the budget leaves out the question.\<close>

definition demo_turn :: "message list" where
  "demo_turn = [zero_message\<lparr>ms_role := RoleUser, ms_content := replicate 40 (CHR ''q'')\<rparr>,
     zero_message\<lparr>ms_role := RoleAssistant,
       ms_tool_calls := [\<lparr>tc_id = ''1'', tc_name = ''time'', tc_arguments = []\<rparr>]\<rparr>,
     zero_message\<lparr>ms_role := RoleTool, ms_tool_call_id := ''1'', ms_content := ''noon''\<rparr>,
     zero_message\<lparr>ms_role := RoleAssistant, ms_content := ''It is noon.''\<rparr>]"

theorem window_longest_suffix_witness:
  "\<exists>older newer. group_messages demo_turn = older @ newer \<and> window_history demo_turn 20 = concat newer"
  using window_longest_suffix [of 20 demo_turn] by auto

lemma demo_window: "window_history demo_turn 20 = drop 1 demo_turn"
proof -
  have "map (map message_tokens) (group_messages demo_turn) = [[10], [11, 1], [3]]" by code_simp
  then have t: "map count_group_tokens (group_messages demo_turn) = [10, 12, 3]"
    by (simp add: count_group_tokens_def [abs_def] map_eq_Cons_conv) (auto simp: map_eq_Cons_conv)
  show ?thesis
    by (simp add: window_history_def window_messages_def rev_map [symmetric] t)
      (simp add: demo_turn_def)
qed

end
