(* ===== verification/Sanitize.thy ===== *)
theory Sanitize
  imports Window
begin

text \<open>
  Cleaning of model output, \<open>prompt/sanitize.go\<close>. The three regular expressions are matchers
  that give the length of the match at the head of a string, with the preference of
  alternatives and the laziness of Go's \<open>regexp\<close>; \<open>ReplaceAllString\<close> removes the matches
  from left to right.
\<close>

text \<open>\<open>\s\<close>: tab, line feed, form feed, carriage return, space.\<close>

definition re_space :: "char \<Rightarrow> bool" where
  "re_space c \<longleftrightarrow> c \<in> {CHR 0x09, CHR 0x0A, CHR 0x0C, CHR 0x0D, CHR 0x20}"

definition spaces :: "string \<Rightarrow> nat" where
  "spaces s = length (takeWhile re_space s)"

text \<open>\<open>[^>]*>\<close>: the bytes before the first \<open>>\<close>.\<close>

definition before_gt :: "string \<Rightarrow> string option" where
  "before_gt s = (if CHR ''>'' \<in> set s then Some (takeWhile (\<lambda>c. c \<noteq> CHR ''>'') s) else None)"

text \<open>\<open>[\s\S]*?\<close> up to the first occurrence of one of the closing tags: the bytes up to its end.\<close>

fun through_first :: "string list \<Rightarrow> string \<Rightarrow> nat option" where
  "through_first ps [] = None"
| "through_first ps (c # s) = (case find (has_prefix (c # s)) ps of
       Some p \<Rightarrow> Some (length p)
     | None \<Rightarrow> map_option Suc (through_first ps s))"

abbreviation "context_open \<equiv> ''<wa_msg_context''"
abbreviation "context_close \<equiv> ''</wa_msg_context>''"

text \<open>A tag with attributes: the bytes between its name and its \<open>>\<close>, white space first.\<close>

definition context_tag :: "string \<Rightarrow> string option" where
  "context_tag s = (if has_prefix s context_open
     then (case drop (length context_open) s of [] \<Rightarrow> None
       | c # r \<Rightarrow> if re_space c then map_option (Cons c) (before_gt r) else None)
     else None)"

definition with_spaces :: "nat \<Rightarrow> string \<Rightarrow> nat" where
  "with_spaces n s = n + spaces (drop n s)"

definition match_context_block :: "string \<Rightarrow> nat option" where
  "match_context_block s = (case context_tag s of None \<Rightarrow> None
     | Some body \<Rightarrow>
         let n = length context_open + length body + 1
         in if last body = CHR ''/'' then Some (with_spaces n s)
            else map_option (\<lambda>k. with_spaces (n + k) s) (through_first [context_close] (drop n s)))"

definition match_context_open :: "string \<Rightarrow> nat option" where
  "match_context_open s = (case context_tag s of None \<Rightarrow> None
     | Some body \<Rightarrow> Some (with_spaces (length context_open + length body + 1) s))"

text \<open>
  A reasoning tag: the bytes up to its \<open>>\<close>, as an opening tag or as a self-closing one. A
  tag like \<open><think />\<close> is both, and is first tried as an opening one.
\<close>

abbreviation "thinking_names \<equiv> [''think'', ''thinking'', ''reasoning'']"

definition thinking_tag :: "string \<Rightarrow> (nat option \<times> nat option) option" where
  "thinking_tag s = first_some (\<lambda>name.
     let p = CHR ''<'' # name
     in if has_prefix s p then
       (case drop (length p) s of [] \<Rightarrow> None
        | c # r \<Rightarrow>
            if c = CHR ''>'' then Some (Some (length p + 1), None)
            else if c = CHR ''/'' \<and> has_prefix r ''>'' then Some (None, Some (length p + 2))
            else if re_space c then
              (case before_gt r of None \<Rightarrow> None
               | Some body \<Rightarrow> let n = length p + 1 + length body + 1
                   in Some (Some n, if body \<noteq> [] \<and> last body = CHR ''/'' then Some n else None))
            else None)
     else None) thinking_names"

definition thinking_closes :: "string list" where
  "thinking_closes = map (\<lambda>n. ''</'' @ n @ ''>'') thinking_names"

definition match_thinking :: "string \<Rightarrow> nat option" where
  "match_thinking s = (case thinking_tag s of None \<Rightarrow> None
     | Some (opening, closing) \<Rightarrow>
         (case Option.bind opening (\<lambda>n. map_option (\<lambda>k. n + k) (through_first thinking_closes (drop n s))) of
            Some n \<Rightarrow> Some (with_spaces n s)
          | None \<Rightarrow> map_option (\<lambda>n. with_spaces n s) closing))"

text \<open>\<open>ReplaceAllString(s, "")\<close>; no pattern matches the empty string.\<close>

function remove_matches :: "(string \<Rightarrow> nat option) \<Rightarrow> string \<Rightarrow> string" where
  "remove_matches m [] = []"
| "remove_matches m (c # s) = (case m (c # s) of
       None \<Rightarrow> c # remove_matches m s
     | Some n \<Rightarrow> if n = 0 then c # remove_matches m s else remove_matches m (drop n (c # s)))"
  by pat_completeness auto
termination by (relation "measure (\<lambda>(m, s). length s)") auto

definition strip_context_blocks :: "string \<Rightarrow> string" where
  "strip_context_blocks s = remove_matches match_context_open (remove_matches match_context_block s)"

definition strip_thinking_blocks :: "string \<Rightarrow> string" where
  "strip_thinking_blocks s = remove_matches match_thinking s"

definition sanitize_response :: "string \<Rightarrow> string" where
  "sanitize_response s = trim_space (strip_thinking_blocks (strip_context_blocks s))"

section \<open>What is stripped\<close>

lemma sanitize_examples:
  "sanitize_response ''<think>hm</think> Hello <wa_msg_context a=1/> you'' = ''Hello you''"
  "sanitize_response ''<think /> a </thinking>b'' = ''b''"
  "sanitize_response ''<reasoning/>ok'' = ''ok''"
  "sanitize_response ''<wa_msg_context a> open'' = ''open''"
  by code_simp+

lemma remove_matches_plain:
  "(\<And>t. hd t \<noteq> CHR ''<'' \<Longrightarrow> m t = None) \<Longrightarrow> CHR ''<'' \<notin> set s \<Longrightarrow> remove_matches m s = s"
  by (induction s) auto

lemma matchers_start:
  assumes "hd t \<noteq> CHR ''<''"
  shows "match_context_block t = None" "match_context_open t = None" "match_thinking t = None"
  using assms by (cases t; simp add: match_context_block_def match_context_open_def context_tag_def
      match_thinking_def thinking_tag_def)+

text \<open>Text without a tag is only trimmed.\<close>

lemma sanitize_plain: "CHR ''<'' \<notin> set s \<Longrightarrow> sanitize_response s = trim_space s"
  by (simp add: sanitize_response_def strip_context_blocks_def strip_thinking_blocks_def
      remove_matches_plain matchers_start)

lemma attr_text_no_gt: "\<forall>(k, v) \<in> set as. CHR ''>'' \<notin> set k \<Longrightarrow> CHR ''>'' \<notin> set (attr_text as)"
  using escape_inert by (fastforce simp: attr_text_def)

lemma block_attrs_no_gt: "\<forall>(k, v) \<in> set (block_attrs m names). CHR ''>'' \<notin> set k"
  by (auto simp: block_attrs_def split: option.splits if_splits)

lemma remove_match: "m s = Some n \<Longrightarrow> 0 < n \<Longrightarrow> s \<noteq> [] \<Longrightarrow> remove_matches m s = remove_matches m (drop n s)"
  by (cases s) simp_all

lemma self_closed_block_removed:
  assumes "as \<noteq> []" "\<forall>(k, v) \<in> set as. CHR ''>'' \<notin> set k"
  shows "remove_matches match_context_block (self_close_tag ''wa_msg_context'' as @ [newline, newline] @ t)
    = remove_matches match_context_block (dropWhile re_space t)"
proof -
  let ?s = "self_close_tag ''wa_msg_context'' as @ [newline, newline] @ t"
  obtain x where x: "attr_text as = CHR '' '' # x" using assms(1) by (cases as) (auto simp: attr_text_def)
  have gt: "CHR ''>'' \<notin> set x" using attr_text_no_gt [OF assms(2)] x by simp
  have "takeWhile (\<lambda>c. c \<noteq> CHR ''>'') (x @ ''/>'' @ u) = x @ takeWhile (\<lambda>c. c \<noteq> CHR ''>'') (''/>'' @ u)" for u
    by (rule takeWhile_append2) (use gt in blast)
  then have body: "before_gt (x @ ''/>'' @ u) = Some (x @ ''/'')" for u
    by (simp add: before_gt_def)
  have tag: "context_tag ?s = Some (CHR '' '' # x @ ''/'')"
    using body by (simp add: context_tag_def self_close_tag_def x re_space_def has_prefix_iff)
  let ?n = "length context_open + length (CHR '' '' # x @ ''/'') + 1"
  have rest: "drop ?n ?s = [newline, newline] @ t" by (simp add: self_close_tag_def x)
  have "match_context_block ?s = Some (with_spaces ?n ?s)"
    using tag by (simp add: match_context_block_def Let_def)
  moreover have "with_spaces ?n ?s = ?n + 2 + spaces t"
    unfolding with_spaces_def rest by (simp add: spaces_def re_space_def)
  moreover have "drop (?n + 2 + spaces t) ?s = dropWhile re_space t"
  proof -
    have "drop (?n + 2 + spaces t) ?s = drop (2 + spaces t) (drop ?n ?s)"
      by (simp only: drop_drop ac_simps)
    then show ?thesis unfolding rest by (simp add: dropWhile_eq_drop spaces_def)
  qed
  moreover have "?s \<noteq> []" by (simp add: self_close_tag_def)
  ultimately show ?thesis
    using remove_match [of match_context_block ?s "?n + 2 + spaces t"] by (metis add_gr_0 zero_less_numeral)
qed

text \<open>
  A context block that the model echoes is stripped again, whoever the message is from and
  whatever the names and identifiers in it contain.
\<close>

theorem echoed_block_stripped:
  assumes "ms_attachments m = []" "CHR ''<'' \<notin> set t"
  shows "sanitize_response (build_context_block m names dir @ t) = trim_space t"
proof -
  let ?b = "build_context_block m names dir"
  have plain: "sanitize_response u = trim_space u" if "CHR ''<'' \<notin> set u" for u
    using that by (rule sanitize_plain)
  show ?thesis
  proof (cases "?b = []")
    case False
    then have "ms_id m \<noteq> [] \<or> \<not> is_zero_time (ms_created_at m)"
      by (auto simp: build_context_block_def)
    then have ne: "block_attrs m names \<noteq> []" by (auto simp: block_attrs_def)
    define extra where "extra = (if ms_evicted m then [(''evicted'', [] :: string)] else [])"
    have b: "?b = self_close_tag ''wa_msg_context'' (block_attrs m names @ extra) @ [newline, newline]"
      using False assms(1) by (auto simp: build_context_block_def Let_def extra_def split: if_splits)
    have extra: "extra \<in> {[], [(''evicted'', [])]}" by (simp add: extra_def)
    have "remove_matches match_context_block (?b @ t) = remove_matches match_context_block (dropWhile re_space t)"
      unfolding b append_assoc
      by (rule self_closed_block_removed) (use ne extra block_attrs_no_gt [of m names] in auto)
    then have "sanitize_response (?b @ t) = sanitize_response (dropWhile re_space t)"
      by (simp add: sanitize_response_def strip_context_blocks_def)
    also have "\<dots> = trim_space (dropWhile re_space t)"
      using assms(2) by (intro plain) (auto dest: set_dropWhileD)
    also have "\<dots> = trim_space t"
    proof (induction t)
      case (Cons c t)
      have "trim_left (c # t) = trim_left t" if "re_space c"
        using that by (subst trim_left.simps) (auto simp: re_space_def is_ascii_space_def)
      then have "re_space c \<Longrightarrow> trim_space (c # t) = trim_space t" by (simp add: trim_space_def)
      with Cons show ?case by simp
    qed simp
    finally show ?thesis .
  qed (use plain assms(2) in simp)
qed

theorem echoed_block_stripped_witness:
  "sanitize_response (build_context_block (zero_message\<lparr>ms_id := ''m1'', ms_role := RoleUser,
     ms_user := ''u1''\<rparr>) [''u1'' \<mapsto> ''a/><b>''] ''/messages'' @ ''Hi'') = ''Hi''"
  by (subst echoed_block_stripped) (simp_all add: zero_message_def, code_simp)

text \<open>A tag inside a broken tag is removed once, and what is around it forms the next one.\<close>

lemma nested_echo_survives:
  "sanitize_response ''<wa_msg_<wa_msg_context a>context b>hi'' = ''<wa_msg_context b>hi''"
  by code_simp

end
