(* ===== verification/Llm.thy ===== *)
theory Llm
  imports Entities Go_Strings Prelude
begin

text \<open>
  Model routing and failover, \<open>internal/domain/service/llm\<close>. A provider plugin is a parameter:
  a function from the request to its answer, which may change the outside world \<open>'w\<close>; the
  clock and the state of the context are read from that world. The cool-down map is the
  service's state; one call of \<open>Complete\<close> runs at a time.
\<close>

section \<open>Routes\<close>

record route =
  rt_endpoint :: string
  rt_model :: string

text \<open>\<open>parseRoute\<close>: everything after the first colon is the model name.\<close>

definition parse_route :: "string \<Rightarrow> route option" where
  "parse_route s = (case split2 (CHR '':'') s of
       (_, None) \<Rightarrow> None
     | (e, Some m) \<Rightarrow> if e = [] \<or> m = [] then None else Some \<lparr>rt_endpoint = e, rt_model = m\<rparr>)"

datatype route_error = BadPrimary string | BadFallback nat string

fun parse_fallbacks :: "nat \<Rightarrow> string list \<Rightarrow> route_error + route list" where
  "parse_fallbacks i [] = Inr []"
| "parse_fallbacks i (fb # fbs) = (case parse_route fb of
       None \<Rightarrow> Inl (BadFallback i fb)
     | Some r \<Rightarrow> (case parse_fallbacks (Suc i) fbs of Inl e \<Rightarrow> Inl e | Inr rs \<Rightarrow> Inr (r # rs)))"

definition new_router :: "string \<Rightarrow> string list \<Rightarrow> route_error + route list" where
  "new_router primary fallbacks = (case parse_route primary of
       None \<Rightarrow> Inl (BadPrimary primary)
     | Some r \<Rightarrow> (case parse_fallbacks 0 fallbacks of Inl e \<Rightarrow> Inl e | Inr rs \<Rightarrow> Inr (r # rs)))"

text \<open>
  The override holder of the context: absent, or its current entries. Entries that do not
  parse are skipped.
\<close>

definition holder_get :: "string list \<Rightarrow> string list option" where
  "holder_get vs = (if vs = [] then None else Some vs)"

definition select_routes :: "route list \<Rightarrow> string list option \<Rightarrow> route list" where
  "select_routes chain holder = (case Option.bind holder holder_get of
       None \<Rightarrow> chain
     | Some overrides \<Rightarrow> List.map_filter parse_route overrides @ chain)"

section \<open>Completion\<close>

record tool_def =
  td_name :: string
  td_description :: string
  td_parameters :: string

record request =
  rq_tenant :: string
  rq_messages :: "message list"
  rq_tools :: "tool_def list"
  rq_model :: string
  rq_stream :: bool

record response =
  rs_content :: string
  rs_tool_calls :: "tool_call list"
  rs_finish :: string
  rs_tokens_in :: int
  rs_tokens_out :: int
  rs_endpoint :: string
  rs_model :: string

text \<open>What a plugin answers; a \<open>ProviderError\<close> carries its retry-after duration.\<close>

datatype answer = Answer response | ProviderErr int | OtherErr

record 'w providers =
  pv_plugin :: "string \<Rightarrow> (request \<Rightarrow> 'w \<Rightarrow> answer \<times> 'w) option"
  pv_now :: "'w \<Rightarrow> instant"
  pv_cancelled :: "'w \<Rightarrow> bool"

record llm =
  lm_chain :: "route list"
  lm_cooldown :: "string \<Rightarrow> instant option"
  lm_default :: int

datatype llm_error = CtxCancelled string string | Exhausted nat

definition new_llm :: "route list \<Rightarrow> int \<Rightarrow> llm" where
  "new_llm chain d = \<lparr>lm_chain = chain, lm_cooldown = (\<lambda>_. None), lm_default = d\<rparr>"

definition cool_key :: "string \<Rightarrow> string \<Rightarrow> string" where
  "cool_key e m = e @ '':'' @ m"

text \<open>\<open>isCooledDown\<close> at time \<open>t\<close>; an expired entry is deleted.\<close>

definition is_cooled_down :: "instant \<Rightarrow> string \<Rightarrow> llm \<Rightarrow> bool \<times> llm" where
  "is_cooled_down t k s = (case lm_cooldown s k of
       None \<Rightarrow> (False, s)
     | Some u \<Rightarrow> if u < t then (False, s\<lparr>lm_cooldown := (lm_cooldown s)(k := None)\<rparr>)
                 else (True, s))"

definition set_cool_down :: "instant \<Rightarrow> string \<Rightarrow> int \<Rightarrow> llm \<Rightarrow> llm" where
  "set_cool_down t k retry s =
     s\<lparr>lm_cooldown := (lm_cooldown s)(k \<mapsto> t + (if retry \<le> 0 then lm_default s else retry))\<rparr>"

text \<open>
  The loop of \<open>Complete\<close>. The request is one variable of the function: the model assigned to
  it for one route is still there when the next route is tried.
\<close>

fun try_routes :: "'w providers \<Rightarrow> nat \<Rightarrow> route list \<Rightarrow> request \<Rightarrow> llm \<Rightarrow> 'w
    \<Rightarrow> (llm_error + response) \<times> llm \<times> 'w" where
  "try_routes P n [] req s w = (Inl (Exhausted n), s, w)"
| "try_routes P n (r # rs) req s w =
     (let model = (if rq_model req \<noteq> [] then rq_model req else rt_model r);
          key = cool_key (rt_endpoint r) model
      in case is_cooled_down (pv_now P w) key s of
           (True, s1) \<Rightarrow> try_routes P n rs req s1 w
         | (False, s1) \<Rightarrow> (case pv_plugin P (rt_endpoint r) of
             None \<Rightarrow> try_routes P n rs req s1 w
           | Some plugin \<Rightarrow>
               let req1 = req\<lparr>rq_model := model, rq_stream := True\<rparr>
               in case plugin req1 w of
                    (Answer resp, w1) \<Rightarrow>
                      (Inr (resp\<lparr>rs_endpoint := rt_endpoint r, rs_model := model\<rparr>), s1, w1)
                  | (ProviderErr retry, w1) \<Rightarrow>
                      if pv_cancelled P w1
                      then (Inl (CtxCancelled (rt_endpoint r) (rt_model r)), s1, w1)
                      else try_routes P n rs req1 (set_cool_down (pv_now P w1) key retry s1) w1
                  | (OtherErr, w1) \<Rightarrow>
                      if pv_cancelled P w1
                      then (Inl (CtxCancelled (rt_endpoint r) (rt_model r)), s1, w1)
                      else try_routes P n rs req1 s1 w1))"

definition complete :: "'w providers \<Rightarrow> string list option \<Rightarrow> request \<Rightarrow> llm \<Rightarrow> 'w
    \<Rightarrow> (llm_error + response) \<times> llm \<times> 'w" where
  "complete P holder req s w =
     (let chain = select_routes (lm_chain s) holder
      in case (if rq_model req = [] then None else parse_route (rq_model req)) of
           Some sel \<Rightarrow> try_routes P 1 [sel] (req\<lparr>rq_model := rt_model sel\<rparr>) s w
         | None \<Rightarrow> try_routes P (length chain) chain req s w)"

section \<open>Properties\<close>

text \<open>A route parses exactly when it is printed from an endpoint without a colon and a model.\<close>

theorem route_roundtrip:
  "parse_route s = Some r \<longleftrightarrow>
     s = cool_key (rt_endpoint r) (rt_model r) \<and> CHR '':'' \<notin> set (rt_endpoint r)
       \<and> rt_endpoint r \<noteq> [] \<and> rt_model r \<noteq> []"
proof
  assume parsed: "parse_route s = Some r"
  then obtain e m where sp: "split2 (CHR '':'') s = (e, Some m)" and ne: "e \<noteq> []" "m \<noteq> []"
      and r: "r = \<lparr>rt_endpoint = e, rt_model = m\<rparr>"
    by (auto simp: parse_route_def split: prod.splits option.splits if_splits)
  show "s = cool_key (rt_endpoint r) (rt_model r) \<and> CHR '':'' \<notin> set (rt_endpoint r)
      \<and> rt_endpoint r \<noteq> [] \<and> rt_model r \<noteq> []"
    using split2_Some [OF sp] ne by (simp add: r cool_key_def)
next
  assume "s = cool_key (rt_endpoint r) (rt_model r) \<and> CHR '':'' \<notin> set (rt_endpoint r)
      \<and> rt_endpoint r \<noteq> [] \<and> rt_model r \<noteq> []"
  then show "parse_route s = Some r" by (simp add: parse_route_def cool_key_def)
qed

lemma is_cooled_down_keeps:
  assumes "lm_cooldown s k = Some u" "t \<le> u"
  shows "lm_cooldown (snd (is_cooled_down t k' s)) k = Some u"
    and "is_cooled_down t k s = (True, s)"
  using assms by (auto simp: is_cooled_down_def split: option.splits)

text \<open>Two sets of plugins that differ only in how \<open>e\<close> answers requests for the model \<open>m\<close>.\<close>

definition differ_at :: "string \<Rightarrow> string \<Rightarrow> 'w providers \<Rightarrow> 'w providers \<Rightarrow> bool" where
  "differ_at e m P Q \<longleftrightarrow> pv_now Q = pv_now P \<and> pv_cancelled Q = pv_cancelled P \<and>
     (\<forall>e'. e' \<noteq> e \<longrightarrow> pv_plugin Q e' = pv_plugin P e') \<and>
     rel_option (\<lambda>f g. \<forall>r w. rq_model r \<noteq> m \<longrightarrow> g r w = f r w) (pv_plugin P e) (pv_plugin Q e)"

lemma try_routes_cooled:
  assumes "differ_at e m P Q" "\<forall>w. pv_now P w \<le> u"
  shows "lm_cooldown s (cool_key e m) = Some u \<Longrightarrow>
    try_routes Q n rs req s w = try_routes P n rs req s w"
proof (induction rs arbitrary: req s w)
  case Nil
  then show ?case by simp
next
  case (Cons r rs)
  define model where "model = (if rq_model req \<noteq> [] then rq_model req else rt_model r)"
  define key where "key = cool_key (rt_endpoint r) model"
  have now [simp]: "pv_now Q = pv_now P" "pv_cancelled Q = pv_cancelled P"
    using assms(1) by (auto simp: differ_at_def)
  obtain c s1 where ic: "is_cooled_down (pv_now P w) key s = (c, s1)" by fastforce
  have keep: "lm_cooldown s1 (cool_key e m) = Some u"
    using is_cooled_down_keeps(1) [OF Cons.prems, of "pv_now P w" key] assms(2) ic by simp
  note simps = try_routes.simps(2) Let_def model_def [symmetric] key_def [symmetric] ic
  show ?case
  proof (cases c)
    case True
    with keep show ?thesis by (simp add: simps Cons.IH)
  next
    case False
    have other: "key \<noteq> cool_key e m"
      using False ic is_cooled_down_keeps(2) [OF Cons.prems, of "pv_now P w"] assms(2) by auto
    then have diff: "rt_endpoint r \<noteq> e \<or> model \<noteq> m" by (auto simp: key_def)
    have set_keep: "lm_cooldown (set_cool_down t key d s1) (cool_key e m) = Some u" for t d
      using keep other by (simp add: set_cool_down_def)
    show ?thesis
    proof (cases "pv_plugin P (rt_endpoint r)")
      case None
      then have "pv_plugin Q (rt_endpoint r) = None"
        using assms(1) by (cases "rt_endpoint r = e") (auto simp: differ_at_def)
      with None False keep show ?thesis by (simp add: simps Cons.IH)
    next
      case (Some f)
      obtain g where g: "pv_plugin Q (rt_endpoint r) = Some g"
          and same: "g (req\<lparr>rq_model := model, rq_stream := True\<rparr>) w
            = f (req\<lparr>rq_model := model, rq_stream := True\<rparr>) w"
        using assms(1) Some diff
        by (cases "rt_endpoint r = e") (auto simp: differ_at_def rel_option_iff split: option.splits)
      show ?thesis
        using False Some g same keep set_keep
        by (simp add: simps Cons.IH split: prod.splits answer.splits)
    qed
  qed
qed

text \<open>
  While a route cools down its provider is not called with that model: replacing what it
  would answer changes neither the result, nor the service, nor the world.
\<close>

theorem cooled_route_not_called:
  assumes "lm_cooldown s (cool_key e m) = Some u" "\<forall>w. pv_now P w \<le> u" "differ_at e m P Q"
  shows "complete Q holder req s w = complete P holder req s w"
  using try_routes_cooled [OF assms(3,2,1)]
  by (simp add: complete_def Let_def del: try_routes.simps split: option.splits)

text \<open>Plugins that agree on every request for the model \<open>m\<close>.\<close>

definition agree_on_model :: "string \<Rightarrow> 'w providers \<Rightarrow> 'w providers \<Rightarrow> bool" where
  "agree_on_model m P Q \<longleftrightarrow> pv_now Q = pv_now P \<and> pv_cancelled Q = pv_cancelled P \<and>
     (\<forall>e. rel_option (\<lambda>f g. \<forall>r w. rq_model r = m \<longrightarrow> g r w = f r w) (pv_plugin P e) (pv_plugin Q e))"

lemma agree_on_model_plugin:
  assumes "agree_on_model m P Q"
  shows "pv_now Q = pv_now P" "pv_cancelled Q = pv_cancelled P"
    and "pv_plugin P e = None \<Longrightarrow> pv_plugin Q e = None"
    and "pv_plugin P e = Some f \<Longrightarrow> \<exists>g. pv_plugin Q e = Some g \<and> (\<forall>r w. rq_model r = m \<longrightarrow> g r w = f r w)"
  using assms unfolding agree_on_model_def by (auto dest!: spec [of _ e] simp: rel_option_iff split: option.splits)

lemma try_routes_one_model:
  assumes "agree_on_model m P Q" "m \<noteq> []"
  shows "rq_model req = m \<Longrightarrow> try_routes Q n rs req s w = try_routes P n rs req s w"
proof (induction rs arbitrary: req s w)
  case Nil
  then show ?case by simp
next
  case (Cons r rs)
  note eqs = agree_on_model_plugin(1,2) [OF assms(1)]
  show ?case
  proof (cases "pv_plugin P (rt_endpoint r)")
    case None
    with agree_on_model_plugin(3) [OF assms(1)] Cons assms(2) eqs show ?thesis
      by (simp add: Let_def split: prod.splits bool.splits)
  next
    case (Some f)
    then obtain g where "pv_plugin Q (rt_endpoint r) = Some g"
        "\<forall>r w. rq_model r = m \<longrightarrow> g r w = f r w"
      using agree_on_model_plugin(4) [OF assms(1)] by blast
    with Some Cons assms(2) eqs show ?thesis
      by (simp add: Let_def split: prod.splits bool.splits answer.splits)
  qed
qed

text \<open>
  Failover keeps the model of the first route it called: once that route was tried, only
  requests for its model reach any provider, whatever models the later routes name.
\<close>

theorem failover_keeps_first_model:
  assumes "rq_model req = []" "select_routes (lm_chain s) holder = r # rs" "rt_model r \<noteq> []"
    and "lm_cooldown s (cool_key (rt_endpoint r) (rt_model r)) = None"
    and "pv_plugin P (rt_endpoint r) = Some f" "agree_on_model (rt_model r) P Q"
  shows "complete Q holder req s w = complete P holder req s w"
proof -
  obtain g where g: "pv_plugin Q (rt_endpoint r) = Some g"
      and same: "\<forall>q w. rq_model q = rt_model r \<longrightarrow> g q w = f q w"
    using agree_on_model_plugin(4) [OF assms(6,5)] by blast
  have warm: "is_cooled_down t (cool_key (rt_endpoint r) (rt_model r)) s = (False, s)" for t
    using assms(4) by (simp add: is_cooled_down_def)
  note tail = try_routes_one_model [OF assms(6,3)]
  show ?thesis
    using assms(1,2,5) g same warm agree_on_model_plugin(1,2) [OF assms(6)]
    by (simp add: complete_def Let_def tail split: prod.splits answer.splits)
qed

text \<open>A small system: \<open>a\<close> is down, \<open>b\<close> serves the model \<open>n\<close> only.\<close>

definition demo_response :: response where
  "demo_response = \<lparr>rs_content = ''hi'', rs_tool_calls = [], rs_finish = ''stop'',
     rs_tokens_in = 1, rs_tokens_out = 1, rs_endpoint = [], rs_model = []\<rparr>"

definition demo_providers :: "string list providers" where
  "demo_providers = \<lparr>pv_plugin = [''a'' \<mapsto> (\<lambda>q w. (OtherErr, w @ [''a:'' @ rq_model q])),
       ''b'' \<mapsto> (\<lambda>q w. (if rq_model q = ''n'' then Answer demo_response else ProviderErr 0,
                       w @ [''b:'' @ rq_model q]))],
     pv_now = (\<lambda>_. 0), pv_cancelled = (\<lambda>_. False)\<rparr>"

definition demo_request :: request where
  "demo_request = \<lparr>rq_tenant = ''t'', rq_messages = [], rq_tools = [], rq_model = [], rq_stream = False\<rparr>"

definition demo_llm :: llm where
  "demo_llm = new_llm [\<lparr>rt_endpoint = ''a'', rt_model = ''m''\<rparr>, \<lparr>rt_endpoint = ''b'', rt_model = ''n''\<rparr>] 60"

text \<open>The fallback route \<open>b:n\<close> is asked for \<open>m\<close>, fails, and is cooled down as \<open>b:m\<close>.\<close>

lemma failover_asks_for_the_wrong_model:
  "let (res, s, calls) = complete demo_providers None demo_request demo_llm []
   in res = Inl (Exhausted 2) \<and> calls = [''a:m'', ''b:m'']
     \<and> lm_cooldown s ''b:m'' = Some 60 \<and> lm_cooldown s ''b:n'' = None"
  by code_simp

lemma failover_keeps_first_model_witness:
  "complete (demo_providers\<lparr>pv_plugin := (pv_plugin demo_providers)
       (''b'' \<mapsto> (\<lambda>q w. (if rq_model q = ''m'' then ProviderErr 0 else Answer demo_response,
          w @ [''b:'' @ rq_model q])))\<rparr>) None demo_request demo_llm []
   = complete demo_providers None demo_request demo_llm []"
  by (rule failover_keeps_first_model [where r = "\<lparr>rt_endpoint = ''a'', rt_model = ''m''\<rparr>"])
    (simp_all add: demo_request_def demo_llm_def new_llm_def select_routes_def demo_providers_def
      agree_on_model_def)

lemma cooled_route_not_called_witness:
  "complete (demo_providers\<lparr>pv_plugin := (pv_plugin demo_providers)
       (''a'' \<mapsto> (\<lambda>q w. if rq_model q = ''m'' then (Answer demo_response, [])
          else (OtherErr, w @ [''a:'' @ rq_model q])))\<rparr>)
     None demo_request (set_cool_down 0 ''a:m'' 5 demo_llm) []
   = complete demo_providers None demo_request (set_cool_down 0 ''a:m'' 5 demo_llm) []"
  by (rule cooled_route_not_called [where e = "''a''" and m = "''m''" and u = 5])
    (simp_all add: set_cool_down_def cool_key_def demo_providers_def differ_at_def)

end
