(* ===== verification/Prompt.thy ===== *)
theory Prompt
  imports Window Conversation Identity Llm
begin

text \<open>
  The prompt builder, \<open>internal/domain/service/prompt/prompt.go\<close>: system prompt, summary of
  what was compacted, and the window of the history. The embedded template (a page of prose)
  and the list of skills are parameters; the registered tools are listed in the order in which
  the range over the Go map happens to visit them.
\<close>

section \<open>Tools and skills\<close>

record tool_info =
  ti_name :: string
  ti_description :: string
  ti_parameters :: string
  ti_instructions :: string

record capabilities =
  cap_indication :: bool
  cap_reactions :: bool

datatype skill_level = SkillTenant | SkillUser

record skill =
  sk_name :: string
  sk_display :: string
  sk_description :: string
  sk_level :: skill_level
  sk_path :: string

definition filter_tools :: "tool_info list \<Rightarrow> tenant option \<Rightarrow> capabilities \<Rightarrow> tool_info list" where
  "filter_tools tools t caps = filter (\<lambda>i.
     (case t of None \<Rightarrow> True | Some t \<Rightarrow> tn_allowed_tools t = [] \<or> ti_name i \<in> set (tn_allowed_tools t))
     \<and> (cap_reactions caps \<or> ti_name i \<noteq> ''reaction'')) tools"

definition filtered_tool_defs :: "tool_info list \<Rightarrow> tenant option \<Rightarrow> capabilities \<Rightarrow> tool_def list" where
  "filtered_tool_defs tools t caps = map (\<lambda>i. \<lparr>td_name = ti_name i,
     td_description = ti_description i, td_parameters = ti_parameters i\<rparr>) (filter_tools tools t caps)"

definition build_tool_xml :: "tool_info list \<Rightarrow> string" where
  "build_tool_xml tools = (if tools = [] then ''<tools/>''
     else open_tag ''tools'' []
       @ concat (map (\<lambda>i. open_tag ''tool'' [(''name'', ti_name i)]
           @ child ''description'' (ti_description i)
           @ child_raw ''parameters'' (json_compact False False (ti_parameters i))
           @ close_tag ''tool'') tools)
       @ close_tag ''tools'')"

definition build_tool_instructions :: "tool_info list \<Rightarrow> string" where
  "build_tool_instructions tools =
     join [newline, newline] (filter (\<lambda>s. s \<noteq> []) (map ti_instructions tools))"

definition build_skills_xml :: "skill list \<Rightarrow> string \<Rightarrow> string \<Rightarrow> string" where
  "build_skills_xml skills user_home tenant_home =
     open_tag ''skills'' []
     @ concat (map (\<lambda>s. open_tag ''skill'' []
         @ child ''name'' (sk_name s) @ child ''description'' (sk_description s)
         @ child ''path'' ((if sk_level s = SkillUser then user_home else tenant_home)
             @ ''/skills/'' @ sk_name s)
         @ close_tag ''skill'') skills)
     @ close_tag ''skills''"

definition build_channel_context :: "message \<Rightarrow> string_map" where
  "build_channel_context m = sort_key fst (ms_metadata m)"

section \<open>The system prompt\<close>

record prompt_data =
  pd_tenant_id :: string
  pd_tenant_name :: string
  pd_tenant_instructions :: string
  pd_agent_id :: string
  pd_agent_name :: string
  pd_agent_instructions :: string
  pd_user_id :: string
  pd_user_name :: string
  pd_memory :: string
  pd_tool_descriptions :: string
  pd_tool_instructions :: string
  pd_is_group :: bool
  pd_is_cron :: bool
  pd_has_reactions :: bool
  pd_channel_context :: string_map
  pd_skills_block :: string
  pd_out_msg_path :: string

record compaction_config =
  cc_below :: "int \<Rightarrow> int \<Rightarrow> bool"
  cc_model :: string
  cc_preserve :: int

text \<open>
  \<open>cc_below p b\<close> is the float comparison of \<open>p / b\<close> with the configured threshold. A skill
  lister answers \<open>None\<close> for an error.
\<close>

record builder =
  pb_tools :: "tool_info list"
  pb_template :: "prompt_data \<Rightarrow> string"
  pb_skills :: "string \<Rightarrow> string \<Rightarrow> skill list option"
  pb_budget :: int
  pb_compaction :: "compaction_config option"
  pb_user_home :: "string \<Rightarrow> string"
  pb_tenant_home :: "string \<Rightarrow> string"
  pb_messages_path :: string

definition prompt_fields :: "builder \<Rightarrow> tenant option \<Rightarrow> agent option \<Rightarrow> user option \<Rightarrow> message
    \<Rightarrow> string \<Rightarrow> capabilities \<Rightarrow> string \<Rightarrow> prompt_data" where
  "prompt_fields b t a u m memory caps out_path =
     (let str = (\<lambda>f x. case x of None \<Rightarrow> [] | Some r \<Rightarrow> f r);
          tools = filter_tools (pb_tools b) t caps;
          tid = str tn_id t;
          uid = case_option [] us_id u;
          skills = (case pb_skills b tid uid of None \<Rightarrow> [] | Some l \<Rightarrow> l)
      in \<lparr>pd_tenant_id = tid, pd_tenant_name = str tn_name t,
          pd_tenant_instructions = str tn_instructions t,
          pd_agent_id = case_option [] ag_id a, pd_agent_name = case_option [] ag_name a,
          pd_agent_instructions = case_option [] ag_instructions a,
          pd_user_id = uid, pd_user_name = case_option [] us_name u,
          pd_memory = memory,
          pd_tool_descriptions = build_tool_xml tools,
          pd_tool_instructions = build_tool_instructions tools,
          pd_is_group = ms_is_group m, pd_is_cron = (ms_kind m = KindCron),
          pd_has_reactions = cap_reactions caps,
          pd_channel_context = build_channel_context m,
          pd_skills_block = build_skills_xml skills (pb_user_home b uid) (pb_tenant_home b tid),
          pd_out_msg_path = out_path\<rparr>)"

definition render_system :: "builder \<Rightarrow> tenant option \<Rightarrow> agent option \<Rightarrow> user option \<Rightarrow> message
    \<Rightarrow> string \<Rightarrow> capabilities \<Rightarrow> string \<Rightarrow> string" where
  "render_system b t a u m memory caps out_path =
     pb_template b (prompt_fields b t a u m memory caps out_path)"

section \<open>The compacted context\<close>

definition render_summary_block :: "summary \<Rightarrow> string" where
  "render_summary_block s =
     open_tag ''summary''
       ((if sm_id s \<noteq> [] then [(''id'', sm_id s)] else [])
        @ (if \<not> is_zero_time (sm_created_at s) then [(''ts'', format_timestamp (sm_created_at s))] else []))
     @ child ''content'' (sm_content s) @ close_tag ''summary''"

definition render_compacted_block :: "string \<Rightarrow> summary \<Rightarrow> string" where
  "render_compacted_block conv s =
     ''<wa_compacted_context''
     @ (if conv \<noteq> [] then '' conversation_id='' @ [CHR 0x22] @ conv @ [CHR 0x22] else [])
     @ ''>'' @ [newline]
     @ (let r = render_summary_block s in r @ (if has_suffix r [newline] then [] else [newline]))
     @ ''</wa_compacted_context>'' @ [newline]"

definition build_compaction_signal :: "builder \<Rightarrow> nat \<Rightarrow> message \<Rightarrow> message list \<Rightarrow> string option
    \<Rightarrow> string option" where
  "build_compaction_signal b pressure m history up_to =
     (case pb_compaction b of None \<Rightarrow> None | Some c \<Rightarrow>
        if pb_budget b \<le> 0 then None
        else if cc_below c (int pressure) (pb_budget b) then None
        else let latest = (case up_to of
                 Some i \<Rightarrow> if i \<noteq> [] then i
                   else if history \<noteq> [] then ms_id (last history) else ms_id m
               | None \<Rightarrow> if history \<noteq> [] then ms_id (last history) else ms_id m)
             in if latest = [] then None else Some latest)"

section \<open>Build\<close>

definition fetch_memory :: "tenant option \<Rightarrow> user option \<Rightarrow> message \<Rightarrow> world \<Rightarrow> string \<times> world" where
  "fetch_memory t u m w =
     (case t of None \<Rightarrow> ([], w) | Some t \<Rightarrow>
       let (ot, oid) = (if ms_is_group m then (''chat'', ms_chat m)
             else case u of Some u \<Rightarrow> (''user'', us_id u) | None \<Rightarrow> ([], []))
       in if oid = [] then ([], w)
          else if_ok (get_memory (tn_id t) ot oid w) (\<lambda>_ w1. ([], w1))
            (\<lambda>r w1. (case r of None \<Rightarrow> [] | Some mm \<Rightarrow> mm_content mm, w1)))"

definition fetch_full_history :: "string \<Rightarrow> string option \<Rightarrow> convs \<Rightarrow> world
    \<Rightarrow> (db_error + message list) \<times> world" where
  "fetch_full_history conv up_to c w = get_history (\<lambda>_ rows. rows) conv 0 0 up_to c w"

definition fetch_latest_summary :: "string \<Rightarrow> string \<Rightarrow> world \<Rightarrow> summary option \<times> world" where
  "fetch_latest_summary tid conv w =
     (if tid = [] \<or> conv = [] then (None, w)
      else if_ok (get_latest_summary tid conv w) (\<lambda>_ w1. (None, w1)) (\<lambda>s w1. (s, w1)))"

text \<open>The history and the latest summary; an error fetching the summary is logged only.\<close>

definition fetch_context :: "string \<Rightarrow> string \<Rightarrow> string option \<Rightarrow> convs \<Rightarrow> world
    \<Rightarrow> (db_error + message list \<times> summary option) \<times> world" where
  "fetch_context tid conv up_to c w =
     (if conv = [] then (Inr ([], None), w)
      else if_ok (fetch_full_history conv up_to c w) (\<lambda>e w1. (Inl e, w1)) (\<lambda>full w1.
        let (s, w2) = fetch_latest_summary tid conv w1
        in (Inr (trim_history_after_summary full (case s of None \<Rightarrow> [] | Some s \<Rightarrow> sm_message s), s), w2)))"

definition user_names :: "tenant option \<Rightarrow> user option \<Rightarrow> message list \<Rightarrow> user_resolver
    \<Rightarrow> (string \<Rightarrow> string option) \<times> user_resolver" where
  "user_names t u history s =
     (let ids = map ms_user (filter (\<lambda>m. ms_role m = RoleUser \<and> ms_user m \<noteq> []) history);
          (found, s1) = (case t of
             Some t \<Rightarrow> if ids \<noteq> [] then resolve_users (tn_id t) ids s else (\<lambda>_. None, s)
           | None \<Rightarrow> (\<lambda>_. None, s));
          names = (\<lambda>uid. map_option us_name (found uid))
      in (case u of Some u \<Rightarrow> if us_id u \<noteq> [] then names(us_id u \<mapsto> us_name u) else names
          | None \<Rightarrow> names, s1))"

definition system_message :: "string \<Rightarrow> message" where
  "system_message s = zero_message\<lparr>ms_role := RoleSystem, ms_content := s\<rparr>"

definition assemble :: "builder \<Rightarrow> string \<Rightarrow> string \<Rightarrow> message list \<Rightarrow> summary option \<Rightarrow> message list \<times> message list" where
  "assemble b sys conv history s =
     (let compacted = (case s of None \<Rightarrow> [] | Some s \<Rightarrow> [system_message (render_compacted_block conv s)]);
          budget = pb_budget b - int (token_count sys) - int (count_prompt_footprint compacted)
      in (compacted, if 0 < pb_budget b then window_history history budget else history))"

definition build :: "builder \<Rightarrow> tenant option \<Rightarrow> agent option \<Rightarrow> user option \<Rightarrow> message \<Rightarrow> string
    \<Rightarrow> capabilities \<Rightarrow> string option \<Rightarrow> string \<Rightarrow> convs \<Rightarrow> user_resolver
    \<Rightarrow> (db_error + message list \<times> string option) \<times> user_resolver" where
  "build b t a u m conv caps up_to out_path c s =
     (let (memory, w1) = fetch_memory t u m (ur_world s);
          sys = render_system b t a u m memory caps out_path;
          tid = (if ms_tenant m = [] then case_option [] tn_id t else ms_tenant m)
      in if_ok (fetch_context tid conv up_to c w1) (\<lambda>e w2. (Inl e, s\<lparr>ur_world := w2\<rparr>))
        (\<lambda>(history, latest) w2.
          let (compacted, shown) = assemble b sys conv history latest;
              (names, s2) = user_names t u shown (s\<lparr>ur_world := w2\<rparr>);
              enriched = enrich_messages shown names (pb_messages_path b);
              pressure = token_count sys + count_prompt_footprint compacted
                + count_prompt_footprint enriched
          in (Inr ([system_message sys] @ compacted @ enriched,
                build_compaction_signal b pressure m shown up_to), s2)))"

section \<open>What a prompt shows\<close>

text \<open>The messages of a conversation up to a message, in the order of the history.\<close>

definition conversation_rows :: "string \<Rightarrow> string \<Rightarrow> string option \<Rightarrow> db \<Rightarrow> message list" where
  "conversation_rows tid conv up_to d = sort_key message_key
     (filter (\<lambda>m. ms_tenant m = tid \<and> ms_conv m = conv
        \<and> (case up_to of None \<Rightarrow> True | Some i \<Rightarrow> ms_id m \<le> i)) (d_messages d))"

lemma fetch_full_history_rows:
  assumes "fetch_full_history conv up_to c w = (Inr h, w')" "cv_tenants c conv = Some tid" "conv \<noteq> []"
  shows "h = conversation_rows tid conv up_to (w_db w) \<and> w_db w' = w_db w"
proof -
  have "message_matches tid (no_filter\<lparr>mf_conv := conv, mf_limit := 0, mf_offset := 0, mf_tail := False,
      mf_up_to := up_to\<rparr>) = (\<lambda>m. ms_tenant m = tid \<and> ms_conv m = conv
        \<and> (case up_to of None \<Rightarrow> True | Some i \<Rightarrow> ms_id m \<le> i))"
    using assms(3) by (auto simp: message_matches_def no_filter_def fun_eq_iff split: option.splits)
  with assms show ?thesis
    by (auto simp: fetch_full_history_def get_history_def get_messages_def db_query_def Let_def
        select_messages_def page_def conversation_rows_def no_filter_def split: if_splits)
qed

lemma fetch_latest_summary_cases:
  assumes "fetch_latest_summary tid conv w = (s, w')"
  shows "w_db w' = w_db w \<and> (\<forall>r. s = Some r \<longrightarrow> r \<in> set (summaries_of tid conv (w_db w)))"
  using assms
  by (auto simp: fetch_latest_summary_def get_latest_summary_def if_ok_def db_query_def Let_def
      split: if_splits list.splits)


definition demo_builder :: builder where
  "demo_builder = \<lparr>pb_tools = [], pb_template = (\<lambda>d. ''You talk to '' @ pd_user_name d),
     pb_skills = (\<lambda>_ _. None), pb_budget = 40, pb_compaction = None, pb_user_home = (\<lambda>_. []),
     pb_tenant_home = (\<lambda>_. []), pb_messages_path = ''/messages''\<rparr>"

definition demo_reader :: user_resolver where
  "demo_reader = \<lparr>ur_cache = (\<lambda>_. None), ur_world = demo_lines\<rparr>"


end
