(* ===== verification/Compaction.thy ===== *)
theory Compaction
  imports Prompt
begin

text \<open>
  Compaction, \<open>internal/domain/service/compaction\<close>: the messages after the last summary,
  except the most recent ones, are summarised by a model and the summary is stored with the
  identifier of the last message it covers. The prompt shows what comes after. The embedded
  template is a parameter, applied to the data the service passes to it.
\<close>

record template_message =
  tm_id :: string
  tm_role :: role
  tm_content :: string
  tm_attachments :: "string list"

record compactor =
  co_model :: string
  co_preserve :: int
  co_template :: "summary list \<Rightarrow> template_message list \<Rightarrow> string"

datatype setup_error = NoConfig | NoModel | NoPreserve

text \<open>The checks of \<open>New\<close> on the configuration; the services it is given are not nil.\<close>

definition new_compactor :: "compaction_config option \<Rightarrow> (summary list \<Rightarrow> template_message list \<Rightarrow> string)
    \<Rightarrow> setup_error + compactor" where
  "new_compactor cfg tmpl = (case cfg of None \<Rightarrow> Inl NoConfig | Some c \<Rightarrow>
     if trim_space (cc_model c) = [] then Inl NoModel
     else if cc_preserve c \<le> 0 then Inl NoPreserve
     else Inr \<lparr>co_model = cc_model c, co_preserve = cc_preserve c, co_template = tmpl\<rparr>)"

section \<open>Attachments\<close>

definition first_nonempty :: "string list \<Rightarrow> string" where
  "first_nonempty ss = (case find (\<lambda>s. s \<noteq> []) ss of None \<Rightarrow> [] | Some s \<Rightarrow> s)"

definition attachment_ref :: "attachment \<Rightarrow> string" where
  "attachment_ref a =
     first_nonempty [trim_space (at_path a), trim_space (at_filename a), trim_space (at_id a), ''attachment'']
     @ '': '' @ first_nonempty [trim_space (at_caption a), trim_space (at_kind a), ''attachment'']"

definition attachment_refs :: "attachment list \<Rightarrow> string list" where
  "attachment_refs as = map attachment_ref as"

text \<open>Each reference once, in the order of its first occurrence.\<close>

fun first_seen :: "string list \<Rightarrow> string set \<Rightarrow> string list" where
  "first_seen [] seen = []"
| "first_seen (r # rs) seen =
     (if r \<in> seen then first_seen rs seen else r # first_seen rs (insert r seen))"

definition normalize_files_section :: "message list \<Rightarrow> string" where
  "normalize_files_section history =
     (let refs = first_seen (concat (map (\<lambda>m. attachment_refs (ms_attachments m)) history)) {}
      in if refs = [] then ''None.'' else join [newline] (map (\<lambda>r. ''- '' @ r) refs))"

section \<open>Sections of the summary\<close>

definition canonical_section :: "string \<Rightarrow> string" where
  "canonical_section name = (let n = to_lower (trim_space name)
     in if n = ''goals'' then ''Goals'' else if n = ''files'' then ''Files''
        else if n = ''state'' then ''State'' else if n = ''decisions'' then ''Decisions'' else [])"

definition flush_section :: "string \<Rightarrow> string list \<Rightarrow> (string \<Rightarrow> string option) \<Rightarrow> (string \<Rightarrow> string option)" where
  "flush_section current body secs =
     (if current = [] then secs else secs(current \<mapsto> trim_space (join [newline] body)))"

definition heading_of :: "string \<Rightarrow> string" where
  "heading_of line = (let t = trim_space line
     in if has_prefix t ''## '' then canonical_section (trim_space (trim_prefix t ''## '')) else [])"

fun parse_lines :: "string list \<Rightarrow> string \<Rightarrow> string list \<Rightarrow> (string \<Rightarrow> string option) \<Rightarrow> (string \<Rightarrow> string option)" where
  "parse_lines [] current body secs = flush_section current body secs"
| "parse_lines (line # lines) current body secs =
     (if heading_of line \<noteq> [] then parse_lines lines (heading_of line) [] (flush_section current body secs)
      else parse_lines lines current (if current \<noteq> [] then body @ [line] else body) secs)"

definition parse_sections :: "string \<Rightarrow> (string \<Rightarrow> string option)" where
  "parse_sections raw =
     parse_lines (split_on newline (replace_all raw [CHR 0x0D, newline] [newline])) [] [] (\<lambda>_. None)"

definition section_text :: "(string \<Rightarrow> string option) \<Rightarrow> string \<Rightarrow> string" where
  "section_text secs name = (let c = trim_space (case secs name of None \<Rightarrow> [] | Some s \<Rightarrow> s)
     in ''## '' @ name @ [newline] @ (if c = [] then ''None.'' else c))"

definition normalize_summary :: "string \<Rightarrow> message list \<Rightarrow> string" where
  "normalize_summary raw history =
     (let secs = (parse_sections raw)(''Files'' \<mapsto> normalize_files_section history)
      in join [newline, newline] (map (section_text secs) [''Goals'', ''Files'', ''State'', ''Decisions'']))"

section \<open>The operation\<close>

definition trim_summarized :: "message list \<Rightarrow> summary option \<Rightarrow> message list" where
  "trim_summarized history latest = (case latest of None \<Rightarrow> history | Some s \<Rightarrow>
     if sm_message s = [] then history
     else filter (\<lambda>m. \<not> (ms_id m = [] \<or> ms_id m \<le> sm_message s)) history)"

definition trim_preserved_tail :: "message list \<Rightarrow> int \<Rightarrow> message list" where
  "trim_preserved_tail history preserve =
     (if preserve \<le> 0 then history
      else if int (length history) \<le> preserve then []
      else take (length history - nat preserve) history)"

definition template_messages :: "message list \<Rightarrow> template_message list" where
  "template_messages history = map (\<lambda>m. \<lparr>tm_id = ms_id m, tm_role = ms_role m,
     tm_content = ms_content m, tm_attachments = attachment_refs (ms_attachments m)\<rparr>) history"

definition summary_request :: "compactor \<Rightarrow> string \<Rightarrow> summary option \<Rightarrow> message list \<Rightarrow> request" where
  "summary_request co tid latest batch = \<lparr>rq_tenant = tid,
     rq_messages = [zero_message\<lparr>ms_role := RoleUser, ms_content := co_template co
        (case latest of None \<Rightarrow> [] | Some s \<Rightarrow> [s]) (template_messages batch)\<rparr>],
     rq_tools = [], rq_model = co_model co, rq_stream = False\<rparr>"

datatype compact_error = CompactDb db_error | CompactLlm llm_error

record 'w services =
  sv_convs :: convs
  sv_world :: world
  sv_llm :: llm
  sv_outside :: 'w

definition store_summary :: "string \<Rightarrow> string \<Rightarrow> string \<Rightarrow> message list \<Rightarrow> 'w services
    \<Rightarrow> (compact_error + unit) \<times> 'w services" where
  "store_summary tid conv raw batch s =
     (let (i, w1) = new_id (sv_world s);
          sm = \<lparr>sm_id = i, sm_tenant = tid, sm_conv = conv, sm_content = normalize_summary raw batch,
                sm_message = ms_id (last batch), sm_created_at = w_now w1\<rparr>
      in if_ok (save_summary tid sm w1)
           (\<lambda>e w2. (Inl (CompactDb e), s\<lparr>sv_world := w2\<rparr>)) (\<lambda>_ w2. (Inr (), s\<lparr>sv_world := w2\<rparr>)))"

definition compact :: "compactor \<Rightarrow> 'w providers \<Rightarrow> string list option \<Rightarrow> string \<Rightarrow> string \<Rightarrow> string
    \<Rightarrow> 'w services \<Rightarrow> (compact_error + unit) \<times> 'w services" where
  "compact co P holder tid conv latest_id s =
     if_ok (get_latest_summary tid conv (sv_world s)) (\<lambda>e w1. (Inl (CompactDb e), s\<lparr>sv_world := w1\<rparr>))
     (\<lambda>latest w1.
       let c1 = register_conversation tid conv (sv_convs s)
       in if_ok (get_history (\<lambda>_ rows. rows) conv 0 0 (Some latest_id) c1 w1)
         (\<lambda>e w2. (Inl (CompactDb e), s\<lparr>sv_convs := c1, sv_world := w2\<rparr>))
         (\<lambda>history w2.
           let batch = trim_preserved_tail (trim_summarized history latest) (co_preserve co);
               s2 = s\<lparr>sv_convs := c1, sv_world := w2\<rparr>
           in if batch = [] then (Inr (), s2)
              else (case complete P holder (summary_request co tid latest batch) (sv_llm s2) (sv_outside s2) of
                (Inl e, l, x) \<Rightarrow> (Inl (CompactLlm e), s2\<lparr>sv_llm := l, sv_outside := x\<rparr>)
              | (Inr resp, l, x) \<Rightarrow>
                  store_summary tid conv (rs_content resp) batch (s2\<lparr>sv_llm := l, sv_outside := x\<rparr>))))"

section \<open>Nothing is lost or summarised twice\<close>

definition boundary :: "summary option \<Rightarrow> string" where
  "boundary latest = (case latest of None \<Rightarrow> [] | Some s \<Rightarrow> sm_message s)"

lemma trim_summarized_eq: "trim_summarized h latest = trim_history_after_summary h (boundary latest)"
  by (simp add: trim_summarized_def trim_history_after_summary_def boundary_def split: option.splits)

text \<open>Identifiers grow along the history, as UUIDv7 identifiers do when messages are stored in order.\<close>

definition ids_grow :: "message list \<Rightarrow> bool" where
  "ids_grow ms \<longleftrightarrow> sorted_wrt (\<lambda>a b. ms_id a < ms_id b) ms \<and> (\<forall>m \<in> set ms. ms_id m \<noteq> [])"

lemma ids_grow_filter: "ids_grow ms \<Longrightarrow> ids_grow (filter P ms)"
  by (auto simp: ids_grow_def sorted_wrt_filter)

lemma ids_grow_prefix: "ids_grow ms \<Longrightarrow> \<exists>rest. ms = filter (\<lambda>m. ms_id m \<le> i) ms @ rest"
proof (induction ms)
  case (Cons m ms)
  have "ms_id m \<le> i \<or> filter (\<lambda>m. ms_id m \<le> i) ms = []"
    using Cons.prems by (auto simp: ids_grow_def filter_empty_conv dest: order.strict_trans2)
  with Cons show ?case by (auto simp: ids_grow_def)
qed simp

lemma trim_of_growing:
  "ids_grow ms \<Longrightarrow> trim_history_after_summary ms b = filter (\<lambda>m. b < ms_id m \<or> b = []) ms"
  by (auto simp: trim_history_after_summary_def ids_grow_def not_le intro!: filter_cong)

lemma trim_after_batch:
  assumes "ids_grow ms" "trim_history_after_summary ms b = batch @ rest" "batch \<noteq> []"
  shows "trim_history_after_summary ms (ms_id (last batch)) = rest"
proof -
  let ?T = "trim_history_after_summary ms b" and ?l = "ms_id (last batch)"
  have T: "?T = filter (\<lambda>m. b < ms_id m \<or> b = []) ms" by (rule trim_of_growing [OF assms(1)])
  then have grow: "ids_grow (batch @ rest)" using ids_grow_filter [OF assms(1)] assms(2) by simp
  have last: "last batch \<in> set ms" "?l \<noteq> []" "b < ?l \<or> b = []"
  proof -
    have "last batch \<in> set ?T" using assms(2,3) by simp
    then show "last batch \<in> set ms" "b < ?l \<or> b = []" using T by auto
    then show "?l \<noteq> []" using assms(1) by (auto simp: ids_grow_def)
  qed
  have "trim_history_after_summary ms ?l = filter (\<lambda>m. ?l < ms_id m) ?T"
    using trim_of_growing [OF assms(1), of ?l] last T by (auto intro!: filter_cong)
  also have "\<dots> = filter (\<lambda>m. ?l < ms_id m) batch @ filter (\<lambda>m. ?l < ms_id m) rest"
    by (simp add: assms(2))
  also have "filter (\<lambda>m. ?l < ms_id m) rest = rest"
    using grow assms(3) by (auto simp: ids_grow_def sorted_wrt_append filter_id_conv)
  also have "filter (\<lambda>m. ?l < ms_id m) batch = []"
  proof -
    obtain front where b: "batch = front @ [last batch]" using assms(3) by (metis append_butlast_last_id)
    have "sorted_wrt (\<lambda>a b. ms_id a < ms_id b) (front @ [last batch])"
      using grow b by (simp add: ids_grow_def sorted_wrt_append)
    then have "\<forall>m \<in> set (front @ [last batch]). ms_id m \<le> ?l" by (auto simp: sorted_wrt_append)
    then show ?thesis using b by (metis filter_False not_less)
  qed
  finally show ?thesis by simp
qed

lemma conversation_rows_up_to:
  "conversation_rows tid conv (Some i) d = filter (\<lambda>m. ms_id m \<le> i) (conversation_rows tid conv None d)"
  by (auto simp: conversation_rows_def filter_sort [symmetric] intro: filter_cong)

lemma trim_preserved_prefix: "\<exists>rest. h = trim_preserved_tail h k @ rest"
  by (auto simp: trim_preserved_tail_def) (metis append_take_drop_id)

lemma batch_prefix:
  assumes "ids_grow R" "batch = trim_preserved_tail (trim_history_after_summary (filter (\<lambda>m. ms_id m \<le> i) R) b) k"
  shows "\<exists>rest. trim_history_after_summary R b = batch @ rest"
proof -
  let ?T = "trim_history_after_summary R b"
  have T: "ids_grow ?T" using assms(1) ids_grow_filter trim_of_growing by metis
  have "trim_history_after_summary (filter (\<lambda>m. ms_id m \<le> i) R) b = filter (\<lambda>m. ms_id m \<le> i) ?T"
    by (auto simp: trim_history_after_summary_def conj_commute)
  with ids_grow_prefix [OF T, of i] trim_preserved_prefix assms(2) show ?thesis by (metis append.assoc)
qed

definition latest_summary :: "string \<Rightarrow> string \<Rightarrow> db \<Rightarrow> summary option" where
  "latest_summary tid conv d = (case rev (summaries_of tid conv d) of [] \<Rightarrow> None | s # _ \<Rightarrow> Some s)"

lemma store_summary_ok:
  assumes "store_summary tid conv raw batch s = (Inr (), s')"
  shows "\<exists>i t. w_db (sv_world s') = (w_db (sv_world s))\<lparr>d_summaries := d_summaries (w_db (sv_world s)) @
    [\<lparr>sm_id = i, sm_tenant = tid, sm_conv = conv, sm_content = normalize_summary raw batch,
      sm_message = ms_id (last batch), sm_created_at = t\<rparr>]\<rparr>"
  using assms
  by (auto simp: store_summary_def new_id_def save_summary_def Let_def if_ok_def db_exec_def
      split: if_splits sum.splits prod.splits) (intro exI, rule refl)

lemma compact_ok:
  assumes "compact co P holder tid conv L s = (Inr (), s')" "conv \<noteq> []"
  obtains (idle) "w_db (sv_world s') = w_db (sv_world s)"
  | (stored) batch resp l x i t where
      "batch = trim_preserved_tail (trim_summarized (conversation_rows tid conv (Some L) (w_db (sv_world s)))
         (latest_summary tid conv (w_db (sv_world s)))) (co_preserve co)"
      "batch \<noteq> []"
      "complete P holder (summary_request co tid (latest_summary tid conv (w_db (sv_world s))) batch)
         (sv_llm s) (sv_outside s) = (Inr resp, l, x)"
      "w_db (sv_world s') = (w_db (sv_world s))\<lparr>d_summaries := d_summaries (w_db (sv_world s)) @
        [\<lparr>sm_id = i, sm_tenant = tid, sm_conv = conv, sm_content = normalize_summary (rs_content resp) batch,
          sm_message = ms_id (last batch), sm_created_at = t\<rparr>]\<rparr>"
proof -
  let ?d = "w_db (sv_world s)" and ?c = "register_conversation tid conv (sv_convs s)"
  obtain latest w1 where q: "get_latest_summary tid conv (sv_world s) = (Inr latest, w1)"
    using assms(1) by (auto simp: compact_def if_ok_def split: sum.splits prod.splits)
  have latest: "latest = latest_summary tid conv ?d" "w_db w1 = ?d"
    using q by (auto simp: get_latest_summary_def latest_summary_def db_query_def Let_def split: if_splits)
  obtain h w2 where g: "get_history (\<lambda>_ rows. rows) conv 0 0 (Some L) ?c w1 = (Inr h, w2)"
    using assms(1) q by (auto simp: compact_def if_ok_def Let_def split: sum.splits prod.splits)
  have rows: "h = conversation_rows tid conv (Some L) ?d" "w_db w2 = ?d"
    using fetch_full_history_rows [of conv "Some L" ?c w1 h w2 tid] g assms(2) latest(2)
    by (auto simp: fetch_full_history_def register_conversation_def)
  define batch where "batch = trim_preserved_tail (trim_summarized h latest) (co_preserve co)"
  define s2 where "s2 = s\<lparr>sv_convs := ?c, sv_world := w2\<rparr>"
  have run: "(if batch = [] then (Inr (), s2)
      else (case complete P holder (summary_request co tid latest batch) (sv_llm s2) (sv_outside s2) of
        (Inl e, l, x) \<Rightarrow> (Inl (CompactLlm e), s2\<lparr>sv_llm := l, sv_outside := x\<rparr>)
      | (Inr resp, l, x) \<Rightarrow>
          store_summary tid conv (rs_content resp) batch (s2\<lparr>sv_llm := l, sv_outside := x\<rparr>))) = (Inr (), s')"
    using assms(1) unfolding compact_def q if_ok_simps Let_def g batch_def s2_def .
  show ?thesis
  proof (cases "batch = []")
    case True
    with run rows have "w_db (sv_world s') = ?d" by (auto simp: s2_def)
    then show ?thesis by (rule idle)
  next
    case False
    obtain resp l x where c: "complete P holder (summary_request co tid latest batch) (sv_llm s2) (sv_outside s2)
        = (Inr resp, l, x)"
      using run False by (auto split: sum.splits prod.splits)
    with run False have "store_summary tid conv (rs_content resp) batch (s2\<lparr>sv_llm := l, sv_outside := x\<rparr>)
        = (Inr (), s')" by simp
    from store_summary_ok [OF this] stored [OF _ False] c rows latest show ?thesis
      by (auto simp: batch_def s2_def)
  qed
qed


text \<open>
  The Files section of a summary lists the attachments of its own batch only: when the
  batch has none, the files that the previous summary listed are gone.
\<close>

theorem compaction_forgets_files:
  assumes run: "compact co P holder tid conv L s = (Inr (), s')" and "conv \<noteq> []"
    and bare: "\<forall>m \<in> set (conversation_rows tid conv (Some L) (w_db (sv_world s))). ms_attachments m = []"
    and wrote: "w_db (sv_world s') \<noteq> w_db (sv_world s)"
  shows "\<exists>sm goals state decisions.
    d_summaries (w_db (sv_world s')) = d_summaries (w_db (sv_world s)) @ [sm]
    \<and> sm_content sm = join [newline, newline]
        [goals, ''## Files'' @ [newline] @ ''None.'', state, decisions]"
  using run \<open>conv \<noteq> []\<close>
proof (cases rule: compact_ok)
  case idle
  with wrote show ?thesis by simp
next
  case (stored batch resp l x i t)
  have "set batch \<subseteq> set (conversation_rows tid conv (Some L) (w_db (sv_world s)))"
    unfolding stored(1) by (auto simp: trim_preserved_tail_def trim_summarized_def
        dest!: in_set_takeD split: if_splits option.splits)
  with bare have "concat (map (\<lambda>m. attachment_refs (ms_attachments m)) batch) = []"
    by (auto simp: attachment_refs_def)
  then have "normalize_files_section batch = ''None.''"
    unfolding normalize_files_section_def by (simp only: first_seen.simps Let_def if_True simp_thms)
  then have "section_text ((parse_sections (rs_content resp))(''Files'' \<mapsto> normalize_files_section batch)) ''Files''
      = ''## Files'' @ [newline] @ ''None.''"
    by (simp add: section_text_def) code_simp
  then show ?thesis unfolding stored(4) normalize_summary_def Let_def list.map by auto
qed

section \<open>Examples\<close>

text \<open>The conversation of three messages, all but the last compacted; a model that answers.\<close>

definition demo_compactor :: compactor where
  "demo_compactor = \<lparr>co_model = ''b:n'', co_preserve = 1, co_template = (\<lambda>_ _. ''Summarise'')\<rparr>"

definition demo_summary :: summary where
  "demo_summary = \<lparr>sm_id = ''s0'', sm_tenant = ''t1'', sm_conv = ''v1'',
     sm_content = ''## Files'' @ [newline] @ ''- a.pdf: report'', sm_message = ''m0'', sm_created_at = 0\<rparr>"

definition demo_services :: "string list services" where
  "demo_services = \<lparr>sv_convs = demo_convs,
     sv_world = demo_lines\<lparr>w_db := (w_db demo_lines)\<lparr>d_summaries := [demo_summary]\<rparr>\<rparr>,
     sv_llm = demo_llm, sv_outside = []\<rparr>"

lemma demo_compaction:
  "fst (compact demo_compactor demo_providers None ''t1'' ''v1'' ''m3'' demo_services) = Inr ()"
  "map sm_message (d_summaries (w_db (sv_world (snd
     (compact demo_compactor demo_providers None ''t1'' ''v1'' ''m3'' demo_services))))) = [''m0'', ''m2'']"
  by code_simp+

lemma demo_rows:
  "map ms_id (conversation_rows ''t1'' ''v1'' None (w_db (sv_world demo_services))) = [''m1'', ''m2'', ''m3'']"
  by code_simp

lemma demo_rows_grow: "ids_grow (conversation_rows ''t1'' ''v1'' None (w_db (sv_world demo_services)))"
proof -
  have "sorted_wrt (<) (map ms_id (conversation_rows ''t1'' ''v1'' None (w_db (sv_world demo_services))))"
    "[] \<notin> set (map ms_id (conversation_rows ''t1'' ''v1'' None (w_db (sv_world demo_services))))"
    unfolding demo_rows by code_simp+
  then show ?thesis unfolding ids_grow_def sorted_wrt_map set_map by (metis image_eqI)
qed


theorem compaction_forgets_files_witness:
  "\<exists>s' sm. compact demo_compactor demo_providers None ''t1'' ''v1'' ''m3'' demo_services = (Inr (), s')
     \<and> d_summaries (w_db (sv_world s')) = [demo_summary, sm]
     \<and> (\<exists>goals state decisions. sm_content sm = join [newline, newline]
          [goals, ''## Files'' @ [newline] @ ''None.'', state, decisions])"
proof -
  let ?c = "compact demo_compactor demo_providers None ''t1'' ''v1'' ''m3'' demo_services"
  obtain s' where c: "?c = (Inr (), s')" using demo_compaction(1) by (cases ?c) simp
  have d: "d_summaries (w_db (sv_world demo_services)) = [demo_summary]"
    by (simp add: demo_services_def)
  have ne: "w_db (sv_world s') \<noteq> w_db (sv_world demo_services)"
    using demo_compaction(2) d by (auto simp: c)
  have "list_all (\<lambda>m. ms_attachments m = []) (conversation_rows ''t1'' ''v1'' (Some ''m3'') (w_db (sv_world demo_services)))"
    by code_simp
  then have "\<forall>m \<in> set (conversation_rows ''t1'' ''v1'' (Some ''m3'') (w_db (sv_world demo_services))).
      ms_attachments m = []" by (simp add: list_all_iff)
  from compaction_forgets_files [OF c _ this ne] d c show ?thesis by auto
qed

text \<open>
  The cut of a compaction can fall between a tool call and its result: the prompt then
  starts with a result whose call it no longer shows.
\<close>

theorem compaction_splits_tool_call:
  "let turn = map (\<lambda>(i, m). m\<lparr>ms_id := i\<rparr>) (zip [''m1'', ''m2'', ''m3'', ''m4''] demo_turn);
       batch = trim_preserved_tail (trim_summarized turn None) 2;
       shown = window_history (trim_history_after_summary turn (ms_id (last batch))) 1000
   in map length (group_messages turn) = [1, 2, 1]
     \<and> map ms_role shown = [RoleTool, RoleAssistant] \<and> list_all (\<lambda>m. ms_tool_calls m = []) shown"
  by code_simp

end
