(* ===== verification/Agent_Loop.thy ===== *)
theory Agent_Loop
  imports Compaction Secrets Sanitize Bus
begin

text \<open>
  One turn of the agent, \<open>internal/domain/service/loop/loop.go\<close>: load what the message refers
  to, then ask the model and run the tools it calls, at most \<open>MaxIterations\<close> times, and
  publish one answer. Tools are parameters that may change the whole state; the files a turn
  leaves in its outbox, the model override holder and the sandbox belong to the outside world.
  The typing indicator and the log lines are left out.
\<close>

section \<open>State and parameters\<close>

record ('h, 'w) loop_state =
  al_services :: "'w services"
  al_cache :: "string \<Rightarrow> user option"
  al_bus :: "'h bus"
  al_compacting :: "string set"
  al_spawned :: "(string \<times> string \<times> string) list"

abbreviation al_world :: "('h, 'w) loop_state \<Rightarrow> world" where
  "al_world s \<equiv> sv_world (al_services s)"

definition with_world :: "world \<Rightarrow> ('h, 'w) loop_state \<Rightarrow> ('h, 'w) loop_state" where
  "with_world w s = s\<lparr>al_services := (al_services s)\<lparr>sv_world := w\<rparr>\<rparr>"

record tool_context =
  tx_tenant :: string
  tx_agent :: string
  tx_user :: string
  tx_chat :: string
  tx_is_group :: bool
  tx_message :: string
  tx_conv :: string

text \<open>
  \<open>lc_order\<close> is the order in which the goroutines of one batch of tool calls take effect;
  \<open>lc_harvest\<close> the files found in the outbox, none when there is no sandbox or it fails.
\<close>

record ('h, 'w) loop_config =
  lc_max_iterations :: int
  lc_builder :: builder
  lc_providers :: "'w providers"
  lc_holder :: "'w \<Rightarrow> string list"
  lc_tool :: "string \<Rightarrow> (tool_context \<Rightarrow> string \<Rightarrow> ('h, 'w) loop_state
      \<Rightarrow> (string + string) \<times> ('h, 'w) loop_state) option"
  lc_order :: "nat list \<Rightarrow> nat list"
  lc_cipher :: cipher
  lc_redact :: bool
  lc_shuffle :: "string list \<Rightarrow> string list"
  lc_channels :: "string \<Rightarrow> capabilities option"
  lc_compaction :: bool
  lc_out_path :: "string \<Rightarrow> string \<Rightarrow> string"
  lc_harvest :: "string \<Rightarrow> string \<Rightarrow> 'w \<Rightarrow> attachment list \<times> 'w"

record turn =
  tu_tenant :: tenant
  tu_agent :: agent
  tu_user :: "user option"
  tu_inbound :: message
  tu_conv :: string
  tu_caps :: capabilities
  tu_out :: string

section \<open>Answers\<close>

definition make_reply :: "message \<Rightarrow> role \<Rightarrow> ('h, 'w) loop_state \<Rightarrow> message \<times> ('h, 'w) loop_state" where
  "make_reply m r s = (let (i, w) = new_id (al_world s)
     in (new_reply m i r (w_now w), with_world w s))"

definition publish_out :: "message \<Rightarrow> ('h, 'w) loop_state \<Rightarrow> (bus_error + unit) \<times> ('h, 'w) loop_state" where
  "publish_out m s = (let (r, b) = publish TopicOutbound m (al_bus s) in (r, s\<lparr>al_bus := b\<rparr>))"

definition publish_response :: "message \<Rightarrow> string \<Rightarrow> ('h, 'w) loop_state
    \<Rightarrow> (bus_error + unit) \<times> ('h, 'w) loop_state" where
  "publish_response m content s =
     (let (r, s1) = make_reply m RoleAssistant s
      in publish_out (r\<lparr>ms_agent := ms_agent m, ms_content := content, ms_kind := KindMessage\<rparr>) s1)"

text \<open>\<open>logError\<close>: a failure to write the entry is only logged.\<close>

definition log_error :: "message \<Rightarrow> string \<Rightarrow> ('h, 'w) loop_state \<Rightarrow> ('h, 'w) loop_state" where
  "log_error m what s = with_world (snd (append_error_log (ms_tenant m)
     \<lparr>el_id = [], el_tenant = [], el_user = ms_user m, el_ref_type = ''message'',
      el_ref_id = ms_id m, el_content = what, el_created_at = zero_time\<rparr> (al_world s))) s"

fun llm_error_text :: "llm_error \<Rightarrow> string" where
  "llm_error_text (Exhausted n) = ''all LLM providers exhausted: tried '' @ show_int (int n)
     @ '' endpoints, all failed or cooled down''"
| "llm_error_text (CtxCancelled e m) = ''context cancelled during LLM call to '' @ e @ '':'' @ m"

definition limit_content :: "string \<Rightarrow> string" where
  "limit_content last_content = (if last_content = []
     then ''I was unable to complete your request. [Processing limit reached]''
     else last_content @ [newline, newline] @ ''[Processing limit reached]'')"

section \<open>Tools\<close>

definition redact_text :: "('h, 'w) loop_config \<Rightarrow> string \<Rightarrow> string \<Rightarrow> string \<Rightarrow> ('h, 'w) loop_state
    \<Rightarrow> string \<times> ('h, 'w) loop_state" where
  "redact_text C t tid uid s =
     (let (out, w) = redact (lc_shuffle C) (lc_cipher C) (lc_redact C) t tid uid (al_world s)
      in (out, with_world w s))"

definition tool_context_of :: "message \<Rightarrow> string \<Rightarrow> tool_context" where
  "tool_context_of m conv = \<lparr>tx_tenant = ms_tenant m, tx_agent = ms_agent m, tx_user = ms_user m,
     tx_chat = ms_chat m, tx_is_group = ms_is_group m, tx_message = ms_id m, tx_conv = conv\<rparr>"

definition tool_result :: "message \<Rightarrow> tool_call \<Rightarrow> string \<Rightarrow> ('h, 'w) loop_state
    \<Rightarrow> message \<times> ('h, 'w) loop_state" where
  "tool_result m call content s =
     (let (r, s1) = make_reply m RoleTool s
      in (r\<lparr>ms_content := content, ms_tool_call_id := tc_id call, ms_tool_name := tc_name call\<rparr>, s1))"

text \<open>The body of one goroutine.\<close>

definition run_tool :: "('h, 'w) loop_config \<Rightarrow> message \<Rightarrow> string \<Rightarrow> tool_call \<Rightarrow> ('h, 'w) loop_state
    \<Rightarrow> message \<times> ('h, 'w) loop_state" where
  "run_tool C m conv call s = (case lc_tool C (tc_name call) of
       None \<Rightarrow> tool_result m call (''Unknown tool: '' @ tc_name call) s
     | Some f \<Rightarrow>
         let args = (if tc_arguments call = [] then ''{}'' else tc_arguments call);
             (r, s1) = f (tool_context_of m conv) args s;
             (out, s2) = redact_text C (case r of Inl e \<Rightarrow> ''Tool error: '' @ e | Inr t \<Rightarrow> t)
               (ms_tenant m) (ms_user m) s1
         in tool_result m call out s2)"

text \<open>Each goroutine writes the slot of its own index.\<close>

fun run_slots :: "('h, 'w) loop_config \<Rightarrow> message \<Rightarrow> string \<Rightarrow> tool_call list \<Rightarrow> nat list \<Rightarrow> message list
    \<Rightarrow> ('h, 'w) loop_state \<Rightarrow> message list \<times> ('h, 'w) loop_state" where
  "run_slots C m conv calls [] slots s = (slots, s)"
| "run_slots C m conv calls (i # is) slots s =
     (let (r, s1) = run_tool C m conv (calls ! i) s
      in run_slots C m conv calls is (slots[i := r]) s1)"

definition execute_tools :: "('h, 'w) loop_config \<Rightarrow> message \<Rightarrow> tool_call list \<Rightarrow> string \<Rightarrow> ('h, 'w) loop_state
    \<Rightarrow> message list \<times> ('h, 'w) loop_state" where
  "execute_tools C m calls conv s =
     run_slots C m conv calls (lc_order C [0..<length calls]) (replicate (length calls) zero_message) s"

fun append_results :: "string \<Rightarrow> string \<Rightarrow> message list \<Rightarrow> ('h, 'w) loop_state \<Rightarrow> bool \<times> ('h, 'w) loop_state" where
  "append_results aid conv [] s = (True, s)"
| "append_results aid conv (r # rs) s =
     if_ok (append_message conv (r\<lparr>ms_agent := aid\<rparr>) (al_world s)) (\<lambda>_ w. (False, with_world w s))
       (\<lambda>_ w. append_results aid conv rs (with_world w s))"

section \<open>The ReAct loop\<close>

text \<open>One background compaction per conversation, started at most once per turn.\<close>

definition start_compaction :: "('h, 'w) loop_config \<Rightarrow> turn \<Rightarrow> bool \<Rightarrow> string option \<Rightarrow> ('h, 'w) loop_state
    \<Rightarrow> bool \<times> ('h, 'w) loop_state" where
  "start_compaction C T triggered signal s = (case signal of
       None \<Rightarrow> (triggered, s)
     | Some latest \<Rightarrow>
         if triggered \<or> \<not> lc_compaction C then (triggered, s)
         else if tu_conv T \<in> al_compacting s then (True, s)
         else (True, s\<lparr>al_compacting := insert (tu_conv T) (al_compacting s),
                 al_spawned := al_spawned s @ [(ms_tenant (tu_inbound T), tu_conv T, latest)]\<rparr>))"

definition build_prompt :: "('h, 'w) loop_config \<Rightarrow> turn \<Rightarrow> bool \<Rightarrow> ('h, 'w) loop_state
    \<Rightarrow> (db_error + message list \<times> string option) \<times> ('h, 'w) loop_state" where
  "build_prompt C T first s =
     (let m = tu_inbound T;
          (r, u) = build (lc_builder C) (Some (tu_tenant T)) (Some (tu_agent T)) (tu_user T) m
            (tu_conv T) (tu_caps T) (if first then Some (ms_id m) else None)
            (lc_out_path C (ms_user m) (tu_out T)) (sv_convs (al_services s))
            \<lparr>ur_cache = al_cache s, ur_world = al_world s\<rparr>
      in (r, (with_world (ur_world u) s)\<lparr>al_cache := ur_cache u\<rparr>))"

definition ask_model :: "('h, 'w) loop_config \<Rightarrow> turn \<Rightarrow> message list \<Rightarrow> ('h, 'w) loop_state
    \<Rightarrow> (llm_error + response) \<times> ('h, 'w) loop_state" where
  "ask_model C T msgs s =
     (let v = al_services s;
          (r, l, x) = complete (lc_providers C) (Some (lc_holder C (sv_outside v)))
            \<lparr>rq_tenant = ms_tenant (tu_inbound T), rq_messages = msgs,
             rq_tools = filtered_tool_defs (pb_tools (lc_builder C)) (Some (tu_tenant T)) (tu_caps T),
             rq_model = [], rq_stream = False\<rparr> (sv_llm v) (sv_outside v)
      in (r, s\<lparr>al_services := v\<lparr>sv_llm := l, sv_outside := x\<rparr>\<rparr>))"

definition final_answer :: "('h, 'w) loop_config \<Rightarrow> turn \<Rightarrow> message \<Rightarrow> ('h, 'w) loop_state
    \<Rightarrow> (bus_error + unit) \<times> ('h, 'w) loop_state" where
  "final_answer C T a s =
     (let (content, s1) = redact_text C (ms_content a) (ms_tenant (tu_inbound T)) (ms_user (tu_inbound T)) s;
          (files, x) = lc_harvest C (tu_conv T) (ms_id a) (sv_outside (al_services s1));
          s2 = s1\<lparr>al_services := (al_services s1)\<lparr>sv_outside := x\<rparr>\<rparr>
      in publish_out (a\<lparr>ms_content := content, ms_kind := KindMessage,
           ms_attachments := (if files = [] then ms_attachments a else files)\<rparr>) s2)"

fun react :: "('h, 'w) loop_config \<Rightarrow> turn \<Rightarrow> nat \<Rightarrow> bool \<Rightarrow> bool \<Rightarrow> string \<Rightarrow> ('h, 'w) loop_state
    \<Rightarrow> (bus_error + unit) \<times> ('h, 'w) loop_state" where
  "react C T 0 first triggered last_content s =
     publish_response (tu_inbound T) (limit_content last_content)
       (log_error (tu_inbound T) ''Max iterations reached'' s)"
| "react C T (Suc n) first triggered last_content s =
     if_ok (build_prompt C T first s) (\<lambda>_ s1. publish_response (tu_inbound T) ''Internal error.'' s1)
     (\<lambda>(msgs, signal) s1.
       let (triggered', s2) = start_compaction C T triggered signal s1;
           (answer, s3) = ask_model C T msgs s2
       in if pv_cancelled (lc_providers C) (sv_outside (al_services s3)) then
            publish_response (tu_inbound T) (limit_content last_content)
              (log_error (tu_inbound T) ''Turn timed out'' s3)
          else case answer of
            Inl e \<Rightarrow> publish_response (tu_inbound T) ''I encountered an error processing your request.''
                (log_error (tu_inbound T) (''LLM error: '' @ llm_error_text e) s3)
          | Inr resp \<Rightarrow>
              let (r, s4) = make_reply (tu_inbound T) RoleAssistant s3;
                  a = r\<lparr>ms_agent := ag_id (tu_agent T), ms_content := sanitize_response (rs_content resp),
                        ms_tool_calls := rs_tool_calls resp\<rparr>
              in if_ok (append_message (tu_conv T) a (al_world s4))
                (\<lambda>_ w. publish_response (tu_inbound T) ''Internal error: unable to save response.'' (with_world w s4))
                (\<lambda>_ w.
                  let s5 = with_world w s4
                  in if rs_tool_calls resp = [] then final_answer C T a s5
                     else let (results, s6) = execute_tools C (tu_inbound T) (rs_tool_calls resp) (tu_conv T) s5;
                              (saved, s7) = append_results (ag_id (tu_agent T)) (tu_conv T) results s6
                          in if saved then react C T n False triggered' (ms_content a) s7
                             else publish_response (tu_inbound T) ''Internal error: unable to save tool result.'' s7))"

section \<open>A turn\<close>

definition load_agent :: "tenant \<Rightarrow> message \<Rightarrow> world \<Rightarrow> agent option \<times> world" where
  "load_agent t m w =
     (let aid = (if ms_agent m \<noteq> [] then ms_agent m else tn_default_agent t)
      in if aid = [] then (None, w)
         else if_ok (get_agent (ms_tenant m) aid w) (\<lambda>_ w1. (None, w1)) (\<lambda>a w1. (a, w1)))"

definition load_user :: "message \<Rightarrow> world \<Rightarrow> user option \<times> world" where
  "load_user m w = (if \<not> ms_is_group m \<and> ms_user m \<noteq> []
     then if_ok (get_user (ms_tenant m) (ms_user m) w) (\<lambda>_ w1. (None, w1)) (\<lambda>u w1. (u, w1))
     else (None, w))"

definition load_caps :: "('h, 'w) loop_config \<Rightarrow> message \<Rightarrow> world \<Rightarrow> capabilities \<times> world" where
  "load_caps C m w =
     (let none = \<lparr>cap_indication = False, cap_reactions = False\<rparr>
      in if ms_chat m = [] then (none, w)
         else if_ok (get_chat (ms_tenant m) (ms_chat m) w) (\<lambda>_ w1. (none, w1)) (\<lambda>c w1.
           (case Option.bind c (\<lambda>c. lc_channels C (ch_channel c)) of None \<Rightarrow> none | Some caps \<Rightarrow> caps, w1)))"

definition load_conversation :: "message \<Rightarrow> convs \<times> world \<Rightarrow> (db_error + string) \<times> convs \<times> world" where
  "load_conversation m = (\<lambda>(c, w).
     if ms_conv m \<noteq> [] then (Inr (ms_conv m), register_conversation (ms_tenant m) (ms_conv m) c, w)
     else resolve_conversation m (c, w))"

text \<open>What \<open>runTurn\<close> does once tenant and agent are known: user, conversation, history, channel.\<close>

definition start_turn :: "('h, 'w) loop_config \<Rightarrow> tenant \<Rightarrow> agent \<Rightarrow> message \<Rightarrow> ('h, 'w) loop_state
    \<Rightarrow> (bus_error + unit) \<times> ('h, 'w) loop_state" where
  "start_turn C t a m s =
     (let (u, w1) = load_user m (al_world s)
      in if_ok (load_conversation m (sv_convs (al_services s), w1))
        (\<lambda>_ (c, w2). publish_response m ''Internal error: unable to resolve conversation.''
          (s\<lparr>al_services := (al_services s)\<lparr>sv_convs := c, sv_world := w2\<rparr>\<rparr>))
        (\<lambda>conv (c, w2).
          let s2 = s\<lparr>al_services := (al_services s)\<lparr>sv_convs := c, sv_world := w2\<rparr>\<rparr>
          in if_ok (append_message conv m w2)
            (\<lambda>_ w3. publish_response m ''Internal error: unable to save message.'' (with_world w3 s2))
            (\<lambda>_ w3.
              let (caps, w4) = load_caps C m w3;
                  (out, w5) = new_id w4
              in react C \<lparr>tu_tenant = t, tu_agent = a, tu_user = u, tu_inbound = m, tu_conv = conv,
                   tu_caps = caps, tu_out = out\<rparr> (nat (lc_max_iterations C)) True False [] (with_world w5 s2))))"

definition run_turn :: "('h, 'w) loop_config \<Rightarrow> message \<Rightarrow> ('h, 'w) loop_state
    \<Rightarrow> (bus_error + unit) \<times> ('h, 'w) loop_state" where
  "run_turn C m s =
     if_ok (get_tenant (ms_tenant m) (al_world s))
       (\<lambda>_ w. publish_response m ''Internal error: unable to load tenant configuration.'' (with_world w s))
       (\<lambda>t w. case t of
          None \<Rightarrow> publish_response m ''Internal error: tenant not found.'' (with_world w s)
        | Some t \<Rightarrow> (case load_agent t m w of
            (None, w1) \<Rightarrow> publish_response m ''Configuration error: no agent configured for this tenant.'' (with_world w1 s)
          | (Some a, w1) \<Rightarrow> start_turn C t a (m\<lparr>ms_agent := ag_id a\<rparr>) (with_world w1 s)))"

end
