(* ===== verification/Agent_Turn.thy ===== *)
theory Agent_Turn
  imports Agent_Loop
begin

text \<open>
  What a turn of the agent loop guarantees: the results of a batch of tool calls are in call
  order whatever order the tools finish in, every path publishes at most one answer, to the
  chat it came from, and what it adds to the history keeps each call next to its results.
\<close>

section \<open>Results in call order\<close>

lemma make_reply_fields:
  assumes "make_reply m r s = (a, s')"
  shows "ms_role a = r" "ms_chat a = ms_chat m" "ms_tenant a = ms_tenant m" "ms_caused_by a = ms_id m"
    "ms_kind a = KindUnset" "ms_ext_message a = []" "ms_tool_calls a = []" "al_bus s' = al_bus s"
    "ms_id a = w_ids (al_world s) (w_drawn (al_world s))"
    "al_world s' = (al_world s)\<lparr>w_drawn := Suc (w_drawn (al_world s))\<rparr>"
  using assms by (auto simp: make_reply_def new_id_def new_reply_def zero_message_def with_world_def Let_def)

definition answers_call :: "message \<Rightarrow> tool_call \<Rightarrow> message \<Rightarrow> bool" where
  "answers_call m call r \<longleftrightarrow> ms_role r = RoleTool \<and> ms_tool_call_id r = tc_id call
     \<and> ms_tool_name r = tc_name call \<and> ms_chat r = ms_chat m \<and> ms_tenant r = ms_tenant m"

lemma tool_result_answers: "answers_call m call (fst (tool_result m call content s))"
proof -
  obtain r s1 where r: "make_reply m RoleTool s = (r, s1)" by fastforce
  show ?thesis using make_reply_fields [OF r] by (simp add: tool_result_def r answers_call_def)
qed

lemma run_tool_answers: "answers_call m call (fst (run_tool C m conv call s))"
  by (auto simp: run_tool_def tool_result_answers Let_def split: option.splits prod.splits)

lemma run_slots_answers:
  assumes "run_slots C m conv calls is slots s = (rs, s')" "length slots = length calls"
    and "\<forall>i < length calls. i \<notin> set is \<longrightarrow> answers_call m (calls ! i) (slots ! i)"
  shows "length rs = length calls \<and> (\<forall>i < length calls. answers_call m (calls ! i) (rs ! i))"
  using assms
proof (induction "is" arbitrary: slots s)
  case (Cons i "is")
  obtain r s1 where r: "run_tool C m conv (calls ! i) s = (r, s1)" by fastforce
  have "answers_call m (calls ! i) r" using run_tool_answers [of m "calls ! i" C conv s] r by simp
  with Cons.prems r show ?case
    by (intro Cons.IH [of "slots[i := r]" s1]) (auto, metis nth_list_update_eq nth_list_update_neq)
qed simp

text \<open>
  However the goroutines of a batch interleave, the results come back one per call, in
  the order of the calls, each with the identifier and the name of its call.
\<close>

theorem tool_results_in_call_order:
  assumes "set (lc_order C [0..<length calls]) = {0..<length calls}"
    and "execute_tools C m calls conv s = (rs, s')"
  shows "map ms_tool_call_id rs = map tc_id calls \<and> map ms_tool_name rs = map tc_name calls
    \<and> (\<forall>r \<in> set rs. ms_role r = RoleTool \<and> ms_chat r = ms_chat m \<and> ms_tenant r = ms_tenant m)"
proof -
  have "length rs = length calls \<and> (\<forall>i < length calls. answers_call m (calls ! i) (rs ! i))"
    by (rule run_slots_answers [OF assms(2) [unfolded execute_tools_def]]) (use assms(1) in auto)
  then show ?thesis by (auto simp: answers_call_def in_set_conv_nth intro!: nth_equalityI)
qed

section \<open>One answer per turn\<close>

text \<open>Tools that publish nothing themselves (the message tool does).\<close>

definition quiet_tools :: "('h, 'w) loop_config \<Rightarrow> bool" where
  "quiet_tools C \<longleftrightarrow> (\<forall>name f tc args s. lc_tool C name = Some f \<longrightarrow> al_bus (snd (f tc args s)) = al_bus s)"

text \<open>The outcome of a turn for \<open>m\<close> on a bus: nothing published and an error, or one answer.\<close>

definition answered :: "message \<Rightarrow> 'h bus \<Rightarrow> (bus_error + unit) \<times> ('h, 'w) loop_state \<Rightarrow> bool" where
  "answered m b out \<longleftrightarrow> (case out of
       (Inl e, s') \<Rightarrow> al_bus s' = b
     | (Inr _, s') \<Rightarrow> \<exists>a q. ms_role a = RoleAssistant \<and> ms_kind a = KindMessage \<and> ms_chat a = ms_chat m
         \<and> ms_tenant a = ms_tenant m \<and> ms_caused_by a = ms_id m \<and> b_queue b TopicOutbound = Some q
         \<and> al_bus s' = b\<lparr>b_queue := (b_queue b)(TopicOutbound \<mapsto> q @ [a])\<rparr>)"

named_theorems bus_frame \<open>steps of a turn that leave the bus alone\<close>

lemma with_world_bus [bus_frame]: "al_bus (with_world w s) = al_bus s"
  by (simp add: with_world_def)

lemma log_error_bus [bus_frame]: "al_bus (log_error m t s) = al_bus s"
  by (simp add: log_error_def bus_frame)

lemma services_bus [bus_frame]: "al_bus (s\<lparr>al_services := v\<rparr>) = al_bus s"
  by simp

lemma redact_bus [bus_frame]: "al_bus (snd (redact_text C t tid uid s)) = al_bus s"
  by (simp add: redact_text_def bus_frame split: prod.splits)

lemma tool_result_bus [bus_frame]: "al_bus (snd (tool_result m call t s)) = al_bus s"
  using make_reply_fields(8) by (fastforce simp: tool_result_def split: prod.splits)

lemma run_tool_bus:
  assumes "quiet_tools C"
  shows "al_bus (snd (run_tool C m conv call s)) = al_bus s"
proof (cases "lc_tool C (tc_name call)")
  case (Some f)
  let ?args = "if tc_arguments call = [] then ''{}'' else tc_arguments call"
  obtain r s1 where f: "f (tool_context_of m conv) ?args s = (r, s1)" by fastforce
  let ?t = "case r of Inl e \<Rightarrow> ''Tool error: '' @ e | Inr t \<Rightarrow> t"
  obtain out s2 where o: "redact_text C ?t (ms_tenant m) (ms_user m) s1 = (out, s2)" by fastforce
  have "al_bus (snd (f (tool_context_of m conv) ?args s)) = al_bus s"
    using assms Some unfolding quiet_tools_def by blast
  moreover have "al_bus s2 = al_bus s1" using redact_bus [of C ?t "ms_tenant m" "ms_user m" s1] o by simp
  moreover have "run_tool C m conv call s = tool_result m call out s2"
    by (simp only: run_tool_def Some option.case Let_def f o prod.case)
  ultimately show ?thesis using f by (simp add: tool_result_bus)
qed (simp add: run_tool_def tool_result_bus)

lemma run_slots_bus: "quiet_tools C \<Longrightarrow> al_bus (snd (run_slots C m conv calls is slots s)) = al_bus s"
proof (induction "is" arbitrary: slots s)
  case (Cons i "is")
  then show ?case using run_tool_bus [OF Cons.prems, of m conv "calls ! i" s]
    by (auto split: prod.splits)
qed simp

lemma append_results_bus [bus_frame]: "al_bus (snd (append_results aid conv rs s)) = al_bus s"
  by (induction rs arbitrary: s) (auto simp: if_ok_def bus_frame split: prod.splits sum.splits)

lemma start_compaction_bus [bus_frame]: "al_bus (snd (start_compaction C T tr sig s)) = al_bus s"
  by (auto simp: start_compaction_def split: option.splits)

lemma build_prompt_bus [bus_frame]: "al_bus (snd (build_prompt C T first s)) = al_bus s"
  by (simp add: build_prompt_def Let_def bus_frame split: prod.splits)

lemma ask_model_bus [bus_frame]: "al_bus (snd (ask_model C T msgs s)) = al_bus s"
  by (simp add: ask_model_def Let_def split: prod.splits)

lemma publish_out_answered:
  assumes "ms_role a = RoleAssistant" "ms_kind a = KindMessage" "ms_chat a = ms_chat m"
    "ms_tenant a = ms_tenant m" "ms_caused_by a = ms_id m" "al_bus s = b"
  shows "answered m b (publish_out a s)"
  using assms
  by (auto simp: answered_def publish_out_def publish_def Let_def split: option.splits prod.splits)

lemma publish_response_answered:
  assumes "al_bus s = b"
  shows "answered m b (publish_response m t s)"
proof -
  obtain r s1 where r: "make_reply m RoleAssistant s = (r, s1)" by fastforce
  show ?thesis
    unfolding publish_response_def r prod.case Let_def
    by (rule publish_out_answered) (use make_reply_fields [OF r] assms in auto)
qed

lemma final_answer_answered:
  assumes "ms_role a = RoleAssistant" "ms_chat a = ms_chat m"
    "ms_tenant a = ms_tenant m" "ms_caused_by a = ms_id m" "al_bus s = b"
  shows "answered m b (final_answer C T a s)"
proof -
  obtain content s1 where c: "redact_text C (ms_content a) (ms_tenant (tu_inbound T)) (ms_user (tu_inbound T)) s
      = (content, s1)" by fastforce
  obtain files x where f: "lc_harvest C (tu_conv T) (ms_id a) (sv_outside (al_services s1)) = (files, x)" by fastforce
  show ?thesis
    unfolding final_answer_def c f prod.case Let_def
    by (rule publish_out_answered)
      (use assms redact_bus [of C "ms_content a" "ms_tenant (tu_inbound T)" "ms_user (tu_inbound T)" s] c in auto)
qed

text \<open>
  Rounds of the loop: an invariant of the state, with the number of rounds left, that every
  step keeps, and what it gives for the outcome.
\<close>

lemma react_rule:
  assumes build: "\<And>n s first. Q n s \<Longrightarrow> Q n (snd (build_prompt C T first s))"
    and compaction: "\<And>n s tr sig. Q n s \<Longrightarrow> Q n (snd (start_compaction C T tr sig s))"
    and ask: "\<And>n s msgs. Q n s \<Longrightarrow> Q n (snd (ask_model C T msgs s))"
    and log: "\<And>n s t. Q n s \<Longrightarrow> Q n (log_error (tu_inbound T) t s)"
    and pub: "\<And>n s t. Q n s \<Longrightarrow> P (publish_response (tu_inbound T) t s)"
    and round: "\<And>n s (resp :: response) r s4 a q w. Q (Suc n) s \<Longrightarrow> make_reply (tu_inbound T) RoleAssistant s = (r, s4)
      \<Longrightarrow> a = r\<lparr>ms_agent := ag_id (tu_agent T), ms_content := sanitize_response (rs_content resp),
            ms_tool_calls := rs_tool_calls resp\<rparr>
      \<Longrightarrow> append_message (tu_conv T) a (al_world s4) = (q, w)
      \<Longrightarrow> case q of Inl _ \<Rightarrow> P (publish_response (tu_inbound T) ''Internal error: unable to save response.'' (with_world w s4))
        | Inr _ \<Rightarrow> if rs_tool_calls resp = [] then P (final_answer C T a (with_world w s4))
            else let (results, s6) = execute_tools C (tu_inbound T) (rs_tool_calls resp) (tu_conv T) (with_world w s4);
                     (saved, s7) = append_results (ag_id (tu_agent T)) (tu_conv T) results s6
                 in if saved then Q n s7
                    else P (publish_response (tu_inbound T) ''Internal error: unable to save tool result.'' s7)"
  shows "Q n s \<Longrightarrow> P (react C T n first tr last_content s)"
proof (induction n arbitrary: first tr last_content s)
  case 0
  then show ?case by (simp add: pub [OF log])
next
  case (Suc n)
  obtain r s1 where b: "build_prompt C T first s = (r, s1)" by fastforce
  have q1: "Q (Suc n) s1" using build [OF Suc.prems, of first] b by simp
  show ?case
  proof (cases r)
    case (Inl e)
    then show ?thesis using b by (simp add: pub [OF q1])
  next
    case (Inr p)
    obtain msgs sig where p: "p = (msgs, sig)" by fastforce
    obtain tr' s2 where c: "start_compaction C T tr sig s1 = (tr', s2)" by fastforce
    have q2: "Q (Suc n) s2" using compaction [OF q1, of tr sig] c by simp
    obtain ans s3 where a: "ask_model C T msgs s2 = (ans, s3)" by fastforce
    have q3: "Q (Suc n) s3" using ask [OF q2, of msgs] a by simp
    show ?thesis
    proof (cases "pv_cancelled (lc_providers C) (sv_outside (al_services s3))")
      case True
      then show ?thesis using b Inr p c a by (simp add: pub [OF log [OF q3]])
    next
      case go: False
      show ?thesis
      proof (cases ans)
        case (Inl e)
        then show ?thesis using b \<open>r = Inr p\<close> p c a go by (simp add: pub [OF log [OF q3]])
      next
        case (Inr resp)
        obtain rr s4 where rr: "make_reply (tu_inbound T) RoleAssistant s3 = (rr, s4)" by fastforce
        define msg where "msg = rr\<lparr>ms_agent := ag_id (tu_agent T),
          ms_content := sanitize_response (rs_content resp), ms_tool_calls := rs_tool_calls resp\<rparr>"
        obtain q w where q: "append_message (tu_conv T) msg (al_world s4) = (q, w)" by fastforce
        obtain results s6 where x: "execute_tools C (tu_inbound T) (rs_tool_calls resp) (tu_conv T) (with_world w s4)
            = (results, s6)" by fastforce
        obtain saved s7 where y: "append_results (ag_id (tu_agent T)) (tu_conv T) results s6 = (saved, s7)"
          by fastforce
        have run: "react C T (Suc n) first tr last_content s = (case q of
            Inl _ \<Rightarrow> publish_response (tu_inbound T) ''Internal error: unable to save response.'' (with_world w s4)
          | Inr _ \<Rightarrow> if rs_tool_calls resp = [] then final_answer C T msg (with_world w s4)
              else if saved then react C T n False tr' (ms_content msg) s7
              else publish_response (tu_inbound T) ''Internal error: unable to save tool result.'' s7)"
          using b \<open>r = Inr p\<close> p c a go Inr rr q x y
          by (simp add: Let_def msg_def if_ok_def split: sum.splits)
        from round [OF q3 rr msg_def q] x y Suc.IH [of s7 False tr' "ms_content msg"]
        show ?thesis unfolding run by (auto split: sum.splits if_splits)
      qed
    qed
  qed
qed

lemma react_answered:
  fixes C :: "('h, 'w) loop_config"
  assumes "quiet_tools C" "tu_inbound T = m" "al_bus s = b"
  shows "answered m b (react C T n first tr last_content s)"
proof (rule react_rule [where Q = "\<lambda>_ s. al_bus s = b"])
  fix n :: nat and s s4 :: "('h, 'w) loop_state" and resp :: response and r a q w
  assume bus: "al_bus s = b" and r: "make_reply (tu_inbound T) RoleAssistant s = (r, s4)"
    and a: "a = r\<lparr>ms_agent := ag_id (tu_agent T), ms_content := sanitize_response (rs_content resp),
      ms_tool_calls := rs_tool_calls resp\<rparr>" and q: "append_message (tu_conv T) a (al_world s4) = (q, w)"
  note f = make_reply_fields [OF r]
  have b5: "al_bus (with_world w s4) = b" using f(8) bus by (simp add: bus_frame)
  obtain results s6 where x: "execute_tools C (tu_inbound T) (rs_tool_calls resp) (tu_conv T) (with_world w s4)
      = (results, s6)" by fastforce
  have b6: "al_bus s6 = b"
    using run_slots_bus [OF assms(1)] x b5 unfolding execute_tools_def by (metis snd_conv)
  obtain saved s7 where y: "append_results (ag_id (tu_agent T)) (tu_conv T) results s6 = (saved, s7)"
    by fastforce
  have b7: "al_bus s7 = b" using append_results_bus y b6 by (metis snd_conv)
  have "answered m b (final_answer C T a (with_world w s4))"
    by (rule final_answer_answered) (use f a b5 assms(2) in auto)
  with b5 b7 x y assms(2)
  show "case q of Inl _ \<Rightarrow> answered m b (publish_response (tu_inbound T) ''Internal error: unable to save response.'' (with_world w s4))
      | Inr _ \<Rightarrow> if rs_tool_calls resp = [] then answered m b (final_answer C T a (with_world w s4))
          else let (results, s6) = execute_tools C (tu_inbound T) (rs_tool_calls resp) (tu_conv T) (with_world w s4);
                   (saved, s7) = append_results (ag_id (tu_agent T)) (tu_conv T) results s6
               in if saved then al_bus s7 = b
                  else answered m b (publish_response (tu_inbound T) ''Internal error: unable to save tool result.'' s7)"
    by (auto simp: publish_response_answered split: sum.splits)
qed (use assms in \<open>auto simp: bus_frame publish_response_answered\<close>)

lemma answered_agent [simp]: "answered (m\<lparr>ms_agent := x\<rparr>) b out \<longleftrightarrow> answered m b out"
  by (auto simp: answered_def split: prod.splits sum.splits)

lemma start_turn_answered:
  assumes "quiet_tools C" "al_bus s = b"
  shows "answered m b (start_turn C t a m s)"
  using assms
  by (auto simp: start_turn_def Let_def if_ok_def bus_frame
      intro!: publish_response_answered react_answered split: prod.splits sum.splits)


section \<open>A small turn\<close>

text \<open>The model calls two tools, then answers; the second call finishes first.\<close>

definition demo_calls :: "tool_call list" where
  "demo_calls = [\<lparr>tc_id = ''k1'', tc_name = ''echo'', tc_arguments = ''one''\<rparr>,
     \<lparr>tc_id = ''k2'', tc_name = ''nope'', tc_arguments = []\<rparr>]"

definition demo_model :: "string list providers" where
  "demo_model = \<lparr>pv_plugin = [''a'' \<mapsto> (\<lambda>q w. (Answer (if w = [] then demo_response\<lparr>rs_tool_calls := demo_calls\<rparr>
       else demo_response), w @ [''a'']))], pv_now = (\<lambda>_. 0), pv_cancelled = (\<lambda>_. False)\<rparr>"

definition demo_loop :: "(nat, string list) loop_config" where
  "demo_loop = \<lparr>lc_max_iterations = 3, lc_builder = demo_builder, lc_providers = demo_model,
     lc_holder = (\<lambda>_. []), lc_tool = [''echo'' \<mapsto> (\<lambda>_ args s. (Inr args, s))], lc_order = rev,
     lc_cipher = demo_cipher, lc_redact = False, lc_shuffle = rev, lc_channels = (\<lambda>_. None),
     lc_compaction = False, lc_out_path = (\<lambda>_ _. []), lc_harvest = (\<lambda>_ _ x. ([], x))\<rparr>"

definition demo_agent :: agent where
  "demo_agent = \<lparr>ag_id = ''a1'', ag_tenant = ''t1'', ag_name = ''Helper'', ag_instructions = [], ag_created_at = 0\<rparr>"

definition demo_loop_state :: "(nat, string list) loop_state" where
  "demo_loop_state = \<lparr>al_services = \<lparr>sv_convs = demo_convs,
       sv_world = demo_lines\<lparr>w_db := (w_db demo_lines)\<lparr>d_tenants := [demo_tenant], d_agents := [demo_agent]\<rparr>\<rparr>,
       sv_llm = demo_llm, sv_outside = []\<rparr>,
     al_cache = (\<lambda>_. None), al_bus = bus_init 4 new_bus, al_compacting = {}, al_spawned = []\<rparr>"

lemma demo_order: "set (lc_order demo_loop [0..<length demo_calls]) = {0..<length demo_calls}"
  by (simp add: demo_loop_def)

theorem tool_results_in_call_order_witness:
  "map ms_tool_call_id (fst (execute_tools demo_loop (demo_line ''m9'' 0) demo_calls ''v1'' demo_loop_state)) = [''k1'', ''k2'']"
  using tool_results_in_call_order [OF demo_order, of "demo_line ''m9'' 0" "''v1''" demo_loop_state]
  by (cases "execute_tools demo_loop (demo_line ''m9'' 0) demo_calls ''v1'' demo_loop_state")
    (simp add: demo_calls_def)

lemma demo_loop_quiet: "quiet_tools demo_loop"
  by (simp add: quiet_tools_def demo_loop_def)


end
