(* ===== verification/Agent_History.thy ===== *)
theory Agent_History
  imports Agent_Turn
begin

text \<open>
  The rows a turn of the agent loop adds to the history of its conversation: the message it
  answers, then answers of the model, each followed by the results of its tool calls.
\<close>

section \<open>Steps that leave the history alone\<close>

definition same_history :: "world \<Rightarrow> world \<Rightarrow> bool" where
  "same_history w w' \<longleftrightarrow> d_messages (w_db w') = d_messages (w_db w) \<and> w_ids w' = w_ids w
     \<and> w_drawn w \<le> w_drawn w' \<and> (w_faults w = [] \<longrightarrow> w_faults w' = [])"

named_theorems history_frame \<open>programs that add no message\<close>

lemma same_history_refl [simp]: "same_history w w"
  by (simp add: same_history_def)

lemma same_history_trans [trans]: "same_history w w1 \<Longrightarrow> same_history w1 w2 \<Longrightarrow> same_history w w2"
  by (simp add: same_history_def)

lemma same_if_ok:
  assumes "same_history w (snd c)" "\<And>e w1. c = (Inl e, w1) \<Longrightarrow> same_history w1 (h (err e w1))"
    "\<And>a w1. c = (Inr a, w1) \<Longrightarrow> same_history w1 (h (k a w1))"
  shows "same_history w (h (if_ok c err k))"
proof (cases c)
  case (Pair r w1)
  with assms show ?thesis by (cases r) (auto intro: same_history_trans)
qed

lemma db_query_history [history_frame]: "same_history w (snd (db_query q w))"
  by (simp add: db_query_def same_history_def Let_def)

lemma new_id_history [history_frame]: "same_history w (snd (new_id w))"
  by (simp add: new_id_def same_history_def Let_def)

lemma db_exec_history:
  assumes "\<And>d d'. f d = Inr d' \<Longrightarrow> d_messages d' = d_messages d"
  shows "same_history w (snd (db_exec f w))"
  using assms by (auto simp: db_exec_def same_history_def Let_def split: sum.splits)

lemma append_error_log_history [history_frame]: "same_history w (snd (append_error_log t e w))"
proof -
  obtain i w1 where n: "new_id w = (i, w1)" by fastforce
  show ?thesis
    unfolding append_error_log_def n prod.case Let_def
    by (rule same_history_trans [OF _ db_exec_history])
      (use new_id_history [of w] n in \<open>auto split: if_splits\<close>)
qed

lemma redact_history [history_frame]: "same_history w (snd (redact sh ci on text tid uid w))"
  by (auto simp: redact_def list_secrets_def history_frame intro!: same_if_ok [where h = snd])

lemma get_history_same [history_frame]: "same_history w (snd (get_history fts conv off lim up c w))"
  by (auto simp: get_history_def get_messages_def history_frame split: option.splits)

lemma fetch_memory_history [history_frame]: "same_history w (snd (fetch_memory t u m w))"
  by (auto simp: fetch_memory_def get_memory_def Let_def history_frame
      intro!: same_if_ok [where h = snd] split: option.splits prod.splits)

lemma fetch_latest_summary_history [history_frame]: "same_history w (snd (fetch_latest_summary t c w))"
  by (auto simp: fetch_latest_summary_def get_latest_summary_def history_frame intro!: same_if_ok [where h = snd])

lemma fetch_context_history [history_frame]: "same_history w (snd (fetch_context t conv up c w))"
proof (cases "conv = []")
  case False
  show ?thesis
    unfolding fetch_context_def if_not_P [OF False]
  proof (rule same_if_ok [where h = snd])
    show "same_history w (snd (fetch_full_history conv up c w))"
      by (simp add: fetch_full_history_def history_frame)
  qed (auto simp: split_beta Let_def history_frame)
qed (simp add: fetch_context_def)

lemma fetch_users_history: "same_history (ur_world s) (ur_world (snd (fetch_users t ids res s)))"
proof (induction ids arbitrary: res s)
  case (Cons uid uids)
  obtain r w where g: "get_user t uid (ur_world s) = (r, w)" by fastforce
  have w: "same_history (ur_world s) w"
    using db_query_history [of "ur_world s"] g by (metis get_user_def snd_conv)
  have IH: "same_history w (ur_world (snd (fetch_users t uids res' s')))" if "ur_world s' = w" for res' s'
    using Cons.IH [of s' res'] that by simp
  show ?case
    by (rule same_history_trans [OF w]) (auto simp: g IH split: sum.splits option.splits)
qed simp

lemma user_names_history: "same_history (ur_world s) (ur_world (snd (user_names t u h s)))"
  using fetch_users_history
  by (auto simp: user_names_def resolve_users_def Let_def split: option.splits prod.splits) (metis snd_conv)+

lemma user_names_at_history: "same_history w (ur_world (snd (user_names t u h (s\<lparr>ur_world := w\<rparr>))))"
  using user_names_history [of "s\<lparr>ur_world := w\<rparr>"] by simp

lemma build_history:
  "same_history (ur_world s) (ur_world (snd (build b t a u m conv caps up out c s)))"
proof -
  obtain memory w1 where m: "fetch_memory t u m (ur_world s) = (memory, w1)" by fastforce
  have w1: "same_history (ur_world s) w1" using fetch_memory_history m by (metis snd_conv)
  show ?thesis
    unfolding build_def m prod.case Let_def
    by (rule same_history_trans [OF w1], rule same_if_ok [where h = "\<lambda>x. ur_world (snd x)"])
      (auto simp: history_frame split: prod.splits dest!: arg_cong [where f = snd] intro: user_names_at_history)
qed

section \<open>Steps of a turn\<close>

abbreviation keeps_history :: "('h, 'w) loop_state \<Rightarrow> ('h, 'w) loop_state \<Rightarrow> bool" where
  "keeps_history s s' \<equiv> same_history (al_world s) (al_world s')"

lemma with_world_world [simp]: "al_world (with_world w s) = w"
  by (simp add: with_world_def)

lemma make_reply_history [history_frame]: "keeps_history s (snd (make_reply m r s))"
  using new_id_history [of "al_world s"] by (cases "new_id (al_world s)") (simp add: make_reply_def)

lemma publish_out_history [history_frame]: "keeps_history s (snd (publish_out m s))"
  by (simp add: publish_out_def split: prod.splits)

lemma publish_response_history [history_frame]: "keeps_history s (snd (publish_response m t s))"
  using make_reply_history [of s m RoleAssistant]
  by (auto simp: publish_response_def Let_def split: prod.splits intro: same_history_trans publish_out_history)

lemma log_error_history [history_frame]: "keeps_history s (log_error m t s)"
  by (simp add: log_error_def history_frame)

lemma redact_text_history [history_frame]: "keeps_history s (snd (redact_text C t tid uid s))"
  using redact_history by (simp add: redact_text_def split: prod.splits) (metis snd_conv)

lemma final_answer_history [history_frame]: "keeps_history s (snd (final_answer C T a s))"
proof -
  obtain content s1 where c: "redact_text C (ms_content a) (ms_tenant (tu_inbound T)) (ms_user (tu_inbound T)) s
      = (content, s1)" by fastforce
  obtain files x where f: "lc_harvest C (tu_conv T) (ms_id a) (sv_outside (al_services s1)) = (files, x)" by fastforce
  have s1: "keeps_history s s1" using redact_text_history c by (metis snd_conv)
  show ?thesis
    unfolding final_answer_def c f prod.case Let_def
    by (rule same_history_trans [OF s1], rule same_history_trans [OF _ publish_out_history]) simp
qed

lemma build_prompt_history [history_frame]: "keeps_history s (snd (build_prompt C T first s))"
  using build_history by (simp add: build_prompt_def Let_def split: prod.splits) (metis snd_conv user_resolver.select_convs(2))

lemma start_compaction_history [history_frame]: "keeps_history s (snd (start_compaction C T tr sig s))"
  by (auto simp: start_compaction_def split: option.splits)

lemma ask_model_history [history_frame]: "keeps_history s (snd (ask_model C T msgs s))"
  by (simp add: ask_model_def Let_def split: prod.splits)

section \<open>Identifiers\<close>

text \<open>No identifier still to be drawn is drawn twice or in the table already.\<close>

definition unused_ids :: "world \<Rightarrow> bool" where
  "unused_ids w \<longleftrightarrow> inj (w_ids w) \<and> (\<forall>i \<ge> w_drawn w. \<forall>r \<in> set (d_messages (w_db w)). ms_id r \<noteq> w_ids w i)"

lemma unused_same: "same_history w w' \<Longrightarrow> unused_ids w \<Longrightarrow> unused_ids w'"
  by (auto simp: unused_ids_def same_history_def)

text \<open>Tools that write no message and leave the supply of identifiers in order.\<close>

definition orderly_tools :: "('h, 'w) loop_config \<Rightarrow> bool" where
  "orderly_tools C \<longleftrightarrow> (\<forall>name f tc args s. lc_tool C name = Some f \<longrightarrow> keeps_history s (snd (f tc args s)))"

text \<open>An identifier drawn between two states.\<close>

definition drawn_between :: "world \<Rightarrow> world \<Rightarrow> string \<Rightarrow> bool" where
  "drawn_between w w' i \<longleftrightarrow> (\<exists>k. w_drawn w \<le> k \<and> k < w_drawn w' \<and> i = w_ids w k)"

lemma tool_result_id:
  assumes "tool_result m call t s = (r, s')"
  shows "keeps_history s s' \<and> drawn_between (al_world s) (al_world s') (ms_id r) \<and> ms_ext_message r = []"
proof -
  obtain a s1 where r: "make_reply m RoleTool s = (a, s1)" by fastforce
  with assms have "s' = s1" "ms_id r = ms_id a" "ms_ext_message r = ms_ext_message a"
    by (auto simp: tool_result_def)
  moreover have "keeps_history s s1" using make_reply_history r by (metis snd_conv)
  ultimately show ?thesis
    using make_reply_fields(6,9,10) [OF r] by (auto simp: drawn_between_def)
qed

lemma drawn_later: "same_history w w1 \<Longrightarrow> drawn_between w1 w2 i \<Longrightarrow> drawn_between w w2 i"
  unfolding drawn_between_def same_history_def by (metis le_trans)

lemma drawn_until: "same_history w1 w2 \<Longrightarrow> drawn_between w w1 i \<Longrightarrow> drawn_between w w2 i"
  unfolding drawn_between_def same_history_def by (metis less_le_trans)

lemma run_tool_id:
  assumes "orderly_tools C" "run_tool C m conv call s = (r, s')"
  shows "keeps_history s s' \<and> drawn_between (al_world s) (al_world s') (ms_id r) \<and> ms_ext_message r = []"
proof (cases "lc_tool C (tc_name call)")
  case None
  then show ?thesis using assms(2) tool_result_id by (simp add: run_tool_def)
next
  case (Some f)
  let ?args = "if tc_arguments call = [] then ''{}'' else tc_arguments call"
  obtain q s1 where f: "f (tool_context_of m conv) ?args s = (q, s1)" by fastforce
  let ?t = "case q of Inl e \<Rightarrow> ''Tool error: '' @ e | Inr t \<Rightarrow> t"
  obtain out s2 where o: "redact_text C ?t (ms_tenant m) (ms_user m) s1 = (out, s2)" by fastforce
  have "keeps_history s (snd (f (tool_context_of m conv) ?args s))"
    using assms(1) Some unfolding orderly_tools_def by blast
  then have "keeps_history s s1" using f by simp
  also have "keeps_history s1 s2" using redact_text_history o by (metis snd_conv)
  finally have s2: "keeps_history s s2" .
  moreover have "tool_result m call out s2 = (r, s')"
    using assms(2) by (simp only: run_tool_def Some option.case Let_def f o prod.case)
  ultimately show ?thesis using tool_result_id drawn_later same_history_trans by blast
qed

text \<open>The slots filled so far hold different identifiers, drawn since the batch began.\<close>

definition slots_drawn :: "world \<Rightarrow> world \<Rightarrow> nat set \<Rightarrow> message list \<Rightarrow> bool" where
  "slots_drawn w w' D slots \<longleftrightarrow> inj_on (\<lambda>i. ms_id (slots ! i)) D
     \<and> (\<forall>i \<in> D. drawn_between w w' (ms_id (slots ! i)) \<and> ms_ext_message (slots ! i) = [])"

lemma drawn_disjoint:
  "inj (w_ids w) \<Longrightarrow> same_history w w1 \<Longrightarrow> drawn_between w w1 i \<Longrightarrow> drawn_between w1 w2 j \<Longrightarrow> i \<noteq> j"
  unfolding drawn_between_def same_history_def inj_def by (metis linorder_not_less)

lemma slots_drawn_step:
  assumes "slots_drawn w w1 D slots" "same_history w w1" "same_history w1 w2" "inj (w_ids w)"
    and "drawn_between w1 w2 (ms_id r)" "ms_ext_message r = []" "i < length slots" "D \<subseteq> {..<length slots}"
  shows "slots_drawn w w2 (insert i D) (slots[i := r])"
proof -
  let ?f = "\<lambda>k. ms_id (slots[i := r] ! k)"
  have old: "?f k = ms_id (slots ! k)" if "k \<noteq> i" for k using that by simp
  have new: "?f i = ms_id r" using assms(7) by simp
  have ne: "?f k \<noteq> ms_id r" if "k \<in> D" "k \<noteq> i" for k
    using drawn_disjoint [OF assms(4,2) _ assms(5)] assms(1) that old unfolding slots_drawn_def by metis
  have "inj_on ?f (insert i D)"
    using assms(1) ne new old unfolding slots_drawn_def inj_on_def by (metis insertE)
  moreover have "drawn_between w w2 (?f k) \<and> ms_ext_message (slots[i := r] ! k) = []" if "k \<in> insert i D" for k
  proof (cases "k = i")
    case True
    then show ?thesis using assms(6,7) drawn_later [OF assms(2,5)] by simp
  next
    case False
    with that have "drawn_between w w1 (ms_id (slots ! k))" "ms_ext_message (slots ! k) = []"
      using assms(1) by (auto simp: slots_drawn_def)
    with False show ?thesis using drawn_until [OF assms(3)] by simp
  qed
  ultimately show ?thesis by (simp add: slots_drawn_def)
qed

lemma run_slots_ids:
  assumes "orderly_tools C" "inj (w_ids (al_world s0))"
  shows "run_slots C m conv calls is slots s = (rs, s') \<Longrightarrow> keeps_history s0 s
    \<Longrightarrow> slots_drawn (al_world s0) (al_world s) D slots \<Longrightarrow> D \<subseteq> {..<length slots}
    \<Longrightarrow> set is \<subseteq> {..<length slots}
    \<Longrightarrow> keeps_history s0 s' \<and> slots_drawn (al_world s0) (al_world s') (D \<union> set is) rs"
proof (induction "is" arbitrary: slots s D)
  case (Cons i "is")
  obtain r s1 where r: "run_tool C m conv (calls ! i) s = (r, s1)" by fastforce
  note id = run_tool_id [OF assms(1) r]
  have "slots_drawn (al_world s0) (al_world s1) (insert i D) (slots[i := r])"
    using slots_drawn_step [OF Cons.prems(3,2) _ assms(2)] id Cons.prems(4,5) by auto
  moreover have "keeps_history s0 s1" using Cons.prems(2) id same_history_trans by blast
  ultimately have "keeps_history s0 s' \<and> slots_drawn (al_world s0) (al_world s') (insert i D \<union> set is) rs"
    using Cons.prems r by (intro Cons.IH [of "slots[i := r]" s1]) auto
  then show ?case by simp
qed auto

lemma execute_tools_ids:
  assumes "orderly_tools C" "inj (w_ids (al_world s))" "execute_tools C m calls conv s = (rs, s')"
    and "set (lc_order C [0..<length calls]) = {0..<length calls}"
  shows "keeps_history s s'" "distinct (map ms_id rs)"
    "\<forall>r \<in> set rs. drawn_between (al_world s) (al_world s') (ms_id r) \<and> ms_ext_message r = []"
    "list_all2 (answers_call m) calls rs"
proof -
  note ex = assms(3) [unfolded execute_tools_def]
  have "length rs = length calls \<and> (\<forall>i < length calls. answers_call m (calls ! i) (rs ! i))"
    by (rule run_slots_answers [OF ex]) (use assms(4) in auto)
  then show a: "list_all2 (answers_call m) calls rs" by (simp add: list_all2_conv_all_nth)
  have len: "length rs = length calls" using a by (simp add: list_all2_lengthD)
  have "keeps_history s s' \<and> slots_drawn (al_world s) (al_world s') ({} \<union> {0..<length calls}) rs"
    using run_slots_ids [OF assms(1,2) ex, of "{}"] by (simp add: slots_drawn_def assms(4) lessThan_atLeast0)
  then have d: "keeps_history s s'" "slots_drawn (al_world s) (al_world s') {0..<length rs} rs"
    using len by auto
  then show "keeps_history s s'" by simp
  show "distinct (map ms_id rs)"
    using d(2) by (auto simp: slots_drawn_def distinct_conv_nth inj_on_def)
  show "\<forall>r \<in> set rs. drawn_between (al_world s) (al_world s') (ms_id r) \<and> ms_ext_message r = []"
    using d(2) by (auto simp: slots_drawn_def in_set_conv_nth)
qed

section \<open>Rows\<close>

text \<open>
  The tool calls still without a result after a list of rows; none when a result answers no
  call, or when the model goes on before the last result.
\<close>

fun pending :: "tool_call list \<Rightarrow> message list \<Rightarrow> tool_call list option" where
  "pending cs [] = Some cs"
| "pending [] (r # rs) = (if ms_role r = RoleAssistant then pending (ms_tool_calls r) rs else None)"
| "pending (c # cs) (r # rs) = (if ms_role r = RoleTool \<and> ms_tool_call_id r = tc_id c
     \<and> ms_tool_name r = tc_name c then pending cs rs else None)"

lemma pending_append: "pending cs (xs @ ys) = Option.bind (pending cs xs) (\<lambda>l. pending l ys)"
  by (induction cs xs rule: pending.induct) auto

definition answers :: "message list \<Rightarrow> nat" where
  "answers rows = length (filter (\<lambda>r. ms_role r = RoleAssistant) rows)"

text \<open>
  What a turn may add: rows of its own conversation and chat, at most \<open>n\<close> answers of the model,
  every call answered unless the database fails.
\<close>

definition turn_rows :: "message \<Rightarrow> string \<Rightarrow> bool \<Rightarrow> nat \<Rightarrow> message list \<Rightarrow> bool" where
  "turn_rows m conv calm n rows \<longleftrightarrow> answers rows \<le> n
     \<and> (\<exists>left. pending [] rows = Some left \<and> (calm \<longrightarrow> left = []))
     \<and> (\<forall>r \<in> set rows. ms_conv r = conv \<and> ms_tenant r = ms_tenant m \<and> ms_chat r = ms_chat m)"

lemma append_message_row:
  assumes "append_message conv x w = (q, w')" "unused_ids w" "\<forall>i \<ge> w_drawn w. w_ids w i \<noteq> ms_id x"
    "ms_id x \<notin> ms_id ` set (d_messages (w_db w))" "ms_ext_message x = []"
  shows "w_ids w' = w_ids w \<and> w_drawn w' = w_drawn w \<and> (w_faults w = [] \<longrightarrow> w_faults w' = []) \<and> unused_ids w'
    \<and> (case q of Inl _ \<Rightarrow> w_faults w \<noteq> [] \<and> d_messages (w_db w') = d_messages (w_db w)
       | Inr _ \<Rightarrow> d_messages (w_db w') = d_messages (w_db w) @ [message_row (x\<lparr>ms_conv := conv\<rparr>)])"
proof -
  have new: "\<not> list_ex (message_taken (x\<lparr>ms_conv := conv\<rparr>)) (d_messages (w_db w))"
    using assms(4,5) by (auto simp: list_ex_iff message_taken_def) (metis image_eqI)
  have "d_messages (w_db w') = d_messages (w_db w) \<or> d_messages (w_db w') = d_messages (w_db w) @ [message_row (x\<lparr>ms_conv := conv\<rparr>)]"
    "w_ids w' = w_ids w" "w_drawn w' = w_drawn w" "w_faults w' = tl (w_faults w)"
    "case q of Inl _ \<Rightarrow> w_faults w \<noteq> [] \<and> d_messages (w_db w') = d_messages (w_db w)
       | Inr _ \<Rightarrow> d_messages (w_db w') = d_messages (w_db w) @ [message_row (x\<lparr>ms_conv := conv\<rparr>)]"
    using assms(1) new
    by (auto simp: append_message_def save_message_def db_exec_def Let_def faulty_def split: if_splits)
  moreover have "unused_ids w'"
    using calculation(1-3) assms(2,3) unfolding unused_ids_def
    by (auto simp: message_row_def) blast
  ultimately show ?thesis by simp
qed

section \<open>What one call of the loop adds\<close>

definition added :: "message \<Rightarrow> string \<Rightarrow> nat \<Rightarrow> world \<Rightarrow> world \<Rightarrow> bool" where
  "added m conv n w w' \<longleftrightarrow> (\<exists>rows. d_messages (w_db w') = d_messages (w_db w) @ rows
     \<and> turn_rows m conv (w_faults w = []) n rows)"

lemma added_nothing: "same_history w w' \<Longrightarrow> added m conv n w w'"
  by (auto simp: added_def turn_rows_def same_history_def answers_def)

lemma added_before: "same_history w w1 \<Longrightarrow> added m conv n w1 w2 \<Longrightarrow> added m conv n w w2"
  unfolding added_def turn_rows_def same_history_def by auto

lemma added_after: "added m conv n w w1 \<Longrightarrow> same_history w1 w2 \<Longrightarrow> added m conv n w w2"
  by (auto simp: added_def same_history_def)

text \<open>Saving the results of a batch: a prefix of them, all when the database does not fail.\<close>

lemma append_results_rows:
  assumes "list_all2 (answers_call m) calls rs" "distinct (map ms_id rs)"
    "\<forall>r \<in> set rs. ms_ext_message r = [] \<and> ms_id r \<notin> ms_id ` set (d_messages (w_db (al_world s)))
       \<and> (\<forall>i \<ge> w_drawn (al_world s). w_ids (al_world s) i \<noteq> ms_id r)"
    "unused_ids (al_world s)" "append_results aid conv rs s = (saved, s')"
  shows "\<exists>rows left. d_messages (w_db (al_world s')) = d_messages (w_db (al_world s)) @ rows
    \<and> pending calls rows = Some left \<and> answers rows = 0
    \<and> (\<forall>r \<in> set rows. ms_conv r = conv \<and> ms_tenant r = ms_tenant m \<and> ms_chat r = ms_chat m)
    \<and> (saved \<longrightarrow> left = []) \<and> (w_faults (al_world s) = [] \<longrightarrow> saved \<and> w_faults (al_world s') = [])
    \<and> unused_ids (al_world s')"
  using assms
proof (induction calls rs arbitrary: s rule: list_all2_induct)
  case Nil
  then show ?case by (auto simp: answers_def)
next
  case (Cons c cs r rs)
  obtain q w where q: "append_message conv (r\<lparr>ms_agent := aid\<rparr>) (al_world s) = (q, w)" by fastforce
  note a = append_message_row [OF q Cons.prems(3)]
  have w: "w_ids w = w_ids (al_world s)" "w_drawn w = w_drawn (al_world s)" "unused_ids w"
    "w_faults (al_world s) = [] \<longrightarrow> w_faults w = []"
    using a Cons.prems(2) by auto
  show ?case
  proof (cases q)
    case (Inl e)
    then have "saved = False" "s' = with_world w s" using Cons.prems(4) q by auto
    moreover have "w_faults (al_world s) \<noteq> []" "d_messages (w_db w) = d_messages (w_db (al_world s))"
      using a Cons.prems(2) Inl by auto
    ultimately show ?thesis using w(3) by (intro exI [of _ "[]"] exI [of _ "c # cs"]) (simp add: answers_def)
  next
    case (Inr u)
    let ?row = "message_row (r\<lparr>ms_agent := aid, ms_conv := conv\<rparr>)"
    have d: "d_messages (w_db w) = d_messages (w_db (al_world s)) @ [?row]"
      using a Cons.prems(2) Inr by auto
    have rest: "append_results aid conv rs (with_world w s) = (saved, s')"
      using Cons.prems(4) q Inr by simp
    have ne: "ms_id r \<noteq> ms_id x" if "x \<in> set rs" for x using Cons.prems(1) that by force
    have new: "\<forall>x \<in> set rs. ms_ext_message x = [] \<and> ms_id x \<notin> ms_id ` set (d_messages (w_db (al_world (with_world w s))))
       \<and> (\<forall>i \<ge> w_drawn (al_world (with_world w s)). w_ids (al_world (with_world w s)) i \<noteq> ms_id x)"
    proof
      fix x assume x: "x \<in> set rs"
      have "ms_id x \<noteq> ms_id r" using ne [OF x] by simp
      then show "ms_ext_message x = [] \<and> ms_id x \<notin> ms_id ` set (d_messages (w_db (al_world (with_world w s))))
         \<and> (\<forall>i \<ge> w_drawn (al_world (with_world w s)). w_ids (al_world (with_world w s)) i \<noteq> ms_id x)"
        using Cons.prems(2) x w d by (simp add: message_row_def)
    qed
    have "\<exists>rows left. d_messages (w_db (al_world s')) = d_messages (w_db w) @ rows
      \<and> pending cs rows = Some left \<and> answers rows = 0
      \<and> (\<forall>r \<in> set rows. ms_conv r = conv \<and> ms_tenant r = ms_tenant m \<and> ms_chat r = ms_chat m)
      \<and> (saved \<longrightarrow> left = []) \<and> (w_faults w = [] \<longrightarrow> saved \<and> w_faults (al_world s') = [])
      \<and> unused_ids (al_world s')"
      using Cons.IH [OF _ new _ rest] Cons.prems(1) w(3) by simp
    then obtain rows left where r: "d_messages (w_db (al_world s')) = d_messages (w_db w) @ rows"
      "pending cs rows = Some left" "answers rows = 0"
      "\<forall>r \<in> set rows. ms_conv r = conv \<and> ms_tenant r = ms_tenant m \<and> ms_chat r = ms_chat m"
      "saved \<longrightarrow> left = []" "w_faults w = [] \<longrightarrow> saved \<and> w_faults (al_world s') = []"
      "unused_ids (al_world s')" by blast
    show ?thesis
      by (rule exI [of _ "?row # rows"], rule exI [of _ left])
        (use r d w Cons.hyps(1) in \<open>auto simp: message_row_def answers_call_def answers_def\<close>)
  qed
qed

text \<open>The state of a turn with \<open>n\<close> of \<open>k\<close> rounds left: what was added since \<open>w\<close> awaits no result.\<close>

definition between_rounds :: "message \<Rightarrow> string \<Rightarrow> nat \<Rightarrow> world \<Rightarrow> nat \<Rightarrow> world \<Rightarrow> bool" where
  "between_rounds m conv k w n w' \<longleftrightarrow> n \<le> k \<and> unused_ids w' \<and> (w_faults w = [] \<longrightarrow> w_faults w' = [])
     \<and> (\<exists>rows. d_messages (w_db w') = d_messages (w_db w) @ rows \<and> turn_rows m conv True (k - n) rows)"

lemma between_rounds_same:
  "between_rounds m conv k w n w1 \<Longrightarrow> same_history w1 w2 \<Longrightarrow> between_rounds m conv k w n w2"
  by (auto simp: between_rounds_def same_history_def unused_ids_def)

lemma between_rounds_added: "between_rounds m conv k w n w1 \<Longrightarrow> added m conv k w w1"
  unfolding between_rounds_def added_def turn_rows_def by force

lemma turn_rows_append:
  assumes "turn_rows m conv True j rows" "pending [] rows' = Some left" "calm \<longrightarrow> left = []"
    "j + answers rows' \<le> k"
    "\<forall>r \<in> set rows'. ms_conv r = conv \<and> ms_tenant r = ms_tenant m \<and> ms_chat r = ms_chat m"
  shows "turn_rows m conv calm k (rows @ rows')"
  using assms by (auto simp: turn_rows_def pending_append answers_def)

text \<open>One round: the answer of the model, then the results of its calls.\<close>

lemma round_rows:
  assumes tools: "orderly_tools C" "\<And>k. set (lc_order C [0..<k]) = {0..<k}"
    and q: "between_rounds m conv k w (Suc n) (al_world s)"
    and r: "make_reply m RoleAssistant s = (r, s4)"
    and a: "a = r\<lparr>ms_agent := aid, ms_content := said, ms_tool_calls := calls\<rparr>"
    and ap: "append_message conv a (al_world s4) = (Inr u, w5)"
    and ex: "execute_tools C m calls conv (with_world w5 s4) = (results, s6)"
    and sv: "append_results aid conv results s6 = (saved, s7)"
  shows "between_rounds m conv k w n w5 \<or> calls \<noteq> []"
    and "saved \<longrightarrow> between_rounds m conv k w n (al_world s7)" and "added m conv k w (al_world s7)"
proof -
  note f = make_reply_fields [OF r]
  obtain rows where rows: "d_messages (w_db (al_world s)) = d_messages (w_db w) @ rows"
    "turn_rows m conv True (k - Suc n) rows" and n: "Suc n \<le> k" and un: "unused_ids (al_world s)"
    and calm: "w_faults w = [] \<longrightarrow> w_faults (al_world s) = []"
    using q by (auto simp: between_rounds_def)
  have un4: "unused_ids (al_world s4)" using un f(10) by (auto simp: unused_ids_def)
  have new: "\<forall>i \<ge> w_drawn (al_world s4). w_ids (al_world s4) i \<noteq> ms_id a"
    "ms_id a \<notin> ms_id ` set (d_messages (w_db (al_world s4)))" "ms_ext_message a = []"
    using un f(6,9,10) a by (auto simp: unused_ids_def inj_eq) (metis order_refl)
  let ?row = "message_row (a\<lparr>ms_conv := conv\<rparr>)"
  have w5: "w_ids w5 = w_ids (al_world s4)" "w_drawn w5 = w_drawn (al_world s4)" "unused_ids w5"
    "w_faults (al_world s4) = [] \<longrightarrow> w_faults w5 = []"
    "d_messages (w_db w5) = d_messages (w_db (al_world s)) @ [?row]"
    using append_message_row [OF ap un4 new] f(10) by auto
  have row: "pending [] [?row] = Some calls" "answers [?row] = 1"
    "ms_conv ?row = conv \<and> ms_tenant ?row = ms_tenant m \<and> ms_chat ?row = ms_chat m"
    using f a by (auto simp: message_row_def answers_def)
  have calm5: "w_faults w = [] \<longrightarrow> w_faults w5 = []" using calm w5(4) f(10) by auto
  show "between_rounds m conv k w n w5 \<or> calls \<noteq> []"
  proof (cases "calls = []")
    case True
    have "turn_rows m conv True (k - n) (rows @ [?row])"
      by (rule turn_rows_append [OF rows(2) row(1)]) (use True row n in auto)
    then show ?thesis using w5 rows(1) n calm5 by (auto simp: between_rounds_def)
  qed simp
  have inj: "inj (w_ids (al_world (with_world w5 s4)))" using w5(3) by (simp add: unused_ids_def)
  note ids = execute_tools_ids [OF tools(1) inj ex tools(2)]
  have s6: "same_history w5 (al_world s6)" using ids(1) by simp
  have fresh: "\<forall>r \<in> set results. ms_ext_message r = []
      \<and> ms_id r \<notin> ms_id ` set (d_messages (w_db (al_world s6)))
      \<and> (\<forall>i \<ge> w_drawn (al_world s6). w_ids (al_world s6) i \<noteq> ms_id r)"
  proof
    fix r assume "r \<in> set results"
    then have "ms_ext_message r = []" "drawn_between w5 (al_world s6) (ms_id r)" using ids(3) by auto
    moreover have "inj (w_ids w5)" "\<forall>i \<ge> w_drawn w5. \<forall>x \<in> set (d_messages (w_db w5)). ms_id x \<noteq> w_ids w5 i"
      using w5(3) by (auto simp: unused_ids_def)
    ultimately show "ms_ext_message r = [] \<and> ms_id r \<notin> ms_id ` set (d_messages (w_db (al_world s6)))
        \<and> (\<forall>i \<ge> w_drawn (al_world s6). w_ids (al_world s6) i \<noteq> ms_id r)"
      using s6 by (auto simp: drawn_between_def same_history_def inj_eq)
  qed
  obtain more left where more: "d_messages (w_db (al_world s7)) = d_messages (w_db (al_world s6)) @ more"
    "pending calls more = Some left" "answers more = 0"
    "\<forall>r \<in> set more. ms_conv r = conv \<and> ms_tenant r = ms_tenant m \<and> ms_chat r = ms_chat m"
    "saved \<longrightarrow> left = []" "w_faults (al_world s6) = [] \<longrightarrow> saved \<and> w_faults (al_world s7) = []"
    "unused_ids (al_world s7)"
    using append_results_rows [OF ids(4,2) fresh unused_same [OF s6 w5(3)] sv] by blast
  have p: "pending [] ([?row] @ more) = Some left" using more(2) row(1) by (simp only: pending_append) simp
  have d: "d_messages (w_db (al_world s7)) = d_messages (w_db w) @ (rows @ ([?row] @ more))"
    using more(1) s6 w5(5) rows(1) by (simp add: same_history_def)
  have calm7: "w_faults w = [] \<longrightarrow> saved \<and> w_faults (al_world s7) = []"
    using calm5 s6 more(6) by (simp add: same_history_def)
  have own: "\<forall>r \<in> set ([?row] @ more). ms_conv r = conv \<and> ms_tenant r = ms_tenant m \<and> ms_chat r = ms_chat m"
    using row(3) more(4) by simp
  have cnt: "answers ([?row] @ more) = 1" using row(2) more(3) by (simp add: answers_def split: if_splits)
  show "saved \<longrightarrow> between_rounds m conv k w n (al_world s7)"
  proof
    assume saved
    have "turn_rows m conv True (k - n) (rows @ ([?row] @ more))"
      by (rule turn_rows_append [OF rows(2) p _ _ own]) (use \<open>saved\<close> more(5) cnt n in auto)
    then show "between_rounds m conv k w n (al_world s7)"
      unfolding between_rounds_def using d n more(7) calm7 Suc_leD by blast
  qed
  have "turn_rows m conv (w_faults w = []) k (rows @ ([?row] @ more))"
    by (rule turn_rows_append [OF rows(2) p _ _ own]) (use calm7 more(5) cnt n in auto)
  then show "added m conv k w (al_world s7)" unfolding added_def using d by blast
qed

lemma react_added:
  fixes C :: "('h, 'w) loop_config"
  assumes "orderly_tools C" "\<forall>k. set (lc_order C [0..<k]) = {0..<k}"
    and "unused_ids (al_world s)" "tu_inbound T = m" "tu_conv T = conv"
  shows "added m conv k (al_world s) (al_world (snd (react C T k first tr last_content s)))"
proof -
  let ?w = "al_world s"
  let ?P = "\<lambda>out. added m conv k ?w (al_world (snd out))"
  let ?Q = "\<lambda>n s. between_rounds m conv k ?w n (al_world s)"
  have pub: "?P (publish_response m' t s1)" if "?Q n s1" for m' t n and s1 :: "('h, 'w) loop_state"
    using added_after [OF between_rounds_added [OF that] publish_response_history] .
  show ?thesis
  proof (rule react_rule [where Q = ?Q and P = ?P])
    show "?Q k s" using assms(3) by (simp add: between_rounds_def turn_rows_def answers_def)
  next
    fix n :: nat and s1 s4 :: "('h, 'w) loop_state" and resp :: response and r a q w5
    assume q: "?Q (Suc n) s1" and r: "make_reply (tu_inbound T) RoleAssistant s1 = (r, s4)"
      and a: "a = r\<lparr>ms_agent := ag_id (tu_agent T), ms_content := sanitize_response (rs_content resp),
        ms_tool_calls := rs_tool_calls resp\<rparr>" and ap: "append_message (tu_conv T) a (al_world s4) = (q, w5)"
    let ?s5 = "with_world w5 s4"
    obtain results s6 where ex: "execute_tools C (tu_inbound T) (rs_tool_calls resp) (tu_conv T) ?s5 = (results, s6)"
      by fastforce
    obtain saved s7 where sv: "append_results (ag_id (tu_agent T)) (tu_conv T) results s6 = (saved, s7)" by fastforce
    show "case q of Inl _ \<Rightarrow> ?P (publish_response (tu_inbound T) ''Internal error: unable to save response.'' ?s5)
        | Inr _ \<Rightarrow> if rs_tool_calls resp = [] then ?P (final_answer C T a ?s5)
            else let (results, s6) = execute_tools C (tu_inbound T) (rs_tool_calls resp) (tu_conv T) ?s5;
                     (saved, s7) = append_results (ag_id (tu_agent T)) (tu_conv T) results s6
                 in if saved then ?Q n s7
                    else ?P (publish_response (tu_inbound T) ''Internal error: unable to save tool result.'' s7)"
    proof (cases q)
      case (Inl e)
      have "keeps_history s1 s4" using make_reply_history r by (metis snd_conv)
      then have "added m conv k ?w (al_world s4)" using q between_rounds_same between_rounds_added by blast
      moreover have "d_messages (w_db w5) = d_messages (w_db (al_world s4))"
        using ap Inl by (auto simp: append_message_def save_message_def db_exec_def Let_def split: if_splits)
      ultimately have "added m conv k ?w (al_world ?s5)" by (simp add: added_def)
      then have "?P (publish_response (tu_inbound T) t ?s5)" for t
        by (rule added_after [OF _ publish_response_history])
      then show ?thesis using Inl by simp
    next
      case (Inr u)
      note rr = round_rows [OF assms(1) _ q r [unfolded assms(4)] a ap [unfolded Inr assms(5)]
          ex [unfolded assms(4,5)] sv [unfolded assms(5)]]
      have o: "set (lc_order C [0..<j]) = {0..<j}" for j using assms(2) by blast
      have "rs_tool_calls resp = [] \<Longrightarrow> ?P (final_answer C T a ?s5)"
        using rr(1) [OF o] added_after [OF between_rounds_added final_answer_history, of _ _ _ _ _ ?s5] by simp
      moreover have "saved \<Longrightarrow> ?Q n s7" using rr(2) [OF o] by blast
      moreover have "?P (publish_response m' t s7)" for m' t
        using added_after [OF rr(3) [OF o] publish_response_history] .
      ultimately show ?thesis using Inr ex sv by simp
    qed
  qed (use between_rounds_same pub in \<open>blast intro: history_frame\<close>)+
qed

section \<open>A turn\<close>

lemma append_any_row:
  assumes "append_message conv x w = (q, w')" "unused_ids w" "\<forall>i \<ge> w_drawn w. w_ids w i \<noteq> ms_id x"
  shows "unused_ids w' \<and> (w_faults w = [] \<longrightarrow> w_faults w' = [])
    \<and> (d_messages (w_db w') = d_messages (w_db w)
       \<or> d_messages (w_db w') = d_messages (w_db w) @ [message_row (x\<lparr>ms_conv := conv\<rparr>)])"
  using assms
  by (auto simp: append_message_def save_message_def db_exec_def Let_def unused_ids_def message_row_def
      split: if_splits) blast

lemma load_user_history [history_frame]: "same_history w (snd (load_user m w))"
  by (auto simp: load_user_def get_user_def history_frame intro!: same_if_ok [where h = snd])

lemma load_agent_history [history_frame]: "same_history w (snd (load_agent t m w))"
  by (auto simp: load_agent_def get_agent_def Let_def history_frame intro!: same_if_ok [where h = snd])

lemma load_caps_history [history_frame]: "same_history w (snd (load_caps C m w))"
  by (auto simp: load_caps_def get_chat_def Let_def history_frame intro!: same_if_ok [where h = snd])

lemma new_id_history': "new_id w = (i, w') \<Longrightarrow> same_history w w'"
  using new_id_history [of w] by simp

lemma load_conversation_history: "same_history w (snd (snd (load_conversation m (c, w))))"
proof (cases "ms_conv m = []")
  case True
  then show ?thesis
    by (auto simp: load_conversation_def resolve_conversation_def Let_def get_last_conversation_id_def
        intro: history_frame new_id_history' split: option.splits prod.splits sum.splits
        intro!: same_if_ok [where h = "\<lambda>x. snd (snd x)"])
qed (simp add: load_conversation_def)

lemma start_turn_rows:
  fixes C :: "('h, 'w) loop_config"
  assumes tools: "orderly_tools C" "\<forall>k. set (lc_order C [0..<k]) = {0..<k}"
    and un: "unused_ids (al_world s)" "\<forall>i \<ge> w_drawn (al_world s). w_ids (al_world s) i \<noteq> ms_id m"
  shows "\<exists>conv ins rows. d_messages (w_db (al_world (snd (start_turn C t a m s)))) = d_messages (w_db (al_world s)) @ ins @ rows
    \<and> (ins = [] \<or> ins = [message_row (m\<lparr>ms_conv := conv\<rparr>)])
    \<and> turn_rows m conv (w_faults (al_world s) = []) (nat (lc_max_iterations C)) rows"
    (is "\<exists>conv ins rows. ?G (al_world (snd (start_turn C t a m s))) conv ins rows")
proof -
  have none: "turn_rows m conv calm n []" for conv calm n by (simp add: turn_rows_def answers_def)
  obtain u w1 where u: "load_user m (al_world s) = (u, w1)" by fastforce
  obtain r c w2 where c: "load_conversation m (sv_convs (al_services s), w1) = (r, c, w2)" by (cases "load_conversation m (sv_convs (al_services s), w1)") auto
  have w2: "same_history (al_world s) w2"
    using load_user_history [of "al_world s" m] load_conversation_history [of w1 m "sv_convs (al_services s)"] u c
    by (auto intro: same_history_trans)
  let ?s2 = "s\<lparr>al_services := (al_services s)\<lparr>sv_convs := c, sv_world := w2\<rparr>\<rparr>"
  show ?thesis
  proof (cases r)
    case (Inl e)
    have "keeps_history s (snd (publish_response m ''Internal error: unable to resolve conversation.'' ?s2))"
      by (rule same_history_trans [OF _ publish_response_history]) (simp add: w2)
    then have "?G (al_world (snd (start_turn C t a m s))) [] [] []"
      using u c Inl none by (simp add: start_turn_def same_history_def)
    then show ?thesis by blast
  next
    case (Inr conv)
    obtain q w3 where q: "append_message conv m w2 = (q, w3)" by fastforce
    have drawn: "w_ids w2 = w_ids (al_world s)" "w_drawn (al_world s) \<le> w_drawn w2" using w2 by (auto simp: same_history_def)
    have "\<forall>i \<ge> w_drawn w2. w_ids w2 i \<noteq> ms_id m" using un(2) drawn by auto
    note a = append_any_row [OF q unused_same [OF w2 un(1)] this]
    obtain caps w4 where ca: "load_caps C m w3 = (caps, w4)" by fastforce
    obtain out w5 where o: "new_id w4 = (out, w5)" by fastforce
    have w5: "same_history w3 w5"
      using load_caps_history [of w3 C m] new_id_history [of w4] ca o by (auto intro: same_history_trans)
    obtain ins where ins: "d_messages (w_db w3) = d_messages (w_db (al_world s)) @ ins"
      "ins = [] \<or> ins = [message_row (m\<lparr>ms_conv := conv\<rparr>)]"
      using a w2 by (auto simp: same_history_def)
    have calm: "w_faults (al_world s) = [] \<longrightarrow> w_faults w3 = []" using a w2 by (auto simp: same_history_def)
    show ?thesis
    proof (cases q)
      case (Inl e)
      have "same_history w3 (al_world (snd (publish_response m ''Internal error: unable to save message.'' (with_world w3 ?s2))))"
        using publish_response_history [of "with_world w3 ?s2"] by simp
      then have "?G (al_world (snd (start_turn C t a m s))) conv ins []"
        using u c \<open>r = Inr conv\<close> q Inl none ins by (simp add: start_turn_def Let_def same_history_def)
      then show ?thesis by blast
    next
      case (Inr x)
      let ?T = "\<lparr>tu_tenant = t, tu_agent = a, tu_user = u, tu_inbound = m, tu_conv = conv, tu_caps = caps, tu_out = out\<rparr>"
      let ?s5 = "with_world w5 ?s2"
      have "unused_ids (al_world ?s5)" using unused_same [OF w5] a by simp
      from react_added [OF tools this, of ?T m conv "nat (lc_max_iterations C)" True False "[]"]
      obtain rows where rows: "d_messages (w_db (al_world (snd (react C ?T (nat (lc_max_iterations C)) True False [] ?s5))))
          = d_messages (w_db w5) @ rows" "turn_rows m conv (w_faults w5 = []) (nat (lc_max_iterations C)) rows"
        by (auto simp: added_def)
      have run: "start_turn C t a m s = react C ?T (nat (lc_max_iterations C)) True False [] ?s5"
        using u c \<open>r = Inr conv\<close> q Inr ca o by (simp add: start_turn_def Let_def)
      have "turn_rows m conv (w_faults (al_world s) = []) (nat (lc_max_iterations C)) rows"
        using rows(2) calm w5 by (auto simp: turn_rows_def same_history_def)
      then have "?G (al_world (snd (start_turn C t a m s))) conv ins rows"
        unfolding run using rows(1) ins w5 by (simp add: same_history_def)
      then show ?thesis by blast
    qed
  qed
qed


lemma demo_loop_orderly: "orderly_tools demo_loop" "\<forall>k. set (lc_order demo_loop [0..<k]) = {0..<k}"
  by (simp_all add: orderly_tools_def demo_loop_def)

lemma demo_turn_ids: "unused_ids (al_world demo_loop_state)"
  "\<forall>i \<ge> w_drawn (al_world demo_loop_state). w_ids (al_world demo_loop_state) i \<noteq> ms_id (demo_line ''m9'' 0)"
  by (auto simp: unused_ids_def inj_def demo_loop_state_def demo_lines_def demo_world_def demo_line_def)


end
