(* ===== verification/Loop_Workers.thy ===== *)
theory Loop_Workers
  imports Prelude
begin

text \<open>
  Who runs when: \<open>Handle\<close> and \<open>Shutdown\<close> of \<open>internal/domain/service/loop/loop.go\<close>. A handler
  passes the draining check, takes a slot of the semaphore, then the mutex of its chat, runs
  its turn, and gives both back. \<open>Shutdown\<close> sets the flag and then takes every slot. Each
  synchronisation is one step of a machine; handlers are named by numbers.
\<close>

datatype worker = Arrived | Checked | Holding | Running | Leaving | Finished | Dropped | Gone
datatype shutdown = NotCalled | Taking | Drained | TimedOut

text \<open>
  \<open>lw_slots\<close> is the number of tokens in the semaphore channel, \<open>lw_taken\<close> those that
  \<open>Shutdown\<close> put there.
\<close>

record workers =
  lw_state :: "nat \<Rightarrow> worker option"
  lw_chat :: "nat \<Rightarrow> string"
  lw_locked :: "string \<Rightarrow> bool"
  lw_slots :: nat
  lw_max :: nat
  lw_draining :: bool
  lw_taken :: nat
  lw_shutdown :: shutdown

definition no_workers :: "nat \<Rightarrow> workers" where
  "no_workers n = \<lparr>lw_state = (\<lambda>_. None), lw_chat = (\<lambda>_. []), lw_locked = (\<lambda>_. False),
     lw_slots = 0, lw_max = n, lw_draining = False, lw_taken = 0, lw_shutdown = NotCalled\<rparr>"

definition set_worker :: "nat \<Rightarrow> worker \<Rightarrow> workers \<Rightarrow> workers" where
  "set_worker h x s = s\<lparr>lw_state := (lw_state s)(h \<mapsto> x)\<rparr>"

text \<open>
  \<open>Drained\<close>: \<open>Shutdown\<close> returned nil. A context that ends lets a waiting handler leave
  (\<open>GiveUp\<close>) and a waiting \<open>Shutdown\<close> return an error, keeping the slots it has taken
  (\<open>TimeOut\<close>). The deferred calls of a handler unlock the mutex first, then give back the slot.
\<close>

inductive worker_step :: "workers \<Rightarrow> workers \<Rightarrow> bool" where
  Arrive: "lw_state s h = None \<Longrightarrow>
    worker_step s (set_worker h Arrived (s\<lparr>lw_chat := (lw_chat s)(h := c)\<rparr>))"
| Drop: "lw_state s h = Some Arrived \<Longrightarrow> lw_draining s \<Longrightarrow> worker_step s (set_worker h Dropped s)"
| Check: "lw_state s h = Some Arrived \<Longrightarrow> \<not> lw_draining s \<Longrightarrow> worker_step s (set_worker h Checked s)"
| Acquire: "lw_state s h = Some Checked \<Longrightarrow> lw_slots s < lw_max s \<Longrightarrow>
    worker_step s (set_worker h Holding (s\<lparr>lw_slots := lw_slots s + 1\<rparr>))"
| GiveUp: "lw_state s h = Some Checked \<Longrightarrow> worker_step s (set_worker h Gone s)"
| Lock: "lw_state s h = Some Holding \<Longrightarrow> \<not> lw_locked s (lw_chat s h) \<Longrightarrow>
    worker_step s (set_worker h Running (s\<lparr>lw_locked := (lw_locked s)(lw_chat s h := True)\<rparr>))"
| Unlock: "lw_state s h = Some Running \<Longrightarrow>
    worker_step s (set_worker h Leaving (s\<lparr>lw_locked := (lw_locked s)(lw_chat s h := False)\<rparr>))"
| Release: "lw_state s h = Some Leaving \<Longrightarrow>
    worker_step s (set_worker h Finished (s\<lparr>lw_slots := lw_slots s - 1\<rparr>))"
| Drain: "lw_shutdown s = NotCalled \<Longrightarrow>
    worker_step s (s\<lparr>lw_draining := True, lw_shutdown := Taking\<rparr>)"
| TakeSlot: "lw_shutdown s = Taking \<Longrightarrow> lw_taken s < lw_max s \<Longrightarrow> lw_slots s < lw_max s \<Longrightarrow>
    worker_step s (s\<lparr>lw_slots := lw_slots s + 1, lw_taken := lw_taken s + 1\<rparr>)"
| AllTaken: "lw_shutdown s = Taking \<Longrightarrow> lw_taken s = lw_max s \<Longrightarrow>
    worker_step s (s\<lparr>lw_shutdown := Drained\<rparr>)"
| TimeOut: "lw_shutdown s = Taking \<Longrightarrow> worker_step s (s\<lparr>lw_shutdown := TimedOut\<rparr>)"

inductive_cases worker_stepE: "worker_step s s'"

inductive workers_reach :: "nat \<Rightarrow> workers \<Rightarrow> bool" for n where
  Start: "workers_reach n (no_workers n)"
| Step: "workers_reach n s \<Longrightarrow> worker_step s s' \<Longrightarrow> workers_reach n s'"

section \<open>Invariant\<close>

definition holders :: "workers \<Rightarrow> nat set" where
  "holders s = {h. lw_state s h \<in> {Some Holding, Some Running, Some Leaving}}"

text \<open>
  Every token belongs to a handler that holds one or to \<open>Shutdown\<close>; a chat is locked exactly
  while one handler runs for it.
\<close>

definition workers_ok :: "nat \<Rightarrow> workers \<Rightarrow> bool" where
  "workers_ok n s \<longleftrightarrow> lw_max s = n \<and> finite (holders s) \<and> lw_slots s = card (holders s) + lw_taken s
     \<and> lw_slots s \<le> n
     \<and> (\<forall>h. lw_state s h = Some Running \<longrightarrow> lw_locked s (lw_chat s h))
     \<and> (\<forall>h k. lw_state s h = Some Running \<and> lw_state s k = Some Running \<and> lw_chat s h = lw_chat s k \<longrightarrow> h = k)
     \<and> (lw_shutdown s = Drained \<longrightarrow> lw_taken s = n)"

lemma holders_set_worker:
  "holders (set_worker h x s) = (if x \<in> {Holding, Running, Leaving} then insert h (holders s) else holders s - {h})"
  by (auto simp: holders_def set_worker_def)

lemma set_worker_simps [simp]:
  "lw_state (set_worker h x s) = (lw_state s)(h \<mapsto> x)" "lw_chat (set_worker h x s) = lw_chat s"
  "lw_locked (set_worker h x s) = lw_locked s" "lw_slots (set_worker h x s) = lw_slots s"
  "lw_max (set_worker h x s) = lw_max s" "lw_draining (set_worker h x s) = lw_draining s"
  "lw_taken (set_worker h x s) = lw_taken s" "lw_shutdown (set_worker h x s) = lw_shutdown s"
  by (simp_all add: set_worker_def)

lemma holders_update [simp]:
  "holders (s\<lparr>lw_chat := c\<rparr>) = holders s" "holders (s\<lparr>lw_locked := l\<rparr>) = holders s"
  "holders (s\<lparr>lw_slots := k\<rparr>) = holders s" "holders (s\<lparr>lw_draining := d\<rparr>) = holders s"
  "holders (s\<lparr>lw_taken := t\<rparr>) = holders s" "holders (s\<lparr>lw_shutdown := b\<rparr>) = holders s"
  by (simp_all add: holders_def)

lemma not_holder: "lw_state s h \<notin> {Some Holding, Some Running, Some Leaving} \<Longrightarrow> holders s - {h} = holders s"
  by (auto simp: holders_def)

lemma is_holder: "lw_state s h \<in> {Some Holding, Some Running, Some Leaving} \<longleftrightarrow> h \<in> holders s"
  by (simp add: holders_def)

lemma workers_ok_step:
  assumes "workers_ok n s" "worker_step s s'"
  shows "workers_ok n s'"
  using assms(2)
proof cases
  case (Arrive h c)
  then have "holders s - {h} = holders s" by (intro not_holder) simp
  with Arrive assms(1) show ?thesis by (auto simp: workers_ok_def holders_set_worker)
next
  case (Drop h)
  then have "holders s - {h} = holders s" by (intro not_holder) simp
  with Drop assms(1) show ?thesis by (auto simp: workers_ok_def holders_set_worker)
next
  case (Check h)
  then have "holders s - {h} = holders s" by (intro not_holder) simp
  with Check assms(1) show ?thesis by (auto simp: workers_ok_def holders_set_worker)
next
  case (Acquire h)
  then have "h \<notin> holders s" by (simp add: holders_def)
  with Acquire assms(1) show ?thesis by (auto simp: workers_ok_def holders_set_worker)
next
  case (GiveUp h)
  then have "holders s - {h} = holders s" by (intro not_holder) simp
  with GiveUp assms(1) show ?thesis by (auto simp: workers_ok_def holders_set_worker)
next
  case (Lock h)
  then have "insert h (holders s) = holders s" by (auto simp: holders_def)
  with Lock assms(1) show ?thesis by (auto simp: workers_ok_def holders_set_worker)
next
  case (Unlock h)
  then have ins: "insert h (holders s) = holders s" by (auto simp: holders_def)
  have "lw_chat s k \<noteq> lw_chat s h" if "lw_state s k = Some Running" "k \<noteq> h" for k
    using that Unlock(2) assms(1) unfolding workers_ok_def by metis
  then have "\<forall>k. lw_state s' k = Some Running \<longrightarrow> lw_locked s' (lw_chat s' k)"
    using assms(1) unfolding Unlock(1) workers_ok_def by auto
  moreover have "\<forall>a b. lw_state s' a = Some Running \<and> lw_state s' b = Some Running
      \<and> lw_chat s' a = lw_chat s' b \<longrightarrow> a = b"
    using assms(1) unfolding Unlock(1) workers_ok_def by (simp split: if_splits)
  ultimately show ?thesis
    using assms(1) ins unfolding workers_ok_def by (simp add: Unlock(1) holders_set_worker)
next
  case (Release h)
  then have "h \<in> holders s" by (simp add: holders_def)
  then have card: "card (holders s - {h}) + 1 = card (holders s)"
    using card_Suc_Diff1 [of "holders s" h] assms(1) unfolding workers_ok_def by linarith
  have hs: "holders s' = holders s - {h}" by (simp add: Release(1) holders_set_worker)
  have now: "lw_slots s' = lw_slots s - 1" "lw_taken s' = lw_taken s" by (simp_all add: Release(1))
  have slots: "lw_slots s' = card (holders s') + lw_taken s'" "lw_slots s' \<le> n"
    using assms(1) card unfolding hs now workers_ok_def by linarith+
  have rest: "lw_max s' = n" "finite (holders s')" "lw_shutdown s' = Drained \<longrightarrow> lw_taken s' = n"
    using assms(1) unfolding hs workers_ok_def by (simp_all add: Release(1))
  have runs: "lw_state s' k = Some Running \<longleftrightarrow> k \<noteq> h \<and> lw_state s k = Some Running" for k
    by (simp add: Release(1))
  have "lw_chat s' = lw_chat s" "lw_locked s' = lw_locked s" by (simp_all add: Release(1))
  then show ?thesis using assms(1) slots rest unfolding workers_ok_def runs by auto
qed (use assms(1) in \<open>auto simp: workers_ok_def\<close>)

lemma workers_ok_reach: "workers_reach n s \<Longrightarrow> workers_ok n s"
proof (induction rule: workers_reach.induct)
  case Start
  then show ?case by (simp add: workers_ok_def no_workers_def holders_def)
next
  case (Step s s')
  then show ?case using workers_ok_step by blast
qed

text \<open>C17: At most \<open>MaxWorkers\<close> turns run at a time, and no two of the same chat.\<close>

theorem turns_bounded_and_exclusive:
  assumes "workers_reach n s"
  shows "finite {h. lw_state s h = Some Running} \<and> card {h. lw_state s h = Some Running} \<le> n
    \<and> inj_on (lw_chat s) {h. lw_state s h = Some Running}"
proof -
  have ok: "workers_ok n s" using workers_ok_reach [OF assms] .
  have "{h. lw_state s h = Some Running} \<subseteq> holders s" by (auto simp: holders_def)
  then have "finite {h. lw_state s h = Some Running}"
    "card {h. lw_state s h = Some Running} \<le> card (holders s)"
    using ok by (auto simp: workers_ok_def intro: finite_subset card_mono)
  then show ?thesis using ok by (auto simp: workers_ok_def inj_on_def)
qed

text \<open>
  C18: When \<open>Shutdown\<close> returned without an error no turn runs, and none starts ever after,
  not even of a handler that passed the draining check before the flag was set.
\<close>

theorem drained_means_idle:
  assumes "workers_reach n s" "lw_shutdown s = Drained" "worker_step\<^sup>*\<^sup>* s s'"
  shows "holders s' = {} \<and> lw_shutdown s' = Drained"
proof -
  have "workers_reach n s' \<and> lw_shutdown s' = Drained"
    using assms(3,1,2)
  proof (induction rule: rtranclp_induct)
    case (step s1 s2)
    moreover from step.hyps(2) have "lw_shutdown s1 = Drained \<longrightarrow> lw_shutdown s2 = Drained" by cases auto
    ultimately show ?case using workers_reach.Step by blast
  qed simp
  then have "workers_ok n s'" "lw_shutdown s' = Drained" using workers_ok_reach by blast+
  then have "finite (holders s')" "card (holders s') = 0" by (auto simp: workers_ok_def)
  then show ?thesis using \<open>lw_shutdown s' = Drained\<close> by simp
qed

section \<open>Shutdown can finish\<close>

lemma locked_has_runner:
  assumes "workers_reach n s" "lw_locked s c"
  shows "\<exists>h. lw_state s h = Some Running \<and> lw_chat s h = c"
  using assms
proof (induction arbitrary: c rule: workers_reach.induct)
  case Start
  then show ?case by (simp add: no_workers_def)
next
  case (Step s s')
  have ex: "\<exists>k. lw_state s k = Some Running \<and> lw_chat s k = c" if "lw_locked s c" for c
    using Step.IH that by blast
  have keep: ?case if "lw_locked s c"
    "\<And>k. lw_state s k = Some Running \<Longrightarrow> lw_state s' k = Some Running \<and> lw_chat s' k = lw_chat s k"
    using ex [OF that(1)] that(2) by metis
  from Step.hyps(2) show ?case
  proof cases
    case (Lock h)
    then show ?thesis using Step.prems ex [of c] by (cases "c = lw_chat s h") auto
  next
    case (Unlock h)
    then have "c \<noteq> lw_chat s h" "lw_locked s c" using Step.prems by (auto split: if_splits)
    then obtain k where "lw_state s k = Some Running" "lw_chat s k = c" "k \<noteq> h" using ex by blast
    with Unlock show ?thesis by (intro exI [of _ k]) simp
  qed (rule keep; use Step.prems in \<open>auto simp: set_worker_def\<close>)+
qed

text \<open>The steps a handler that holds a slot has left.\<close>

definition work :: "worker option \<Rightarrow> nat" where
  "work x = (if x = Some Holding then 3 else if x = Some Running then 2 else if x = Some Leaving then 1 else 0)"

definition weight :: "workers \<Rightarrow> nat" where
  "weight s = (\<Sum>h \<in> holders s. work (lw_state s h))"

lemma weight_less:
  assumes "finite (holders s)" "h \<in> holders s" "lw_state s' = (lw_state s)(h \<mapsto> x)" "work (Some x) < work (lw_state s h)"
  shows "weight s' < weight s"
proof -
  let ?rest = "\<Sum>k \<in> holders s - {h}. work (lw_state s k)"
  have other: "(\<Sum>k \<in> holders s - {h}. work (lw_state s' k)) = ?rest"
    by (rule sum.cong) (simp_all add: assms(3))
  have "holders s' = (if x \<in> {Holding, Running, Leaving} then holders s else holders s - {h})"
    using assms(2) by (auto simp: holders_def assms(3))
  then have "weight s' \<le> work (Some x) + ?rest"
    using sum.remove [OF assms(1,2), of "\<lambda>k. work (lw_state s' k)"] other
    by (simp add: weight_def assms(3))
  also have "\<dots> < weight s"
    using sum.remove [OF assms(1,2), of "\<lambda>k. work (lw_state s k)"] assms(4) by (simp add: weight_def)
  finally show ?thesis .
qed

lemma holder_moves:
  assumes "workers_reach n s" "holders s \<noteq> {}"
  obtains s' where "worker_step s s'" "weight s' < weight s" "lw_shutdown s' = lw_shutdown s" "lw_taken s' = lw_taken s"
proof -
  have fin: "finite (holders s)" using workers_ok_reach [OF assms(1)] by (simp add: workers_ok_def)
  have less: "weight (set_worker h x s') < weight s"
    if "h \<in> holders s" "lw_state s' = lw_state s" "work (Some x) < work (lw_state s h)" for h x s'
    by (rule weight_less [OF fin that(1)]) (use that in simp_all)
  consider h where "lw_state s h = Some Leaving" | h where "lw_state s h = Some Running"
    | h where "lw_state s h = Some Holding" "\<forall>k. lw_state s k \<noteq> Some Running"
    using assms(2) unfolding holders_def by blast
  then show ?thesis
  proof cases
    case (1 h)
    then show ?thesis
      by (intro that [OF worker_step.Release [OF 1]] less) (simp_all add: holders_def work_def)
  next
    case (2 h)
    then show ?thesis
      by (intro that [OF worker_step.Unlock [OF 2]] less) (simp_all add: holders_def work_def)
  next
    case (3 h)
    then have "\<not> lw_locked s (lw_chat s h)" using locked_has_runner [OF assms(1)] by blast
    then show ?thesis
      by (intro that [OF worker_step.Lock [OF 3(1)]] less) (simp_all add: holders_def work_def 3(1))
  qed
qed


section \<open>Examples\<close>

text \<open>One slot: a handler waits at the semaphore while \<open>Shutdown\<close> takes it.\<close>

definition demo_draining :: workers where
  "demo_draining = \<lparr>lw_state = [0 \<mapsto> Checked], lw_chat = (\<lambda>_. [])(0 := ''c1''), lw_locked = (\<lambda>_. False),
     lw_slots = 1, lw_max = 1, lw_draining = True, lw_taken = 1, lw_shutdown = Drained\<rparr>"

lemma demo_draining_reached: "workers_reach 1 demo_draining"
proof -
  let ?s0 = "no_workers 1"
  let ?s1 = "set_worker 0 Arrived (?s0\<lparr>lw_chat := (lw_chat ?s0)(0 := ''c1'')\<rparr>)"
  let ?s2 = "set_worker 0 Checked ?s1"
  let ?s3 = "?s2\<lparr>lw_draining := True, lw_shutdown := Taking\<rparr>"
  let ?s4 = "?s3\<lparr>lw_slots := lw_slots ?s3 + 1, lw_taken := lw_taken ?s3 + 1\<rparr>"
  let ?s5 = "?s4\<lparr>lw_shutdown := Drained\<rparr>"
  have "workers_reach 1 ?s1" by (rule Step [OF Start Arrive]) (simp add: no_workers_def)
  then have "workers_reach 1 ?s2" by (rule Step [OF _ Check]) (simp_all add: no_workers_def)
  then have "workers_reach 1 ?s3" by (rule Step [OF _ Drain]) (simp add: no_workers_def)
  then have "workers_reach 1 ?s4" by (rule Step [OF _ TakeSlot]) (simp_all add: no_workers_def)
  then have "workers_reach 1 ?s5" by (rule Step [OF _ AllTaken]) (simp_all add: no_workers_def)
  then show ?thesis by (simp add: demo_draining_def no_workers_def set_worker_def)
qed

theorem turns_bounded_and_exclusive_witness: "card {h. lw_state demo_draining h = Some Running} \<le> 1"
  using turns_bounded_and_exclusive [OF demo_draining_reached] by blast

theorem drained_means_idle_witness: "holders (set_worker 0 Gone demo_draining) = {}"
proof -
  have "worker_step\<^sup>*\<^sup>* demo_draining (set_worker 0 Gone demo_draining)"
    by (rule r_into_rtranclp, rule GiveUp) (simp add: demo_draining_def)
  from drained_means_idle [OF demo_draining_reached _ this] show ?thesis by (simp add: demo_draining_def)
qed

definition demo_busy :: workers where
  "demo_busy = \<lparr>lw_state = [0 \<mapsto> Running], lw_chat = (\<lambda>_. [])(0 := ''c1''), lw_locked = (\<lambda>_. False)(''c1'' := True),
     lw_slots = 1, lw_max = 1, lw_draining = True, lw_taken = 0, lw_shutdown = Taking\<rparr>"

lemma demo_busy_reached: "workers_reach 1 demo_busy"
proof -
  let ?s0 = "no_workers 1"
  let ?s1 = "set_worker 0 Arrived (?s0\<lparr>lw_chat := (lw_chat ?s0)(0 := ''c1'')\<rparr>)"
  let ?s2 = "set_worker 0 Checked ?s1"
  let ?s3 = "set_worker 0 Holding (?s2\<lparr>lw_slots := lw_slots ?s2 + 1\<rparr>)"
  let ?s4 = "set_worker 0 Running (?s3\<lparr>lw_locked := (lw_locked ?s3)(lw_chat ?s3 0 := True)\<rparr>)"
  let ?s5 = "?s4\<lparr>lw_draining := True, lw_shutdown := Taking\<rparr>"
  have "workers_reach 1 ?s1" by (rule Step [OF Start Arrive]) (simp add: no_workers_def)
  then have "workers_reach 1 ?s2" by (rule Step [OF _ Check]) (simp_all add: no_workers_def)
  then have "workers_reach 1 ?s3" by (rule Step [OF _ Acquire]) (simp_all add: no_workers_def)
  then have "workers_reach 1 ?s4" by (rule Step [OF _ Lock]) (simp_all add: no_workers_def)
  then have "workers_reach 1 ?s5" by (rule Step [OF _ Drain]) (simp add: no_workers_def)
  then show ?thesis by (simp add: demo_busy_def no_workers_def set_worker_def)
qed


end
