(* ===== verification/Plugins.thy ===== *)
theory Plugins
  imports Prelude
begin

text \<open>
  The plugin host, \<open>internal/infra/loader\<close>: loading shared objects (\<open>loader.go\<close>), the registry
  (\<open>registry.go\<close>) and the lifecycle in the fixed order of kinds (\<open>manager.go\<close>). What
  \<open>plugin.Open\<close> finds in a file is a parameter; a pointer to a plugin is a number.
\<close>

abbreviation "PluginKindTransport \<equiv> ''transport''"
abbreviation "PluginKindChannel \<equiv> ''channel''"
abbreviation "PluginKindLLM \<equiv> ''llm''"
abbreviation "PluginKindTool \<equiv> ''tool''"
abbreviation "PluginKindStore \<equiv> ''store''"
abbreviation "PluginKindMiddleware \<equiv> ''middleware''"
abbreviation "PluginKindSandbox \<equiv> ''sandbox''"

record plugin =
  pl_ref :: nat
  pl_id :: string
  pl_kind :: string
  pl_implements :: "string list"

section \<open>Registry\<close>

record registry =
  rg_by_id :: "string \<Rightarrow> plugin option"
  rg_by_kind :: "string \<Rightarrow> plugin list"
  rg_config_ids :: "plugin \<Rightarrow> string option"

definition new_registry :: registry where
  "new_registry = \<lparr>rg_by_id = (\<lambda>_. None), rg_by_kind = (\<lambda>_. []), rg_config_ids = (\<lambda>_. None)\<rparr>"

definition remove_plugin :: "plugin \<Rightarrow> registry \<Rightarrow> registry" where
  "remove_plugin old r = r\<lparr>rg_by_kind := (rg_by_kind r)(pl_kind old :=
       filter (\<lambda>p. p \<noteq> old) (rg_by_kind r (pl_kind old))),
     rg_config_ids := (rg_config_ids r)(old := None)\<rparr>"

definition register :: "plugin \<Rightarrow> string \<Rightarrow> registry \<Rightarrow> registry" where
  "register p override_id r =
     (let i = (if override_id \<noteq> [] then override_id else pl_id p);
          r1 = (case rg_by_id r i of None \<Rightarrow> r | Some old \<Rightarrow> remove_plugin old r)
      in r1\<lparr>rg_by_id := (rg_by_id r1)(i \<mapsto> p),
           rg_by_kind := (rg_by_kind r1)(pl_kind p := rg_by_kind r1 (pl_kind p) @ [p]),
           rg_config_ids := (rg_config_ids r1)(p \<mapsto> i)\<rparr>)"

text \<open>\<open>ConfigID\<close>: the empty string for a plugin that is not registered.\<close>

definition config_id :: "registry \<Rightarrow> plugin \<Rightarrow> string" where
  "config_id r p = (case rg_config_ids r p of None \<Rightarrow> [] | Some i \<Rightarrow> i)"

section \<open>Loader\<close>

record plugin_entry =
  pe_path :: string
  pe_kind :: string
  pe_config :: "string option"
  pe_id :: string

datatype 'a symbol = Missing | WrongType | Symbol 'a

text \<open>
  A shared object: the kind its \<open>Manifest\<close> function returns and the plugin its \<open>NewPlugin\<close>
  function makes at an address; \<open>None\<close> is a panic inside the function.
\<close>

record shared_object =
  so_manifest :: "string option symbol"
  so_new :: "(nat \<Rightarrow> plugin option) symbol"

datatype load_error = OpenFailed | NoManifest | BadManifest | KindMismatch string string
  | NoConstructor | BadConstructor | LiveKindMismatch string string | NoInterface string
  | UnknownKind string | Panicked

definition assert_kind_interface :: "plugin \<Rightarrow> string \<Rightarrow> (load_error + unit)" where
  "assert_kind_interface p k =
     (if k \<in> set [PluginKindStore, PluginKindTransport, PluginKindChannel, PluginKindLLM,
          PluginKindSandbox, PluginKindTool, PluginKindMiddleware]
      then if k \<in> set (pl_implements p) then Inr () else Inl (NoInterface k)
      else Inl (UnknownKind k))"

definition load_one :: "(string \<Rightarrow> shared_object option) \<Rightarrow> nat \<Rightarrow> string \<Rightarrow> string \<Rightarrow> load_error + plugin" where
  "load_one lib addr path expected = (case lib path of
       None \<Rightarrow> Inl OpenFailed
     | Some so \<Rightarrow> (case so_manifest so of
         Missing \<Rightarrow> Inl NoManifest
       | WrongType \<Rightarrow> Inl BadManifest
       | Symbol None \<Rightarrow> Inl Panicked
       | Symbol (Some kind) \<Rightarrow>
           if kind \<noteq> expected then Inl (KindMismatch kind expected)
           else case so_new so of
             Missing \<Rightarrow> Inl NoConstructor
           | WrongType \<Rightarrow> Inl BadConstructor
           | Symbol f \<Rightarrow> (case f addr of
               None \<Rightarrow> Inl Panicked
             | Some p \<Rightarrow>
                 if pl_kind p \<noteq> kind then Inl (LiveKindMismatch (pl_kind p) kind)
                 else case assert_kind_interface p expected of
                   Inl e \<Rightarrow> Inl e
                 | Inr _ \<Rightarrow> Inr p)))"

text \<open>Entry \<open>i\<close> is loaded at address \<open>addr + i\<close>; the first failure ends the loop.\<close>

fun load_into :: "(string \<Rightarrow> shared_object option) \<Rightarrow> nat \<Rightarrow> plugin_entry list \<Rightarrow> registry
    \<Rightarrow> (load_error + unit) \<times> registry" where
  "load_into lib addr [] r = (Inr (), r)"
| "load_into lib addr (e # es) r = (case load_one lib addr (pe_path e) (pe_kind e) of
       Inl err \<Rightarrow> (Inl err, r)
     | Inr p \<Rightarrow> load_into lib (Suc addr) es (register p (pe_id e) r))"

section \<open>Manager\<close>

definition kind_init_order :: "string list" where
  "kind_init_order = [PluginKindStore, PluginKindTransport, PluginKindLLM, PluginKindSandbox,
     PluginKindTool, PluginKindMiddleware, PluginKindChannel]"

definition lifecycle_order :: "registry \<Rightarrow> plugin list" where
  "lifecycle_order r = concat (map (rg_by_kind r) kind_init_order)"

text \<open>What a plugin does when it is initialised, started or stopped: an error or none.\<close>

record 'w lifecycle =
  li_init :: "plugin \<Rightarrow> string \<Rightarrow> string option \<Rightarrow> 'w \<Rightarrow> string option \<times> 'w"
  li_start :: "plugin \<Rightarrow> 'w \<Rightarrow> string option \<times> 'w"
  li_stop :: "plugin \<Rightarrow> 'w \<Rightarrow> string option \<times> 'w"

record 'w manager =
  mg_started :: "plugin list"
  mg_world :: 'w

fun init_plugins :: "'w lifecycle \<Rightarrow> registry \<Rightarrow> (string \<Rightarrow> string option) \<Rightarrow> plugin list \<Rightarrow> 'w
    \<Rightarrow> (string + unit) \<times> 'w" where
  "init_plugins L r cfgs [] w = (Inr (), w)"
| "init_plugins L r cfgs (p # ps) w =
     (let i = config_id r p in case li_init L p i (cfgs i) w of
        (Some e, w1) \<Rightarrow> (Inl e, w1)
      | (None, w1) \<Rightarrow> init_plugins L r cfgs ps w1)"

definition manager_init :: "'w lifecycle \<Rightarrow> registry \<Rightarrow> (string \<Rightarrow> string option) \<Rightarrow> 'w manager
    \<Rightarrow> (string + unit) \<times> 'w manager" where
  "manager_init L r cfgs m =
     (let (res, w) = init_plugins L r cfgs (lifecycle_order r) (mg_world m) in (res, m\<lparr>mg_world := w\<rparr>))"

fun stop_plugins :: "'w lifecycle \<Rightarrow> plugin list \<Rightarrow> 'w \<Rightarrow> string list \<times> 'w" where
  "stop_plugins L [] w = ([], w)"
| "stop_plugins L (p # ps) w =
     (let (e, w1) = li_stop L p w; (es, w2) = stop_plugins L ps w1
      in ((case e of None \<Rightarrow> [] | Some x \<Rightarrow> [x]) @ es, w2))"

text \<open>\<open>Stop\<close>: the errors of all plugins, joined; nil when there are none.\<close>

definition manager_stop :: "'w lifecycle \<Rightarrow> 'w manager \<Rightarrow> (string list + unit) \<times> 'w manager" where
  "manager_stop L m =
     (let (es, w) = stop_plugins L (rev (mg_started m)) (mg_world m)
      in (if es = [] then Inr () else Inl es, \<lparr>mg_started = [], mg_world = w\<rparr>))"

fun start_plugins :: "'w lifecycle \<Rightarrow> plugin list \<Rightarrow> 'w manager \<Rightarrow> (string + unit) \<times> 'w manager" where
  "start_plugins L [] m = (Inr (), m)"
| "start_plugins L (p # ps) m = (case li_start L p (mg_world m) of
       (Some e, w) \<Rightarrow> (Inl e, snd (manager_stop L (m\<lparr>mg_world := w\<rparr>)))
     | (None, w) \<Rightarrow> start_plugins L ps (m\<lparr>mg_started := mg_started m @ [p], mg_world := w\<rparr>))"

definition manager_start :: "'w lifecycle \<Rightarrow> registry \<Rightarrow> 'w manager \<Rightarrow> (string + unit) \<times> 'w manager" where
  "manager_start L r m = start_plugins L (lifecycle_order r) m"

section \<open>The registry is consistent\<close>

text \<open>
  The lists by kind hold each registered plugin once, under its own kind, and the identifier
  of a plugin leads back to it.
\<close>

definition registry_ok :: "registry \<Rightarrow> bool" where
  "registry_ok r \<longleftrightarrow> (\<forall>i p. rg_by_id r i = Some p \<longleftrightarrow> rg_config_ids r p = Some i)
     \<and> (\<forall>k. distinct (rg_by_kind r k))
     \<and> (\<forall>k p. p \<in> set (rg_by_kind r k) \<longleftrightarrow> pl_kind p = k \<and> rg_config_ids r p \<noteq> None)"

lemma new_registry_ok: "registry_ok new_registry"
  by (simp add: registry_ok_def new_registry_def)

definition effective_id :: "plugin \<Rightarrow> string \<Rightarrow> string" where
  "effective_id p override_id = (if override_id \<noteq> [] then override_id else pl_id p)"

lemma register_fields:
  assumes "registry_ok r" "rg_config_ids r p = None"
  shows "rg_by_id (register p o_id r) = (rg_by_id r)(effective_id p o_id \<mapsto> p)"
    "rg_config_ids (register p o_id r) = (\<lambda>q. if q = p then Some (effective_id p o_id)
       else if rg_config_ids r q = Some (effective_id p o_id) then None else rg_config_ids r q)"
    "rg_by_kind (register p o_id r) = (\<lambda>k. filter (\<lambda>q. rg_config_ids r q \<noteq> Some (effective_id p o_id)) (rg_by_kind r k)
       @ (if k = pl_kind p then [p] else []))"
proof -
  let ?i = "effective_id p o_id"
  have eq: "rg_by_id r ?i = Some q \<longleftrightarrow> rg_config_ids r q = Some ?i" for q
    using assms(1) by (simp add: registry_ok_def)
  have mem: "q \<in> set (rg_by_kind r k) \<Longrightarrow> pl_kind q = k" for q k
    using assms(1) by (simp add: registry_ok_def)
  show "rg_by_id (register p o_id r) = (rg_by_id r)(?i \<mapsto> p)"
    by (simp add: register_def effective_id_def Let_def remove_plugin_def split: option.splits)
  show "rg_config_ids (register p o_id r) = (\<lambda>q. if q = p then Some ?i
       else if rg_config_ids r q = Some ?i then None else rg_config_ids r q)"
  proof (cases "rg_by_id r ?i")
    case None
    then have "rg_config_ids r q \<noteq> Some ?i" for q using eq by auto
    with None show ?thesis by (auto simp: register_def effective_id_def [symmetric] Let_def fun_eq_iff)
  next
    case (Some old)
    then have "rg_config_ids r q = Some ?i \<longleftrightarrow> q = old" for q using eq [of q] by auto
    with Some show ?thesis
      by (auto simp: register_def effective_id_def [symmetric] Let_def remove_plugin_def fun_eq_iff)
  qed
  show "rg_by_kind (register p o_id r) = (\<lambda>k. filter (\<lambda>q. rg_config_ids r q \<noteq> Some ?i) (rg_by_kind r k)
       @ (if k = pl_kind p then [p] else []))"
  proof (cases "rg_by_id r ?i")
    case None
    then have "filter (\<lambda>q. rg_config_ids r q \<noteq> Some ?i) (rg_by_kind r k) = rg_by_kind r k" for k
      using eq by (intro filter_True) auto
    with None show ?thesis by (auto simp: register_def effective_id_def [symmetric] Let_def fun_eq_iff)
  next
    case (Some old)
    then have "(\<lambda>q. rg_config_ids r q \<noteq> Some ?i) = (\<lambda>q. q \<noteq> old)" using eq by (metis option.inject)
    moreover have "filter (\<lambda>q. q \<noteq> old) (rg_by_kind r k) = rg_by_kind r k" if "k \<noteq> pl_kind old" for k
      using mem that by (intro filter_True) blast
    ultimately show ?thesis using Some
      by (auto simp: register_def effective_id_def [symmetric] Let_def remove_plugin_def fun_eq_iff)
  qed
qed

lemma registered_ok:
  assumes "registry_ok r" "rg_config_ids r p = None"
  shows "registry_ok (register p o_id r)"
proof -
  note f = register_fields [OF assms, of o_id]
  have a: "rg_by_id r j = Some q \<longleftrightarrow> rg_config_ids r q = Some j" for j q
    using assms(1) by (simp add: registry_ok_def)
  have b: "distinct (rg_by_kind r k)" "q \<in> set (rg_by_kind r k) \<longleftrightarrow> pl_kind q = k \<and> rg_config_ids r q \<noteq> None" for k q
    using assms(1) by (auto simp: registry_ok_def)
  have "rg_by_id (register p o_id r) j = Some q \<longleftrightarrow> rg_config_ids (register p o_id r) q = Some j" for j q
    using a [of j q] assms(2) by (auto simp: f)
  moreover have "distinct (rg_by_kind (register p o_id r) k)" for k
    using b assms(2) by (auto simp: f)
  moreover have "q \<in> set (rg_by_kind (register p o_id r) k)
      \<longleftrightarrow> pl_kind q = k \<and> rg_config_ids (register p o_id r) q \<noteq> None" for k q
    using b(2) [of q k] assms(2) by (auto simp: f split: if_splits)
  ultimately show ?thesis unfolding registry_ok_def by blast
qed

text \<open>\<open>NewPlugin\<close> returns a new object: its address was not in use.\<close>

definition fresh_objects :: "(string \<Rightarrow> shared_object option) \<Rightarrow> bool" where
  "fresh_objects lib \<longleftrightarrow> (\<forall>path so f addr p.
     lib path = Some so \<and> so_new so = Symbol f \<and> f addr = Some p \<longrightarrow> pl_ref p = addr)"

definition refs_below :: "nat \<Rightarrow> registry \<Rightarrow> bool" where
  "refs_below n r \<longleftrightarrow> (\<forall>p. rg_config_ids r p \<noteq> None \<longrightarrow> pl_ref p < n)"

lemma load_one_ok:
  assumes "load_one lib addr path kind = Inr p"
  shows "pl_kind p = kind \<and> kind \<in> set (pl_implements p) \<and> (fresh_objects lib \<longrightarrow> pl_ref p = addr)"
  using assms
  by (auto simp: load_one_def assert_kind_interface_def fresh_objects_def
      split: option.splits symbol.splits if_splits sum.splits)

text \<open>What loading establishes for each registered plugin: it implements its kind.\<close>

definition plugins_typed :: "registry \<Rightarrow> bool" where
  "plugins_typed r \<longleftrightarrow> (\<forall>p. rg_config_ids r p \<noteq> None \<longrightarrow> pl_kind p \<in> set (pl_implements p))"

lemma load_into_ok:
  assumes "fresh_objects lib"
  shows "load_into lib addr es r = (res, r') \<Longrightarrow> registry_ok r \<Longrightarrow> refs_below addr r \<Longrightarrow> plugins_typed r
    \<Longrightarrow> registry_ok r' \<and> plugins_typed r'"
proof (induction es arbitrary: addr r)
  case (Cons e es)
  show ?case
  proof (cases "load_one lib addr (pe_path e) (pe_kind e)")
    case (Inr p)
    note p = load_one_ok [OF Inr]
    then have ref: "pl_ref p = addr" using assms by simp
    then have new: "rg_config_ids r p = None" using Cons.prems(3) unfolding refs_below_def by force
    note f = register_fields [OF Cons.prems(2) new, of "pe_id e"]
    have "refs_below (Suc addr) (register p (pe_id e) r)"
      using Cons.prems(3) ref unfolding refs_below_def f by (auto intro: less_SucI)
    moreover have "plugins_typed (register p (pe_id e) r)"
      using Cons.prems(4) p unfolding plugins_typed_def f by auto
    ultimately show ?thesis
      using Cons.IH [OF _ registered_ok [OF Cons.prems(2) new]] Cons.prems(1) Inr by simp
  qed (use Cons.prems in simp)
qed simp

definition kind_rank :: "plugin \<Rightarrow> nat" where
  "kind_rank p = length (takeWhile (\<lambda>k. k \<noteq> pl_kind p) kind_init_order)"

lemma distinct_concat_kinds:
  assumes "\<And>k. distinct (f k)" "\<And>k p. p \<in> set (f k) \<Longrightarrow> pl_kind p = k" "distinct ks"
  shows "distinct (concat (map f ks))"
  using assms(3)
proof (induction ks)
  case (Cons k ks)
  have "k = k'" if "p \<in> set (f k)" "p \<in> set (f k')" for p k'
    using assms(2) [OF that(1)] assms(2) [OF that(2)] by simp
  then have "set (f k) \<inter> set (concat (map f ks)) = {}" using Cons.prems by auto
  then show ?case using Cons assms(1) by simp
qed simp

lemma ranked_concat:
  assumes "sorted_wrt (\<lambda>a b. g a \<le> g b) ks" "\<And>k p. p \<in> set (f k) \<Longrightarrow> rank p = (g k :: nat)"
  shows "sorted (map rank (concat (map f ks)))"
  using assms(1)
proof (induction ks)
  case (Cons k ks)
  have "map rank (f k) = map (\<lambda>_. g k) (f k)" using assms(2) by simp
  then have "sorted (map rank (f k))" by (simp add: map_replicate_const)
  moreover have "sorted (map rank (concat (map f ks)))" using Cons by simp
  moreover have "rank x \<le> rank y" if x: "x \<in> set (f k)" and y: "y \<in> set (concat (map f ks))" for x y
  proof -
    obtain k' where k': "k' \<in> set ks" "y \<in> set (f k')" using y by auto
    then have "g k \<le> g k'" using Cons.prems by simp
    then show ?thesis using assms(2) [OF x] assms(2) [OF k'(2)] by simp
  qed
  ultimately show ?case by (simp add: sorted_append) blast
qed simp

lemma lifecycle_order_ok:
  assumes "registry_ok r"
  shows "distinct (lifecycle_order r)" "sorted (map kind_rank (lifecycle_order r))"
    "set (lifecycle_order r) = {p. rg_config_ids r p \<noteq> None \<and> pl_kind p \<in> set kind_init_order}"
proof -
  have k: "distinct (rg_by_kind r k)" "p \<in> set (rg_by_kind r k) \<longleftrightarrow> pl_kind p = k \<and> rg_config_ids r p \<noteq> None" for k p
    using assms by (auto simp: registry_ok_def)
  have d: "distinct kind_init_order" by (simp add: kind_init_order_def)
  show "distinct (lifecycle_order r)"
    unfolding lifecycle_order_def by (rule distinct_concat_kinds) (use k d in auto)
  let ?g = "\<lambda>k. length (takeWhile (\<lambda>j. j \<noteq> k) kind_init_order)"
  show "sorted (map kind_rank (lifecycle_order r))"
    unfolding lifecycle_order_def
    by (rule ranked_concat [where g = ?g]) (use k in \<open>auto simp: kind_rank_def kind_init_order_def\<close>)
  show "set (lifecycle_order r) = {p. rg_config_ids r p \<noteq> None \<and> pl_kind p \<in> set kind_init_order}"
    unfolding lifecycle_order_def using k by auto
qed

text \<open>
  C20: Whatever files are loaded, built-in plugins replaced and entries failed, the registry
  stays consistent: each registered plugin implements its kind, and appears exactly once in
  the lifecycle order, which goes from stores to channels by kind.
\<close>

theorem loaded_plugins_in_order:
  assumes "fresh_objects lib" "registry_ok r" "refs_below addr r" "plugins_typed r"
    and "load_into lib addr es r = (res, r')"
  shows "registry_ok r' \<and> distinct (lifecycle_order r') \<and> sorted (map kind_rank (lifecycle_order r'))
    \<and> (\<forall>p. rg_by_id r' (config_id r' p) = Some p \<and> pl_kind p \<in> set kind_init_order \<longrightarrow> p \<in> set (lifecycle_order r'))
    \<and> (\<forall>p \<in> set (lifecycle_order r'). rg_by_id r' (config_id r' p) = Some p \<and> pl_kind p \<in> set (pl_implements p))"
proof -
  have ok: "registry_ok r'" "plugins_typed r'" using load_into_ok [OF assms(1,5,2,3,4)] by auto
  have a: "rg_by_id r' j = Some q \<longleftrightarrow> rg_config_ids r' q = Some j" for j q
    using ok(1) by (simp add: registry_ok_def)
  show ?thesis
    using ok lifecycle_order_ok [OF ok(1)] a
    by (auto simp: config_id_def plugins_typed_def split: option.splits)
qed

text \<open>An identifier is served by a plugin of a kind; a later entry may replace the plugin.\<close>

definition serves :: "registry \<Rightarrow> string \<Rightarrow> string \<Rightarrow> bool" where
  "serves r i k \<longleftrightarrow> (\<exists>p. rg_by_id r i = Some p \<and> pl_kind p = k \<and> k \<in> set (pl_implements p))"

lemma register_by_id: "rg_by_id (register p o_id r) = (rg_by_id r)(effective_id p o_id \<mapsto> p)"
  by (simp add: register_def effective_id_def Let_def remove_plugin_def split: option.splits)

lemma load_into_keeps:
  "load_into lib addr es r = (Inr (), r') \<Longrightarrow> serves r i k \<Longrightarrow> \<forall>e \<in> set es. pe_id e \<noteq> []
    \<Longrightarrow> \<forall>e \<in> set es. pe_id e = i \<longrightarrow> pe_kind e = k \<Longrightarrow> serves r' i k"
proof (induction es arbitrary: addr r)
  case (Cons e es)
  then obtain p where p: "load_one lib addr (pe_path e) (pe_kind e) = Inr p"
    "load_into lib (Suc addr) es (register p (pe_id e) r) = (Inr (), r')"
    by (auto split: sum.splits)
  have "serves (register p (pe_id e) r) i k"
    using Cons.prems load_one_ok [OF p(1)] by (auto simp: serves_def register_by_id effective_id_def)
  then show ?case using Cons.IH [OF p(2)] Cons.prems(3,4) by simp
qed simp

lemma load_into_serves:
  assumes "load_into lib addr es r = (Inr (), r')" "\<forall>e \<in> set es. pe_id e \<noteq> []"
    "\<forall>e \<in> set es. \<forall>e' \<in> set es. pe_id e = pe_id e' \<longrightarrow> pe_kind e = pe_kind e'" "e \<in> set es"
  shows "serves r' (pe_id e) (pe_kind e)"
  using assms
proof (induction es arbitrary: addr r)
  case (Cons x es)
  obtain p where p: "load_one lib addr (pe_path x) (pe_kind x) = Inr p"
    "load_into lib (Suc addr) es (register p (pe_id x) r) = (Inr (), r')"
    using Cons.prems(1) by (auto split: sum.splits)
  show ?case
  proof (cases "e \<in> set es")
    case True
    have "\<forall>e \<in> set es. pe_id e \<noteq> []"
      "\<forall>e \<in> set es. \<forall>e' \<in> set es. pe_id e = pe_id e' \<longrightarrow> pe_kind e = pe_kind e'"
      using Cons.prems(2,3) by (meson list.set_intros(2))+
    then show ?thesis by (rule Cons.IH [OF p(2) _ _ True])
  next
    case False
    then have "e = x" using Cons.prems(4) by simp
    have "serves (register p (pe_id x) r) (pe_id x) (pe_kind x)"
      using Cons.prems(2) load_one_ok [OF p(1)] by (simp add: serves_def register_by_id effective_id_def)
    moreover have "\<forall>e \<in> set es. pe_id e \<noteq> []" "\<forall>e \<in> set es. pe_id e = pe_id x \<longrightarrow> pe_kind e = pe_kind x"
      using Cons.prems(2,3) by (meson list.set_intros)+
    ultimately show ?thesis unfolding \<open>e = x\<close> by (rule load_into_keeps [OF p(2)])
  qed
qed simp

section \<open>Starting and stopping\<close>

datatype event = Started plugin | StartFailed plugin | Stopped plugin

text \<open>The same plugins, recording what is called.\<close>

definition traced :: "'w lifecycle \<Rightarrow> ('w \<times> event list) lifecycle" where
  "traced L = \<lparr>li_init = (\<lambda>p i c (w, t). let (e, w1) = li_init L p i c w in (e, w1, t)),
     li_start = (\<lambda>p (w, t). let (e, w1) = li_start L p w
       in (e, w1, t @ [if e = None then Started p else StartFailed p])),
     li_stop = (\<lambda>p (w, t). let (e, w1) = li_stop L p w in (e, w1, t @ [Stopped p]))\<rparr>"

lemma stop_plugins_trace:
  "snd (snd (stop_plugins (traced L) ps (w, t))) = t @ map Stopped ps"
proof (induction ps arbitrary: w t)
  case (Cons p ps)
  obtain e w1 where s: "li_stop L p w = (e, w1)" by fastforce
  have "li_stop (traced L) p (w, t) = (e, w1, t @ [Stopped p])" by (simp add: traced_def s)
  then show ?case using Cons.IH [of w1 "t @ [Stopped p]"] by (simp add: split_beta)
qed simp

lemma manager_stop_trace:
  "snd (mg_world (snd (manager_stop (traced L) \<lparr>mg_started = ps, mg_world = (w, t)\<rparr>))) = t @ map Stopped (rev ps)"
  "mg_started (snd (manager_stop L' m)) = []"
  using stop_plugins_trace [of L "rev ps" w t] by (simp_all add: manager_stop_def split_beta)

lemma start_plugins_trace:
  assumes "start_plugins (traced L) ps \<lparr>mg_started = pre, mg_world = (w, t)\<rparr> = (res, m)"
  shows "(res = Inr () \<and> mg_started m = pre @ ps \<and> snd (mg_world m) = t @ map Started ps)
    \<or> (\<exists>a p b e. ps = a @ p # b \<and> res = Inl e \<and> mg_started m = []
         \<and> snd (mg_world m) = t @ map Started a @ [StartFailed p] @ map Stopped (rev (pre @ a)))"
  using assms
proof (induction ps arbitrary: pre w t)
  case (Cons p ps)
  obtain e w1 where s: "li_start L p w = (e, w1)" by fastforce
  show ?case
  proof (cases e)
    case None
    have "start_plugins (traced L) ps \<lparr>mg_started = pre @ [p], mg_world = (w1, t @ [Started p])\<rparr> = (res, m)"
      using Cons.prems None s by (simp add: traced_def)
    from Cons.IH [OF this] show ?thesis
    proof (elim disjE exE conjE)
      fix a q b x
      assume "ps = a @ q # b" "res = Inl x" "mg_started m = []" "snd (mg_world m) =
        (t @ [Started p]) @ map Started a @ [StartFailed q] @ map Stopped (rev ((pre @ [p]) @ a))"
      then show ?thesis by (intro disjI2 exI [of _ "p # a"] exI [of _ q] exI [of _ b] exI [of _ x]) simp
    qed simp
  next
    case (Some x)
    have "(res, m) = (Inl x, snd (manager_stop (traced L) \<lparr>mg_started = pre, mg_world = (w1, t @ [StartFailed p])\<rparr>))"
      using Cons.prems Some s by (simp add: traced_def)
    then show ?thesis
      by (intro disjI2, rule_tac x = "[]" in exI, rule_tac x = p in exI, rule_tac x = ps in exI, rule_tac x = x in exI)
        (simp add: manager_stop_trace)
  qed
qed auto

text \<open>
  Starting is all or nothing: every plugin is started in order, or the first one that fails
  is followed by stopping exactly those started before it, in reverse order. Stopping visits
  every started plugin in reverse order, whatever errors it meets.
\<close>

theorem start_all_or_stop_started:
  "let (res, m) = manager_start (traced L) r \<lparr>mg_started = [], mg_world = (w, [])\<rparr>; ps = lifecycle_order r
   in (res = Inr () \<and> snd (mg_world m) = map Started ps
        \<and> snd (mg_world (snd (manager_stop (traced L) m))) = map Started ps @ map Stopped (rev ps))
    \<or> (\<exists>a p b e. ps = a @ p # b \<and> res = Inl e \<and> mg_started m = []
        \<and> snd (mg_world m) = map Started a @ [StartFailed p] @ map Stopped (rev a))"
proof -
  obtain res m where s: "start_plugins (traced L) (lifecycle_order r) \<lparr>mg_started = [], mg_world = (w, [])\<rparr> = (res, m)"
    by fastforce
  obtain w' t where "mg_world m = (w', t)" by fastforce
  then have m: "m = \<lparr>mg_started = mg_started m, mg_world = (w', t)\<rparr>" by simp
  have "snd (mg_world (snd (manager_stop (traced L) m))) = t @ map Stopped (rev (mg_started m))"
    by (subst m) (rule manager_stop_trace(1))
  moreover have "t = snd (mg_world m)" using \<open>mg_world m = (w', t)\<close> by simp
  ultimately have "(res = Inr () \<and> snd (mg_world m) = map Started (lifecycle_order r)
        \<and> snd (mg_world (snd (manager_stop (traced L) m))) = map Started (lifecycle_order r)
            @ map Stopped (rev (lifecycle_order r)))
    \<or> (\<exists>a p b e. lifecycle_order r = a @ p # b \<and> res = Inl e \<and> mg_started m = []
        \<and> snd (mg_world m) = map Started a @ [StartFailed p] @ map Stopped (rev a))"
    using start_plugins_trace [OF s] by (elim disjE) simp_all
  then show ?thesis by (simp only: manager_start_def s Let_def prod.case)
qed

section \<open>Example\<close>

text \<open>A built-in tool that a shared object replaces.\<close>

definition demo_plugin :: "nat \<Rightarrow> string \<Rightarrow> plugin" where
  "demo_plugin n k = \<lparr>pl_ref = n, pl_id = k, pl_kind = k, pl_implements = [k]\<rparr>"

definition demo_lib :: "string \<Rightarrow> shared_object option" where
  "demo_lib path = (if path = ''web.so'' then Some \<lparr>so_manifest = Symbol (Some PluginKindTool),
     so_new = Symbol (\<lambda>n. Some (demo_plugin n PluginKindTool))\<rparr> else None)"

definition demo_registry :: registry where
  "demo_registry = register (demo_plugin 0 PluginKindTool) ''tool.web'' new_registry"

theorem loaded_plugins_in_order_witness:
  "\<exists>r'. load_into demo_lib 1 [\<lparr>pe_path = ''web.so'', pe_kind = PluginKindTool, pe_config = None,
       pe_id = ''tool.web''\<rparr>, \<lparr>pe_path = ''no.so'', pe_kind = PluginKindTool, pe_config = None,
       pe_id = ''tool.no''\<rparr>] demo_registry = (Inl OpenFailed, r')
     \<and> lifecycle_order r' = [demo_plugin 1 PluginKindTool] \<and> registry_ok r'"
proof -
  let ?es = "[\<lparr>pe_path = ''web.so'', pe_kind = PluginKindTool, pe_config = None, pe_id = ''tool.web''\<rparr>,
     \<lparr>pe_path = ''no.so'', pe_kind = PluginKindTool, pe_config = None, pe_id = ''tool.no''\<rparr>]"
  obtain res r' where l: "load_into demo_lib 1 ?es demo_registry = (res, r')" by fastforce
  have v: "fst (load_into demo_lib 1 ?es demo_registry) = Inl OpenFailed"
    "lifecycle_order (snd (load_into demo_lib 1 ?es demo_registry)) = [demo_plugin 1 PluginKindTool]"
    by code_simp+
  have "registry_ok demo_registry"
    unfolding demo_registry_def by (rule registered_ok [OF new_registry_ok]) (simp add: new_registry_def)
  moreover have "refs_below 1 demo_registry" "plugins_typed demo_registry" "fresh_objects demo_lib"
    by (auto simp: refs_below_def plugins_typed_def demo_registry_def register_def new_registry_def Let_def
        demo_plugin_def fresh_objects_def demo_lib_def split: if_splits)
  ultimately have "registry_ok r'" using loaded_plugins_in_order [OF _ _ _ _ l] by blast
  then show ?thesis using l v by simp
qed

end
