(* ===== verification/Config.thy ===== *)
theory Config
  imports Llm Render Plugins Complex_Main
begin

text \<open>
  The configuration file, \<open>internal/app/config/config.go\<close>: resolving \<open>env:\<close> values, defaults,
  validation and the entries for the plugin loader. \<open>encoding/json\<close> is outside: the tree it
  parses is a datatype, and the typed structures are records. A \<open>json.RawMessage\<close> is its text.
\<close>

section \<open>Environment values\<close>

datatype json = JNull | JBool bool | JNumber int | JString string | JArray "json list" | JObject "(string \<times> json) list"

record environment =
  ev_lookup :: "string \<Rightarrow> string option"
  ev_read_file :: "string \<Rightarrow> string option"

definition resolve_string :: "environment \<Rightarrow> string \<Rightarrow> string" where
  "resolve_string E s =
     (if has_prefix s ''env:'' then case_option [] id (ev_lookup E (trim_prefix s ''env:''))
      else if has_prefix s ''env_path:'' then
        (case ev_lookup E (trim_prefix s ''env_path:'') of
           None \<Rightarrow> []
         | Some path \<Rightarrow> (case ev_read_file E path of None \<Rightarrow> [] | Some text \<Rightarrow> trim_space text))
      else s)"

fun resolve_tree :: "environment \<Rightarrow> json \<Rightarrow> json" where
  "resolve_tree E (JString s) = JString (resolve_string E s)"
| "resolve_tree E (JObject kvs) = JObject (map (\<lambda>(k, v). (k, resolve_tree E v)) kvs)"
| "resolve_tree E (JArray vs) = JArray (map (resolve_tree E) vs)"
| "resolve_tree E v = v"

section \<open>Structures\<close>

record plugin_singleton =
  ps_plugin_id :: string
  ps_path :: string
  ps_config :: "string option"

record plugin_def =
  df_plugin_id :: string
  df_enabled :: bool
  df_path :: string
  df_config :: "string option"

record llm_endpoint =
  ep_id :: string
  ep_enabled :: bool
  ep_config :: "string option"

record llm_driver =
  dr_plugin :: plugin_def
  dr_endpoints :: "llm_endpoint list"

record llm_routing =
  ro_primary :: string
  ro_fallback :: "string list"
  ro_cooldown :: int

text \<open>The flags of \<open>CompactionConfig\<close> and \<open>AgentConfig\<close> say which keys the file has.\<close>

record compaction_section =
  cs_model :: string
  cs_threshold :: rat
  cs_preserve :: int
  cs_threshold_set :: bool
  cs_preserve_set :: bool

record runtime_section =
  rs_shutdown_timeout :: string
  rs_poll_interval :: string
  rs_timezone :: string
  rs_encryption_key :: string
  rs_redact :: "bool option"
  rs_skills_dir :: string
  rs_data_dir :: string

record agent_section =
  as_max_iterations :: int
  as_turn_timeout :: string
  as_max_workers :: int
  as_token_budget :: int
  as_legacy_summaries :: bool

record config =
  cf_runtime :: runtime_section
  cf_gateway_address :: string
  cf_gateway_public_url :: string
  cf_agent :: agent_section
  cf_transport :: plugin_singleton
  cf_store :: plugin_singleton
  cf_sandbox :: plugin_singleton
  cf_drivers :: "llm_driver list"
  cf_routing :: llm_routing
  cf_compaction :: "compaction_section option"
  cf_channels :: "plugin_def list"
  cf_tools :: "plugin_def list"
  cf_middleware :: "plugin_def list"

section \<open>Defaults\<close>

definition or_default :: "string \<Rightarrow> string \<Rightarrow> string" where
  "or_default d s = (if s = [] then d else s)"

definition or_positive :: "int \<Rightarrow> int \<Rightarrow> int" where
  "or_positive d n = (if n \<le> 0 then d else n)"

definition default_compaction :: "compaction_section \<Rightarrow> compaction_section" where
  "default_compaction c =
     (let c1 = (if \<not> cs_threshold_set c then c\<lparr>cs_threshold := 9 / 10\<rparr> else c)
      in if \<not> cs_preserve_set c1 then c1\<lparr>cs_preserve := 6\<rparr> else c1)"

definition apply_defaults :: "config \<Rightarrow> config" where
  "apply_defaults c = c\<lparr>
     cf_runtime := (cf_runtime c)\<lparr>
       rs_shutdown_timeout := or_default ''30s'' (rs_shutdown_timeout (cf_runtime c)),
       rs_poll_interval := or_default ''60s'' (rs_poll_interval (cf_runtime c)),
       rs_redact := (case rs_redact (cf_runtime c) of None \<Rightarrow> Some False | Some b \<Rightarrow> Some b),
       rs_skills_dir := or_default ''./skills/'' (rs_skills_dir (cf_runtime c)),
       rs_data_dir := or_default ''./data/'' (rs_data_dir (cf_runtime c))\<rparr>,
     cf_agent := (cf_agent c)\<lparr>
       as_max_iterations := or_positive 25 (as_max_iterations (cf_agent c)),
       as_turn_timeout := or_default ''60s'' (as_turn_timeout (cf_agent c)),
       as_max_workers := or_positive 10 (as_max_workers (cf_agent c)),
       as_token_budget := or_positive 32000 (as_token_budget (cf_agent c))\<rparr>,
     cf_routing := (cf_routing c)\<lparr>ro_cooldown := or_positive 30 (ro_cooldown (cf_routing c))\<rparr>,
     cf_compaction := map_option default_compaction (cf_compaction c)\<rparr>"

section \<open>Identifiers\<close>

definition qualify_id :: "string \<Rightarrow> string \<Rightarrow> string" where
  "qualify_id kind raw = (let prefix = kind @ ''.'' in if has_prefix raw prefix then raw else prefix @ raw)"

section \<open>Validation\<close>

datatype config_error = Required string | BadHex | KeyBytes nat | Removed string | BadFormat string
  | OutOfRange string | DuplicateEndpoint string string | UnknownEndpoint string string

definition indexed :: "string \<Rightarrow> nat \<Rightarrow> string" where
  "indexed section i = section @ ''['' @ show_int (int i) @ '']''"

text \<open>\<open>hex.DecodeString\<close>: the number of bytes, when the text is hexadecimal.\<close>

definition hex_length :: "string \<Rightarrow> nat option" where
  "hex_length s = (if even (length s) \<and> list_all (\<lambda>c. c \<in> set ''0123456789abcdefABCDEF'') s
     then Some (length s div 2) else None)"

definition check_key :: "string \<Rightarrow> config_error list" where
  "check_key k = (if k = [] then [Required ''runtime.encryption_key'']
     else case hex_length k of
       None \<Rightarrow> [BadHex]
     | Some n \<Rightarrow> if n \<noteq> 32 then [KeyBytes n] else [])"

definition check_path_id :: "string \<Rightarrow> string \<Rightarrow> string \<Rightarrow> config_error list" where
  "check_path_id loc path i =
     (if path = [] then [Required (loc @ ''.path'')] else [])
     @ (if i = [] then [Required (loc @ ''.plugin_id'')] else [])"

text \<open>Duplicate plugin identifiers are only logged.\<close>

definition check_singleton :: "string \<Rightarrow> plugin_singleton \<Rightarrow> config_error list" where
  "check_singleton loc p = check_path_id loc (ps_path p) (ps_plugin_id p)"

fun check_defs :: "string \<Rightarrow> nat \<Rightarrow> plugin_def list \<Rightarrow> config_error list" where
  "check_defs section i [] = []"
| "check_defs section i (d # ds) =
     check_path_id (indexed section i) (df_path d) (df_plugin_id d) @ check_defs section (Suc i) ds"

text \<open>The endpoints of driver \<open>i\<close>, from the \<open>j\<close>-th; the map holds the identifiers seen so far.\<close>

fun check_endpoints :: "nat \<Rightarrow> nat \<Rightarrow> llm_endpoint list \<Rightarrow> (string \<Rightarrow> string option)
    \<Rightarrow> config_error list \<times> (string \<Rightarrow> string option)" where
  "check_endpoints i j [] seen = ([], seen)"
| "check_endpoints i j (e # es) seen =
     (let loc = indexed (indexed ''llm.drivers'' i @ ''.endpoints'') j
      in if ep_id e = [] then
           (let (errs, seen') = check_endpoints i (Suc j) es seen in (Required (loc @ ''.id'') # errs, seen'))
         else case seen (ep_id e) of
           Some prev \<Rightarrow> (let (errs, seen') = check_endpoints i (Suc j) es seen
             in (DuplicateEndpoint loc prev # errs, seen'))
         | None \<Rightarrow> check_endpoints i (Suc j) es (seen(ep_id e \<mapsto> loc)))"

fun check_drivers :: "nat \<Rightarrow> llm_driver list \<Rightarrow> (string \<Rightarrow> string option) \<Rightarrow> config_error list" where
  "check_drivers i [] seen = []"
| "check_drivers i (d # ds) seen =
     (let (errs, seen') = check_endpoints i 0 (dr_endpoints d) seen
      in check_path_id (indexed ''llm.drivers'' i @ ''.plugin'') (df_path (dr_plugin d)) (df_plugin_id (dr_plugin d))
         @ errs @ check_drivers (Suc i) ds seen')"

definition check_compaction :: "compaction_section \<Rightarrow> config_error list" where
  "check_compaction c =
     (if trim_space (cs_model c) = [] then [Required ''llm.compaction.model'']
      else if \<not> contains_str (cs_model c) '':'' then [BadFormat ''llm.compaction.model''] else [])
     @ (if cs_threshold_set c \<and> (cs_threshold c \<le> 0 \<or> cs_threshold c > 1)
        then [OutOfRange ''llm.compaction.threshold''] else [])
     @ (if cs_preserve c \<le> 0 then [OutOfRange ''llm.compaction.preserve_recent_messages''] else [])"

definition enabled_endpoints :: "config \<Rightarrow> string list" where
  "enabled_endpoints c = map ep_id (filter (\<lambda>e. ep_enabled e \<and> ep_id e \<noteq> []) (concat (map dr_endpoints (cf_drivers c))))"

definition route_endpoint :: "string \<Rightarrow> string" where
  "route_endpoint s = fst (split2 (CHR '':'') s)"

definition check_endpoint :: "string \<Rightarrow> config \<Rightarrow> string \<Rightarrow> config_error list" where
  "check_endpoint loc c s = (if route_endpoint s \<in> set (enabled_endpoints c) then []
     else [UnknownEndpoint loc (route_endpoint s)])"

fun check_fallbacks :: "config \<Rightarrow> nat \<Rightarrow> string list \<Rightarrow> config_error list" where
  "check_fallbacks c i [] = []"
| "check_fallbacks c i (fb # fbs) =
     (if \<not> contains_str fb '':'' then [BadFormat (indexed ''llm.routing.fallback'' i)]
      else check_endpoint (indexed ''llm.routing.fallback'' i) c fb) @ check_fallbacks c (Suc i) fbs"

definition check_primary :: "string \<Rightarrow> config_error list" where
  "check_primary s = (if s = [] then [Required ''llm.routing.primary'']
     else if \<not> contains_str s '':'' then [BadFormat ''llm.routing.primary''] else [])"

definition validate :: "config \<Rightarrow> config_error list" where
  "validate c =
     check_key (rs_encryption_key (cf_runtime c))
     @ (if cf_gateway_address c = [] then [Required ''gateway.address''] else [])
     @ (if as_legacy_summaries (cf_agent c) then [Removed ''agent.summaries_limit''] else [])
     @ check_singleton ''transport'' (cf_transport c)
     @ check_singleton ''store'' (cf_store c)
     @ check_singleton ''sandbox'' (cf_sandbox c)
     @ (if cf_drivers c = [] then [Required ''llm.drivers''] else [])
     @ check_drivers 0 (cf_drivers c) (\<lambda>_. None)
     @ check_primary (ro_primary (cf_routing c))
     @ case_option [] check_compaction (cf_compaction c)
     @ (if ro_primary (cf_routing c) \<noteq> [] \<and> contains_str (ro_primary (cf_routing c)) '':''
        then check_endpoint ''llm.routing.primary'' c (ro_primary (cf_routing c)) else [])
     @ check_fallbacks c 0 (ro_fallback (cf_routing c))
     @ (case cf_compaction c of None \<Rightarrow> [] | Some cc \<Rightarrow>
          if contains_str (cs_model cc) '':'' then check_endpoint ''llm.compaction.model'' c (cs_model cc) else [])
     @ check_defs ''channels'' 0 (cf_channels c)
     @ check_defs ''tools'' 0 (cf_tools c)
     @ check_defs ''middleware'' 0 (cf_middleware c)"

text \<open>The last two steps of \<open>Load\<close>.\<close>

definition finish_load :: "config \<Rightarrow> config_error list + config" where
  "finish_load c = (let d = apply_defaults c; errs = validate d in if errs = [] then Inr d else Inl errs)"

section \<open>Plugin entries\<close>

definition singleton_entry :: "string \<Rightarrow> plugin_singleton \<Rightarrow> plugin_entry" where
  "singleton_entry kind p = \<lparr>pe_path = ps_path p, pe_kind = kind, pe_config = ps_config p,
     pe_id = qualify_id kind (ps_plugin_id p)\<rparr>"

definition def_entries :: "string \<Rightarrow> plugin_def list \<Rightarrow> plugin_entry list" where
  "def_entries kind ds = map (\<lambda>d. \<lparr>pe_path = df_path d, pe_kind = kind, pe_config = df_config d,
     pe_id = qualify_id kind (df_plugin_id d)\<rparr>) (filter df_enabled ds)"

definition driver_entries :: "llm_driver \<Rightarrow> plugin_entry list" where
  "driver_entries d = map (\<lambda>e. \<lparr>pe_path = df_path (dr_plugin d), pe_kind = PluginKindLLM,
     pe_config = ep_config e, pe_id = qualify_id ''llm'' (ep_id e)\<rparr>) (filter ep_enabled (dr_endpoints d))"

definition loader_entries :: "config \<Rightarrow> plugin_entry list" where
  "loader_entries c =
     [singleton_entry PluginKindTransport (cf_transport c), singleton_entry PluginKindStore (cf_store c),
      singleton_entry PluginKindSandbox (cf_sandbox c)]
     @ concat (map driver_entries (cf_drivers c))
     @ def_entries PluginKindChannel (cf_channels c) @ def_entries PluginKindTool (cf_tools c)
     @ def_entries PluginKindMiddleware (cf_middleware c)"

text \<open>The writes of \<open>ConfigsByID\<close> to its map, in order; the last one for a key counts.\<close>

definition driver_configs :: "llm_driver \<Rightarrow> (string \<times> string option) list" where
  "driver_configs d =
     (if df_plugin_id (dr_plugin d) \<noteq> [] \<and> df_config (dr_plugin d) \<noteq> None
      then [(qualify_id ''llm'' (df_plugin_id (dr_plugin d)), df_config (dr_plugin d))] else [])
     @ map (\<lambda>e. (qualify_id ''llm'' (ep_id e), ep_config e)) (dr_endpoints d)"

definition config_writes :: "config \<Rightarrow> (string \<times> string option) list" where
  "config_writes c =
     [(qualify_id ''transport'' (ps_plugin_id (cf_transport c)), ps_config (cf_transport c)),
      (qualify_id ''store'' (ps_plugin_id (cf_store c)), ps_config (cf_store c)),
      (qualify_id ''sandbox'' (ps_plugin_id (cf_sandbox c)), ps_config (cf_sandbox c))]
     @ concat (map driver_configs (cf_drivers c))
     @ map (\<lambda>d. (qualify_id ''channel'' (df_plugin_id d), df_config d)) (cf_channels c)
     @ map (\<lambda>d. (qualify_id ''tool'' (df_plugin_id d), df_config d)) (cf_tools c)
     @ map (\<lambda>d. (qualify_id ''middleware'' (df_plugin_id d), df_config d)) (cf_middleware c)"

definition configs_by_id :: "config \<Rightarrow> string \<Rightarrow> string option" where
  "configs_by_id c i = Option.bind (map_of (rev (config_writes c)) i) (\<lambda>v. v)"

section \<open>Wiring\<close>

text \<open>From \<open>Runtime.Start\<close>: built-in plugins, registered before the shared objects are loaded.\<close>

record builtin =
  bi_plugin :: plugin
  bi_id :: string
  bi_config :: "string option"

definition register_builtins :: "builtin list \<Rightarrow> registry \<Rightarrow> registry" where
  "register_builtins bs r = fold (\<lambda>b. register (bi_plugin b) (bi_id b)) bs r"

definition merged_configs :: "builtin list \<Rightarrow> config \<Rightarrow> string \<Rightarrow> string option" where
  "merged_configs bs c = fold (\<lambda>b m. if bi_config b \<noteq> None then m(bi_id b := bi_config b) else m) bs (configs_by_id c)"

text \<open>The map from bare endpoint identifiers to plugins that the completion service is given.\<close>

definition llm_plugins :: "config \<Rightarrow> registry \<Rightarrow> string \<Rightarrow> plugin option" where
  "llm_plugins c r i =
     (if \<exists>e \<in> set (concat (map dr_endpoints (cf_drivers c))). ep_enabled e \<and> ep_id e = i
      then (case rg_by_id r (qualify_id ''llm'' i) of
          Some p \<Rightarrow> if PluginKindLLM \<in> set (pl_implements p) then Some p else None
        | None \<Rightarrow> None)
      else None)"

section \<open>Identifiers of different kinds differ\<close>

lemma qualify_prefix: "has_prefix (qualify_id k i) (k @ ''.'')"
  by (simp add: qualify_id_def Let_def) (metis append.assoc append_Cons append_Nil has_prefix_iff)

lemma qualify_nonempty [simp]: "qualify_id k i \<noteq> []"
  by (auto simp: qualify_id_def Let_def has_prefix_iff)

lemma qualify_idem: "qualify_id k (qualify_id k i) = qualify_id k i"
  using qualify_prefix [of k i] by (simp add: qualify_id_def [of k "qualify_id k i"])

lemma qualify_kind_inj:
  assumes "qualify_id k i = qualify_id k' i'" "CHR ''.'' \<notin> set k" "CHR ''.'' \<notin> set k'"
  shows "k = (k' :: string)"
proof -
  obtain a b where "qualify_id k i = k @ CHR ''.'' # a" "qualify_id k' i' = k' @ CHR ''.'' # b"
    using qualify_prefix [of k i] qualify_prefix [of k' i'] by (auto simp: has_prefix_iff)
  with assms show ?thesis by (metis split2_append prod.inject)
qed

text \<open>Two identifiers of a kind collide only when one is the other with the prefix written out.\<close>

lemma qualify_collision:
  assumes "qualify_id k i = qualify_id k j" "i \<noteq> j"
  shows "i = k @ ''.'' @ j \<or> j = k @ ''.'' @ i"
  using assms by (auto simp: qualify_id_def Let_def split: if_splits)

lemma loader_entry_id:
  assumes "e \<in> set (loader_entries c)"
  shows "\<exists>raw. pe_id e = qualify_id (pe_kind e) raw" "CHR ''.'' \<notin> set (pe_kind e)" "pe_kind e \<in> set kind_init_order"
  using assms
  by (auto simp: loader_entries_def singleton_entry_def def_entries_def driver_entries_def kind_init_order_def)

lemma loader_kinds_agree:
  "e \<in> set (loader_entries c) \<Longrightarrow> e' \<in> set (loader_entries c) \<Longrightarrow> pe_id e = pe_id e' \<Longrightarrow> pe_kind e = pe_kind e'"
  using loader_entry_id [of e c] loader_entry_id [of e' c] qualify_kind_inj by metis

section \<open>What validation guarantees\<close>

lemma contains_char: "contains_str s [c] \<longleftrightarrow> c \<in> set s"
  by (auto simp: contains_str_iff in_set_conv_decomp)

text \<open>A configured model whose part after the first colon is not empty.\<close>

definition names_model :: "string \<Rightarrow> bool" where
  "names_model s \<longleftrightarrow> snd (split2 (CHR '':'') s) \<noteq> Some []"

lemma checked_route_parses:
  assumes "contains_str s '':''" "check_endpoint loc c s = []" "names_model s"
  shows "\<exists>r. parse_route s = Some r \<and> rt_endpoint r \<in> set (enabled_endpoints c)"
proof -
  obtain a b where ab: "split2 (CHR '':'') s = (a, Some b)"
    using assms(1) split2_None by (cases "split2 (CHR '':'') s"; cases "snd (split2 (CHR '':'') s)") (auto simp: contains_char)
  then have "a \<in> set (enabled_endpoints c)" "b \<noteq> []"
    using assms(2,3) by (auto simp: check_endpoint_def route_endpoint_def names_model_def split: if_splits)
  moreover have "a \<noteq> []" using calculation(1) by (auto simp: enabled_endpoints_def)
  ultimately show ?thesis using ab by (simp add: parse_route_def)
qed

lemma checked_fallbacks_parse:
  assumes "check_fallbacks c i fbs = []" "\<forall>fb \<in> set fbs. names_model fb"
  shows "\<exists>rs. parse_fallbacks j fbs = Inr rs \<and> rt_endpoint ` set rs \<subseteq> set (enabled_endpoints c)"
  using assms
proof (induction fbs arbitrary: i j)
  case (Cons fb fbs)
  then obtain r where "parse_route fb = Some r" "rt_endpoint r \<in> set (enabled_endpoints c)"
    using checked_route_parses [of fb _ c] by (auto split: if_splits)
  moreover obtain rs where "parse_fallbacks (Suc j) fbs = Inr rs" "rt_endpoint ` set rs \<subseteq> set (enabled_endpoints c)"
    using Cons.IH [of "Suc i" "Suc j"] Cons.prems by auto
  ultimately show ?case by auto
qed simp

lemma validated_routes_parse:
  assumes "validate c = []" "\<forall>s \<in> set (ro_primary (cf_routing c) # ro_fallback (cf_routing c)). names_model s"
  shows "\<exists>chain. new_router (ro_primary (cf_routing c)) (ro_fallback (cf_routing c)) = Inr chain
    \<and> rt_endpoint ` set chain \<subseteq> set (enabled_endpoints c)"
proof -
  have v: "check_primary (ro_primary (cf_routing c)) = []" "check_fallbacks c 0 (ro_fallback (cf_routing c)) = []"
    "ro_primary (cf_routing c) \<noteq> [] \<and> contains_str (ro_primary (cf_routing c)) '':''
      \<longrightarrow> check_endpoint ''llm.routing.primary'' c (ro_primary (cf_routing c)) = []"
    using assms(1) by (auto simp: validate_def split: if_splits)
  then have "contains_str (ro_primary (cf_routing c)) '':''" "ro_primary (cf_routing c) \<noteq> []"
    by (auto simp: check_primary_def split: if_splits)
  then obtain r where "parse_route (ro_primary (cf_routing c)) = Some r" "rt_endpoint r \<in> set (enabled_endpoints c)"
    using checked_route_parses [OF _ _ ] v(3) assms(2) by (metis list.set_intros(1))
  moreover obtain rs where "parse_fallbacks 0 (ro_fallback (cf_routing c)) = Inr rs"
    "rt_endpoint ` set rs \<subseteq> set (enabled_endpoints c)"
    using checked_fallbacks_parse [OF v(2)] assms(2) by force
  ultimately show ?thesis by (simp add: new_router_def)
qed

lemma entry_served:
  assumes "load_into lib addr (loader_entries c) r0 = (Inr (), r)" "e \<in> set (loader_entries c)"
  shows "serves r (pe_id e) (pe_kind e)"
proof -
  have "\<forall>e \<in> set (loader_entries c). pe_id e \<noteq> []"
    using loader_entry_id(1) by (metis qualify_nonempty)
  moreover have "\<forall>e \<in> set (loader_entries c). \<forall>e' \<in> set (loader_entries c). pe_id e = pe_id e' \<longrightarrow> pe_kind e = pe_kind e'"
    using loader_kinds_agree by blast
  ultimately show ?thesis using load_into_serves [OF assms(1)] assms(2) by blast
qed

lemma endpoint_served:
  assumes "load_into lib addr (loader_entries c) (register_builtins bs new_registry) = (Inr (), r)"
    and "i \<in> set (enabled_endpoints c)"
  shows "\<exists>p. llm_plugins c r i = Some p \<and> pl_kind p = PluginKindLLM"
proof -
  obtain d e where d: "d \<in> set (cf_drivers c)" "e \<in> set (dr_endpoints d)" "ep_enabled e" "ep_id e = i"
    using assms(2) by (auto simp: enabled_endpoints_def)
  let ?e = "\<lparr>pe_path = df_path (dr_plugin d), pe_kind = PluginKindLLM, pe_config = ep_config e,
    pe_id = qualify_id ''llm'' (ep_id e)\<rparr>"
  have "?e \<in> set (driver_entries d)" using d(2,3) unfolding driver_entries_def by force
  then have "?e \<in> set (loader_entries c)" using d(1) unfolding loader_entries_def by (simp only: set_append set_concat set_map) blast
  from entry_served [OF assms(1) this] show ?thesis using d by (auto simp: serves_def llm_plugins_def)
qed


text \<open>
  The numbers of an accepted configuration are in range: the bounds of the agent loop and
  the cool-down are positive, compaction triggers at a share in (0, 1] and keeps some messages.
\<close>

theorem accepted_numbers_in_range:
  assumes "finish_load c0 = Inr c"
  shows "0 < as_max_iterations (cf_agent c) \<and> 0 < as_max_workers (cf_agent c)
    \<and> 0 < as_token_budget (cf_agent c) \<and> 0 < ro_cooldown (cf_routing c)
    \<and> (\<forall>cc. cf_compaction c = Some cc \<longrightarrow> 0 < cs_threshold cc \<and> cs_threshold cc \<le> 1 \<and> 0 < cs_preserve cc)
    \<and> hex_length (rs_encryption_key (cf_runtime c)) = Some 32 \<and> apply_defaults c = c"
proof -
  have c: "c = apply_defaults c0" and v: "validate c = []"
    using assms by (auto simp: finish_load_def Let_def split: if_splits)
  have "check_key (rs_encryption_key (cf_runtime c)) = []" using v by (simp add: validate_def)
  then have key: "hex_length (rs_encryption_key (cf_runtime c)) = Some 32"
    by (auto simp: check_key_def split: if_splits option.splits)
  have comp: "0 < cs_threshold cc \<and> cs_threshold cc \<le> 1 \<and> 0 < cs_preserve cc" if "cf_compaction c = Some cc" for cc
  proof -
    have "check_compaction cc = []" using v that by (simp add: validate_def)
    moreover have "cf_compaction c = map_option default_compaction (cf_compaction c0)"
      unfolding c by (simp add: apply_defaults_def)
    with that obtain c1 where "cc = default_compaction c1" by auto
    ultimately show ?thesis
      by (auto simp: check_compaction_def default_compaction_def Let_def split: if_splits)
  qed
  have idem: "default_compaction (default_compaction x) = default_compaction x" for x
    by (simp add: default_compaction_def Let_def)
  have "apply_defaults c = c"
    unfolding c by (simp add: apply_defaults_def or_default_def or_positive_def option.map_comp comp_def idem
        split: option.splits)
  moreover have "0 < as_max_iterations (cf_agent c) \<and> 0 < as_max_workers (cf_agent c)
    \<and> 0 < as_token_budget (cf_agent c) \<and> 0 < ro_cooldown (cf_routing c)"
    by (simp add: c apply_defaults_def or_positive_def)
  ultimately show ?thesis using key comp by blast
qed

lemma driver_entry_written:
  "e \<in> set (driver_entries d) \<Longrightarrow> (pe_id e, pe_config e) \<in> set (driver_configs d)"
  by (auto simp: driver_entries_def driver_configs_def)

lemma def_entry_written:
  "e \<in> set (def_entries k ds) \<Longrightarrow> (pe_id e, pe_config e) \<in> set (map (\<lambda>d. (qualify_id k (df_plugin_id d), df_config d)) ds)"
  by (auto simp: def_entries_def)

lemma loader_entry_written:
  assumes "e \<in> set (loader_entries c)"
  shows "(pe_id e, pe_config e) \<in> set (config_writes c)"
proof -
  consider (one) "e \<in> set [singleton_entry PluginKindTransport (cf_transport c),
      singleton_entry PluginKindStore (cf_store c), singleton_entry PluginKindSandbox (cf_sandbox c)]"
    | (driver) d where "d \<in> set (cf_drivers c)" "e \<in> set (driver_entries d)"
    | (channel) "e \<in> set (def_entries PluginKindChannel (cf_channels c))"
    | (tool) "e \<in> set (def_entries PluginKindTool (cf_tools c))"
    | (mw) "e \<in> set (def_entries PluginKindMiddleware (cf_middleware c))"
    using assms unfolding loader_entries_def set_append set_concat set_map by blast
  then show ?thesis
  proof cases
    case one
    then show ?thesis by (auto simp: config_writes_def singleton_entry_def)
  next
    case driver
    then show ?thesis using driver_entry_written unfolding config_writes_def set_append set_concat set_map by blast
  next
    case channel
    then show ?thesis using def_entry_written unfolding config_writes_def set_append by blast
  next
    case tool
    then show ?thesis using def_entry_written unfolding config_writes_def set_append by blast
  next
    case mw
    then show ?thesis using def_entry_written unfolding config_writes_def set_append by blast
  qed
qed

text \<open>
  When no plugin identifier is given twice, counting disabled entries and drivers, every
  plugin that is loaded is initialised with the configuration of its own entry.
\<close>

theorem entry_gets_own_config:
  assumes "distinct (map fst (config_writes c))" "e \<in> set (loader_entries c)"
  shows "configs_by_id c (pe_id e) = pe_config e"
proof -
  have "(pe_id e, pe_config e) \<in> set (config_writes c)"
    by (rule loader_entry_written [OF assms(2)])
  moreover have "distinct (map fst (rev (config_writes c)))" using assms(1) by (simp add: rev_map [symmetric])
  ultimately show ?thesis by (simp add: configs_by_id_def)
qed

section \<open>Examples\<close>

definition demo_config :: config where
  "demo_config = \<lparr>
     cf_runtime = \<lparr>rs_shutdown_timeout = [], rs_poll_interval = [], rs_timezone = [],
       rs_encryption_key = replicate 64 (CHR ''0''), rs_redact = None, rs_skills_dir = [], rs_data_dir = []\<rparr>,
     cf_gateway_address = '':8080'', cf_gateway_public_url = [],
     cf_agent = \<lparr>as_max_iterations = 0, as_turn_timeout = [], as_max_workers = -3, as_token_budget = 100,
       as_legacy_summaries = False\<rparr>,
     cf_transport = \<lparr>ps_plugin_id = ''memory'', ps_path = ''t.so'', ps_config = None\<rparr>,
     cf_store = \<lparr>ps_plugin_id = ''sqlite'', ps_path = ''s.so'', ps_config = Some ''{}''\<rparr>,
     cf_sandbox = \<lparr>ps_plugin_id = ''local'', ps_path = ''b.so'', ps_config = None\<rparr>,
     cf_drivers = [\<lparr>dr_plugin = \<lparr>df_plugin_id = ''openai'', df_enabled = True, df_path = ''l.so'', df_config = None\<rparr>,
       dr_endpoints = [\<lparr>ep_id = ''a'', ep_enabled = True, ep_config = Some ''{1}''\<rparr>]\<rparr>],
     cf_routing = \<lparr>ro_primary = ''a:m'', ro_fallback = [], ro_cooldown = 0\<rparr>,
     cf_compaction = Some \<lparr>cs_model = ''a:n'', cs_threshold = 0, cs_preserve = 0, cs_threshold_set = False,
       cs_preserve_set = False\<rparr>,
     cf_channels = [], cf_tools = [], cf_middleware = []\<rparr>"

definition demo_objects :: "string \<Rightarrow> shared_object option" where
  "demo_objects path = map_option (\<lambda>k. \<lparr>so_manifest = Symbol (Some k), so_new = Symbol (\<lambda>n. Some (demo_plugin n k))\<rparr>)
     (map_of [(''t.so'', PluginKindTransport), (''s.so'', PluginKindStore), (''b.so'', PluginKindSandbox),
       (''l.so'', PluginKindLLM)] path)"

lemma demo_config_accepted: "finish_load demo_config = Inr (apply_defaults demo_config)"
proof -
  have "validate (apply_defaults demo_config) = []" by code_simp
  then show ?thesis by (simp add: finish_load_def Let_def)
qed


theorem accepted_numbers_in_range_witness:
  "0 < as_max_workers (cf_agent (apply_defaults demo_config))
    \<and> (\<forall>cc. cf_compaction (apply_defaults demo_config) = Some cc \<longrightarrow> 0 < cs_threshold cc)"
  using accepted_numbers_in_range [OF demo_config_accepted] by blast

theorem entry_gets_own_config_witness:
  "configs_by_id demo_config ''llm.a'' = Some ''{1}''"
proof -
  let ?e = "\<lparr>pe_path = ''l.so'', pe_kind = PluginKindLLM, pe_config = Some ''{1}'', pe_id = ''llm.a''\<rparr>"
  have "distinct (map fst (config_writes demo_config))" by code_simp
  moreover have "?e \<in> set (loader_entries demo_config)" by code_simp
  ultimately show ?thesis using entry_gets_own_config [of demo_config ?e] by simp
qed

text \<open>
  A route with a colon and no model passes validation and then stops the start of the runtime;
  a later, disabled entry takes the configuration of an enabled one with the same identifier;
  two endpoints that differ for validation share a plugin.
\<close>

lemma validation_gaps:
  "let c = (apply_defaults demo_config)\<lparr>cf_routing := (cf_routing (apply_defaults demo_config))\<lparr>ro_primary := ''a:''\<rparr>\<rparr>
   in validate c = [] \<and> new_router (ro_primary (cf_routing c)) [] = Inl (BadPrimary ''a:'')"
  "let web = \<lparr>df_plugin_id = ''web'', df_enabled = True, df_path = ''w.so'', df_config = Some ''{1}''\<rparr>;
       c = (apply_defaults demo_config)\<lparr>cf_tools := [web, web\<lparr>df_enabled := False, df_config := Some ''{2}''\<rparr>]\<rparr>
   in validate c = [] \<and> configs_by_id c ''tool.web'' = Some ''{2}''
     \<and> map pe_config (filter (\<lambda>e. pe_id e = ''tool.web'') (loader_entries c)) = [Some ''{1}'']"
  "let d = hd (cf_drivers demo_config); e = hd (dr_endpoints d);
       c = (apply_defaults demo_config)\<lparr>cf_drivers := [d\<lparr>dr_endpoints := [e, e\<lparr>ep_id := ''llm.a''\<rparr>]\<rparr>]\<rparr>
   in validate c = [] \<and> length (filter (\<lambda>e. pe_id e = ''llm.a'') (loader_entries c)) = 2"
  by code_simp+

text \<open>The configuration of a built-in tool replaces that of the shared object that replaced the tool.\<close>

lemma builtin_config_wins:
  "merged_configs [\<lparr>bi_plugin = demo_plugin 0 PluginKindTool, bi_id = ''tool.time'', bi_config = Some ''{tz}''\<rparr>]
     (demo_config\<lparr>cf_tools := [\<lparr>df_plugin_id = ''time'', df_enabled = True, df_path = ''w.so'', df_config = Some ''{1}''\<rparr>]\<rparr>)
     ''tool.time'' = Some ''{tz}''"
  by code_simp

end
