(* ===== verification/Tools.thy ===== *)
theory Tools
  imports Agent_Loop Cron
begin

text \<open>
  The built-in tools, \<open>internal/infra/plugins/tool\<close>: each \<open>Execute\<close> once its arguments are
  decoded. \<open>encoding/json\<close>, the time zone database, the texts of errors and the text formats
  of instants are parameters; the order of a map range is \<open>te_order\<close>.
\<close>

record tool_env =
  te_server_tz :: string
  te_load_location :: "string \<Rightarrow> location option"
  te_parse_rfc3339 :: "string \<Rightarrow> instant option"
  te_parse_local :: "location \<Rightarrow> string \<Rightarrow> instant option"
  te_format :: "location \<Rightarrow> instant \<Rightarrow> string"
  te_format_day :: "instant \<Rightarrow> string"
  te_db_text :: "db_error \<Rightarrow> string"
  te_bus_text :: "bus_error \<Rightarrow> string"
  te_cron_text :: "cron_error \<Rightarrow> string"
  te_secret_text :: "secret_error \<Rightarrow> string"
  te_json_text :: "string \<Rightarrow> string"
  te_quote :: "string \<Rightarrow> string"
  te_order :: "string list \<Rightarrow> string list"
  te_fts :: "string \<Rightarrow> message list \<Rightarrow> message list"
  te_journal_fts :: "string \<Rightarrow> journal_entry list \<Rightarrow> journal_entry list"
  te_cipher :: cipher
  te_nonce :: string
  te_public_url :: string
  te_token :: string

type_synonym tool_answer = "(string + string) \<times> world"

definition db_failed :: "tool_env \<Rightarrow> string \<Rightarrow> db_error \<Rightarrow> world \<Rightarrow> tool_answer" where
  "db_failed E prefix e w = (Inl (prefix @ te_db_text E e), w)"

abbreviation "nl \<equiv> [newline]"

section \<open>Scheduled tasks\<close>

record create_args =
  ca_schedule :: string
  ca_instructions :: string
  ca_name :: string
  ca_type :: string
  ca_timezone :: string

text \<open>A time stamp with an offset, or a local one in the given zone.\<close>

definition parse_timestamp :: "tool_env \<Rightarrow> string \<Rightarrow> string \<Rightarrow> instant option" where
  "parse_timestamp E schedule timezone = (case te_parse_rfc3339 E schedule of
       Some t \<Rightarrow> Some t
     | None \<Rightarrow> if timezone = [] then None
         else Option.bind (te_load_location E timezone) (\<lambda>loc. te_parse_local E loc schedule))"

definition server_tz :: "tool_env \<Rightarrow> string" where
  "server_tz E = (if te_server_tz E = [] then ''UTC'' else te_server_tz E)"

text \<open>The first run and the stored expression of a new task, or what is wrong with it.\<close>

definition plan_task :: "tool_env \<Rightarrow> create_args \<Rightarrow> location \<Rightarrow> instant \<Rightarrow> string + string \<times> instant option" where
  "plan_task E a loc now =
     (if ca_type a = ''recurring'' then
        (case parse_cron (ca_schedule a) of
           Inl e \<Rightarrow> Inl (''Invalid cron expression: '' @ te_cron_text E e @ ''. Use 5-field format: minute hour day-of-month month day-of-week (e.g., \"0 9 * * *\" for daily at 9am).'')
         | Inr c \<Rightarrow> let next = next_after c loc now
             in Inr (ca_schedule a, if is_zero_time next then None else Some next))
      else (case parse_timestamp E (ca_schedule a) (ca_timezone a) of
           None \<Rightarrow> Inl (''Invalid timestamp: cannot parse '' @ te_quote E (ca_schedule a) @ '' as timestamp. Use RFC3339 format, e.g., \"2006-01-02T15:04:05Z\" or \"2006-01-02T15:04:05-07:00\".'')
         | Some t \<Rightarrow> Inr ([], Some t)))"

definition trim_create :: "create_args \<Rightarrow> create_args" where
  "trim_create a = a\<lparr>ca_schedule := trim_space (ca_schedule a), ca_instructions := trim_space (ca_instructions a),
     ca_name := trim_space (ca_name a), ca_type := trim_space (ca_type a)\<rparr>"

definition new_task :: "tool_context \<Rightarrow> create_args \<Rightarrow> string \<Rightarrow> string \<Rightarrow> instant option \<Rightarrow> instant \<Rightarrow> cron_entry" where
  "new_task tc a eid expr next now = \<lparr>ce_id = eid, ce_tenant = tx_tenant tc, ce_agent = tx_agent tc,
     ce_user = tx_user tc, ce_chat = tx_chat tc, ce_is_group = tx_is_group tc, ce_name = ca_name a,
     ce_instructions = ca_instructions a, ce_type = ca_type a, ce_expr = expr, ce_next_run_at = next,
     ce_status = ''active'', ce_created_at = now, ce_metadata = [], ce_conv = tx_conv tc,
     ce_message = tx_message tc\<rparr>"

definition cron_create :: "tool_env \<Rightarrow> tool_context \<Rightarrow> create_args \<Rightarrow> world \<Rightarrow> tool_answer" where
  "cron_create E tc raw w =
     (let a = trim_create raw
      in if ca_schedule a = [] \<or> ca_instructions a = [] \<or> ca_name a = [] \<or> ca_type a = [] then
           (Inr ''Missing required fields: schedule, instructions, name, and type are all required.'', w)
         else if ca_type a \<noteq> ''recurring'' \<and> ca_type a \<noteq> ''once'' then
           (Inr (''Invalid type '' @ te_quote E (ca_type a) @ ''. Must be \"recurring\" or \"once\".''), w)
         else case te_load_location E (server_tz E) of
           None \<Rightarrow> (Inl (''cron_create: invalid server timezone '' @ te_quote E (server_tz E)), w)
         | Some loc \<Rightarrow>
             if ca_timezone a \<noteq> [] \<and> te_load_location E (ca_timezone a) = None then
               (Inr (''Invalid timezone '' @ te_quote E (ca_timezone a) @ ''. Use an IANA timezone name like \"America/New_York\" or \"Europe/London\".''), w)
             else case plan_task E a loc (w_now w) of
               Inl wrong \<Rightarrow> (Inr wrong, w)
             | Inr (expr, next) \<Rightarrow>
                 let (eid, w1) = new_id w; e = new_task tc a eid expr next (w_now w)
                 in if_ok (save_cron_entry (tx_tenant tc) e w1) (db_failed E ''cron_create: save: '') (\<lambda>_ w2.
                   (Inr (''Scheduled task created.'' @ nl @ ''ID: '' @ ce_id e @ nl @ ''Name: '' @ ce_name e @ nl
                      @ ''Type: '' @ ce_type e @ nl @ ''Status: active'' @ nl
                      @ ''Schedule: '' @ (if ca_type a = ''once'' then ca_schedule a else expr) @ nl
                      @ ''Next run: '' @ (case next of None \<Rightarrow> ''N/A'' | Some t \<Rightarrow> te_format E utc t)), w2)))"

text \<open>A zone that does not load is replaced by UTC.\<close>

definition zone_or_utc :: "tool_env \<Rightarrow> string \<Rightarrow> location" where
  "zone_or_utc E tz = (if tz = [] then utc else case te_load_location E tz of None \<Rightarrow> utc | Some loc \<Rightarrow> loc)"

definition cron_set_status :: "tool_env \<Rightarrow> tool_context \<Rightarrow> string \<Rightarrow> string \<Rightarrow> world \<Rightarrow> tool_answer" where
  "cron_set_status E tc eid status w =
     (if eid = [] then (Inr ''Missing required parameter: id'', w)
      else if status \<noteq> ''active'' \<and> status \<noteq> ''paused'' \<and> status \<noteq> ''deleted'' then
        (Inr ''Invalid status. Must be one of: active, paused, deleted.'', w)
      else if_ok (get_cron_entry (tx_tenant tc) eid w) (db_failed E []) (\<lambda>found w1. case found of
        None \<Rightarrow> (Inr (''Scheduled task '' @ te_quote E eid @ '' not found.''), w1)
      | Some e \<Rightarrow>
          if ce_user e \<noteq> tx_user tc then (Inr ''Not authorized to modify this scheduled task.'', w1)
          else if status = ''deleted'' then
            if_ok (update_cron_status (tx_tenant tc) eid ''deleted'' w1) (db_failed E []) (\<lambda>_ w2.
            if_ok (update_cron_next_run (tx_tenant tc) eid None w2) (db_failed E []) (\<lambda>_ w3.
              (Inr (''Removed scheduled task: '' @ ce_name e @ '' (ID: '' @ eid @ '')''), w3)))
          else
            if_ok (update_cron_status (tx_tenant tc) eid status w1) (db_failed E []) (\<lambda>_ w2.
              let done = (Inr (''Scheduled task '' @ ce_name e @ '' is now '' @ status @ ''.''), w2);
                  loc = zone_or_utc E (te_server_tz E)
              in if status = ''active'' \<and> ce_type e = ''recurring'' \<and> ce_expr e \<noteq> [] then
                (case parse_cron (ce_expr e) of
                   Inl _ \<Rightarrow> done
                 | Inr c \<Rightarrow> let next = next_after c loc (w_now w2)
                     in if_ok (update_cron_next_run (tx_tenant tc) eid (Some next) w2) (db_failed E []) (\<lambda>_ w3.
                       (Inr (''Scheduled task '' @ ce_name e @ '' is now active. Next run: '' @ te_format E loc next), w3)))
              else done)))"

definition last_run :: "tool_env \<Rightarrow> location \<Rightarrow> tool_context \<Rightarrow> string \<Rightarrow> world \<Rightarrow> string \<times> world" where
  "last_run E loc tc eid w =
     if_ok (list_cron_runs (tx_tenant tc) eid 1 w) (\<lambda>_ w1. ([], w1)) (\<lambda>runs w1.
       (case runs of [] \<Rightarrow> []
        | r # _ \<Rightarrow> nl @ ''Last run: '' @ cr_status r @ '' ('' @ te_format E loc
            (case cr_finished_at r of None \<Rightarrow> cr_started_at r | Some t \<Rightarrow> t) @ '')'', w1))"

fun list_tasks :: "tool_env \<Rightarrow> location \<Rightarrow> tool_context \<Rightarrow> cron_entry list \<Rightarrow> world \<Rightarrow> string list \<times> world" where
  "list_tasks E loc tc [] w = ([], w)"
| "list_tasks E loc tc (e # es) w =
     (let (run, w1) = last_run E loc tc (ce_id e) w; (rest, w2) = list_tasks E loc tc es w1
      in ((''ID: '' @ ce_id e @ nl @ ''Name: '' @ ce_name e @ nl @ ''Type: '' @ ce_type e @ nl @ ''Status: '' @ ce_status e
           @ (if ce_expr e \<noteq> [] then nl @ ''Schedule: '' @ ce_expr e else [])
           @ (case ce_next_run_at e of None \<Rightarrow> [] | Some t \<Rightarrow> nl @ ''Next run: '' @ te_format E loc t)
           @ nl @ ''Created: '' @ te_format E loc (ce_created_at e) @ run) # rest, w2))"

definition cron_list :: "tool_env \<Rightarrow> tool_context \<Rightarrow> string \<Rightarrow> world \<Rightarrow> tool_answer" where
  "cron_list E tc timezone w =
     if_ok (list_cron_entries (tx_tenant tc) (tx_user tc) w) (db_failed E ''cron_list: query: '') (\<lambda>entries w1.
       let es = filter (\<lambda>e. ce_status e \<noteq> ''deleted'') entries
       in if es = [] then (Inr ''No scheduled tasks found.'', w1)
          else let loc = zone_or_utc E (if timezone \<noteq> [] then timezone else te_server_tz E);
                   (parts, w2) = list_tasks E loc tc es w1
               in (Inr (join (nl @ nl) parts), w2))"

section \<open>Memory and journal\<close>

text \<open>The owner of the memory of a context: the chat in groups, the user otherwise.\<close>

definition memory_owner :: "tool_context \<Rightarrow> string \<times> string" where
  "memory_owner tc = (if tx_is_group tc then (''chat'', tx_chat tc) else (''user'', tx_user tc))"

definition memory_get :: "tool_env \<Rightarrow> tool_context \<Rightarrow> world \<Rightarrow> tool_answer" where
  "memory_get E tc w =
     if_ok (get_memory (tx_tenant tc) (fst (memory_owner tc)) (snd (memory_owner tc)) w) (db_failed E []) (\<lambda>r w1.
       (case r of None \<Rightarrow> Inr ''No memory stored.''
        | Some mm \<Rightarrow> if mm_content mm = [] then Inr ''No memory stored.'' else Inr (mm_content mm), w1))"

definition memory_update :: "tool_env \<Rightarrow> tool_context \<Rightarrow> string \<Rightarrow> world \<Rightarrow> tool_answer" where
  "memory_update E tc content w =
     if_ok (save_memory (tx_tenant tc) \<lparr>mm_tenant = tx_tenant tc, mm_owner_type = fst (memory_owner tc),
         mm_owner_id = snd (memory_owner tc), mm_content = content, mm_updated_at = zero_time\<rparr> w)
       (db_failed E []) (\<lambda>_ w1. (Inr ''Memory updated.'', w1))"

definition journal_append :: "tool_env \<Rightarrow> tool_context \<Rightarrow> string \<Rightarrow> string \<Rightarrow> world \<Rightarrow> tool_answer" where
  "journal_append E tc category note_text w =
     (if tx_user tc = [] \<and> tx_chat tc = [] then (Inl ''journal_append: no user or chat context available'', w)
      else if_ok (append_journal (tx_tenant tc) \<lparr>jr_id = [], jr_tenant = tx_tenant tc, jr_user = tx_user tc,
          jr_chat = tx_chat tc, jr_conv = tx_conv tc, jr_category = category, jr_content = note_text,
          jr_message = tx_message tc, jr_created_at = zero_time\<rparr> w)
        (db_failed E []) (\<lambda>_ w1. (Inr ''Journal entry saved.'', w1)))"

fun user_labels :: "string \<Rightarrow> string list \<Rightarrow> world \<Rightarrow> (string \<Rightarrow> string) \<times> world" where
  "user_labels tid [] w = ((\<lambda>_. []), w)"
| "user_labels tid (uid # uids) w =
     (let (r, w1) = get_user tid uid w; (names, w2) = user_labels tid uids w1
      in (case r of Inr (Some u) \<Rightarrow> names(uid := us_name u) | _ \<Rightarrow> names, w2))"

definition journal_filter_of :: "tool_context \<Rightarrow> string \<Rightarrow> string \<Rightarrow> journal_filter" where
  "journal_filter_of tc query category = \<lparr>jf_user = [], jf_chat = tx_chat tc, jf_conv = [],
     jf_categories = (if category \<noteq> [] then [category] else []), jf_query = trim_space query, jf_before = zero_time\<rparr>"

definition journal_line :: "tool_env \<Rightarrow> (string \<Rightarrow> string) \<Rightarrow> journal_entry \<Rightarrow> string" where
  "journal_line E names e = ''['' @ te_format_day E (jr_created_at e) @ ''] ''
     @ (if names (jr_user e) = [] then jr_user e else names (jr_user e)) @ '' ('' @ jr_user e @ ''): ''
     @ jr_category e @ '': '' @ jr_content e"

definition journal_search :: "tool_env \<Rightarrow> tool_context \<Rightarrow> string \<Rightarrow> string \<Rightarrow> world \<Rightarrow> tool_answer" where
  "journal_search E tc query category w =
     if_ok (get_journal (te_journal_fts E) (tx_tenant tc) (journal_filter_of tc query category) w) (db_failed E []) (\<lambda>es w1.
       if es = [] then (Inr ''No journal entries found.'', w1)
       else let (names, w2) = user_labels (tx_tenant tc) (te_order E (remdups (map jr_user es))) w1
            in (Inr (join (nl @ nl) (map (journal_line E names) es)), w2))"

section \<open>Messages\<close>

definition role_name :: "role \<Rightarrow> string" where
  "role_name r = (case r of RoleUnset \<Rightarrow> [] | RoleSystem \<Rightarrow> ''system'' | RoleUser \<Rightarrow> ''user''
     | RoleAssistant \<Rightarrow> ''assistant'' | RoleTool \<Rightarrow> ''tool'')"

text \<open>What both history tools may see: the chat, and in a direct chat the user.\<close>

definition history_scope :: "tool_context \<Rightarrow> message_filter" where
  "history_scope tc = no_filter\<lparr>mf_chat := tx_chat tc, mf_user := (if tx_is_group tc then [] else tx_user tc)\<rparr>"

definition history_get :: "tool_env \<Rightarrow> tool_context \<Rightarrow> string \<Rightarrow> world \<Rightarrow> tool_answer" where
  "history_get E tc mid w =
     (if mid = [] then (Inl ''history_get: message_id is required'', w)
      else if_ok (get_messages (te_fts E) (tx_tenant tc) ((history_scope tc)\<lparr>mf_message := mid, mf_limit := 1\<rparr>) w)
        (db_failed E []) (\<lambda>ms w1. (case ms of [] \<Rightarrow> Inr ''Message not found.''
          | m # _ \<Rightarrow> Inr (''ID: '' @ ms_id m @ nl @ ''Conversation: '' @ ms_conv m @ nl
              @ ''Time: '' @ te_format E utc (ms_created_at m) @ nl @ ''Role: '' @ role_name (ms_role m) @ nl @ nl
              @ ms_content m), w1)))"

text \<open>\<open>[]rune(s)\<close> written back as text: a malformed byte becomes U+FFFD.\<close>

fun rune_texts :: "nat \<Rightarrow> string \<Rightarrow> string list" where
  "rune_texts 0 s = []"
| "rune_texts (Suc n) [] = []"
| "rune_texts (Suc n) (c # s) = (let k = utf8_len (c # s)
     in if k = 0 then [CHR 0xEF, CHR 0xBF, CHR 0xBD] # rune_texts n s
        else take k (c # s) # rune_texts n (drop k (c # s)))"

definition truncate_runes :: "string \<Rightarrow> nat \<Rightarrow> string" where
  "truncate_runes s k = (let rs = rune_texts (length s) s
     in if length rs \<le> k then s else concat (take k rs) @ ''...'')"

record search_args =
  sa_query :: string
  sa_role :: string
  sa_conv :: string
  sa_after :: string
  sa_before :: string
  sa_offset :: int
  sa_limit :: int

definition clamp_limit :: "int \<Rightarrow> int" where
  "clamp_limit l = (let l1 = (if l \<le> 0 then 10 else l) in if l1 > 50 then 50 else l1)"

text \<open>A role that no message has selects nothing.\<close>

definition role_named :: "string \<Rightarrow> role option" where
  "role_named s = find (\<lambda>r. role_name r = s) [RoleUnset, RoleSystem, RoleUser, RoleAssistant, RoleTool]"

definition search_filter :: "tool_env \<Rightarrow> tool_context \<Rightarrow> search_args \<Rightarrow> message_filter" where
  "search_filter E tc a = (history_scope tc)\<lparr>mf_query := trim_space (sa_query a),
     mf_roles := (if sa_role a = [] then [RoleUser, RoleAssistant] else case_option [] (\<lambda>r. [r]) (role_named (sa_role a))),
     mf_conv := sa_conv a,
     mf_after := (if sa_after a = [] then None else te_parse_rfc3339 E (sa_after a)),
     mf_before := (if sa_before a = [] then None else te_parse_rfc3339 E (sa_before a)),
     mf_limit := clamp_limit (sa_limit a), mf_offset := sa_offset a, mf_evicted := Some False\<rparr>"

definition search_line :: "tool_env \<Rightarrow> message \<Rightarrow> string" where
  "search_line E m = ''['' @ te_format E utc (ms_created_at m) @ ''] '' @ role_name (ms_role m) @ '' '' @ ms_id m
     @ '' ('' @ ms_conv m @ ''):'' @ nl @ truncate_runes (ms_content m) 300"

definition search_hits :: "tool_env \<Rightarrow> tool_context \<Rightarrow> search_args \<Rightarrow> world \<Rightarrow> (db_error + message list) \<times> world" where
  "search_hits E tc a w = if_ok (get_messages (te_fts E) (tx_tenant tc) (search_filter E tc a) w)
     (\<lambda>e w1. (Inl e, w1))
     (\<lambda>ms w1. (Inr (if sa_role a \<noteq> [] \<and> role_named (sa_role a) = None then [] else ms), w1))"

definition history_search :: "tool_env \<Rightarrow> tool_context \<Rightarrow> search_args \<Rightarrow> world \<Rightarrow> tool_answer" where
  "history_search E tc a w = if_ok (search_hits E tc a w) (db_failed E []) (\<lambda>ms w1.
     if ms = [] then (Inr ''No messages found.'', w1)
     else (Inr (''Found '' @ show_int (int (length ms)) @ '' message(s):'' @ nl @ nl
       @ join (nl @ nl) (map (search_line E) ms)), w1))"

text \<open>The message tool publishes to a chat of the tenant; the message has no role and no identifier.\<close>

definition message_tool :: "tool_env \<Rightarrow> tool_context \<Rightarrow> string \<Rightarrow> string \<Rightarrow> ('h, 'w) loop_state
    \<Rightarrow> (string + string) \<times> ('h, 'w) loop_state" where
  "message_tool E tc chat_arg content s =
     if_ok (get_chat (tx_tenant tc) (if chat_arg = [] then tx_chat tc else chat_arg) (al_world s))
       (\<lambda>e w1. (Inl (''message: get chat: '' @ te_db_text E e), with_world w1 s))
       (\<lambda>found w1. case found of
          None \<Rightarrow> (Inr ''Chat not found.'', with_world w1 s)
        | Some c \<Rightarrow> (case publish_out (zero_message\<lparr>ms_tenant := tx_tenant tc, ms_chat := ch_id c,
              ms_is_group := ch_is_group c, ms_kind := KindMessage, ms_content := content\<rparr>) (with_world w1 s) of
            (Inl e, s2) \<Rightarrow> (Inl (te_bus_text E e), s2)
          | (Inr _, s2) \<Rightarrow> (Inr ''Message sent.'', s2)))"

section \<open>Time and secrets\<close>

definition time_tool :: "tool_env \<Rightarrow> string \<Rightarrow> world \<Rightarrow> tool_answer" where
  "time_tool E timezone w =
     (let tz = (if timezone \<noteq> [] then timezone else server_tz E)
      in case te_load_location E tz of
           None \<Rightarrow> (Inl (''time: invalid timezone '' @ te_quote E tz), w)
         | Some loc \<Rightarrow> (Inr (te_format E loc (w_now w)), w))"

definition secret_failed :: "tool_env \<Rightarrow> string \<Rightarrow> secret_error \<Rightarrow> world \<Rightarrow> tool_answer" where
  "secret_failed E prefix e w = (Inl (prefix @ te_secret_text E e), w)"

definition json_pair :: "string \<Rightarrow> string \<Rightarrow> string" where
  "json_pair k raw = json_string k @ '':'' @ raw"

definition secret_request :: "tool_env \<Rightarrow> tool_context \<Rightarrow> string list \<Rightarrow> string_map \<Rightarrow> world \<Rightarrow> tool_answer" where
  "secret_request E tc keys modes w =
     (if keys = [] then (Inl ''secret_request: at least one key is required'', w)
      else if_ok (request_entry (te_public_url E) (te_token E) keys modes (tx_tenant tc) (tx_user tc) (tx_conv tc) (tx_chat tc) w)
        (secret_failed E ''secret_request: '') (\<lambda>url w1.
          (Inr (''{'' @ json_pair ''url'' (json_string url) @ '',''
             @ json_pair ''keys'' (''['' @ join '','' (map json_string keys) @ '']'') @ '',''
             @ json_pair ''expires_in'' (json_string ''1 hour'') @ ''}''), w1)))"

definition secret_set :: "tool_env \<Rightarrow> tool_context \<Rightarrow> string \<Rightarrow> string \<Rightarrow> world \<Rightarrow> tool_answer" where
  "secret_set E tc key val w =
     (if key = [] then (Inl ''secret_set: key is required'', w)
      else if_ok (set_secret (te_cipher E) (te_nonce E) (tx_tenant tc) (tx_user tc) key val SecretModeValue w)
        (secret_failed E ''secret_set: '') (\<lambda>_ w1.
          (Inr (''{'' @ json_pair ''stored'' ''true'' @ '','' @ json_pair ''key'' (json_string key) @ ''}''), w1)))"

definition scope_name :: "secret_scope \<Rightarrow> string" where
  "scope_name sc = (case sc of ScopeTenant \<Rightarrow> ''tenant'' | ScopeUser \<Rightarrow> ''user'')"

text \<open>The listing comes from a map: its order is a parameter.\<close>

definition secret_list :: "tool_env \<Rightarrow> tool_context \<Rightarrow> world \<Rightarrow> tool_answer" where
  "secret_list E tc w =
     if_ok (list_effective (tx_tenant tc) (tx_user tc) w) (secret_failed E ''secret_list: '') (\<lambda>es w1.
       let shown = List.map_filter (\<lambda>k. map_option (Pair k) (map_of es k)) (te_order E (map fst es));
           item = (\<lambda>(k, sc, mode). ''{'' @ json_pair ''key'' (json_string k) @ '',''
             @ json_pair ''scope'' (json_string (scope_name sc)) @ '','' @ json_pair ''mode'' (json_string mode) @ ''}'')
       in (Inr (''{'' @ json_pair ''secrets'' (''['' @ join '','' (map item shown) @ '']'') @ '',''
            @ json_pair ''count'' (show_int (int (length shown))) @ ''}''), w1))"

definition secret_delete :: "tool_env \<Rightarrow> tool_context \<Rightarrow> string \<Rightarrow> world \<Rightarrow> tool_answer" where
  "secret_delete E tc key w =
     (if key = [] then (Inl ''secret_delete: key is required'', w)
      else if_ok (delete_secret_value (tx_tenant tc) (tx_user tc) key w) (secret_failed E ''secret_delete: '') (\<lambda>_ w1.
        (Inr (''{'' @ json_pair ''deleted'' ''true'' @ '','' @ json_pair ''key'' (json_string key) @ ''}''), w1)))"

section \<open>The tool table\<close>

text \<open>
  What \<open>json.Unmarshal\<close> makes of the arguments, none when they do not parse: the string fields
  of an object, the empty string when absent, and the structures with other fields.
\<close>

record decoders =
  dc_fields :: "string \<Rightarrow> (string \<Rightarrow> string) option"
  dc_search :: "string \<Rightarrow> search_args option"
  dc_request :: "string \<Rightarrow> (string list \<times> string_map) option"

definition create_args_of :: "(string \<Rightarrow> string) \<Rightarrow> create_args" where
  "create_args_of f = \<lparr>ca_schedule = f ''schedule'', ca_instructions = f ''instructions'', ca_name = f ''name'',
     ca_type = f ''type'', ca_timezone = f ''timezone''\<rparr>"

text \<open>A tool on the database, as a tool on the state of the loop.\<close>

definition on_world :: "(world \<Rightarrow> tool_answer) \<Rightarrow> ('h, 'w) loop_state \<Rightarrow> (string + string) \<times> ('h, 'w) loop_state" where
  "on_world f s = (let (r, w) = f (al_world s) in (r, with_world w s))"

definition decoded :: "tool_env \<Rightarrow> string \<Rightarrow> (string \<Rightarrow> 'a option) \<Rightarrow> ('a \<Rightarrow> ('h, 'w) loop_state
    \<Rightarrow> (string + string) \<times> ('h, 'w) loop_state) \<Rightarrow> string \<Rightarrow> ('h, 'w) loop_state
    \<Rightarrow> (string + string) \<times> ('h, 'w) loop_state" where
  "decoded E name dec f args s = (case dec args of
       None \<Rightarrow> (Inl (name @ '': parse args: '' @ te_json_text E args), s)
     | Some a \<Rightarrow> f a s)"

definition builtin_tools :: "tool_env \<Rightarrow> decoders \<Rightarrow> string \<Rightarrow> (tool_context \<Rightarrow> string \<Rightarrow> ('h, 'w) loop_state
    \<Rightarrow> (string + string) \<times> ('h, 'w) loop_state) option" where
  "builtin_tools E D = map_of
     [(''memory_get'', \<lambda>tc args. on_world (memory_get E tc)),
      (''memory_update'', \<lambda>tc. decoded E ''memory_update'' (dc_fields D)
         (\<lambda>f. on_world (memory_update E tc (f ''content'')))),
      (''journal_append'', \<lambda>tc. decoded E ''journal_append'' (dc_fields D)
         (\<lambda>f. on_world (journal_append E tc (f ''category'') (f ''note'')))),
      (''journal_search'', \<lambda>tc. decoded E ''journal_search'' (dc_fields D)
         (\<lambda>f. on_world (journal_search E tc (f ''query'') (f ''category'')))),
      (''message'', \<lambda>tc. decoded E ''message'' (dc_fields D)
         (\<lambda>f. message_tool E tc (f ''chat_id'') (f ''content''))),
      (''time'', \<lambda>tc. decoded E ''time'' (dc_fields D) (\<lambda>f. on_world (time_tool E (f ''timezone'')))),
      (''history_search'', \<lambda>tc. decoded E ''history_search'' (dc_search D) (\<lambda>a. on_world (history_search E tc a))),
      (''history_get'', \<lambda>tc. decoded E ''history_get'' (dc_fields D)
         (\<lambda>f. on_world (history_get E tc (f ''message_id'')))),
      (''cron_create'', \<lambda>tc. decoded E ''cron_create'' (dc_fields D)
         (\<lambda>f. on_world (cron_create E tc (create_args_of f)))),
      (''cron_list'', \<lambda>tc. decoded E ''cron_list'' (dc_fields D) (\<lambda>f. on_world (cron_list E tc (f ''timezone'')))),
      (''cron_set_status'', \<lambda>tc. decoded E ''cron_set_status'' (dc_fields D)
         (\<lambda>f. on_world (cron_set_status E tc (f ''id'') (f ''status'')))),
      (''secret_request'', \<lambda>tc. decoded E ''secret_request'' (dc_request D)
         (\<lambda>(keys, modes). on_world (secret_request E tc keys modes))),
      (''secret_set'', \<lambda>tc. decoded E ''secret_set'' (dc_fields D)
         (\<lambda>f. on_world (secret_set E tc (f ''key'') (f ''value'')))),
      (''secret_list'', \<lambda>tc args. on_world (secret_list E tc)),
      (''secret_delete'', \<lambda>tc. decoded E ''secret_delete'' (dc_fields D)
         (\<lambda>f. on_world (secret_delete E tc (f ''key''))))]"

end
