(* ===== verification/Tools_Laws.thy ===== *)
theory Tools_Laws
  imports Tools Agent_History Store_Tables
begin

text \<open>
  What the built-in tools guarantee: the history tools stay in the chat, only the owner of a
  scheduled task changes it and a removed task never fires, the memory that a tool writes is
  the one that tools and prompts read, and the whole set respects the history of a turn.
\<close>

section \<open>History\<close>

lemma get_messages_result:
  assumes "get_messages fts tid f w = (Inr ms, w')"
  shows "\<forall>m \<in> set ms. message_matches tid f m" "0 < mf_limit f \<longrightarrow> int (length ms) \<le> mf_limit f"
    "w_db w' = w_db w"
proof -
  have ms: "ms = select_messages fts tid f (w_db w)" and db: "w_db w' = w_db w"
    using assms by (auto simp: get_messages_def db_query_def Let_def split: if_splits)
  have sub: "set (page l off xs) \<subseteq> set xs" for l off and xs :: "message list"
    by (auto simp: page_def dest: in_set_takeD in_set_dropD)
  show "\<forall>m \<in> set ms. message_matches tid f m"
    unfolding ms select_messages_def Let_def using sub
    by (auto split: if_splits dest!: subsetD [OF sub])
  show "0 < mf_limit f \<longrightarrow> int (length ms) \<le> mf_limit f"
    unfolding ms select_messages_def Let_def page_def by (auto split: if_splits)
  show "w_db w' = w_db w" by (rule db)
qed

text \<open>
  C22: The history search shows at most fifty messages, none evicted, all of the tenant and the
  chat of the conversation, and in a direct chat all of its user.
\<close>

theorem history_search_scoped:
  assumes "search_hits E tc a w = (Inr ms, w')"
  shows "length ms \<le> 50 \<and> (\<forall>m \<in> set ms. ms_tenant m = tx_tenant tc \<and> \<not> ms_evicted m
    \<and> (tx_chat tc \<noteq> [] \<longrightarrow> ms_chat m = tx_chat tc)
    \<and> (\<not> tx_is_group tc \<and> tx_user tc \<noteq> [] \<longrightarrow> ms_user m = tx_user tc)
    \<and> (sa_role a = [] \<longrightarrow> ms_role m \<in> {RoleUser, RoleAssistant}))"
proof -
  obtain hits w1 where g: "get_messages (te_fts E) (tx_tenant tc) (search_filter E tc a) w = (Inr hits, w1)"
    and sub: "set ms \<subseteq> set hits" "length ms \<le> length hits"
    using assms by (auto simp: search_hits_def if_ok_def split: prod.splits sum.splits if_splits)
  note r = get_messages_result [OF g]
  have "0 < clamp_limit (sa_limit a)" "clamp_limit (sa_limit a) \<le> 50" by (auto simp: clamp_limit_def Let_def)
  then have "length hits \<le> 50" using r(2) by (auto simp: search_filter_def)
  moreover have "ms_tenant m = tx_tenant tc \<and> \<not> ms_evicted m
    \<and> (tx_chat tc \<noteq> [] \<longrightarrow> ms_chat m = tx_chat tc)
    \<and> (\<not> tx_is_group tc \<and> tx_user tc \<noteq> [] \<longrightarrow> ms_user m = tx_user tc)
    \<and> (sa_role a = [] \<longrightarrow> ms_role m \<in> {RoleUser, RoleAssistant})" if "m \<in> set hits" for m
    using r(1) that by (auto simp: message_matches_def search_filter_def history_scope_def no_filter_def)
  ultimately show ?thesis using sub by auto
qed

section \<open>Scheduled tasks\<close>

lemma update_where_other: "\<not> P x \<Longrightarrow> x \<in> set xs \<Longrightarrow> x \<in> set (update_where P f xs)"
  by (auto simp: update_where_def image_iff)

lemma status_query: "get_cron_entry tid eid w = (r, w1) \<Longrightarrow> w_db w1 = w_db w"
  by (auto simp: get_cron_entry_def db_query_def Let_def split: if_splits)

text \<open>The steps of the tool that write, as functions of the database.\<close>

lemma status_step:
  assumes "update_cron_status tid eid st w = (r, w')"
  shows "w_db w' = (case r of Inl _ \<Rightarrow> w_db w | Inr _ \<Rightarrow> set_cron_status tid eid st (w_db w))"
  using assms by (auto simp: update_cron_status_def db_exec_def Let_def split: if_splits)

lemma next_run_step:
  assumes "update_cron_next_run tid eid nx w = (r, w')"
  shows "w_db w' = (case r of Inl _ \<Rightarrow> w_db w | Inr _ \<Rightarrow> set_cron_next_run tid eid nx (w_db w))"
  using assms by (auto simp: update_cron_next_run_def db_exec_def Let_def split: if_splits)

lemma next_run_after_status:
  "set_cron_next_run tid eid nx (set_cron_status tid eid st d) = d\<lparr>d_cron := update_where (cron_row tid eid)
     (\<lambda>e. e\<lparr>ce_status := st, ce_next_run_at := map_option rfc3339 nx\<rparr>) (d_cron d)\<rparr>"
  by (auto simp: set_cron_next_run_def set_cron_status_def update_where_def cron_row_def)

lemma deleted_not_active:
  assumes "\<And>e. ce_status (f e) = ''deleted''"
  shows "\<forall>x \<in> set (active_cron_entries (d\<lparr>d_cron := update_where (cron_row t i) f (d_cron d)\<rparr>)). \<not> cron_row t i x"
  using assms by (auto simp: active_cron_entries_def update_where_def)

lemma cron_set_status_cases:
  assumes "cron_set_status E tc eid st w = (r, w')"
  obtains (same) "w_db w' = w_db w" "st = ''deleted'' \<and> eid \<noteq> [] \<Longrightarrow> \<exists>e. cron_entry_of (tx_tenant tc) eid (w_db w) = Some e
        \<and> ce_user e = tx_user tc \<Longrightarrow> \<exists>x. r = Inl x"
  | (status) e where "cron_entry_of (tx_tenant tc) eid (w_db w) = Some e" "ce_user e = tx_user tc"
      "w_db w' = set_cron_status (tx_tenant tc) eid st (w_db w)"
  | (both) e nx where "cron_entry_of (tx_tenant tc) eid (w_db w) = Some e" "ce_user e = tx_user tc"
      "w_db w' = set_cron_next_run (tx_tenant tc) eid nx (set_cron_status (tx_tenant tc) eid st (w_db w))"
proof -
  obtain q w1 where g: "get_cron_entry (tx_tenant tc) eid w = (q, w1)" by fastforce
  have w1: "w_db w1 = w_db w" by (rule status_query [OF g])
  have found: "x = cron_entry_of (tx_tenant tc) eid (w_db w)" if "q = Inr x" for x
    using g that by (auto simp: get_cron_entry_def db_query_def Let_def split: if_splits)
  have "w_db w' = w_db w \<and> (st = ''deleted'' \<and> eid \<noteq> [] \<longrightarrow> (\<exists>e. cron_entry_of (tx_tenant tc) eid (w_db w) = Some e
        \<and> ce_user e = tx_user tc) \<longrightarrow> (\<exists>x. r = Inl x))
    \<or> (\<exists>e. cron_entry_of (tx_tenant tc) eid (w_db w) = Some e \<and> ce_user e = tx_user tc
       \<and> (w_db w' = set_cron_status (tx_tenant tc) eid st (w_db w)
          \<or> (\<exists>nx. w_db w' = set_cron_next_run (tx_tenant tc) eid nx (set_cron_status (tx_tenant tc) eid st (w_db w)))))"
  proof (cases q)
    case (Inl e)
    then show ?thesis
      using assms g w1 by (auto simp: cron_set_status_def db_failed_def split: if_splits)
  next
    case (Inr x)
    note x = found [OF Inr]
    show ?thesis
    proof (cases "x = None \<or> ce_user (the x) \<noteq> tx_user tc \<or> eid = [] \<or> st \<notin> {''active'', ''paused'', ''deleted''}")
      case True
      then show ?thesis
        using assms g w1 Inr x by (auto simp: cron_set_status_def split: if_splits option.splits)
    next
      case False
      then obtain e where e: "x = Some e" "ce_user e = tx_user tc" by auto
      obtain q2 w2 where u: "update_cron_status (tx_tenant tc) eid st w1 = (q2, w2)" by fastforce
      have w2: "w_db w2 = (case q2 of Inl _ \<Rightarrow> w_db w | Inr _ \<Rightarrow> set_cron_status (tx_tenant tc) eid st (w_db w))"
        using status_step [OF u] w1 by (cases q2) simp_all
      have nx: "w_db w3 = (case q3 of Inl _ \<Rightarrow> w_db w2 | Inr _ \<Rightarrow> set_cron_next_run (tx_tenant tc) eid n (w_db w2))"
        if "update_cron_next_run (tx_tenant tc) eid n w2 = (q3, w3)" for n q3 w3
        by (rule next_run_step [OF that])
      show ?thesis
      proof (cases q2)
        case (Inl y)
        then show ?thesis
          using assms g w1 \<open>q = Inr x\<close> e u w2 False
          by (auto simp: cron_set_status_def db_failed_def split: if_splits)
      next
        case (Inr y)
        have "w_db w' = w_db w2 \<or> (\<exists>n. w_db w' = set_cron_next_run (tx_tenant tc) eid n (w_db w2))"
        proof (cases "st = ''deleted''")
          case True
          obtain q3 w3 where n: "update_cron_next_run (tx_tenant tc) eid None w2 = (q3, w3)" by fastforce
          have "w' = w3" using assms g \<open>q = Inr x\<close> e u Inr n True False
            by (auto simp: cron_set_status_def db_failed_def if_ok_def split: sum.splits if_splits)
          then show ?thesis using nx [OF n] by (auto split: sum.splits)
        next
          case st: False
          show ?thesis
          proof (cases "parse_cron (ce_expr e)")
            case (Inl z)
            then have "w' = w2" using assms g \<open>q = Inr x\<close> e u Inr st False
              by (auto simp: cron_set_status_def db_failed_def Let_def split: if_splits)
            then show ?thesis by simp
          next
            case c: (Inr c)
            obtain q3 w3 where n: "update_cron_next_run (tx_tenant tc) eid
                (Some (next_after c (zone_or_utc E (te_server_tz E)) (w_now w2))) w2 = (q3, w3)" by fastforce
            have "w' = w2 \<or> w' = w3" using assms g \<open>q = Inr x\<close> e u Inr c n st False
              by (auto simp: cron_set_status_def db_failed_def Let_def if_ok_def split: sum.splits if_splits)
            then show ?thesis using nx [OF n] by (auto split: sum.splits)
          qed
        qed
        then show ?thesis using w2 Inr e x by auto
      qed
    qed
  qed
  then show ?thesis using same status both by blast
qed

text \<open>
  C21: Only the owner of a scheduled task changes it with the tool, and only that task; a task
  that the tool removed is not among the active entries the scheduler looks at.
\<close>

theorem task_changes_need_owner:
  assumes "cron_set_status E tc eid st w = (r, w')"
  shows "(w_db w' \<noteq> w_db w \<longrightarrow>
      (\<exists>e f. cron_entry_of (tx_tenant tc) eid (w_db w) = Some e \<and> ce_user e = tx_user tc
        \<and> w_db w' = (w_db w)\<lparr>d_cron := update_where (cron_row (tx_tenant tc) eid) f (d_cron (w_db w))\<rparr>))
    \<and> (st = ''deleted'' \<and> eid \<noteq> [] \<and> r = Inr said \<and> (\<exists>e. cron_entry_of (tx_tenant tc) eid (w_db w) = Some e \<and> ce_user e = tx_user tc)
      \<longrightarrow> (\<forall>x \<in> set (active_cron_entries (w_db w')). \<not> cron_row (tx_tenant tc) eid x))"
proof -
  let ?mine = "\<exists>e. cron_entry_of (tx_tenant tc) eid (w_db w) = Some e \<and> ce_user e = tx_user tc"
  let ?changed = "\<exists>e f. cron_entry_of (tx_tenant tc) eid (w_db w) = Some e \<and> ce_user e = tx_user tc
    \<and> w_db w' = (w_db w)\<lparr>d_cron := update_where (cron_row (tx_tenant tc) eid) f (d_cron (w_db w))\<rparr>"
  let ?gone = "\<forall>x \<in> set (active_cron_entries (w_db w')). \<not> cron_row (tx_tenant tc) eid x"
  from assms have "(w_db w' = w_db w \<or> ?changed) \<and> (st = ''deleted'' \<and> eid \<noteq> [] \<and> r = Inr said \<and> ?mine \<longrightarrow> ?gone)"
  proof (cases rule: cron_set_status_cases)
    case same
    from same(2) have "\<not> (st = ''deleted'' \<and> eid \<noteq> [] \<and> r = Inr said \<and> ?mine)" by fastforce
    with same(1) show ?thesis by blast
  next
    case (status e)
    have ?changed
      using status(1,2) unfolding status(3) set_cron_status_def
      by (intro exI [of _ e] exI [of _ "\<lambda>e. e\<lparr>ce_status := st\<rparr>"] conjI refl)
    moreover have ?gone if "st = ''deleted''"
      unfolding status(3) that set_cron_status_def by (rule deleted_not_active) simp
    ultimately show ?thesis by simp
  next
    case (both e nx)
    have ?changed
      using both(1,2) unfolding both(3) next_run_after_status
      by (intro exI [of _ e] exI [of _ "\<lambda>e. e\<lparr>ce_status := st, ce_next_run_at := map_option rfc3339 nx\<rparr>"] conjI refl)
    moreover have ?gone if "st = ''deleted''"
      unfolding both(3) that next_run_after_status by (rule deleted_not_active) simp
    ultimately show ?thesis by simp
  qed
  then show ?thesis by argo
qed

section \<open>Memory\<close>

lemma memory_saved:
  assumes "save_memory tid m w = (Inr u, w')"
  shows "map_option mm_content (memory_of tid (mm_owner_type m) (mm_owner_id m) (w_db w')) = Some (mm_content m)"
  using memories.put_same [of "(tid, m)" w u w'] assms by (simp add: memory_text_def)

text \<open>
  C23: The memory a tool writes is what the memory tool then reads and what the prompts of the
  same chat, in groups, or of the same user show.
\<close>

theorem memory_written_is_prompted:
  assumes "memory_update E tc content w = (Inr said, w')" "w_faults w' = []"
    and "snd (memory_owner tc) \<noteq> []" "tn_id t = tx_tenant tc" "ms_is_group m = tx_is_group tc"
    and "if tx_is_group tc then ms_chat m = tx_chat tc else us_id u = tx_user tc"
  shows "fst (fetch_memory (Some t) (Some u) m w') = content
    \<and> fst (memory_get E tc w') = Inr (if content = [] then ''No memory stored.'' else content)"
proof -
  let ?o = "memory_owner tc"
  obtain x where "save_memory (tx_tenant tc) \<lparr>mm_tenant = tx_tenant tc, mm_owner_type = fst ?o,
      mm_owner_id = snd ?o, mm_content = content, mm_updated_at = zero_time\<rparr> w = (Inr x, w')"
    using assms(1) by (auto simp: memory_update_def if_ok_def db_failed_def split: prod.splits sum.splits)
  from memory_saved [OF this] obtain mm where
    mm: "memory_of (tx_tenant tc) (fst ?o) (snd ?o) (w_db w') = Some mm" "mm_content mm = content" by auto
  have q: "get_memory (tx_tenant tc) (fst ?o) (snd ?o) w' = (Inr (Some mm), w'\<lparr>w_faults := []\<rparr>)"
    using assms(2) mm(1) by (simp add: get_memory_def db_query_def faulty_def)
  have "fetch_memory (Some t) (Some u) m w' = (content, w'\<lparr>w_faults := []\<rparr>)"
    using assms(3-6) q mm(2) by (cases "tx_is_group tc") (auto simp: fetch_memory_def memory_owner_def)
  with q mm(2) show ?thesis by (simp add: memory_get_def)
qed

section \<open>All tools\<close>

lemma if_ok_snd_history [history_frame]:
  assumes "same_history w (snd c)" "\<And>e w1. same_history w1 (snd (err e w1))" "\<And>a w1. same_history w1 (snd (k a w1))"
  shows "same_history w (snd (if_ok c err k))"
  by (rule same_if_ok [where h = snd]) (use assms in auto)

lemma db_failed_history [history_frame]: "same_history w (snd (db_failed E p e w))"
  "same_history w (snd (secret_failed E p e' w))"
  by (simp_all add: db_failed_def secret_failed_def)

lemma store_history [history_frame]:
  "same_history w (snd (get_cron_entry t i w))" "same_history w (snd (list_cron_entries t u w))"
  "same_history w (snd (list_cron_runs t i n w))" "same_history w (snd (get_memory t o1 o2 w))"
  "same_history w (snd (get_user t u w))" "same_history w (snd (get_journal fj t jf w))"
  "same_history w (snd (get_messages fts t mf w))" "same_history w (snd (get_chat t c w))"
  "same_history w (snd (list_secrets t u w))"
  by (simp_all add: get_cron_entry_def list_cron_entries_def list_cron_runs_def get_memory_def get_user_def
      get_journal_def get_messages_def get_chat_def list_secrets_def history_frame)

lemma write_history [history_frame]:
  "same_history w (snd (save_cron_entry t e w))" "same_history w (snd (update_cron_status t i st w))"
  "same_history w (snd (update_cron_next_run t i nx w))" "same_history w (snd (save_memory t mm w))"
  "same_history w (snd (save_secret t sc w))" "same_history w (snd (delete_secret t u key w))"
  "same_history w (snd (save_secret_token tok w))"
  unfolding save_cron_entry_def update_cron_status_def update_cron_next_run_def save_memory_def save_secret_def
    delete_secret_def save_secret_token_def Let_def set_cron_status_def set_cron_next_run_def
  by (rule db_exec_history; auto split: if_splits)+

lemma append_journal_history [history_frame]: "same_history w (snd (append_journal t e w))"
proof -
  obtain i w1 where n: "new_id w = (i, w1)" by fastforce
  show ?thesis
    unfolding append_journal_def n prod.case Let_def
    by (rule same_history_trans [OF new_id_history' [OF n] db_exec_history]) (auto split: if_splits)
qed

lemma last_run_history [history_frame]: "same_history w (snd (last_run E loc tc i w))"
  by (simp add: last_run_def history_frame)

lemma list_tasks_history [history_frame]: "same_history w (snd (list_tasks E loc tc es w))"
proof (induction es arbitrary: w)
  case (Cons e es)
  obtain run w1 where r: "last_run E loc tc (ce_id e) w = (run, w1)" by fastforce
  have "same_history w w1" using last_run_history r by (metis snd_conv)
  then show ?case using Cons.IH [of w1] by (auto simp: r split: prod.splits intro: same_history_trans)
qed simp

lemma user_labels_history [history_frame]: "same_history w (snd (user_labels t us w))"
proof (induction us arbitrary: w)
  case (Cons u us)
  obtain r w1 where r: "get_user t u w = (r, w1)" by fastforce
  have "same_history w w1" using store_history(5) r by (metis snd_conv)
  then show ?case using Cons.IH [of w1] by (auto simp: r split: prod.splits intro: same_history_trans)
qed simp

lemma secret_history [history_frame]:
  "same_history w (snd (list_effective t u w))" "same_history w (snd (delete_secret_value t u key w))"
  "same_history w (snd (request_entry url tok keys modes t u conv chat w))"
  by (simp_all add: list_effective_def delete_secret_value_def request_entry_def history_frame)

lemma set_secret_history [history_frame]: "same_history w (snd (set_secret ci nonce t u key val mode w))"
proof -
  obtain i w1 where n: "new_id w = (i, w1)" by fastforce
  show ?thesis
    unfolding set_secret_def n prod.case Let_def
    by (rule same_history_trans [OF new_id_history' [OF n]]) (simp add: history_frame)
qed

lemma snd_pair_history: "snd p = w1 \<Longrightarrow> same_history w w1 \<Longrightarrow> same_history w (snd p)"
  by simp

lemma tool_history [history_frame]:
  "same_history w (snd (memory_get E tc w))" "same_history w (snd (memory_update E tc content w))"
  "same_history w (snd (journal_append E tc cat said w))" "same_history w (snd (history_get E tc i w))"
  "same_history w (snd (time_tool E tz w))" "same_history w (snd (secret_request E tc keys modes w))"
  "same_history w (snd (secret_set E tc key val w))" "same_history w (snd (secret_list E tc w))"
  "same_history w (snd (secret_delete E tc key w))"
  by (simp_all add: memory_get_def memory_update_def journal_append_def history_get_def time_tool_def
      secret_request_def secret_set_def secret_list_def secret_delete_def Let_def history_frame split: option.split)

lemma search_tools_history [history_frame]:
  "same_history w (snd (journal_search E tc query cat w))" "same_history w (snd (history_search E tc a w))"
  "same_history w (snd (cron_list E tc tz w))"
proof -
  show "same_history w (snd (journal_search E tc query cat w))"
    unfolding journal_search_def
    by (rule if_ok_snd_history) (simp_all add: history_frame Let_def split_beta)
  have "same_history w (snd (search_hits E tc a w))" for w
    unfolding search_hits_def by (rule if_ok_snd_history) (simp_all add: history_frame)
  then show "same_history w (snd (history_search E tc a w))"
    unfolding history_search_def by (rule if_ok_snd_history) (simp_all add: history_frame)
  show "same_history w (snd (cron_list E tc tz w))"
    unfolding cron_list_def
    by (rule if_ok_snd_history) (simp_all add: history_frame Let_def split_beta)
qed

lemma cron_create_history [history_frame]: "same_history w (snd (cron_create E tc raw w))"
proof -
  obtain i w1 where n: "new_id w = (i, w1)" by fastforce
  have "same_history w (snd (if_ok (save_cron_entry (tx_tenant tc) e w1) (db_failed E p) (\<lambda>_ w2. (out, w2))))" for e p out
    by (rule same_history_trans [OF new_id_history' [OF n]]) (simp add: history_frame)
  then show ?thesis by (auto simp: cron_create_def Let_def n split: option.split sum.split prod.split)
qed

lemma cron_set_status_history [history_frame]: "same_history w (snd (cron_set_status E tc i st w))"
  unfolding cron_set_status_def Let_def
  by (auto intro!: if_ok_snd_history simp: history_frame split: option.split sum.split)

lemma on_world_orderly: "(\<And>w. same_history w (snd (f w))) \<Longrightarrow> keeps_history s (snd (on_world f s))"
  by (cases "f (al_world s)") (simp add: on_world_def, metis snd_conv)

lemma on_world_bus: "al_bus (snd (on_world f s)) = al_bus s"
  by (simp add: on_world_def with_world_bus split: prod.split)

lemma decoded_cases: "snd (decoded E name dec f args s) = s \<or> (\<exists>a. snd (decoded E name dec f args s) = snd (f a s))"
  by (auto simp: decoded_def split: option.split)

lemma decoded_orderly: "(\<And>a. keeps_history s (snd (f a s))) \<Longrightarrow> keeps_history s (snd (decoded E name dec f args s))"
  by (simp add: decoded_def split: option.split)

lemma decoded_bus: "(\<And>a. al_bus (snd (f a s)) = al_bus s) \<Longrightarrow> al_bus (snd (decoded E name dec f args s)) = al_bus s"
  by (simp add: decoded_def split: option.split)

lemma message_tool_orderly: "keeps_history s (snd (message_tool E tc chat content s))"
proof -
  obtain r w1 where g: "get_chat (tx_tenant tc) (if chat = [] then tx_chat tc else chat) (al_world s) = (r, w1)" by fastforce
  have w1: "same_history (al_world s) w1" using store_history(8) g by (metis snd_conv)
  have "al_world (snd (publish_out m (with_world w1 s))) = w1" for m
    by (simp add: publish_out_def split: prod.split)
  then have p: "al_world s2 = w1" if "publish_out m (with_world w1 s) = (q, s2)" for m q s2
    using that by (metis snd_conv)
  show ?thesis
    using w1 by (auto simp: message_tool_def g if_ok_def split: sum.split option.split prod.split dest!: p)
qed

text \<open>
  C24: No built-in tool writes the history of a conversation, and none but the message tool
  publishes: with them every turn keeps its calls and results together, and without the message
  tool every turn publishes at most its one answer.
\<close>

theorem builtin_tools_well_behaved:
  "orderly_tools (C\<lparr>lc_tool := builtin_tools E D\<rparr>)
    \<and> quiet_tools (C\<lparr>lc_tool := (builtin_tools E D)(''message'' := None)\<rparr>)"
proof -
  have "keeps_history s (snd (f tc args s))" if "builtin_tools E D name = Some f" for name f tc args and s :: "('a, 'b) loop_state"
    using map_of_SomeD [OF that [unfolded builtin_tools_def]]
    by (auto intro!: decoded_orderly on_world_orderly message_tool_orderly history_frame split: prod.split)
  then have "orderly_tools (C\<lparr>lc_tool := builtin_tools E D\<rparr>)" by (simp add: orderly_tools_def)
  moreover have "al_bus (snd (f tc args s)) = al_bus s"
    if "builtin_tools E D name = Some f" "name \<noteq> ''message''" for name f tc args and s :: "('a, 'b) loop_state"
    using map_of_SomeD [OF that(1) [unfolded builtin_tools_def]] that(2)
    by (auto intro!: decoded_bus on_world_bus split: prod.split)
  then have "quiet_tools (C\<lparr>lc_tool := (builtin_tools E D)(''message'' := None)\<rparr>)"
    by (simp add: quiet_tools_def)
  ultimately show ?thesis by blast
qed

section \<open>Tools at work\<close>

definition demo_tool_env :: tool_env where
  "demo_tool_env = \<lparr>te_server_tz = [], te_load_location = [''UTC'' \<mapsto> utc], te_parse_rfc3339 = (\<lambda>_. None),
     te_parse_local = (\<lambda>_ _. None), te_format = (\<lambda>_ _. []), te_format_day = (\<lambda>_. []), te_db_text = (\<lambda>_. []),
     te_bus_text = (\<lambda>_. []), te_cron_text = (\<lambda>_. []), te_secret_text = (\<lambda>_. []), te_json_text = (\<lambda>_. []),
     te_quote = (\<lambda>s. s), te_order = (\<lambda>ks. ks), te_fts = (\<lambda>_ rows. rows), te_journal_fts = (\<lambda>_ rows. rows),
     te_cipher = demo_cipher, te_nonce = ''0123456789ab'', te_public_url = [], te_token = ''tok''\<rparr>"

definition demo_context :: "bool \<Rightarrow> tool_context" where
  "demo_context grp = \<lparr>tx_tenant = ''t1'', tx_agent = ''a1'', tx_user = ''u1'', tx_chat = ''c1'', tx_is_group = grp,
     tx_message = ''m9'', tx_conv = ''v1''\<rparr>"

definition demo_search :: search_args where
  "demo_search = \<lparr>sa_query = [], sa_role = [], sa_conv = [], sa_after = [], sa_before = [], sa_offset = 0, sa_limit = 500\<rparr>"

theorem history_search_scoped_witness:
  "\<exists>ms w'. search_hits demo_tool_env (demo_context True) demo_search demo_lines = (Inr ms, w') \<and> length ms = 3
     \<and> length ms \<le> 50 \<and> (\<forall>m \<in> set ms. ms_chat m = ''c1'')"
proof -
  let ?r = "search_hits demo_tool_env (demo_context True) demo_search demo_lines"
  have "map_sum (\<lambda>_. ()) length (fst ?r) = Inr 3" by code_simp
  moreover obtain q w' where q: "?r = (q, w')" by fastforce
  ultimately obtain ms where r: "?r = (Inr ms, w')" "length ms = 3" by (cases q) auto
  have "length ms \<le> 50 \<and> (\<forall>m \<in> set ms. ms_chat m = ''c1'')"
    using history_search_scoped [OF r(1)] by (simp add: demo_context_def)
  with r show ?thesis by blast
qed

definition demo_task :: cron_entry where
  "demo_task = \<lparr>ce_id = ''e1'', ce_tenant = ''t1'', ce_agent = ''a1'', ce_user = ''u1'', ce_chat = ''c1'',
     ce_is_group = False, ce_name = ''standup'', ce_instructions = ''remind me'', ce_type = ''once'', ce_expr = [],
     ce_next_run_at = Some 0, ce_status = ''active'', ce_created_at = 0, ce_metadata = [], ce_conv = ''v1'', ce_message = []\<rparr>"

theorem task_changes_need_owner_witness:
  "\<exists>w'. cron_set_status demo_tool_env (demo_context False) ''e1'' ''deleted'' (demo_world\<lparr>w_db := empty_db\<lparr>d_cron := [demo_task]\<rparr>\<rparr>)
       = (Inr ''Removed scheduled task: standup (ID: e1)'', w')
     \<and> (\<forall>x \<in> set (active_cron_entries (w_db w')). \<not> cron_row ''t1'' ''e1'' x)"
proof -
  let ?w = "demo_world\<lparr>w_db := empty_db\<lparr>d_cron := [demo_task]\<rparr>\<rparr>"
  let ?r = "cron_set_status demo_tool_env (demo_context False) ''e1'' ''deleted'' ?w"
  have "fst ?r = Inr ''Removed scheduled task: standup (ID: e1)''" by code_simp
  then obtain w' where r: "?r = (Inr ''Removed scheduled task: standup (ID: e1)'', w')" by (cases ?r) auto
  have "cron_entry_of ''t1'' ''e1'' (w_db ?w) = Some demo_task \<and> ce_user demo_task = ''u1''" by code_simp
  then have "\<forall>x \<in> set (active_cron_entries (w_db w')). \<not> cron_row ''t1'' ''e1'' x"
    using task_changes_need_owner [OF r, of "''Removed scheduled task: standup (ID: e1)''"] by (simp add: demo_context_def)
  with r show ?thesis by blast
qed

theorem memory_written_is_prompted_witness:
  "\<exists>w'. memory_update demo_tool_env (demo_context False) ''likes tea'' (demo_world\<lparr>w_db := empty_db\<lparr>d_tenants := [demo_tenant]\<rparr>\<rparr>) = (Inr ''Memory updated.'', w')
     \<and> fst (fetch_memory (Some demo_tenant) (Some (demo_user ''u1'')) (demo_line ''m9'' 0) w') = ''likes tea''"
proof -
  let ?r = "memory_update demo_tool_env (demo_context False) ''likes tea'' (demo_world\<lparr>w_db := empty_db\<lparr>d_tenants := [demo_tenant]\<rparr>\<rparr>)"
  have "fst ?r = Inr ''Memory updated.'' \<and> w_faults (snd ?r) = []" by code_simp
  moreover obtain q w' where q: "?r = (q, w')" by fastforce
  ultimately have r: "?r = (Inr ''Memory updated.'', w')" "w_faults w' = []" by simp_all
  have "fst (fetch_memory (Some demo_tenant) (Some (demo_user ''u1'')) (demo_line ''m9'' 0) w') = ''likes tea''"
    using memory_written_is_prompted [OF r, of demo_tenant "demo_line ''m9'' 0" "demo_user ''u1''"]
    by (simp add: memory_owner_def demo_context_def demo_tenant_def demo_line_def demo_user_def zero_message_def)
  with r(1) show ?thesis by blast
qed

end
