(* ===== verification/Docker_Client.thy ===== *)
theory Docker_Client
  imports Render Go_Path "HOL-Library.AList"
begin

text \<open>
  The Docker Engine client, \<open>pkg/plugins/sandbox/docker\<close>: \<open>client.go\<close>, \<open>errors.go\<close> and
  \<open>stream.go\<close>. The daemon is a parameter: a function from a request and its state to a response,
  none when the exchange fails. A request body is the structure that \<open>encoding/json\<close> writes;
  what it reads from a response body is a parameter too.
\<close>

section \<open>The multiplexed output stream\<close>

text \<open>\<open>binary.BigEndian.Uint32\<close> of four bytes.\<close>

definition big_endian :: "string \<Rightarrow> int" where
  "big_endian bs = foldl (\<lambda>n b. 256 * n + of_char b) 0 bs"

record body =
  bd_bytes :: string
  bd_broken :: bool

text \<open>
  \<open>demuxStream\<close>: the rest of the stream, the bytes collected so far, and the output of both
  kinds. None is a read error; \<open>broken\<close> says that the stream ends in one.
\<close>

function demux :: "int \<Rightarrow> bool \<Rightarrow> int \<Rightarrow> string \<Rightarrow> string \<Rightarrow> string \<Rightarrow> (string \<times> string) option" where
  "demux maxb broken tot out err s =
     (if length s < 8 then (if s = [] \<and> \<not> broken then Some (out, err) else None)
      else let size = big_endian (take 4 (drop 4 s));
               read = (if tot + size > maxb then maxb - tot else size);
               n = nat read; payload = take n (drop 8 s); rest = drop n (drop 8 s);
               out1 = (if hd s = CHR 0x01 then out @ payload else out);
               err1 = (if hd s = CHR 0x02 then err @ payload else err);
               skip = nat (size - read)
           in if length payload < n then None
              else if length rest < skip then Some (out1, err1)
              else if tot + read \<ge> maxb then Some (out1, err1)
              else demux maxb broken (tot + read) out1 err1 (drop skip rest))"
  by pat_completeness auto
termination by (relation "measure (\<lambda>(m, b, t, out, err, s). length s)") (auto simp: Let_def)

declare demux.simps [simp del]

definition demux_stream :: "body \<Rightarrow> int \<Rightarrow> (string \<times> string) option" where
  "demux_stream b maxb = demux maxb (bd_broken b) 0 [] [] (bd_bytes b)"

section \<open>URLs\<close>

definition hex_upper :: "nat \<Rightarrow> char" where
  "hex_upper n = ''0123456789ABCDEF'' ! n"

definition percent :: "char \<Rightarrow> string" where
  "percent c = [CHR ''%'', hex_upper (of_char c div 16), hex_upper (of_char c mod 16)]"

text \<open>The letters of ASCII.\<close>

definition ascii_letter :: "char \<Rightarrow> bool" where
  "ascii_letter c \<longleftrightarrow> (let n = of_char c :: nat in n \<in> {65..90} \<union> {97..122})"

definition url_unreserved :: "char \<Rightarrow> bool" where
  "url_unreserved c \<longleftrightarrow> is_digit c \<or> ascii_letter c \<or> c \<in> set ''-_.~''"

definition query_escape :: "string \<Rightarrow> string" where
  "query_escape s = concat (map (\<lambda>c. if url_unreserved c then [c] else if c = CHR '' '' then ''+'' else percent c) s)"

definition path_escape :: "string \<Rightarrow> string" where
  "path_escape s = concat (map (\<lambda>c. if url_unreserved c \<or> c \<in> set ''$&+=:@'' then [c] else percent c) s)"

section \<open>Requests and responses\<close>

type_synonym bind_list = "string list"

record host_config =
  hc_cap_drop :: "string list"
  hc_security_opt :: "string list"
  hc_readonly_rootfs :: bool
  hc_network_mode :: string
  hc_nano_cpus :: int
  hc_memory :: int
  hc_memory_reservation :: int
  hc_pids_limit :: "int option"
  hc_ulimits :: "(string \<times> int \<times> int) list"
  hc_tmpfs :: string_map
  hc_binds :: bind_list
  hc_shm_size :: int
  hc_init :: "bool option"
  hc_restart :: "string option"

definition no_host_config :: host_config where
  "no_host_config = \<lparr>hc_cap_drop = [], hc_security_opt = [], hc_readonly_rootfs = False, hc_network_mode = [],
     hc_nano_cpus = 0, hc_memory = 0, hc_memory_reservation = 0, hc_pids_limit = None, hc_ulimits = [],
     hc_tmpfs = [], hc_binds = [], hc_shm_size = 0, hc_init = None, hc_restart = None\<rparr>"

record health_check =
  hk_test :: "string list"
  hk_interval :: int
  hk_timeout :: int
  hk_retries :: int

record create_request =
  cq_image :: string
  cq_cmd :: "string list"
  cq_user :: string
  cq_env :: "string list"
  cq_labels :: string_map
  cq_host :: host_config
  cq_networks :: "(string \<times> string list) list option"
  cq_health :: "health_check option"

record exec_spec =
  ex_cmd :: "string list"
  ex_stdout :: bool
  ex_stderr :: bool
  ex_tty :: bool
  ex_dir :: string
  ex_env :: "string list"
  ex_user :: string

record list_entry =
  le_id :: string
  le_state :: string
  le_labels :: string_map

record inspection =
  in_status :: string
  in_health :: "string option"
  in_binds :: bind_list

datatype payload = NoBody | JsonCreate create_request | JsonExec exec_spec | JsonStart bool bool
  | JsonNetwork string string | TarBody string

datatype verb = GET | POST | PUT | DELETE

record http_request =
  hq_verb :: verb
  hq_url :: string
  hq_content_type :: string
  hq_body :: payload

record http_response =
  hr_status :: int
  hr_body :: body

record 'd daemon =
  dm_do :: "http_request \<Rightarrow> 'd \<Rightarrow> http_response option \<times> 'd"
  dm_read_id :: "string \<Rightarrow> string option"
  dm_read_list :: "string \<Rightarrow> list_entry list option"
  dm_read_inspect :: "string \<Rightarrow> inspection option"
  dm_read_exec :: "string \<Rightarrow> int option"
  dm_quote :: "string \<Rightarrow> string"
  dm_base :: string
  dm_root :: string

datatype docker_error = DockerUnavailable | ContainerNotFound string | ExecFailed | ExecTimeout
  | BadResponse string | BadStatus int string | PullFailed int string | NetworkFailed int

text \<open>\<open>http.Client.Do\<close>; every failure becomes \<open>ErrDockerUnavailable\<close>.\<close>

definition roundtrip :: "'d daemon \<Rightarrow> verb \<Rightarrow> string \<Rightarrow> payload \<Rightarrow> 'd \<Rightarrow> (docker_error + http_response) \<times> 'd" where
  "roundtrip D v url b d =
     (case dm_do D \<lparr>hq_verb = v, hq_url = url,
         hq_content_type = (case b of NoBody \<Rightarrow> [] | TarBody _ \<Rightarrow> ''application/x-tar'' | _ \<Rightarrow> ''application/json''), hq_body = b\<rparr> d of
        (None, d1) \<Rightarrow> (Inl DockerUnavailable, d1)
      | (Some r, d1) \<Rightarrow> (Inr r, d1))"

text \<open>The first 512 bytes of the body go into the error text, and are gone for later readers.\<close>

definition check_status :: "int \<Rightarrow> http_response \<Rightarrow> docker_error option \<times> string" where
  "check_status expected r = (let text = take 512 (bd_bytes (hr_body r)); rest = drop 512 (bd_bytes (hr_body r)) in
     if hr_status r = expected then (None, bd_bytes (hr_body r))
     else if hr_status r = 404 then (Some (ContainerNotFound text), rest)
     else if hr_status r = 409 then (None, rest)
     else (Some (BadStatus (hr_status r) text), rest))"

text \<open>The answer when the body was read before the status is looked at.\<close>

definition drained :: "http_response \<Rightarrow> http_response" where
  "drained r = r\<lparr>hr_body := \<lparr>bd_bytes = [], bd_broken = False\<rparr>\<rparr>"

definition unit_answer :: "int list \<Rightarrow> int \<Rightarrow> http_response \<Rightarrow> docker_error + unit" where
  "unit_answer fine expected r =
     (if hr_status r \<in> set fine then Inr ()
      else case fst (check_status expected (drained r)) of None \<Rightarrow> Inr () | Some e \<Rightarrow> Inl e)"

text \<open>The answer that \<open>json.Decoder\<close> reads from what the status check left of the body.\<close>

definition decoded_answer :: "string \<Rightarrow> (string \<Rightarrow> 'a option) \<Rightarrow> int \<Rightarrow> http_response \<Rightarrow> docker_error + 'a" where
  "decoded_answer what dec expected r = (case check_status expected r of
       (Some e, _) \<Rightarrow> Inl e
     | (None, rest) \<Rightarrow> (case dec rest of None \<Rightarrow> Inl (BadResponse what) | Some a \<Rightarrow> Inr a))"

section \<open>Operations\<close>

definition ping :: "'d daemon \<Rightarrow> 'd \<Rightarrow> (docker_error + unit) \<times> 'd" where
  "ping D d = if_ok (roundtrip D GET (dm_root D @ ''/_ping'') NoBody d) (\<lambda>e d1. (Inl e, d1)) (\<lambda>r d1.
     (if hr_status r = 200 then Inr () else Inl DockerUnavailable, d1))"

definition container_url :: "'d daemon \<Rightarrow> string \<Rightarrow> string" where
  "container_url D i = dm_base D @ ''/containers/'' @ path_escape i"

definition container_create :: "'d daemon \<Rightarrow> string \<Rightarrow> create_request \<Rightarrow> 'd \<Rightarrow> (docker_error + string) \<times> 'd" where
  "container_create D name b d =
     if_ok (roundtrip D POST (dm_base D @ ''/containers/create?name='' @ query_escape name) (JsonCreate b) d)
       (\<lambda>e d1. (Inl e, d1)) (\<lambda>r d1. (decoded_answer ''create response'' (dm_read_id D) 201 r, d1))"

definition container_start :: "'d daemon \<Rightarrow> string \<Rightarrow> 'd \<Rightarrow> (docker_error + unit) \<times> 'd" where
  "container_start D i d = if_ok (roundtrip D POST (container_url D i @ ''/start'') NoBody d)
     (\<lambda>e d1. (Inl e, d1)) (\<lambda>r d1. (unit_answer [204, 304] 204 r, d1))"

definition container_stop :: "'d daemon \<Rightarrow> string \<Rightarrow> int \<Rightarrow> 'd \<Rightarrow> (docker_error + unit) \<times> 'd" where
  "container_stop D i seconds d =
     if_ok (roundtrip D POST (container_url D i @ ''/stop?t='' @ show_int seconds) NoBody d)
       (\<lambda>e d1. (Inl e, d1)) (\<lambda>r d1. (unit_answer [204, 304] 204 r, d1))"

definition container_remove :: "'d daemon \<Rightarrow> string \<Rightarrow> bool \<Rightarrow> 'd \<Rightarrow> (docker_error + unit) \<times> 'd" where
  "container_remove D i force d =
     if_ok (roundtrip D DELETE (container_url D i @ ''?force='' @ (if force then ''true'' else ''false'')) NoBody d)
       (\<lambda>e d1. (Inl e, d1)) (\<lambda>r d1. (unit_answer [204, 200] 204 r, d1))"

definition container_list :: "'d daemon \<Rightarrow> string \<Rightarrow> 'd \<Rightarrow> (docker_error + list_entry list) \<times> 'd" where
  "container_list D label d =
     if_ok (roundtrip D GET (dm_base D @ ''/containers/json?all=true&filters=''
         @ query_escape (''{'' @ [CHR 0x22] @ ''label'' @ [CHR 0x22] @ '':['' @ dm_quote D label @ '']}'')) NoBody d)
       (\<lambda>e d1. (Inl e, d1)) (\<lambda>r d1. (decoded_answer ''container list'' (dm_read_list D) 200 r, d1))"

definition container_inspect :: "'d daemon \<Rightarrow> string \<Rightarrow> 'd \<Rightarrow> (docker_error + inspection) \<times> 'd" where
  "container_inspect D i d = if_ok (roundtrip D GET (container_url D i @ ''/json'') NoBody d)
     (\<lambda>e d1. (Inl e, d1)) (\<lambda>r d1. (decoded_answer ''inspect'' (dm_read_inspect D) 200 r, d1))"

definition exec_create :: "'d daemon \<Rightarrow> string \<Rightarrow> exec_spec \<Rightarrow> 'd \<Rightarrow> (docker_error + string) \<times> 'd" where
  "exec_create D i b d = if_ok (roundtrip D POST (container_url D i @ ''/exec'') (JsonExec b) d)
     (\<lambda>e d1. (Inl e, d1))
     (\<lambda>r d1. (case check_status 201 r of
        (Some _, _) \<Rightarrow> Inl ExecFailed
      | (None, rest) \<Rightarrow> (case dm_read_id D rest of None \<Rightarrow> Inl (BadResponse ''exec create response'') | Some x \<Rightarrow> Inr x), d1))"

definition exec_start :: "'d daemon \<Rightarrow> string \<Rightarrow> int \<Rightarrow> 'd \<Rightarrow> (docker_error + string \<times> string) \<times> 'd" where
  "exec_start D x maxb d =
     if_ok (roundtrip D POST (dm_base D @ ''/exec/'' @ path_escape x @ ''/start'') (JsonStart False False) d)
       (\<lambda>e d1. (Inl e, d1))
       (\<lambda>r d1. (if hr_status r \<noteq> 200 then Inl ExecFailed
          else case demux_stream (hr_body r) maxb of None \<Rightarrow> Inl ExecFailed | Some oe \<Rightarrow> Inr oe, d1))"

definition exec_inspect :: "'d daemon \<Rightarrow> string \<Rightarrow> 'd \<Rightarrow> (docker_error + int) \<times> 'd" where
  "exec_inspect D x d = if_ok (roundtrip D GET (dm_base D @ ''/exec/'' @ path_escape x @ ''/json'') NoBody d)
     (\<lambda>e d1. (Inl e, d1)) (\<lambda>r d1. (decoded_answer ''exec inspect'' (dm_read_exec D) 200 r, d1))"

definition put_archive :: "'d daemon \<Rightarrow> string \<Rightarrow> string \<Rightarrow> string \<Rightarrow> 'd \<Rightarrow> (docker_error + unit) \<times> 'd" where
  "put_archive D i dest tar d =
     if_ok (roundtrip D PUT (container_url D i @ ''/archive?path='' @ query_escape dest) (TarBody tar) d)
       (\<lambda>e d1. (Inl e, d1)) (\<lambda>r d1. (unit_answer [200] 200 r, d1))"

text \<open>
  The body is closed before the status is checked, so an error has no text, and a 409 comes back
  with no archive and no error.
\<close>

definition get_archive :: "'d daemon \<Rightarrow> string \<Rightarrow> string \<Rightarrow> 'd \<Rightarrow> (docker_error + body option) \<times> 'd" where
  "get_archive D i src d =
     if_ok (roundtrip D GET (container_url D i @ ''/archive?path='' @ query_escape src) NoBody d)
       (\<lambda>e d1. (Inl e, d1))
       (\<lambda>r d1. (if hr_status r = 200 then Inr (Some (hr_body r))
          else case fst (check_status 200 (drained r)) of None \<Rightarrow> Inr None | Some e \<Rightarrow> Inl e, d1))"

text \<open>\<open>strings.LastIndex\<close> of one byte.\<close>

fun last_index :: "char \<Rightarrow> string \<Rightarrow> nat option" where
  "last_index c [] = None"
| "last_index c (x # s) = (case last_index c s of Some i \<Rightarrow> Some (Suc i) | None \<Rightarrow> if x = c then Some 0 else None)"

definition split_image :: "string \<Rightarrow> string \<times> string" where
  "split_image img = (case last_index (CHR '':'') img of
       Some (Suc i) \<Rightarrow> (take (Suc i) img, drop (Suc (Suc i)) img)
     | _ \<Rightarrow> (img, ''latest''))"

definition image_pull :: "'d daemon \<Rightarrow> string \<Rightarrow> 'd \<Rightarrow> (docker_error + unit) \<times> 'd" where
  "image_pull D img d = (let (ref, tag) = split_image img in
     if_ok (roundtrip D POST (dm_base D @ ''/images/create?fromImage='' @ query_escape ref @ ''&tag='' @ query_escape tag) NoBody d)
       (\<lambda>e d1. (Inl e, d1))
       (\<lambda>r d1. (if hr_status r \<noteq> 200 then Inl (PullFailed (hr_status r) (take 512 (bd_bytes (hr_body r)))) else Inr (), d1)))"

definition network_create :: "'d daemon \<Rightarrow> string \<Rightarrow> string \<Rightarrow> 'd \<Rightarrow> (docker_error + unit) \<times> 'd" where
  "network_create D name driver d =
     if_ok (roundtrip D POST (dm_base D @ ''/networks/create'') (JsonNetwork name driver) d)
       (\<lambda>e d1. (Inl e, d1))
       (\<lambda>r d1. (if hr_status r \<in> {201, 409} then Inr () else Inl (NetworkFailed (hr_status r)), d1))"

definition network_remove :: "'d daemon \<Rightarrow> string \<Rightarrow> 'd \<Rightarrow> (docker_error + unit) \<times> 'd" where
  "network_remove D name d =
     if_ok (roundtrip D DELETE (dm_base D @ ''/networks/'' @ path_escape name) NoBody d)
       (\<lambda>e d1. (Inl e, d1))
       (\<lambda>r d1. (if hr_status r \<in> {204, 404} then Inr () else Inl (NetworkFailed (hr_status r)), d1))"

section \<open>Where the daemon is\<close>

text \<open>\<open>loadDockerTLS\<close>: no TLS wanted, the configuration, or what is missing.\<close>

record tls_env =
  tl_verify :: string
  tl_cert_path :: string
  tl_read :: "string \<Rightarrow> string option"
  tl_key_pair :: "string \<Rightarrow> string \<Rightarrow> bool"

definition load_docker_tls :: "tls_env \<Rightarrow> string + string option" where
  "load_docker_tls T =
     (if tl_verify T = [] then Inr None
      else if tl_cert_path T = [] then Inl ''DOCKER_TLS_VERIFY set but DOCKER_CERT_PATH is empty''
      else case tl_read T (path_join [tl_cert_path T, ''ca.pem'']) of
        None \<Rightarrow> Inl ''read CA cert''
      | Some ca \<Rightarrow> if tl_key_pair T (path_join [tl_cert_path T, ''cert.pem'']) (path_join [tl_cert_path T, ''key.pem''])
          then Inr (Some ca) else Inl ''load client cert'')"

definition docker_host :: "tls_env \<Rightarrow> string \<Rightarrow> string" where
  "docker_host T socket =
     (if has_prefix socket ''tcp://'' \<or> has_prefix socket ''https://'' then
        let host = trim_prefix (trim_prefix socket ''tcp://'') ''https://''
        in (case load_docker_tls T of Inr (Some _) \<Rightarrow> ''https://'' @ host | _ \<Rightarrow> ''http://'' @ host)
      else ''http://localhost'')"

definition docker_client :: "tls_env \<Rightarrow> string \<Rightarrow> 'd daemon \<Rightarrow> 'd daemon" where
  "docker_client T socket D = (let h = docker_host T socket
     in D\<lparr>dm_base := h @ ''/v1.47'', dm_root := h\<rparr>)"

section \<open>What the stream gives\<close>

text \<open>A stream as Docker writes it: frames of a kind and a payload.\<close>

definition be32 :: "nat \<Rightarrow> string" where
  "be32 n = map (\<lambda>k. char_of (n div 256 ^ k)) [3, 2, 1, 0]"

definition frame :: "nat \<times> string \<Rightarrow> string" where
  "frame f = [char_of (fst f), CHR 0x00, CHR 0x00, CHR 0x00] @ be32 (length (snd f)) @ snd f"

text \<open>The frames cut after the first \<open>n\<close> bytes of payload.\<close>

fun within :: "nat \<Rightarrow> (nat \<times> string) list \<Rightarrow> (nat \<times> string) list" where
  "within n [] = []"
| "within n ((k, p) # fs) = (k, take n p) # within (n - length p) fs"

definition kind_bytes :: "nat \<Rightarrow> (nat \<times> string) list \<Rightarrow> string" where
  "kind_bytes k fs = concat (map snd (filter (\<lambda>f. fst f = k) fs))"

lemma of_char_nat: "(of_char (char_of m :: char) :: int) = int (m mod 256)" for m :: nat
  by (metis of_char_of of_nat_of_char)

lemma big_endian_be32:
  assumes "n < 2 ^ 32"
  shows "big_endian (be32 n) = int n"
proof -
  have "n div 256 ^ 3 mod 256 = n div 256 ^ 3" using assms by (intro mod_less less_mult_imp_div_less) simp
  moreover have "n div 256 ^ 3 = n div 256 ^ 2 div 256" "n div 256 ^ 2 = n div 256 div 256"
    by (simp_all flip: div_mult2_eq)
  ultimately have "256 * (256 * (256 * (n div 256 ^ 3 mod 256) + n div 256 ^ 2 mod 256) + n div 256 mod 256) + n mod 256 = n"
    by (metis mult_div_mod_eq)
  moreover have "big_endian (be32 n) = int (256 * (256 * (256 * (n div 256 ^ 3 mod 256) + n div 256 ^ 2 mod 256) + n div 256 mod 256) + n mod 256)"
    by (simp add: big_endian_def be32_def of_char_nat)
  ultimately show ?thesis by presburger
qed

lemma within_zero [simp]: "kind_bytes k (within 0 fs) = []"
  by (induction fs) (auto simp: kind_bytes_def)

lemma kind_bytes_Cons: "kind_bytes k (f # fs) = (if fst f = k then snd f else []) @ kind_bytes k fs"
  by (simp add: kind_bytes_def)

lemma hd_frame: "hd (frame (k, p) @ s) = char_of k"
  by (simp add: frame_def)

lemma kind_byte: "k < 256 \<Longrightarrow> (char_of k :: char) = CHR 0x01 \<longleftrightarrow> k = 1" "k < 256 \<Longrightarrow> (char_of k :: char) = CHR 0x02 \<longleftrightarrow> k = 2" for k :: nat
  by (auto simp: char_of_eq_iff take_bit_eq_mod dest: arg_cong [where f = "of_char :: char \<Rightarrow> nat"])

lemma demux_frame:
  assumes "k < 256" "length p < 2 ^ 32" "tot < maxb"
  shows "demux maxb broken tot out err (frame (k, p) @ s) =
    (let n = nat (maxb - tot); q = take n p; out1 = (if k = 1 then out @ q else out); err1 = (if k = 2 then err @ q else err)
     in if tot + int (length p) \<ge> maxb then Some (out1, err1) else demux maxb broken (tot + int (length p)) out1 err1 s)"
proof -
  have "take 4 (drop 4 (frame (k, p) @ s)) = be32 (length p)" "drop 8 (frame (k, p) @ s) = p @ s"
    by (simp_all add: frame_def be32_def)
  moreover have "length (frame (k, p) @ s) \<ge> 8" by (simp add: frame_def be32_def)
  ultimately show ?thesis
    using big_endian_be32 [OF assms(2)] kind_byte [OF assms(1)] assms(3)
    by (subst demux.simps) (auto simp: Let_def hd_frame nat_le_iff)
qed

lemma demux_frames:
  assumes "\<forall>f \<in> set fs. fst f < 256 \<and> length (snd f) < 2 ^ 32" "tot < maxb"
  shows "demux maxb False tot out err (concat (map frame fs)) =
    Some (out @ kind_bytes 1 (within (nat (maxb - tot)) fs), err @ kind_bytes 2 (within (nat (maxb - tot)) fs))"
  using assms
proof (induction fs arbitrary: tot out err)
  case Nil
  then show ?case by (subst demux.simps) (simp add: kind_bytes_def)
next
  case (Cons f fs)
  obtain k p where f: "f = (k, p)" by fastforce
  have kp: "k < 256" "length p < 2 ^ 32" using Cons.prems(1) f by auto
  show ?case
  proof (cases "tot + int (length p) \<ge> maxb")
    case True
    then have "nat (maxb - tot) - length p = 0" by linarith
    with True show ?thesis
      using demux_frame [OF kp Cons.prems(2)] by (simp add: f kind_bytes_Cons Let_def)
  next
    case False
    then have n: "nat (maxb - (tot + int (length p))) = nat (maxb - tot) - length p" "length p \<le> nat (maxb - tot)"
      by linarith+
    with False Cons show ?thesis
      using demux_frame [OF kp Cons.prems(2)] by (simp add: f kind_bytes_Cons Let_def n)
  qed
qed

text \<open>
  C25: Reading the stream that Docker writes for a command gives back its output and its error
  output, each cut where together they reach the limit.
\<close>

theorem stream_demultiplexed:
  assumes "\<forall>f \<in> set fs. fst f < 256 \<and> length (snd f) < 2 ^ 32" "0 < maxb"
  shows "demux_stream \<lparr>bd_bytes = concat (map frame fs), bd_broken = False\<rparr> maxb =
    Some (kind_bytes 1 (within (nat maxb) fs), kind_bytes 2 (within (nat maxb) fs))"
  using demux_frames [OF assms(1), of 0 maxb "[]" "[]"] assms(2) by (simp add: demux_stream_def)

theorem stream_demultiplexed_witness:
  "demux_stream \<lparr>bd_bytes = concat (map frame [(1, ''out''), (2, ''err''), (1, ''more'')]), bd_broken = False\<rparr> 8
     = Some (''outmo'', ''err'')"
  using stream_demultiplexed [of "[(1, ''out''), (2, ''err''), (1, ''more'')]" 8] by (simp add: kind_bytes_def)

lemma big_endian_nonneg: "0 \<le> big_endian bs"
proof -
  have c: "0 \<le> (of_char b :: int)" for b by (metis of_nat_0_le_iff of_nat_of_char)
  have "0 \<le> foldl (\<lambda>n b. 256 * n + of_char b) k bs" if "0 \<le> k" for k :: int
    using that
  proof (induction bs arbitrary: k)
    case (Cons b bs)
    have "0 \<le> 256 * k + of_char b" using Cons.prems c [of b] by linarith
    from Cons.IH [OF this] show ?case by simp
  qed simp
  then show ?thesis by (simp add: big_endian_def)
qed

lemma demux_bounded:
  assumes "demux maxb broken tot out err s = Some (o1, e1)" "int (length out + length err) \<le> tot" "tot \<le> maxb"
  shows "int (length o1 + length e1) \<le> maxb"
  using assms
proof (induction maxb broken tot out err s rule: demux.induct)
  case (1 maxb broken tot out err s)
  show ?case
  proof (cases "length s < 8")
    case True
    with 1(2-) show ?thesis by (subst (asm) demux.simps) (auto split: if_splits)
  next
    case False
    define size where "size = big_endian (take 4 (drop 4 s))"
    define read where "read = (if tot + size > maxb then maxb - tot else size)"
    define pay where "pay = take (nat read) (drop 8 s)"
    define rest where "rest = drop (nat read) (drop 8 s)"
    define out1 where "out1 = (if hd s = CHR 0x01 then out @ pay else out)"
    define err1 where "err1 = (if hd s = CHR 0x02 then err @ pay else err)"
    note defs = size_def read_def pay_def rest_def out1_def err1_def
    have eq: "demux maxb broken tot out err s =
        (if length pay < nat read then None else if length rest < nat (size - read) then Some (out1, err1)
         else if tot + read \<ge> maxb then Some (out1, err1)
         else demux maxb broken (tot + read) out1 err1 (drop (nat (size - read)) rest))"
      unfolding defs by (subst demux.simps) (simp only: Let_def False if_False)
    have "0 \<le> size" unfolding size_def by (rule big_endian_nonneg)
    then have read: "0 \<le> read" "tot + read \<le> maxb" using 1(4) by (auto simp: read_def)
    have len: "int (length out1 + length err1) \<le> tot + read"
      using 1(3) read(1) by (auto simp: out1_def err1_def pay_def)
    show ?thesis
    proof (cases "length pay < nat read \<or> length rest < nat (size - read) \<or> tot + read \<ge> maxb")
      case True
      then have "(o1, e1) = (out1, err1)" using 1(2) unfolding eq by (auto split: if_splits)
      with len read(2) show ?thesis by simp
    next
      case go: False
      then have d: "demux maxb broken (tot + read) out1 err1 (drop (nat (size - read)) rest) = Some (o1, e1)"
        using 1(2) unfolding eq by simp
      from go have go': "\<not> length pay < nat read" "\<not> length rest < nat (size - read)" "\<not> tot + read \<ge> maxb" by simp_all
      show ?thesis
        by (rule "1.IH" [OF False size_def read_def refl pay_def [unfolded refl] rest_def out1_def err1_def refl go' d len read(2)])
    qed
  qed
qed

text \<open>
  However the stream of a command looks, at most the allowed number of bytes of its output
  is kept.
\<close>

theorem output_bounded:
  assumes "demux_stream b maxb = Some (out, err)" "0 \<le> maxb"
  shows "int (length out + length err) \<le> maxb"
  using demux_bounded [of maxb "bd_broken b" 0 "[]" "[]" "bd_bytes b" out err] assms
  by (simp add: demux_stream_def)

theorem output_bounded_witness:
  "\<exists>out err. demux_stream \<lparr>bd_bytes = frame (1, ''hello''), bd_broken = True\<rparr> 3 = Some (out, err)
     \<and> int (length out + length err) \<le> 3"
proof -
  have d: "demux_stream \<lparr>bd_bytes = frame (1, ''hello''), bd_broken = True\<rparr> 3 = Some (''hel'', [])"
    using demux_frame [of 1 "''hello''" 0 3 True "[]" "[]" "[]"] by (simp add: demux_stream_def)
  have "int (length ''hel'' + length ([] :: string)) \<le> 3" by (rule output_bounded [OF d]) simp
  with d show ?thesis by blast
qed

end
