(* ===== verification/Sandbox_Pool.thy ===== *)
theory Sandbox_Pool
  imports Docker_Client
begin

text \<open>
  The Docker sandbox, \<open>pkg/plugins/sandbox/docker\<close>: \<open>config.go\<close>, \<open>pool.go\<close>, the archive
  transfer and the life cycle of \<open>plugin.go\<close>. The pool is a list of containers by user, in the
  order in which \<open>sync.Map.Range\<close> gives them; changing the owner of a mounted directory, which is
  best effort, leaves no trace in the state.
\<close>

section \<open>Configuration\<close>

text \<open>The number of processor cores is in billionths; durations are text, read by \<open>time.ParseDuration\<close>.\<close>

record docker_config =
  dk_socket :: string
  dk_image :: string
  dk_idle_timeout :: string
  dk_exec_timeout :: string
  dk_allow_network :: "bool option"
  dk_network_mode :: string
  dk_max_output_mb :: int
  dk_cpu_nano :: int
  dk_memory_mb :: int
  dk_pids_limit :: int
  dk_tmpfs_mb :: int
  dk_stop_timeout :: string
  dk_user_home :: string
  dk_tenant_home :: string
  dk_messages :: string
  dk_host_data_dir :: string
  dk_uid :: int
  dk_gid :: int
  dk_env :: string_map
  dk_network :: string
  dk_services :: string

definition default_text :: "string \<Rightarrow> string \<Rightarrow> string" where
  "default_text v s = (if s = [] then v else s)"

definition default_int :: "int \<Rightarrow> int \<Rightarrow> int" where
  "default_int v n = (if n = 0 then v else n)"

definition docker_defaults :: "string \<Rightarrow> docker_config \<Rightarrow> docker_config" where
  "docker_defaults host c = c\<lparr>
     dk_socket := default_text (if host \<noteq> [] then trim_prefix host ''unix://'' else ''/var/run/docker.sock'') (dk_socket c),
     dk_image := default_text ''ghcr.io/whiteagent-org/sandbox:latest'' (dk_image c),
     dk_idle_timeout := default_text ''15m'' (dk_idle_timeout c),
     dk_exec_timeout := default_text ''5m'' (dk_exec_timeout c),
     dk_stop_timeout := default_text ''10s'' (dk_stop_timeout c),
     dk_max_output_mb := default_int 1 (dk_max_output_mb c),
     dk_allow_network := (case dk_allow_network c of None \<Rightarrow> Some True | Some b \<Rightarrow> Some b),
     dk_cpu_nano := default_int 500000000 (dk_cpu_nano c),
     dk_memory_mb := default_int 256 (dk_memory_mb c),
     dk_pids_limit := default_int 100 (dk_pids_limit c),
     dk_tmpfs_mb := default_int 64 (dk_tmpfs_mb c),
     dk_user_home := default_text ''/home/whiteagent'' (dk_user_home c),
     dk_tenant_home := default_text ''/tenant'' (dk_tenant_home c),
     dk_messages := default_text ''/messages'' (dk_messages c),
     dk_uid := default_int 1000 (dk_uid c),
     dk_gid := default_int 1000 (dk_gid c)\<rparr>"

record config_env =
  cv_duration :: "string \<Rightarrow> int option"
  cv_file_exists :: "string \<Rightarrow> bool"

text \<open>The complaints of \<open>validate\<close>, in its order; the configuration is accepted when there is none.\<close>

definition docker_complaints :: "config_env \<Rightarrow> docker_config \<Rightarrow> string list" where
  "docker_complaints V c = map snd (filter fst
     [(dk_socket c = [], ''socket_path: must not be empty''),
      (dk_image c = [], ''image: must not be empty''),
      (cv_duration V (dk_idle_timeout c) = None, ''idle_timeout''),
      (cv_duration V (dk_exec_timeout c) = None, ''exec_timeout''),
      (cv_duration V (dk_stop_timeout c) = None, ''stop_timeout''),
      (dk_max_output_mb c \<le> 0, ''max_output_mb: must be positive''),
      (dk_cpu_nano c \<le> 0, ''cpu_cores: must be positive''),
      (dk_memory_mb c \<le> 0, ''memory_mb: must be positive''),
      (dk_pids_limit c \<le> 0, ''pids_limit: must be positive''),
      (dk_tmpfs_mb c \<le> 0, ''tmpfs_mb: must be positive''),
      (dk_host_data_dir c \<noteq> [] \<and> \<not> path_rooted (dk_host_data_dir c), ''host_data_dir: must be an absolute path''),
      (dk_uid c < 0 \<or> dk_uid c > 65534, ''container_uid: must be 0-65534''),
      (dk_gid c < 0 \<or> dk_gid c > 65534, ''container_gid: must be 0-65534''),
      (dk_network_mode c \<noteq> [] \<and> dk_network_mode c \<notin> {''bridge'', ''host'', ''none''}
         \<and> \<not> has_prefix (dk_network_mode c) ''container:'', ''network_mode: must be bridge, host, none, or container:<id>''),
      (dk_network_mode c = ''host'' \<and> dk_host_data_dir c \<noteq> [],
         ''network_mode host is not allowed with host_data_dir''),
      (dk_network c \<noteq> [] \<and> dk_network_mode c \<noteq> [], ''network and network_mode are mutually exclusive''),
      (dk_network c \<noteq> [] \<and> dk_allow_network c = Some False, ''network: cannot set network when allow_network is false''),
      (dk_services c \<noteq> [] \<and> dk_network c = [], ''services: requires network to be set''),
      (dk_services c \<noteq> [] \<and> \<not> cv_file_exists V (dk_services c), ''services'')])"

section \<open>Mounts\<close>

record mount =
  mt_source :: string
  mt_target :: string
  mt_read_only :: bool

definition mounts_to_binds :: "mount list \<Rightarrow> string list" where
  "mounts_to_binds ms = map (\<lambda>m. mt_source m @ '':'' @ mt_target m @ (if mt_read_only m then '':ro'' else [])) ms"

definition binds_match :: "string list \<Rightarrow> string list \<Rightarrow> bool" where
  "binds_match actual expected \<longleftrightarrow> length actual = length expected
     \<and> join [CHR 0x0A] (sort actual) = join [CHR 0x0A] (sort expected)"

text \<open>The first mount that is not absolute: its source, or its target.\<close>

definition validate_mounts :: "mount list \<Rightarrow> string option" where
  "validate_mounts = first_some (\<lambda>m. if \<not> path_rooted (mt_source m) then Some (mt_source m)
     else if \<not> path_rooted (mt_target m) then Some (mt_target m) else None)"

section \<open>The pool\<close>

record container_info =
  ci_id :: string
  ci_last_used :: int
  ci_active :: int

type_synonym containers = "(string \<times> container_info) list"

text \<open>
  The clock of \<open>time.Now().Unix()\<close>, whether the deadline of an execution has passed, and the order
  of a map range are read from the surroundings, the state of which is that of the daemon.
\<close>

record 'd pool =
  pl_daemon :: "'d daemon"
  pl_cfg :: docker_config
  pl_idle :: int
  pl_stop :: int
  pl_container_data_dir :: string
  pl_host_data_dir :: string
  pl_now :: "'d \<Rightarrow> int"
  pl_expired :: "'d \<Rightarrow> bool"
  pl_order :: "string_map \<Rightarrow> string_map"

definition new_pool :: "'d daemon \<Rightarrow> docker_config \<Rightarrow> config_env \<Rightarrow> string \<Rightarrow> ('d \<Rightarrow> int) \<Rightarrow> ('d \<Rightarrow> bool)
    \<Rightarrow> (string_map \<Rightarrow> string_map) \<Rightarrow> 'd pool" where
  "new_pool D c V dir now expired order = \<lparr>pl_daemon = D, pl_cfg = c,
     pl_idle = (case cv_duration V (dk_idle_timeout c) of None \<Rightarrow> 0 | Some n \<Rightarrow> n),
     pl_stop = (case cv_duration V (dk_stop_timeout c) of None \<Rightarrow> 0 | Some n \<Rightarrow> n),
     pl_container_data_dir = dir, pl_host_data_dir = dk_host_data_dir c,
     pl_now = now, pl_expired = expired, pl_order = order\<rparr>"

text \<open>\<open>int(d.Seconds())\<close>, truncated toward zero.\<close>

definition whole_seconds :: "int \<Rightarrow> int" where
  "whole_seconds ns = (if ns < 0 then - ((- ns) div 1000000000) else ns div 1000000000)"

definition translate_mount_paths :: "'d pool \<Rightarrow> mount list \<Rightarrow> mount list" where
  "translate_mount_paths P ms =
     (if pl_host_data_dir P = [] \<or> pl_container_data_dir P = [] then ms
      else map (\<lambda>m. if has_prefix (mt_source m) (pl_container_data_dir P)
        then m\<lparr>mt_source := pl_host_data_dir P @ drop (length (pl_container_data_dir P)) (mt_source m)\<rparr> else m) ms)"

datatype pool_error = BadMount string | NoContainer string | PoolDocker docker_error

abbreviation "label_managed \<equiv> ''org.whiteagent.managed''"
abbreviation "label_user_id \<equiv> ''org.whiteagent.user-id''"
abbreviation "label_tenant_id \<equiv> ''org.whiteagent.tenant-id''"
abbreviation "label_service \<equiv> ''whiteagent.service''"

definition env_lines :: "'d pool \<Rightarrow> string_map \<Rightarrow> string list" where
  "env_lines P env = map (\<lambda>(k, v). k @ ''='' @ v) (pl_order P env)"

definition container_user :: "docker_config \<Rightarrow> string" where
  "container_user c = show_int (dk_uid c) @ '':'' @ show_int (dk_gid c)"

definition network_of :: "docker_config \<Rightarrow> string" where
  "network_of c = (if dk_network c \<noteq> [] then dk_network c else if dk_network_mode c \<noteq> [] then dk_network_mode c
     else if dk_allow_network c = Some False then ''none'' else ''bridge'')"

definition container_name :: "string \<Rightarrow> string" where
  "container_name uid = ''whiteagent-'' @ take 8 uid"

text \<open>The hardened container of a user.\<close>

definition sandbox_request :: "'d pool \<Rightarrow> string \<Rightarrow> string \<Rightarrow> string list \<Rightarrow> create_request" where
  "sandbox_request P uid tid binds = (let c = pl_cfg P; opt = ''size='' @ show_int (dk_tmpfs_mb c) @ ''m'' in
     \<lparr>cq_image = dk_image c, cq_cmd = [''sleep'', ''infinity''], cq_user = container_user c,
      cq_env = env_lines P (dk_env c),
      cq_labels = [(label_managed, ''true''), (label_user_id, uid), (label_tenant_id, tid)],
      cq_host = no_host_config\<lparr>hc_cap_drop := [''ALL''], hc_security_opt := [''no-new-privileges''],
        hc_readonly_rootfs := True, hc_network_mode := network_of c, hc_nano_cpus := dk_cpu_nano c,
        hc_memory := wrap64 (dk_memory_mb c * 1024 * 1024), hc_pids_limit := Some (dk_pids_limit c),
        hc_ulimits := [(''nofile'', 1024, 2048)],
        hc_tmpfs := [(''/tmp'', opt), (''/var/tmp'', opt),
          (''/message'', opt @ '',uid='' @ show_int (dk_uid c) @ '',mode=0700'')],
        hc_binds := binds\<rparr>,
      cq_networks = (if dk_network c \<noteq> [] then Some [(dk_network c, [])] else None), cq_health = None\<rparr>)"

text \<open>\<open>containerStop\<close> and \<open>containerRemove\<close> with both errors ignored or logged.\<close>

definition discard :: "'d daemon \<Rightarrow> int \<Rightarrow> string \<Rightarrow> 'd \<Rightarrow> 'd" where
  "discard D seconds i d = snd (container_remove D i True (snd (container_stop D i seconds d)))"

definition start_new :: "'d pool \<Rightarrow> string \<Rightarrow> string \<Rightarrow> string list \<Rightarrow> containers \<Rightarrow> 'd
    \<Rightarrow> (pool_error + string) \<times> containers \<times> 'd" where
  "start_new P uid tid binds cs d =
     (case container_create (pl_daemon P) (container_name uid) (sandbox_request P uid tid binds) d of
        (Inl e, d1) \<Rightarrow> (Inl (PoolDocker e), cs, d1)
      | (Inr i, d1) \<Rightarrow> (case container_start (pl_daemon P) i d1 of
          (Inl e, d2) \<Rightarrow> (Inl (PoolDocker e), cs, snd (container_remove (pl_daemon P) i True d2))
        | (Inr _, d2) \<Rightarrow> (Inr ''/workspace'',
            AList.update uid \<lparr>ci_id = i, ci_last_used = pl_now P d2, ci_active = 0\<rparr> cs, d2)))"

definition ensure :: "'d pool \<Rightarrow> string \<Rightarrow> string \<Rightarrow> mount list \<Rightarrow> containers \<Rightarrow> 'd
    \<Rightarrow> (pool_error + string) \<times> containers \<times> 'd" where
  "ensure P uid tid ms cs d = (case validate_mounts ms of
       Some p \<Rightarrow> (Inl (BadMount p), cs, d)
     | None \<Rightarrow> let want = mounts_to_binds (translate_mount_paths P ms)
         in (case map_of cs uid of
              None \<Rightarrow> start_new P uid tid want cs d
            | Some ci \<Rightarrow> let (r, d1) = container_inspect (pl_daemon P) (ci_id ci) d
                in if (case r of Inl _ \<Rightarrow> False | Inr i \<Rightarrow> in_status i = ''running'' \<and> binds_match (in_binds i) want)
                   then (Inr ''/workspace'', AList.update uid (ci\<lparr>ci_last_used := pl_now P d1\<rparr>) cs, d1)
                   else start_new P uid tid want (AList.delete uid cs)
                     (discard (pl_daemon P) (whole_seconds (pl_stop P)) (ci_id ci) d1)))"

record exec_request =
  xr_command :: string
  xr_args :: "string list"
  xr_env :: string_map
  xr_dir :: string

record exec_result =
  xo_stdout :: string
  xo_stderr :: string
  xo_code :: int

text \<open>The three calls of an execution; after a failed start the deadline decides the error.\<close>

definition run_exec :: "'d pool \<Rightarrow> string \<Rightarrow> exec_request \<Rightarrow> 'd \<Rightarrow> (pool_error + exec_result) \<times> 'd" where
  "run_exec P i q d =
     if_ok (exec_create (pl_daemon P) i \<lparr>ex_cmd = xr_command q # xr_args q, ex_stdout = True, ex_stderr = True,
         ex_tty = False, ex_dir = (if xr_dir q = [] then ''/home/whiteagent'' else xr_dir q),
         ex_env = env_lines P (xr_env q), ex_user = container_user (pl_cfg P)\<rparr> d)
       (\<lambda>e d1. (Inl (PoolDocker e), d1)) (\<lambda>x d1.
     if_ok (exec_start (pl_daemon P) x (wrap64 (dk_max_output_mb (pl_cfg P) * 1024 * 1024)) d1)
       (\<lambda>e d2. (Inl (PoolDocker (if pl_expired P d2 then ExecTimeout else e)), d2)) (\<lambda>(out, err) d2.
     if_ok (exec_inspect (pl_daemon P) x d2)
       (\<lambda>e d3. (Inl (PoolDocker e), d3))
       (\<lambda>code d3. (Inr \<lparr>xo_stdout = out, xo_stderr = err, xo_code = code\<rparr>, d3))))"

text \<open>The counter of running executions goes up before and down after, whatever happens.\<close>

definition add_active :: "string \<Rightarrow> int \<Rightarrow> containers \<Rightarrow> containers" where
  "add_active uid n cs = map (\<lambda>(u, ci). (u, if u = uid then ci\<lparr>ci_active := ci_active ci + n\<rparr> else ci)) cs"

definition touch :: "string \<Rightarrow> int \<Rightarrow> containers \<Rightarrow> containers" where
  "touch uid now cs = map (\<lambda>(u, ci). (u, if u = uid then ci\<lparr>ci_last_used := now\<rparr> else ci)) cs"

definition exec :: "'d pool \<Rightarrow> string \<Rightarrow> exec_request \<Rightarrow> containers \<Rightarrow> 'd
    \<Rightarrow> (pool_error + exec_result) \<times> containers \<times> 'd" where
  "exec P uid q cs d = (case map_of cs uid of
       None \<Rightarrow> (Inl (NoContainer uid), cs, d)
     | Some ci \<Rightarrow> let (r, d1) = run_exec P (ci_id ci) q d
         in (r, touch uid (pl_now P d1) (add_active uid (- 1) (add_active uid 1 cs)), d1))"

definition release :: "'d pool \<Rightarrow> string \<Rightarrow> containers \<Rightarrow> 'd \<Rightarrow> containers \<times> 'd" where
  "release P uid cs d = (case map_of cs uid of
       None \<Rightarrow> (cs, d)
     | Some ci \<Rightarrow> (AList.delete uid cs, discard (pl_daemon P) (whole_seconds (pl_stop P)) (ci_id ci) d))"

definition release_all :: "'d pool \<Rightarrow> string list \<Rightarrow> containers \<times> 'd \<Rightarrow> containers \<times> 'd" where
  "release_all P uids st = fold (\<lambda>uid (cs, d). release P uid cs d) uids st"

definition idle :: "'d pool \<Rightarrow> int \<Rightarrow> container_info \<Rightarrow> bool" where
  "idle P now ci \<longleftrightarrow> \<not> ci_active ci > 0 \<and> now - ci_last_used ci > whole_seconds (pl_idle P)"

definition sweep_once :: "'d pool \<Rightarrow> containers \<Rightarrow> 'd \<Rightarrow> containers \<times> 'd" where
  "sweep_once P cs d = release_all P (map fst (filter (\<lambda>(u, ci). idle P (pl_now P d) ci) cs)) (cs, d)"

definition stop_all :: "'d pool \<Rightarrow> containers \<Rightarrow> 'd \<Rightarrow> containers \<times> 'd" where
  "stop_all P cs d = release_all P (map fst cs) (cs, d)"

definition label_of :: "list_entry \<Rightarrow> string \<Rightarrow> string" where
  "label_of e k = (case map_of (le_labels e) k of None \<Rightarrow> [] | Some v \<Rightarrow> v)"

definition clean_orphans :: "'d pool \<Rightarrow> 'd \<Rightarrow> 'd" where
  "clean_orphans P d = (case container_list (pl_daemon P) (label_managed @ ''=true'') d of
       (Inl _, d1) \<Rightarrow> d1
     | (Inr es, d1) \<Rightarrow> fold (\<lambda>e. if label_of e label_service \<noteq> [] then id
         else discard (pl_daemon P) (whole_seconds (pl_stop P)) (le_id e)) es d1)"

definition rebuild_from_labels :: "'d pool \<Rightarrow> containers \<Rightarrow> 'd \<Rightarrow> containers \<times> 'd" where
  "rebuild_from_labels P cs d = (case container_list (pl_daemon P) (label_managed @ ''=true'') d of
       (Inl _, d1) \<Rightarrow> (cs, d1)
     | (Inr es, d1) \<Rightarrow> (fold (\<lambda>e cs. if le_state e \<noteq> ''running'' \<or> label_of e label_user_id = [] then cs
         else AList.update (label_of e label_user_id) \<lparr>ci_id = le_id e, ci_last_used = pl_now P d1, ci_active = 0\<rparr> cs) es cs, d1))"

section \<open>The plugin\<close>

datatype plugin_health = Healthy | Degraded | Unhealthy

record 'd docker_sandbox =
  ds_pool :: "'d pool option"
  ds_containers :: containers
  ds_health :: plugin_health
  ds_tenant :: string
  ds_world :: 'd

definition is_docker_error :: "pool_error \<Rightarrow> bool" where
  "is_docker_error e = (case e of PoolDocker x \<Rightarrow> x = DockerUnavailable \<or> (\<exists>t. x = ContainerNotFound t) \<or> x = ExecFailed
     | _ \<Rightarrow> False)"

text \<open>The health after a call: a failure of Docker degrades, a success restores.\<close>

definition after_call :: "('e \<Rightarrow> pool_error) \<Rightarrow> 'e + 'a \<Rightarrow> plugin_health \<Rightarrow> plugin_health" where
  "after_call f r h = (case r of Inl e \<Rightarrow> (if is_docker_error (f e) then Degraded else h)
     | Inr _ \<Rightarrow> (if h = Degraded then Healthy else h))"

text \<open>None is the answer that the sandbox is still starting.\<close>

definition ensure_with_mounts :: "string \<Rightarrow> mount list \<Rightarrow> 'd docker_sandbox
    \<Rightarrow> (pool_error option + string) \<times> 'd docker_sandbox" where
  "ensure_with_mounts uid ms s = (case ds_pool s of
       None \<Rightarrow> (Inl None, s)
     | Some P \<Rightarrow> let (r, cs, d) = ensure P uid (ds_tenant s) ms (ds_containers s) (ds_world s)
         in (case r of Inl e \<Rightarrow> Inl (Some e) | Inr w \<Rightarrow> Inr w,
             s\<lparr>ds_containers := cs, ds_world := d, ds_health := after_call id r (ds_health s)\<rparr>))"

definition sandbox_exec :: "string \<Rightarrow> exec_request \<Rightarrow> 'd docker_sandbox
    \<Rightarrow> (pool_error option + exec_result) \<times> 'd docker_sandbox" where
  "sandbox_exec uid q s = (case ds_pool s of
       None \<Rightarrow> (Inl None, s)
     | Some P \<Rightarrow> let (r, cs, d) = exec P uid q (ds_containers s) (ds_world s)
         in (case r of Inl e \<Rightarrow> Inl (Some e) | Inr w \<Rightarrow> Inr w,
             s\<lparr>ds_containers := cs, ds_world := d, ds_health := after_call id r (ds_health s)\<rparr>))"

text \<open>\<open>Release\<close> has no guard: before the start there is no pool to dereference.\<close>

definition sandbox_release :: "string \<Rightarrow> 'd docker_sandbox \<Rightarrow> (pool_error, unit) outcome \<times> 'd docker_sandbox" where
  "sandbox_release uid s = (case ds_pool s of
       None \<Rightarrow> (NilDeref, s)
     | Some P \<Rightarrow> let (cs, d) = release P uid (ds_containers s) (ds_world s)
         in (Done (), s\<lparr>ds_containers := cs, ds_world := d\<rparr>))"

end
