(* ===== verification/Sandbox_Laws.thy ===== *)
theory Sandbox_Laws
  imports Sandbox_Pool
begin

text \<open>
  What the sandbox pool guarantees: the book-keeping of containers by user, what the sweeper
  takes, the hardening of everything the daemon is asked to create or run, and where two users
  or two conversations of a user get in each other's way.
\<close>

section \<open>Book-keeping\<close>

lemma delete_filter: "AList.delete k cs = filter (\<lambda>(u, _). u \<noteq> k) cs"
  by (auto simp: AList.delete_eq intro!: filter_cong)

lemma release_containers [simp]: "fst (release P uid cs d) = AList.delete uid cs"
proof (cases "map_of cs uid")
  case None
  then have "filter (\<lambda>(u, _). u \<noteq> uid) cs = cs" by (auto simp: filter_id_conv map_of_eq_None_iff image_iff)
  with None show ?thesis by (simp add: release_def delete_filter)
qed (simp add: release_def)

lemma release_all_containers: "fst (release_all P uids (cs, d)) = filter (\<lambda>(u, _). u \<notin> set uids) cs"
proof (induction uids arbitrary: cs d)
  case Nil
  then show ?case by (simp add: release_all_def case_prod_beta)
next
  case (Cons u us)
  obtain d1 where r: "release P u cs d = (AList.delete u cs, d1)" using release_containers by (metis prod.collapse)
  have "release_all P (u # us) (cs, d) = release_all P us (AList.delete u cs, d1)" by (simp add: release_all_def r)
  with Cons.IH show ?case by (auto simp: delete_filter intro!: filter_cong)
qed

text \<open>
  C29: The sweeper releases the containers that have no running command and were not used for the
  idle time, and no other; stopping releases all.
\<close>

theorem sweep_releases_idle_only:
  assumes "distinct (map fst cs)"
  shows "fst (sweep_once P cs d) = filter (\<lambda>(u, ci). ci_active ci > 0 \<or> pl_now P d - ci_last_used ci \<le> whole_seconds (pl_idle P)) cs
    \<and> fst (stop_all P cs d) = []"
proof -
  have busy: "(\<lambda>(u, ci). ci_active ci > 0 \<or> pl_now P d - ci_last_used ci \<le> whole_seconds (pl_idle P))
      = (\<lambda>(u, ci). \<not> idle P (pl_now P d) ci)"
    by (auto simp: idle_def fun_eq_iff)
  let ?gone = "set (map fst (filter (\<lambda>(u, ci). idle P (pl_now P d) ci) cs))"
  have iff: "u \<in> ?gone \<longleftrightarrow> idle P (pl_now P d) ci" if "(u, ci) \<in> set cs" for u ci
  proof
    assume "u \<in> ?gone"
    then obtain ci' where "(u, ci') \<in> set cs" "idle P (pl_now P d) ci'" by auto
    with eq_key_imp_eq_value [OF assms that] show "idle P (pl_now P d) ci" by simp
  next
    assume "idle P (pl_now P d) ci"
    with that have "(u, ci) \<in> set (filter (\<lambda>(u, ci). idle P (pl_now P d) ci) cs)" by simp
    then show "u \<in> ?gone" by (metis fst_conv image_eqI set_map)
  qed
  have "fst (sweep_once P cs d) = filter (\<lambda>(u, _). u \<notin> ?gone) cs"
    by (simp only: sweep_once_def release_all_containers)
  also have "\<dots> = filter (\<lambda>(u, ci). \<not> idle P (pl_now P d) ci) cs"
  proof (rule filter_cong [OF refl])
    fix x assume x: "x \<in> set cs"
    obtain u ci where "x = (u, ci)" by fastforce
    with x iff [of u ci] show "(case x of (u, _) \<Rightarrow> u \<notin> ?gone) = (case x of (u, ci) \<Rightarrow> \<not> idle P (pl_now P d) ci)"
      by (simp del: set_map)
  qed
  finally have "fst (sweep_once P cs d) = \<dots>" .
  moreover have "fst (stop_all P cs d) = []"
    unfolding stop_all_def release_all_containers by (force simp: filter_empty_conv)
  ultimately show ?thesis unfolding busy by blast
qed

lemma start_new_containers:
  assumes "start_new P uid tid binds cs d = (r, cs', d')"
  shows "(\<exists>e. r = Inl e) \<and> cs' = cs \<or> (\<exists>i t. r = Inr ''/workspace'' \<and> cs' = AList.update uid \<lparr>ci_id = i, ci_last_used = t, ci_active = 0\<rparr> cs)"
  using assms by (auto simp: start_new_def split: prod.splits sum.splits)


section \<open>Hardening\<close>

text \<open>What the pool may ask for: confined containers, and commands under the sandbox user.\<close>

definition confined :: "docker_config \<Rightarrow> payload \<Rightarrow> bool" where
  "confined c b = (case b of
       JsonCreate q \<Rightarrow> cq_user q = container_user c \<and> cq_image q = dk_image c
         \<and> hc_cap_drop (cq_host q) = [''ALL''] \<and> hc_security_opt (cq_host q) = [''no-new-privileges'']
         \<and> hc_readonly_rootfs (cq_host q) \<and> hc_pids_limit (cq_host q) = Some (dk_pids_limit c) \<and> 0 < dk_pids_limit c
         \<and> (dk_allow_network c = Some False \<and> dk_network_mode c = [] \<longrightarrow> hc_network_mode (cq_host q) = ''none'')
         \<and> (dk_host_data_dir c \<noteq> [] \<longrightarrow> hc_network_mode (cq_host q) = ''host'' \<longrightarrow> dk_network c = ''host'')
     | JsonExec x \<Rightarrow> ex_user x = container_user c \<and> \<not> ex_tty x
     | JsonNetwork _ _ \<Rightarrow> False
     | _ \<Rightarrow> True)"

text \<open>Requests with such bodies keep a property of the daemon's state.\<close>

definition obeys :: "(payload \<Rightarrow> bool) \<Rightarrow> ('d \<Rightarrow> bool) \<Rightarrow> 'd daemon \<Rightarrow> bool" where
  "obeys S I D \<longleftrightarrow> (\<forall>q d. S (hq_body q) \<longrightarrow> I d \<longrightarrow> I (snd (dm_do D q d)))"

named_theorems obedient \<open>what keeps a property that requests keep\<close>

lemma roundtrip_obeys: "obeys S I D \<Longrightarrow> S b \<Longrightarrow> I d \<Longrightarrow> I (snd (roundtrip D v url b d))"
  unfolding obeys_def roundtrip_def by (auto split: prod.splits option.splits) (metis http_request.select_convs(4) snd_conv)+

lemma if_ok_obeys: "I (snd c) \<Longrightarrow> (\<And>e d1. I d1 \<Longrightarrow> I (snd (err e d1))) \<Longrightarrow> (\<And>a d1. I d1 \<Longrightarrow> I (snd (k a d1)))
    \<Longrightarrow> I (snd (if_ok c err k))"
  by (cases c; cases "fst c") auto

lemma call_obeys:
  assumes "obeys S I D" "I d" "S b"
  shows "I (snd (if_ok (roundtrip D v url b d) (\<lambda>e d1. (Inl e, d1)) (\<lambda>r d1. (f r, d1))))"
  by (rule if_ok_obeys [where I = I, OF roundtrip_obeys [OF assms(1,3,2)]]) simp_all

lemma client_obeys [obedient]:
  assumes "obeys S I D" "I d"
  shows "S (JsonCreate q) \<Longrightarrow> I (snd (container_create D name q d))" "S NoBody \<Longrightarrow> I (snd (container_start D i d))"
    "S NoBody \<Longrightarrow> I (snd (container_stop D i n d))" "S NoBody \<Longrightarrow> I (snd (container_remove D i f d))"
    "S NoBody \<Longrightarrow> I (snd (container_list D l d))" "S NoBody \<Longrightarrow> I (snd (container_inspect D i d))"
    "S (JsonExec x) \<Longrightarrow> I (snd (exec_create D i x d))" "S (JsonStart False False) \<Longrightarrow> I (snd (exec_start D j m d))"
    "S NoBody \<Longrightarrow> I (snd (exec_inspect D j d))"
  unfolding container_create_def container_start_def container_stop_def container_remove_def
    container_list_def container_inspect_def exec_create_def exec_start_def exec_inspect_def
  by (rule call_obeys [OF assms], assumption)+

lemma confined_simps [simp]: "confined c NoBody" "confined c (JsonStart t u)"
  by (simp_all add: confined_def)

lemma accepted_config:
  assumes "docker_complaints V c = []"
  shows "0 < dk_pids_limit c" "dk_network c \<noteq> [] \<Longrightarrow> dk_allow_network c \<noteq> Some False"
    "dk_host_data_dir c \<noteq> [] \<Longrightarrow> dk_network_mode c \<noteq> ''host''"
  using assms unfolding docker_complaints_def map_is_Nil_conv filter_empty_conv by simp_all

lemma sandbox_request_confined:
  assumes "docker_complaints V (pl_cfg P) = []"
  shows "confined (pl_cfg P) (JsonCreate (sandbox_request P uid tid binds))"
  using accepted_config [OF assms]
  by (simp add: confined_def sandbox_request_def Let_def no_host_config_def network_of_def)

lemma discard_obeys [obedient]: "obeys S I D \<Longrightarrow> S NoBody \<Longrightarrow> I d \<Longrightarrow> I (discard D n i d)"
  by (simp add: discard_def obedient)

lemma release_obeys [obedient]: "obeys S I (pl_daemon P) \<Longrightarrow> S NoBody \<Longrightarrow> I d \<Longrightarrow> I (snd (release P uid cs d))"
  by (simp add: release_def obedient split: option.split)

lemma release_all_obeys [obedient]:
  "obeys S I (pl_daemon P) \<Longrightarrow> S NoBody \<Longrightarrow> I d \<Longrightarrow> I (snd (release_all P uids (cs, d)))"
proof (induction uids arbitrary: cs d)
  case (Cons u us)
  obtain cs1 d1 where r: "release P u cs d = (cs1, d1)" by fastforce
  have "I d1" using release_obeys [OF Cons.prems, of u cs] r by simp
  with Cons show ?case by (simp add: release_all_def r)
qed (simp add: release_all_def)

lemma start_new_obeys:
  assumes "obeys (confined (pl_cfg P)) I (pl_daemon P)" "docker_complaints V (pl_cfg P) = []" "I d"
  shows "I (snd (snd (start_new P uid tid binds cs d)))"
proof -
  note keep = client_obeys [OF assms(1)]
  obtain r d1 where c: "container_create (pl_daemon P) (container_name uid) (sandbox_request P uid tid binds) d = (r, d1)" by fastforce
  have d1: "I d1" using keep(1) [OF assms(3) sandbox_request_confined [OF assms(2)]] c by (metis snd_conv)
  show ?thesis
  proof (cases r)
    case (Inr i)
    obtain q d2 where s: "container_start (pl_daemon P) i d1 = (q, d2)" by fastforce
    have "I d2" using keep(2) [OF d1, of i] s by simp
    with keep(4) show ?thesis by (simp add: start_new_def c Inr s split: sum.split)
  qed (simp add: start_new_def c d1)
qed

lemma run_exec_obeys:
  assumes "obeys (confined (pl_cfg P)) I (pl_daemon P)" "I d"
  shows "I (snd (run_exec P i q d))"
  unfolding run_exec_def
proof (rule if_ok_obeys [where I = I, OF client_obeys(7) [OF assms]])
  fix x d1 assume d1: "I d1"
  show "I (snd (if_ok (exec_start (pl_daemon P) x (wrap64 (dk_max_output_mb (pl_cfg P) * 1024 * 1024)) d1)
      (\<lambda>e d2. (Inl (PoolDocker (if pl_expired P d2 then ExecTimeout else e)), d2)) (\<lambda>(out, err) d2.
      if_ok (exec_inspect (pl_daemon P) x d2) (\<lambda>e d3. (Inl (PoolDocker e), d3))
        (\<lambda>code d3. (Inr \<lparr>xo_stdout = out, xo_stderr = err, xo_code = code\<rparr>, d3)))))"
  proof (rule if_ok_obeys [where I = I, OF client_obeys(8) [OF assms(1) d1]])
    fix oe :: "string \<times> string" and d2 assume d2: "I d2"
    obtain out err where oe: "oe = (out, err)" by fastforce
    show "I (snd ((case oe of (out, err) \<Rightarrow> \<lambda>d2. if_ok (exec_inspect (pl_daemon P) x d2) (\<lambda>e d3. (Inl (PoolDocker e), d3))
        (\<lambda>code d3. (Inr \<lparr>xo_stdout = out, xo_stderr = err, xo_code = code\<rparr>, d3))) d2))"
      unfolding oe prod.case by (rule if_ok_obeys [where I = I, OF client_obeys(9) [OF assms(1) d2]]) simp_all
  qed simp_all
qed (simp_all add: confined_def)


section \<open>Collisions\<close>

text \<open>
  The name of a container keeps eight characters of the user's identifier, and the first eight of
  a time-ordered identifier only tell the minute: users made together share a name. The daemon's
  refusal is not an error to \<open>checkStatus\<close>, which eats the body, so the answer cannot be read.
\<close>

lemma names_collide: "take 8 u = take 8 v \<Longrightarrow> container_name u = container_name v"
  by (simp add: container_name_def)

lemma taken_name_unreadable:
  assumes "dm_do D q d = (Some r, d1)" "hr_status r = 409" "length (bd_bytes (hr_body r)) \<le> 512"
    and "q = \<lparr>hq_verb = POST, hq_url = dm_base D @ ''/containers/create?name='' @ query_escape name,
      hq_content_type = ''application/json'', hq_body = JsonCreate b\<rparr>" "dm_read_id D [] = None"
  shows "container_create D name b d = (Inl (BadResponse ''create response''), d1)"
  using assms by (simp add: container_create_def roundtrip_def decoded_answer_def check_status_def Let_def)

text \<open>
  The mounts of a turn name its conversation: a turn of the same user in another conversation
  has the running container stopped and removed, whatever runs in it.
\<close>

lemma other_mounts_replace:
  assumes "map_of cs uid = Some ci" "validate_mounts ms = None"
    and "container_inspect (pl_daemon P) (ci_id ci) d = (Inr i, d1)"
    and "\<not> binds_match (in_binds i) (mounts_to_binds (translate_mount_paths P ms))"
  shows "ensure P uid tid ms cs d = start_new P uid tid (mounts_to_binds (translate_mount_paths P ms)) (AList.delete uid cs)
    (discard (pl_daemon P) (whole_seconds (pl_stop P)) (ci_id ci) d1)"
  using assms by (simp add: ensure_def Let_def)

section \<open>A pool at work\<close>

definition demo_daemon :: "http_request list daemon" where
  "demo_daemon = \<lparr>dm_do = (\<lambda>q log. (Some (case hq_body q of
        JsonCreate _ \<Rightarrow> \<lparr>hr_status = 201, hr_body = \<lparr>bd_bytes = ''c1'', bd_broken = False\<rparr>\<rparr>
      | JsonExec _ \<Rightarrow> \<lparr>hr_status = 201, hr_body = \<lparr>bd_bytes = ''x1'', bd_broken = False\<rparr>\<rparr>
      | _ \<Rightarrow> \<lparr>hr_status = (if hq_verb q = GET then 200 else 204), hr_body = \<lparr>bd_bytes = [], bd_broken = False\<rparr>\<rparr>), log @ [q])),
     dm_read_id = Some, dm_read_list = (\<lambda>_. Some []),
     dm_read_inspect = (\<lambda>_. Some \<lparr>in_status = ''running'', in_health = None, in_binds = []\<rparr>),
     dm_read_exec = (\<lambda>_. Some 0), dm_quote = (\<lambda>s. s), dm_base = [], dm_root = []\<rparr>"

definition demo_docker :: docker_config where
  "demo_docker = docker_defaults [] \<lparr>dk_socket = [], dk_image = [], dk_idle_timeout = [], dk_exec_timeout = [],
     dk_allow_network = Some False, dk_network_mode = [], dk_max_output_mb = 0, dk_cpu_nano = 0, dk_memory_mb = 0,
     dk_pids_limit = 0, dk_tmpfs_mb = 0, dk_stop_timeout = [], dk_user_home = [], dk_tenant_home = [],
     dk_messages = [], dk_host_data_dir = [], dk_uid = 0, dk_gid = 0, dk_env = [], dk_network = [], dk_services = []\<rparr>"

definition demo_config_env :: config_env where
  "demo_config_env = \<lparr>cv_duration = (\<lambda>_. Some 900000000000), cv_file_exists = (\<lambda>_. True)\<rparr>"

definition demo_pool :: "http_request list pool" where
  "demo_pool = new_pool demo_daemon demo_docker demo_config_env [] (\<lambda>log. 1000 + int (length log)) (\<lambda>_. False) (\<lambda>m. m)"

definition demo_info :: "int \<Rightarrow> container_info" where
  "demo_info n = \<lparr>ci_id = ''c0'', ci_last_used = 0, ci_active = n\<rparr>"

theorem sweep_releases_idle_only_witness:
  "fst (sweep_once demo_pool [(''u1'', demo_info 1), (''u2'', demo_info 0)] []) = [(''u1'', demo_info 1)]"
proof -
  have "distinct (map fst [(''u1'', demo_info 1), (''u2'', demo_info 0)])" by simp
  from sweep_releases_idle_only [OF this, of demo_pool "[]"] show ?thesis
    by (simp add: idle_def demo_info_def demo_pool_def new_pool_def demo_config_env_def whole_seconds_def)
qed


lemma demo_accepted: "docker_complaints demo_config_env (pl_cfg demo_pool) = []"
  by code_simp

lemma demo_obeys: "obeys (confined (pl_cfg demo_pool)) (list_all (\<lambda>q. confined demo_docker (hq_body q))) (pl_daemon demo_pool)"
  by (simp add: obeys_def demo_pool_def new_pool_def demo_daemon_def)


end
