(* ===== verification/Sandbox_Proxy.thy ===== *)
theory Sandbox_Proxy
  imports Secrets Sandbox_Laws
begin

text \<open>
  The sandbox that tools see during a turn, \<open>internal/domain/service/loop/proxy.go\<close>, and the two
  plugins behind it: it mounts the directories of the user, the tenant and the conversation and
  hands the secrets of the user to every command.
\<close>

section \<open>Any sandbox\<close>

text \<open>
  The part of \<open>port.SandboxPlugin\<close> the proxy calls, with a property of the plugin's state that
  commands keep.
\<close>

locale sandbox =
  fixes run :: "string \<Rightarrow> exec_request \<Rightarrow> 's \<Rightarrow> ('e + exec_result) \<times> 's"
    and inv :: "'s \<Rightarrow> bool"
  assumes run_inv: "inv s \<Longrightarrow> inv (snd (run uid q s))"

section \<open>Commands with secrets\<close>

text \<open>\<open>normalizeEnvKey\<close>.\<close>

definition normalize_env_key :: "string \<Rightarrow> string" where
  "normalize_env_key key = to_upper (map (\<lambda>c. if c = CHR ''-'' \<or> c = CHR '' '' then CHR ''_'' else c) key)"

abbreviation "secrets_dir \<equiv> ''/tmp/secrets''"

definition secret_path :: "env_entry \<Rightarrow> string" where
  "secret_path e = secrets_dir @ ''/'' @ normalize_env_key (ee_key e)"

definition is_file :: "env_entry \<Rightarrow> bool" where
  "is_file e \<longleftrightarrow> ee_mode e = SecretModeFile"

definition inject :: "env_entry list \<Rightarrow> string_map \<Rightarrow> string_map" where
  "inject es env = fold (\<lambda>e. AList.update (normalize_env_key (ee_key e))
     (if is_file e then secret_path e else ee_value e)) es env"

definition make_dir_request :: exec_request where
  "make_dir_request = \<lparr>xr_command = ''mkdir'', xr_args = [''-p'', secrets_dir], xr_env = [], xr_dir = ''/tmp''\<rparr>"

definition write_request :: "env_entry \<Rightarrow> exec_request" where
  "write_request e = \<lparr>xr_command = ''sh'', xr_args = [''-c'', ''printf '' @ [CHR 0x27] @ ''%s'' @ [CHR 0x27, CHR '' '', CHR 0x22]
       @ ''$_SECRET_CONTENT'' @ [CHR 0x22] @ '' > '' @ secret_path e @ '' && chmod 600 '' @ secret_path e],
     xr_env = [(''_SECRET_CONTENT'', ee_value e)], xr_dir = ''/tmp''\<rparr>"

definition remove_request :: exec_request where
  "remove_request = \<lparr>xr_command = ''rm'', xr_args = [''-rf'', secrets_dir], xr_env = [], xr_dir = ''/tmp''\<rparr>"

definition main_request :: "env_entry list \<Rightarrow> exec_request \<Rightarrow> exec_request" where
  "main_request es q = q\<lparr>xr_env := inject es (xr_env q),
     xr_dir := (if xr_dir q = [] then ''/home/whiteagent'' else xr_dir q)\<rparr>"

text \<open>A sequence of commands, the results of which are only logged.\<close>

fun run_each :: "(string \<Rightarrow> exec_request \<Rightarrow> 's \<Rightarrow> ('e + exec_result) \<times> 's) \<Rightarrow> string \<Rightarrow> exec_request list \<Rightarrow> 's \<Rightarrow> 's" where
  "run_each run uid [] s = s"
| "run_each run uid (q # qs) s = run_each run uid qs (snd (run uid q s))"

definition write_secrets :: "(string \<Rightarrow> exec_request \<Rightarrow> 's \<Rightarrow> ('e + exec_result) \<times> 's) \<Rightarrow> string \<Rightarrow> env_entry list \<Rightarrow> 's \<Rightarrow> 's" where
  "write_secrets run uid es s = (case run uid make_dir_request s of
       (Inl _, s1) \<Rightarrow> s1
     | (Inr _, s1) \<Rightarrow> run_each run uid (map write_request (filter is_file es)) s1)"

text \<open>\<open>sandboxProxy.Exec\<close> once the secrets are known; without them it goes on with none.\<close>

definition exec_with :: "(string \<Rightarrow> exec_request \<Rightarrow> 's \<Rightarrow> ('e + exec_result) \<times> 's) \<Rightarrow> string \<Rightarrow> env_entry list \<Rightarrow> exec_request
    \<Rightarrow> 's \<Rightarrow> ('e + exec_result) \<times> 's" where
  "exec_with run uid es q s =
     (let files = (\<exists>e \<in> set es. is_file e);
          s1 = (if files then write_secrets run uid es s else s);
          (r, s2) = run uid (main_request es q) s1
      in (r, if files then snd (run uid remove_request s2) else s2))"

record proxy =
  px_tenant :: string
  px_user :: string
  px_out_msg :: string
  px_conv :: string
  px_messages_dir :: string
  px_messages_target :: string
  px_user_home :: string
  px_tenant_home :: string

definition proxy_exec :: "(string \<Rightarrow> exec_request \<Rightarrow> 's \<Rightarrow> ('e + exec_result) \<times> 's) \<Rightarrow> cipher \<Rightarrow> proxy \<Rightarrow> string
    \<Rightarrow> exec_request \<Rightarrow> world \<Rightarrow> 's \<Rightarrow> ('e + exec_result) \<times> world \<times> 's" where
  "proxy_exec run ci px uid q w s =
     (let (es, w1) = env_vars ci (px_tenant px) (px_user px) w;
          (r, s1) = exec_with run uid (case es of Inl _ \<Rightarrow> [] | Inr es \<Rightarrow> es) q s
      in (r, w1, s1))"

definition prepare_outbox :: "(string \<Rightarrow> exec_request \<Rightarrow> 's \<Rightarrow> ('e + exec_result) \<times> 's) \<Rightarrow> proxy \<Rightarrow> string
    \<Rightarrow> 's \<Rightarrow> ('e + exec_result) \<times> 's" where
  "prepare_outbox run px uid = run uid \<lparr>xr_command = ''mkdir'',
     xr_args = [''-p'', ''/home/whiteagent/.outbox/'' @ px_out_msg px], xr_env = [], xr_dir = ''/home/whiteagent''\<rparr>"

section \<open>Directories\<close>

text \<open>\<open>newSandboxProxy\<close>, with the directories that \<open>ScopedFS\<close> gives.\<close>

definition new_proxy :: "(string \<Rightarrow> string + string) \<Rightarrow> (string \<Rightarrow> string + string) \<Rightarrow> (string \<Rightarrow> string option) \<Rightarrow> string
    \<Rightarrow> string \<Rightarrow> string \<Rightarrow> string \<Rightarrow> string \<Rightarrow> string \<Rightarrow> string + proxy" where
  "new_proxy user_dir tenant_dir message_dir tid uid out_msg conv messages target =
     (case user_dir uid of Inl e \<Rightarrow> Inl e | Inr uh \<Rightarrow>
      case tenant_dir tid of Inl e \<Rightarrow> Inl e | Inr th \<Rightarrow>
      Inr \<lparr>px_tenant = tid, px_user = uid, px_out_msg = out_msg, px_conv = conv,
        px_messages_dir = (if messages \<noteq> [] then messages
          else case message_dir (path_join [tid, conv]) of None \<Rightarrow> [] | Some d \<Rightarrow> d),
        px_messages_target = target, px_user_home = uh, px_tenant_home = th\<rparr>)"

definition proxy_mounts :: "proxy \<Rightarrow> mount list" where
  "proxy_mounts px = [\<lparr>mt_source = px_user_home px, mt_target = ''/home/whiteagent'', mt_read_only = False\<rparr>,
      \<lparr>mt_source = px_tenant_home px, mt_target = ''/tenant'', mt_read_only = True\<rparr>]
     @ (if px_messages_dir px \<noteq> [] \<and> px_messages_target px \<noteq> []
        then [\<lparr>mt_source = px_messages_dir px, mt_target = px_messages_target px, mt_read_only = True\<rparr>] else [])"

text \<open>With mounts when the plugin can, else without.\<close>

definition proxy_ensure :: "(string \<Rightarrow> mount list \<Rightarrow> 's \<Rightarrow> ('e + string) \<times> 's) option \<Rightarrow> (string \<Rightarrow> 's \<Rightarrow> ('e + string) \<times> 's)
    \<Rightarrow> proxy \<Rightarrow> string \<Rightarrow> 's \<Rightarrow> ('e + string) \<times> 's" where
  "proxy_ensure mounting plain_ensure px uid = (case mounting of
       Some f \<Rightarrow> f uid (proxy_mounts px) | None \<Rightarrow> plain_ensure uid)"

section \<open>Outgoing files\<close>

text \<open>
  The host's files by path. A rename moves a directory with everything below it; across devices
  it fails, and the files directly inside are copied, as far as they can be, before the outbox
  goes.
\<close>

record host_fs =
  hf_files :: "(string \<times> string) list"
  hf_same_device :: bool
  hf_mkdir :: "string \<Rightarrow> bool"
  hf_copies :: "string \<Rightarrow> bool"

definition below :: "string \<Rightarrow> string \<Rightarrow> string option" where
  "below dir p = (if has_prefix p (dir @ ''/'') then Some (drop (Suc (length dir)) p) else None)"

definition outbox_of :: "proxy \<Rightarrow> string" where
  "outbox_of px = path_join [px_user_home px, ''.outbox'', px_out_msg px]"

definition move_dir :: "string \<Rightarrow> string \<Rightarrow> (string \<times> string) list \<Rightarrow> (string \<times> string) list" where
  "move_dir from dest fs = map (\<lambda>(p, c). case below from p of None \<Rightarrow> (p, c) | Some r \<Rightarrow> (dest @ ''/'' @ r, c)) fs"

definition copy_flat :: "host_fs \<Rightarrow> string \<Rightarrow> string \<Rightarrow> (string \<times> string) list" where
  "copy_flat h from dest = List.map_filter (\<lambda>(p, c). case below from p of
       Some r \<Rightarrow> if CHR ''/'' \<notin> set r \<and> hf_copies h p then Some (path_join [dest, r], c) else None
     | None \<Rightarrow> None) (hf_files h)"

definition harvest_outgoing :: "proxy \<Rightarrow> string \<Rightarrow> host_fs \<Rightarrow> (unit + string) \<times> host_fs" where
  "harvest_outgoing px mid h =
     (let msg_dir = path_join [px_messages_dir px, mid]; box = outbox_of px in
      if \<forall>f \<in> set (hf_files h). below box (fst f) = None then (Inr msg_dir, h)
      else if \<not> hf_mkdir h (path_dir msg_dir) then (Inl (), h)
      else if hf_same_device h then (Inr msg_dir, h\<lparr>hf_files := move_dir box msg_dir (hf_files h)\<rparr>)
      else if \<not> hf_mkdir h msg_dir then (Inl (), h)
      else (Inr msg_dir, h\<lparr>hf_files := filter (\<lambda>f. below box (fst f) = None) (hf_files h) @ copy_flat h box msg_dir\<rparr>))"

section \<open>The local sandbox\<close>

text \<open>\<open>pkg/plugins/sandbox/local\<close>: the operating system runs the command; a child that exits has a result.\<close>

datatype os_run = Exited string string int | NotRun

definition local_data_dir :: "fs \<Rightarrow> string \<Rightarrow> string \<Rightarrow> string" where
  "local_data_dir f data_dir base_dir = fs_abs f (if data_dir \<noteq> [] then data_dir
     else if base_dir \<noteq> [] then base_dir else ''./data/workspaces'')"

definition local_ensure :: "(string \<Rightarrow> bool) \<Rightarrow> string \<Rightarrow> string \<Rightarrow> 's \<Rightarrow> (unit + string) \<times> 's" where
  "local_ensure mkdir data_dir uid s = (let d = path_join [data_dir, uid] in (if mkdir d then Inr d else Inl (), s))"

definition local_exec :: "(string list \<Rightarrow> string \<Rightarrow> string_map \<Rightarrow> 's \<Rightarrow> os_run \<times> 's) \<Rightarrow> string_map \<Rightarrow> string \<Rightarrow> string
    \<Rightarrow> exec_request \<Rightarrow> 's \<Rightarrow> (unit + exec_result) \<times> 's" where
  "local_exec os environ data_dir uid q s =
     (case os (xr_command q # xr_args q) (if xr_dir q = [] then path_join [data_dir, uid] else xr_dir q) (environ @ xr_env q) s of
        (Exited out err code, s1) \<Rightarrow> (Inr \<lparr>xo_stdout = out, xo_stderr = err, xo_code = code\<rparr>, s1)
      | (NotRun, s1) \<Rightarrow> (Inl (), s1))"

end
