(* ===== verification/Sandbox_Plugin.thy ===== *)
theory Sandbox_Plugin
  imports Sandbox_Pool
begin

text \<open>
  The life cycle of the Docker sandbox and its archive transfer, \<open>plugin.go\<close> and \<open>services.go\<close>
  of \<open>pkg/plugins/sandbox/docker\<close>. The services file after YAML, the parser of decimal fractions,
  the passing of time and the contents of archives are parameters.
\<close>

section \<open>Services\<close>

record service_health =
  sh_test :: "string list"
  sh_interval :: int
  sh_timeout :: int
  sh_retries :: int

record service =
  sv_name :: string
  sv_image :: string
  sv_user :: string
  sv_env :: string_map
  sv_shm_size :: string
  sv_mem_limit :: string
  sv_mem_reservation :: string
  sv_nano_cpus :: int
  sv_init :: bool
  sv_health :: "service_health option"
  sv_security_opt :: "string list"
  sv_tmpfs :: "string list"
  sv_restart :: string

text \<open>The name in a \<open>${NAME}\<close> or \<open>$NAME\<close> reference at the head of a text, and its length.\<close>

definition name_start :: "char \<Rightarrow> bool" where
  "name_start c \<longleftrightarrow> ascii_letter c \<or> c = CHR ''_''"

definition env_reference :: "string \<Rightarrow> (string \<times> nat) option" where
  "env_reference s = (case s of
       d # b # r \<Rightarrow> if d \<noteq> CHR ''$'' then None
         else if b = CHR ''{'' \<and> r \<noteq> [] \<and> hd r \<noteq> CHR ''}'' \<and> CHR ''}'' \<in> set r
           then let n = takeWhile (\<lambda>c. c \<noteq> CHR ''}'') r in Some (n, length n + 3)
         else if name_start b
           then let n = b # takeWhile (\<lambda>c. name_start c \<or> is_digit c) r in Some (n, length n + 1)
         else None
     | _ \<Rightarrow> None)"

function expand_env :: "(string \<Rightarrow> string) \<Rightarrow> string \<Rightarrow> string" where
  "expand_env getenv s = (case s of [] \<Rightarrow> []
     | c # r \<Rightarrow> (case env_reference s of
         None \<Rightarrow> c # expand_env getenv r
       | Some (n, k) \<Rightarrow> getenv n @ expand_env getenv (drop (k - 1) r)))"
  by pat_completeness auto
termination by (relation "measure (\<lambda>(g, s). length s)") auto

declare expand_env.simps [simp del]

text \<open>\<open>parseSize\<close>: the first suffix that fits; \<open>fraction\<close> is the number before it times the unit, truncated.\<close>

definition size_units :: "(string \<times> int) list" where
  "size_units = [(''gb'', 1073741824), (''mb'', 1048576), (''kb'', 1024), (''g'', 1073741824), (''m'', 1048576),
     (''k'', 1024), (''b'', 1)]"

definition parse_size :: "(string \<Rightarrow> int \<Rightarrow> int option) \<Rightarrow> string \<Rightarrow> int option" where
  "parse_size fraction s =
     (if s = [] then Some 0
      else let t = trim_space (to_lower s)
        in (case find (\<lambda>(u, _). has_suffix t u) size_units of
             Some (u, m) \<Rightarrow> fraction (take (length t - length u) t) m
           | None \<Rightarrow> atoi t))"

text \<open>\<open>parseTmpfs\<close>: each entry cut at its first colon.\<close>

definition parse_tmpfs :: "string list \<Rightarrow> string_map" where
  "parse_tmpfs es = fold (\<lambda>e m. case split2 (CHR '':'') e of (p, o') \<Rightarrow> AList.update p (case o' of None \<Rightarrow> [] | Some t \<Rightarrow> t) m) es []"

definition map_restart_policy :: "string \<Rightarrow> string" where
  "map_restart_policy s = (if s \<in> {''always'', ''unless-stopped'', ''on-failure''} then s else ''no'')"

definition size_field :: "(string \<Rightarrow> int \<Rightarrow> int option) \<Rightarrow> string \<Rightarrow> string \<Rightarrow> string + int" where
  "size_field fraction what s = (case parse_size fraction s of None \<Rightarrow> Inl what | Some n \<Rightarrow> Inr n)"

definition build_service_request :: "(string \<Rightarrow> int \<Rightarrow> int option) \<Rightarrow> (string_map \<Rightarrow> string_map) \<Rightarrow> string \<Rightarrow> service
    \<Rightarrow> string + create_request" where
  "build_service_request fraction order network s =
     (case size_field fraction ''shm_size'' (sv_shm_size s) of Inl e \<Rightarrow> Inl e | Inr shm \<Rightarrow>
      case size_field fraction ''mem_limit'' (sv_mem_limit s) of Inl e \<Rightarrow> Inl e | Inr mem \<Rightarrow>
      case size_field fraction ''mem_reservation'' (sv_mem_reservation s) of Inl e \<Rightarrow> Inl e | Inr res \<Rightarrow>
      Inr \<lparr>cq_image = sv_image s, cq_cmd = [], cq_user = sv_user s,
        cq_env = map (\<lambda>(k, v). k @ ''='' @ v) (order (sv_env s)),
        cq_labels = [(label_managed, ''true''), (label_service, sv_name s)],
        cq_host = no_host_config\<lparr>hc_security_opt := sv_security_opt s, hc_tmpfs := parse_tmpfs (sv_tmpfs s),
          hc_shm_size := shm, hc_memory := mem, hc_memory_reservation := res,
          hc_nano_cpus := (if sv_nano_cpus s > 0 then sv_nano_cpus s else 0),
          hc_init := (if sv_init s then Some True else None),
          hc_restart := (if sv_restart s \<noteq> [] then Some (map_restart_policy (sv_restart s)) else None)\<rparr>,
        cq_networks = Some [(network, [sv_name s])],
        cq_health = map_option (\<lambda>h. \<lparr>hk_test = sh_test h, hk_interval = sh_interval h, hk_timeout = sh_timeout h,
          hk_retries = sh_retries h\<rparr>) (sv_health s)\<rparr>)"

text \<open>\<open>waitHealthy\<close>, with the number of intervals that pass before its deadline.\<close>

datatype health_error = HealthTimeout | ContainerStopped string

fun wait_healthy :: "'d daemon \<Rightarrow> string \<Rightarrow> nat \<Rightarrow> 'd \<Rightarrow> (health_error + unit) \<times> 'd" where
  "wait_healthy D i 0 d = (Inl HealthTimeout, d)"
| "wait_healthy D i (Suc n) d = (case container_inspect D i d of
       (Inl _, d1) \<Rightarrow> wait_healthy D i n d1
     | (Inr r, d1) \<Rightarrow> if in_status r = ''running'' \<and> in_health r = Some ''healthy'' then (Inr (), d1)
         else if in_status r \<noteq> ''running'' then (Inl (ContainerStopped (in_status r)), d1)
         else wait_healthy D i n d1)"

definition stop_services :: "'d daemon \<Rightarrow> (string \<times> string) list \<Rightarrow> 'd \<Rightarrow> 'd" where
  "stop_services D instances d = fold (\<lambda>(_, i). discard D 10 i) (rev instances) d"

datatype service_error = ServicePull docker_error | ServiceSize string | ServiceCreate docker_error
  | ServiceStart docker_error | ServiceHealth health_error

definition remove_stale :: "'d daemon \<Rightarrow> string \<Rightarrow> 'd \<Rightarrow> 'd" where
  "remove_stale D name d = (case container_list D (label_service @ ''='' @ name) d of
       (Inl _, d1) \<Rightarrow> d1
     | (Inr old, d1) \<Rightarrow> fold (\<lambda>c. discard D 10 (le_id c)) old d1)"

text \<open>One service: the container it runs in, or the error and the containers to stop.\<close>

definition start_service :: "'d daemon \<Rightarrow> (service \<Rightarrow> nat) \<Rightarrow> (service \<Rightarrow> string + create_request) \<Rightarrow> service
    \<Rightarrow> (string \<times> string) list \<Rightarrow> 'd \<Rightarrow> (service_error + (string \<times> string) list) \<times> 'd" where
  "start_service D ticks build s started d =
     if_ok (image_pull D (sv_image s) d) (\<lambda>e d1. (Inl (ServicePull e), stop_services D started d1)) (\<lambda>_ d1.
     case build s of
       Inl e \<Rightarrow> (Inl (ServiceSize e), stop_services D started d1)
     | Inr b \<Rightarrow>
       if_ok (container_create D (''whiteagent-svc-'' @ sv_name s) b (remove_stale D (sv_name s) d1))
         (\<lambda>e d2. (Inl (ServiceCreate e), stop_services D started d2)) (\<lambda>i d2.
       if_ok (container_start D i d2)
         (\<lambda>e d3. (Inl (ServiceStart e), stop_services D started (snd (container_remove D i True d3)))) (\<lambda>_ d3.
       let started1 = started @ [(sv_name s, i)] in
       case sv_health s of
         None \<Rightarrow> (Inr started1, d3)
       | Some _ \<Rightarrow> if_ok (wait_healthy D i (ticks s) d3)
           (\<lambda>e d4. (Inl (ServiceHealth e), stop_services D started1 d4)) (\<lambda>_ d4. (Inr started1, d4)))))"

fun start_services :: "'d daemon \<Rightarrow> (service \<Rightarrow> nat) \<Rightarrow> (service \<Rightarrow> string + create_request) \<Rightarrow> service list
    \<Rightarrow> (string \<times> string) list \<Rightarrow> 'd \<Rightarrow> (service_error + (string \<times> string) list) \<times> 'd" where
  "start_services D ticks build [] started d = (Inr started, d)"
| "start_services D ticks build (s # ss) started d =
     if_ok (start_service D ticks build s started d) (\<lambda>e d1. (Inl e, d1))
       (\<lambda>started1 d1. start_services D ticks build ss started1 d1)"

section \<open>Start and stop\<close>

datatype start_error = StartPing docker_error | StartCancelled | StartNetwork docker_error | BadServices string
  | StartServices service_error | StartPull docker_error

text \<open>The pings, at most thirty, a second apart.\<close>

fun wait_daemon :: "'d daemon \<Rightarrow> ('d \<Rightarrow> bool) \<Rightarrow> nat \<Rightarrow> 'd \<Rightarrow> (start_error + unit) \<times> 'd" where
  "wait_daemon D cancelled 0 d = (Inr (), d)"
| "wait_daemon D cancelled (Suc n) d = (case ping D d of
       (Inr _, d1) \<Rightarrow> (Inr (), d1)
     | (Inl e, d1) \<Rightarrow> if e \<noteq> DockerUnavailable \<or> n = 0 then (Inl (StartPing e), d1)
         else if cancelled d1 then (Inl StartCancelled, d1) else wait_daemon D cancelled n d1)"

record 'd surroundings =
  su_cancelled :: "'d \<Rightarrow> bool"
  su_services :: "string \<Rightarrow> string + service list"
  su_ticks :: "service \<Rightarrow> nat"
  su_fraction :: "string \<Rightarrow> int \<Rightarrow> int option"

record 'd docker_plugin = "'d docker_sandbox" +
  dp_services :: "(string \<times> string) list"

text \<open>\<open>parseServices\<close> after YAML: the first service without an image is an error.\<close>

definition accept_services :: "service list \<Rightarrow> string + service list" where
  "accept_services ss = (case find (\<lambda>s. sv_image s = []) ss of
       Some s \<Rightarrow> Inl (sv_name s) | None \<Rightarrow> Inr ss)"

definition boot_network :: "'d pool \<Rightarrow> 'd \<Rightarrow> (start_error + unit) \<times> 'd" where
  "boot_network P d = (if dk_network (pl_cfg P) = [] then (Inr (), d)
     else if_ok (network_create (pl_daemon P) (dk_network (pl_cfg P)) ''bridge'' d)
       (\<lambda>e d1. (Inl (StartNetwork e), d1)) (\<lambda>_ d1. (Inr (), d1)))"

definition boot_services :: "'d pool \<Rightarrow> 'd surroundings \<Rightarrow> 'd \<Rightarrow> (start_error + (string \<times> string) list) \<times> 'd" where
  "boot_services P U d = (if dk_services (pl_cfg P) = [] then (Inr [], d)
     else case Option.bind (case su_services U (dk_services (pl_cfg P)) of Inl _ \<Rightarrow> None | Inr ss \<Rightarrow> Some ss)
         (\<lambda>ss. case accept_services ss of Inl _ \<Rightarrow> None | Inr ok \<Rightarrow> Some ok) of
       None \<Rightarrow> (Inl (BadServices (dk_services (pl_cfg P))), d)
     | Some ss \<Rightarrow> if_ok (start_services (pl_daemon P) (su_ticks U)
           (build_service_request (su_fraction U) (pl_order P) (dk_network (pl_cfg P))) ss [] d)
         (\<lambda>e d1. (Inl (StartServices e), d1)) (\<lambda>is d1. (Inr is, d1)))"

definition sandbox_start :: "'d pool \<Rightarrow> 'd surroundings \<Rightarrow> 'd docker_plugin \<Rightarrow> (start_error + unit) \<times> 'd docker_plugin" where
  "sandbox_start P U s =
     if_ok (wait_daemon (pl_daemon P) (su_cancelled U) 30 (ds_world s)) (\<lambda>e d. (Inl e, s\<lparr>ds_world := d\<rparr>)) (\<lambda>_ d1.
     if_ok (boot_network P d1) (\<lambda>e d. (Inl e, s\<lparr>ds_world := d\<rparr>)) (\<lambda>_ d2.
     if_ok (boot_services P U d2) (\<lambda>e d. (Inl e, s\<lparr>ds_world := d\<rparr>)) (\<lambda>svcs d3.
     let s1 = (if dk_services (pl_cfg P) = [] then s else s\<lparr>dp_services := svcs\<rparr>) in
     if_ok (image_pull (pl_daemon P) (dk_image (pl_cfg P)) d3) (\<lambda>e d. (Inl (StartPull e), s1\<lparr>ds_world := d\<rparr>)) (\<lambda>_ d4.
     let (cs, d5) = rebuild_from_labels P [] (clean_orphans P d4)
     in (Inr (), s1\<lparr>ds_pool := Some P, ds_containers := cs, ds_health := Healthy, ds_world := d5\<rparr>)))))"

definition sandbox_stop :: "'d pool \<Rightarrow> 'd docker_plugin \<Rightarrow> 'd docker_plugin" where
  "sandbox_stop P s =
     (let (cs, d1) = (case ds_pool s of None \<Rightarrow> (ds_containers s, ds_world s)
          | Some Q \<Rightarrow> stop_all Q (ds_containers s) (ds_world s));
          d2 = stop_services (pl_daemon P) (dp_services s) d1;
          d3 = (if dk_network (pl_cfg P) = [] then d2 else snd (network_remove (pl_daemon P) (dk_network (pl_cfg P)) d2))
      in s\<lparr>ds_containers := cs, dp_services := [], ds_health := Unhealthy, ds_world := d3\<rparr>)"

section \<open>Archives\<close>

datatype tar_kind = TarDir | TarFile | TarOther

record tar_entry =
  tar_name :: string
  tar_kind :: tar_kind
  tar_data :: string

datatype fs_action = MakeDir string | WriteFile string string

text \<open>
  \<open>untarDir\<close>: what it does to the file system, up to the first step that fails. An entry that
  cannot be read is None; \<open>strip\<close> is the leading directory once it is known.
\<close>

fun perform :: "(fs_action \<Rightarrow> bool) \<Rightarrow> fs_action list \<Rightarrow> bool \<times> fs_action list \<Rightarrow> bool \<times> fs_action list" where
  "perform can [] rest = rest"
| "perform can (a # as) rest = (if can a then (let (ok, done) = perform can as rest in (ok, a # done)) else (False, []))"

fun untar :: "(fs_action \<Rightarrow> bool) \<Rightarrow> string \<Rightarrow> string \<Rightarrow> tar_entry option list \<Rightarrow> bool \<times> fs_action list" where
  "untar can dest strip [] = (True, [])"
| "untar can dest strip (None # es) = (False, [])"
| "untar can dest strip (Some e # es) = (let name = path_clean (tar_name e) in
     if has_prefix name ''..'' then untar can dest strip es
     else if strip = [] \<and> tar_kind e = TarDir then untar can dest (name @ ''/'') es
     else let name1 = (if strip \<noteq> [] then trim_prefix name strip else name) in
       if strip \<noteq> [] \<and> name1 = [] then untar can dest strip es
       else let target = path_join [dest, name1] in
         perform can (case tar_kind e of
            TarDir \<Rightarrow> [MakeDir target]
          | TarFile \<Rightarrow> [MakeDir (path_dir target), WriteFile target (tar_data e)]
          | TarOther \<Rightarrow> []) (untar can dest strip es))"

definition untar_dir :: "(fs_action \<Rightarrow> bool) \<Rightarrow> string \<Rightarrow> tar_entry option list \<Rightarrow> bool \<times> fs_action list" where
  "untar_dir can dest es = untar can dest [] es"

datatype copy_error = NoSandbox string | CopyPool pool_error | CopyDocker docker_error | TarFailed

text \<open>\<open>tar\<close> is the archive of the host directory, none when it cannot be read.\<close>

definition copy_to :: "string \<Rightarrow> string option \<Rightarrow> string \<Rightarrow> 'd docker_sandbox \<Rightarrow> (copy_error, unit) outcome \<times> 'd docker_sandbox" where
  "copy_to uid tar dest s = (case ds_pool s of
       None \<Rightarrow> (NilDeref, s)
     | Some P \<Rightarrow> (case map_of (ds_containers s) uid of
         None \<Rightarrow> (Fail (NoSandbox uid), s)
       | Some ci \<Rightarrow>
           let (r, cs, d1) = exec P uid \<lparr>xr_command = ''mkdir'', xr_args = [''-p'', dest], xr_env = [], xr_dir = []\<rparr>
                 (ds_containers s) (ds_world s);
               s1 = s\<lparr>ds_containers := cs, ds_world := d1\<rparr>
           in (case r of
                Inl e \<Rightarrow> (Fail (CopyPool e), s1)
              | Inr _ \<Rightarrow> (case tar of
                  None \<Rightarrow> (Fail TarFailed, s1)
                | Some t \<Rightarrow> (case put_archive (pl_daemon P) (ci_id ci) dest t d1 of
                    (Inl e, d2) \<Rightarrow> (Fail (CopyDocker e), s1\<lparr>ds_world := d2\<rparr>)
                  | (Inr _, d2) \<Rightarrow> (Done (), s1\<lparr>ds_world := d2\<rparr>))))))"

text \<open>A path that is not in the container is no error; an answer without an archive is dereferenced.\<close>

definition copy_from :: "(body \<Rightarrow> tar_entry option list) \<Rightarrow> (fs_action \<Rightarrow> bool) \<Rightarrow> string \<Rightarrow> string \<Rightarrow> string
    \<Rightarrow> 'd docker_sandbox \<Rightarrow> (copy_error, fs_action list) outcome \<times> 'd docker_sandbox" where
  "copy_from entries can uid src dest s = (case ds_pool s of
       None \<Rightarrow> (NilDeref, s)
     | Some P \<Rightarrow> (case map_of (ds_containers s) uid of
         None \<Rightarrow> (Fail (NoSandbox uid), s)
       | Some ci \<Rightarrow> (case get_archive (pl_daemon P) (ci_id ci) src (ds_world s) of
           (Inl (ContainerNotFound _), d1) \<Rightarrow> (Done [], s\<lparr>ds_world := d1\<rparr>)
         | (Inl e, d1) \<Rightarrow> (Fail (CopyDocker e), s\<lparr>ds_world := d1\<rparr>)
         | (Inr None, d1) \<Rightarrow> (NilDeref, s\<lparr>ds_world := d1\<rparr>)
         | (Inr (Some b), d1) \<Rightarrow> (case untar_dir can dest (entries b) of
             (True, done) \<Rightarrow> (Done done, s\<lparr>ds_world := d1\<rparr>)
           | (False, _) \<Rightarrow> (Fail TarFailed, s\<lparr>ds_world := d1\<rparr>)))))"

end
