(* ===== verification/Proxy_Laws.thy ===== *)
theory Proxy_Laws
  imports Sandbox_Proxy Sandbox_Plugin
begin

text \<open>
  What the proxy adds to a sandbox and leaves behind: which commands it runs around that of a
  tool, where the files of a turn go, and that archives stay in the directory they are read into.
\<close>

section \<open>The commands around a command\<close>

text \<open>A sandbox that also keeps the list of what it was asked to run.\<close>

definition logging :: "(string \<Rightarrow> exec_request \<Rightarrow> 's \<Rightarrow> ('e + exec_result) \<times> 's) \<Rightarrow> string \<Rightarrow> exec_request
    \<Rightarrow> 's \<times> exec_request list \<Rightarrow> ('e + exec_result) \<times> 's \<times> exec_request list" where
  "logging run uid q sl = (case run uid q (fst sl) of (r, s1) \<Rightarrow> (r, s1, snd sl @ [q]))"

lemma logging_log [simp]: "snd (snd (logging run uid q sl)) = snd sl @ [q]"
  by (simp add: logging_def split: prod.split)

lemma run_each_log: "snd (run_each (logging run) uid qs sl) = snd sl @ qs"
  by (induction qs arbitrary: sl) simp_all

lemma write_secrets_log:
  "\<exists>ws. snd (write_secrets (logging run) uid es sl) = snd sl @ make_dir_request # ws
     \<and> (ws = [] \<or> ws = map write_request (filter is_file es))"
proof -
  obtain r sl1 where m: "logging run uid make_dir_request sl = (r, sl1)" by (metis surj_pair)
  have "snd sl1 = snd sl @ [make_dir_request]" using logging_log [of run uid make_dir_request sl] m by simp
  then show ?thesis by (cases r) (simp_all add: write_secrets_def m run_each_log)
qed

lemma inject_value:
  assumes "e \<in> set es" "\<forall>e' \<in> set es. normalize_env_key (ee_key e') = normalize_env_key (ee_key e) \<longrightarrow> e' = e"
  shows "map_of (inject es env) (normalize_env_key (ee_key e)) = Some (if is_file e then secret_path e else ee_value e)"
proof -
  have "map_of (inject es env) (normalize_env_key (ee_key e)) =
      (if e \<in> set es then Some (if is_file e then secret_path e else ee_value e) else map_of env (normalize_env_key (ee_key e)))"
    if "\<forall>e' \<in> set es. normalize_env_key (ee_key e') = normalize_env_key (ee_key e) \<longrightarrow> e' = e" for es
    using that
  proof (induction es rule: rev_induct)
    case (snoc x es)
    then show ?case by (auto simp: inject_def update_conv')
  qed (simp add: inject_def)
  with assms show ?thesis by simp
qed


definition demo_run :: "string \<Rightarrow> exec_request \<Rightarrow> nat \<Rightarrow> (unit + exec_result) \<times> nat" where
  "demo_run uid q n = (if xr_command q = ''sh'' then Inl () else Inr \<lparr>xo_stdout = xr_command q, xo_stderr = [], xo_code = 0\<rparr>, Suc n)"

definition demo_secrets :: "env_entry list" where
  "demo_secrets = [\<lparr>ee_key = ''api-key'', ee_value = ''k1'', ee_mode = SecretModeFile\<rparr>,
     \<lparr>ee_key = ''token'', ee_value = ''t1'', ee_mode = []\<rparr>]"

definition demo_command :: exec_request where
  "demo_command = \<lparr>xr_command = ''curl'', xr_args = [], xr_env = [], xr_dir = []\<rparr>"


section \<open>Commands keep what the sandbox keeps\<close>

context sandbox
begin

lemma run_each_inv: "inv s \<Longrightarrow> inv (run_each run uid qs s)"
  by (induction qs arbitrary: s) (simp_all add: run_inv)

lemma write_secrets_inv: "inv s \<Longrightarrow> inv (write_secrets run uid es s)"
proof -
  assume i: "inv s"
  obtain r s1 where m: "run uid make_dir_request s = (r, s1)" by fastforce
  have "inv s1" using run_inv [OF i, of uid make_dir_request] m by simp
  then show ?thesis by (cases r) (simp_all add: write_secrets_def m run_each_inv)
qed

lemma exec_with_inv:
  assumes "inv s"
  shows "inv (snd (exec_with run uid es q s))"
proof -
  let ?s1 = "if \<exists>e \<in> set es. is_file e then write_secrets run uid es s else s"
  obtain r s2 where m: "run uid (main_request es q) ?s1 = (r, s2)" by fastforce
  have "inv s2" using run_inv [of ?s1 uid "main_request es q"] m assms write_secrets_inv by (simp split: if_splits)
  then show ?thesis using m by (simp add: exec_with_def Let_def run_inv)
qed

lemma proxy_exec_inv: "inv s \<Longrightarrow> inv (snd (snd (proxy_exec run ci px uid q w s)))"
  using exec_with_inv by (auto simp: proxy_exec_def Let_def split: prod.split) (metis snd_conv)

end

text \<open>The Docker sandbox keeps its books: one container for each user, no command running between calls.\<close>

definition books_ok :: "'d docker_sandbox \<Rightarrow> bool" where
  "books_ok s \<longleftrightarrow> distinct (map fst (ds_containers s)) \<and> (\<forall>x \<in> set (ds_containers s). ci_active (snd x) = 0)"

lemma exec_books:
  "map fst (fst (snd (exec P uid q cs d))) = map fst cs"
  "\<forall>x \<in> set cs. ci_active (snd x) = 0 \<Longrightarrow> \<forall>x \<in> set (fst (snd (exec P uid q cs d))). ci_active (snd x) = 0"
  by (auto simp: exec_def touch_def add_active_def case_prod_beta o_def split: option.split)

lemma sandbox_exec_books:
  assumes "books_ok s"
  shows "books_ok (snd (sandbox_exec uid q s))"
proof (cases "ds_pool s")
  case (Some P)
  obtain r cs d where e: "exec P uid q (ds_containers s) (ds_world s) = (r, cs, d)" using prod_cases3 by blast
  have "map fst cs = map fst (ds_containers s)" "\<forall>x \<in> set cs. ci_active (snd x) = 0"
    using exec_books [where P = P and uid = uid and q = q and cs = "ds_containers s" and d = "ds_world s"] assms
    by (simp_all add: e books_ok_def)
  with assms show ?thesis by (simp add: sandbox_exec_def Some e books_ok_def)
qed (use assms in \<open>simp add: sandbox_exec_def\<close>)

interpretation docker: sandbox sandbox_exec books_ok
  by unfold_locales (rule sandbox_exec_books)

text \<open>
  After every command of a tool, and the commands for its secrets, the Docker sandbox has one
  container for each user and counts no running command.
\<close>

theorem tool_command_settles:
  assumes "books_ok s"
  shows "books_ok (snd (snd (proxy_exec sandbox_exec ci px uid q w s)))"
  by (rule docker.proxy_exec_inv [OF assms])

theorem tool_command_settles_witness:
  "\<exists>r w' s'. proxy_exec sandbox_exec demo_cipher \<lparr>px_tenant = ''t1'', px_user = ''u1'', px_out_msg = ''m2'', px_conv = ''v1'',
       px_messages_dir = [], px_messages_target = [], px_user_home = [], px_tenant_home = []\<rparr> ''u1'' demo_command demo_vault
     \<lparr>ds_pool = None, ds_containers = [(''u2'', \<lparr>ci_id = ''k'', ci_last_used = 0, ci_active = 0\<rparr>)], ds_health = Unhealthy,
      ds_tenant = [], ds_world = 0::nat\<rparr> = (r, w', s') \<and> books_ok s'"
proof -
  let ?s = "\<lparr>ds_pool = None, ds_containers = [(''u2'', \<lparr>ci_id = ''k'', ci_last_used = 0, ci_active = 0\<rparr>)],
      ds_health = Unhealthy, ds_tenant = [], ds_world = 0::nat\<rparr>"
  let ?px = "\<lparr>px_tenant = ''t1'', px_user = ''u1'', px_out_msg = ''m2'', px_conv = ''v1'',
       px_messages_dir = [], px_messages_target = [], px_user_home = [], px_tenant_home = []\<rparr>"
  obtain r w' s' where e: "proxy_exec sandbox_exec demo_cipher ?px ''u1'' demo_command demo_vault ?s = (r, w', s')"
    using prod_cases3 by blast
  have "books_ok ?s" by (simp add: books_ok_def)
  from tool_command_settles [OF this, of demo_cipher ?px "''u1''" demo_command demo_vault] e show ?thesis by auto
qed

section \<open>Files of a turn\<close>

text \<open>
  On one device every file of the outbox of a turn becomes a file of its message, below the
  same path and with the same content, and no other file changes.
\<close>

theorem harvest_moves_outbox:
  assumes "harvest_outgoing px mid h = (Inr dir, h')" "hf_same_device h" "(p, c) \<in> set (hf_files h)"
  shows "(case below (outbox_of px) p of Some r \<Rightarrow> (dir @ ''/'' @ r, c) \<in> set (hf_files h') | None \<Rightarrow> (p, c) \<in> set (hf_files h'))"
  using assms by (force simp: harvest_outgoing_def Let_def move_dir_def image_iff split: if_splits option.split)

section \<open>Archives\<close>

text \<open>A cleaned path is some steps up and then plain components; a rooted one has no steps up.\<close>

lemma clean_stack_shape:
  assumes "\<exists>n ps. st = rev ps @ replicate n ''..'' \<and> list_all plain ps \<and> (rooted \<longrightarrow> n = 0)" "CHR ''/'' \<notin> set c"
  shows "\<exists>n ps. clean_step rooted st c = rev ps @ replicate n ''..'' \<and> list_all plain ps \<and> (rooted \<longrightarrow> n = 0)"
proof -
  obtain n ps where st: "st = rev ps @ replicate n ''..''" and ps: "list_all plain ps" and r: "rooted \<longrightarrow> n = 0"
    using assms(1) by blast
  consider "c = [] \<or> c = ''.''" | "c = ''..''" "ps = []" | qs p where "c = ''..''" "ps = qs @ [p]" | "plain c"
    using assms(2) by (cases ps rule: rev_cases) (auto simp: plain_def)
  then show ?thesis
  proof cases
    case 1
    then have "clean_step rooted st c = st" by (auto simp: clean_step_def)
    with assms(1) show ?thesis by simp
  next
    case 2
    show ?thesis
    proof (cases n)
      case 0
      with st 2 have "clean_step rooted st c = (if rooted then [] else [''..''])" by (simp add: clean_step_def)
      then show ?thesis by (intro exI [of _ "if rooted then 0 else 1"] exI [of _ "[]"]) simp
    next
      case (Suc m)
      with st 2 have "clean_step rooted st c = replicate (Suc n) ''..''" by (simp add: clean_step_def)
      then show ?thesis using r Suc by (intro exI [of _ "Suc n"] exI [of _ "[]"]) simp
    qed
  next
    case (3 qs p)
    then have "p \<noteq> ''..''" using ps by (simp add: plain_def)
    with st 3 have "clean_step rooted st c = rev qs @ replicate n ''..''" by (simp add: clean_step_def)
    with ps 3 r show ?thesis by auto
  next
    case 4
    then have "clean_step rooted st c = rev (ps @ [c]) @ replicate n ''..''" using st by (auto simp: clean_step_def plain_def)
    with ps 4 r show ?thesis by (intro exI [of _ n] exI [of _ "ps @ [c]"]) simp
  qed
qed

lemma path_comps_shape:
  obtains n ps where "path_comps p = replicate n ''..'' @ ps" "list_all plain ps" "path_rooted p \<Longrightarrow> n = 0"
proof -
  have "\<exists>n ps. fold (\<lambda>c st. clean_step rooted st c) cs st = rev ps @ replicate n ''..'' \<and> list_all plain ps \<and> (rooted \<longrightarrow> n = 0)"
    if "\<forall>c \<in> set cs. CHR ''/'' \<notin> set c" "\<exists>n ps. st = rev ps @ replicate n ''..'' \<and> list_all plain ps \<and> (rooted \<longrightarrow> n = 0)"
    for cs st rooted
    using that
  proof (induction cs arbitrary: st)
    case (Cons c cs)
    then show ?case using clean_stack_shape [OF Cons.prems(2)] by simp
  qed simp
  from this [of "split_on (CHR ''/'') p" "[]" "path_rooted p"] split_on_parts
  obtain n ps where "fold (\<lambda>c st. clean_step (path_rooted p) st c) (split_on (CHR ''/'') p) [] = rev ps @ replicate n ''..''"
    "list_all plain ps" "path_rooted p \<longrightarrow> n = 0" by fastforce
  then show ?thesis by (intro that [of n ps]) (simp_all add: path_comps_def)
qed

text \<open>So a cleaned path that does not begin with two dots never leaves the directory it is put into.\<close>

definition inward :: "string \<Rightarrow> bool" where
  "inward s \<longleftrightarrow> (\<forall>c \<in> set (split_on (CHR ''/'') s). plain c \<or> c = [] \<or> c = ''.'')"

lemma join_inward: "list_all plain ps \<Longrightarrow> inward (join ''/'' ps)"
  by (cases "ps = []") (auto simp: inward_def split_on_join [OF plain_list] list_all_iff)

lemma clean_inward:
  assumes "\<not> has_prefix (path_clean p) ''..''"
  shows "inward (path_clean p)"
proof (cases rule: path_comps_shape [of p])
  case (1 n ps)
  show ?thesis
  proof (cases "path_rooted p")
    case True
    with 1 have "path_clean p = CHR ''/'' # join ''/'' ps" by (simp add: path_clean_def Let_def)
    then show ?thesis using join_inward [OF 1(2)] by (simp add: inward_def)
  next
    case False
    have "n = 0"
    proof (rule ccontr)
      assume "n \<noteq> 0"
      then obtain m where "path_comps p = ''..'' # replicate m ''..'' @ ps" using 1(1) by (cases n) auto
      then have "has_prefix (path_clean p) ''..''"
        using False by (cases "replicate m ''..'' @ ps") (simp_all add: path_clean_def Let_def)
      with assms show False by simp
    qed
    with 1 False have "path_clean p = (if ps = [] then ''.'' else join ''/'' ps)" by (simp add: path_clean_def Let_def)
    then show ?thesis using join_inward [OF 1(2)] by (simp add: inward_def)
  qed
qed

lemma inward_trim:
  assumes "inward s"
  shows "inward (trim_prefix s (d @ ''/''))"
proof (cases "has_prefix s (d @ ''/'')")
  case True
  then obtain t where "s = d @ CHR ''/'' # t" by (auto simp: has_prefix_iff)
  with assms True show ?thesis by (auto simp: trim_prefix_def inward_def split_on_append)
qed (simp add: trim_prefix_def assms)

lemma clean_inward_comps:
  assumes "\<forall>c \<in> set cs. plain c \<or> c = [] \<or> c = ''.''"
  shows "fold (\<lambda>c st. clean_step r st c) cs st = rev (filter plain cs) @ st"
  using assms by (induction cs arbitrary: st) (auto simp: clean_step_def plain_def)

lemma join_inward_path:
  assumes "list_all plain bs" "bs \<noteq> []" "inward s"
  shows "path_join [CHR ''/'' # join ''/'' bs, s] = CHR ''/'' # join ''/'' (bs @ filter plain (split_on (CHR ''/'') s))"
proof -
  let ?d = "CHR ''/'' # join ''/'' bs"
  have "split_on (CHR ''/'') (?d @ CHR ''/'' # s) = [] # bs @ split_on (CHR ''/'') s"
    using split_on_join [OF plain_list [OF assms(1)] assms(2)] split_on_append [of "CHR ''/''" "join ''/'' bs" s] by simp
  moreover have "fold (\<lambda>c st. clean_step True st c) (bs @ split_on (CHR ''/'') s) [] = rev (bs @ filter plain (split_on (CHR ''/'') s))"
    using clean_plain [OF assms(1)] clean_inward_comps [OF assms(3) [unfolded inward_def]] by simp
  ultimately have "path_comps (?d @ CHR ''/'' # s) = bs @ filter plain (split_on (CHR ''/'') s)"
    by (simp add: path_comps_def path_rooted_def clean_step_def)
  then show ?thesis by (simp add: path_join_def path_clean_def path_rooted_def)
qed

lemma join_below:
  assumes "list_all plain bs" "bs \<noteq> []" "inward s"
  obtains ps where "path_join [CHR ''/'' # join ''/'' bs, s] = CHR ''/'' # join ''/'' (bs @ ps)" "list_all plain ps"
  by (rule that [OF join_inward_path [OF assms]]) (simp add: list_all_iff)

lemma dir_below:
  assumes "list_all plain cs" "cs \<noteq> []" "CHR ''/'' \<notin> set c"
  shows "path_dir (CHR ''/'' # join ''/'' (cs @ [c])) = CHR ''/'' # join ''/'' cs"
proof -
  have j: "join ''/'' (cs @ [c]) = join ''/'' cs @ CHR ''/'' # c" using join_append [of cs "[c]" "''/''"] assms(2) by simp
  have "dropWhile (\<lambda>x. x \<noteq> CHR ''/'') (rev c @ CHR ''/'' # xs) = CHR ''/'' # xs" for xs
    using assms(3) by (subst dropWhile_append2) auto
  then have "rev (dropWhile (\<lambda>x. x \<noteq> CHR ''/'') (rev (CHR ''/'' # join ''/'' (cs @ [c])))) = CHR ''/'' # join ''/'' cs @ ''/''"
    by (simp add: j)
  then have d: "path_dir (CHR ''/'' # join ''/'' (cs @ [c])) = path_clean (CHR ''/'' # join ''/'' cs @ ''/'')"
    by (simp add: path_dir_def)
  have "path_join [CHR ''/'' # join ''/'' cs, []] = CHR ''/'' # join ''/'' cs"
    using join_inward_path [OF assms(1,2), of "[]"] by (simp add: inward_def plain_def)
  then have "path_clean (CHR ''/'' # join ''/'' cs @ ''/'') = CHR ''/'' # join ''/'' cs" by (simp add: path_join_def)
  with d show ?thesis by simp
qed

definition inside :: "string \<Rightarrow> string \<Rightarrow> bool" where
  "inside dest p \<longleftrightarrow> p = dest \<or> under_dir dest p"

fun action_inside :: "string \<Rightarrow> fs_action \<Rightarrow> bool" where
  "action_inside dest (MakeDir p) = (inside dest p \<or> p = path_dir dest)"
| "action_inside dest (WriteFile p c) = inside dest p"

lemma perform_actions: "set (snd (perform can as rest)) \<subseteq> set as \<union> set (snd rest)"
  by (induction as) (auto split: prod.splits)

text \<open>
  C31: Whatever names an archive from a container has, everything it is unpacked to is inside the
  directory it is unpacked in; only that directory's parent may be made besides.
\<close>

theorem archive_stays_inside:
  assumes "list_all plain bs" "bs \<noteq> []" "dest = CHR ''/'' # join ''/'' bs"
  shows "list_all (action_inside dest) (snd (untar_dir can dest es))"
proof -
  have below: "inside dest (CHR ''/'' # join ''/'' (bs @ ps))" for ps
    using assms(2,3) by (cases "ps = []") (simp_all add: inside_def under_dir_def has_prefix_iff join_append)
  have target: "list_all (action_inside dest) [MakeDir (path_dir t), WriteFile t c] \<and> action_inside dest (MakeDir t)"
    if t: "t = path_join [dest, s]" "inward s" for t s c
  proof (rule join_below [OF assms(1,2) t(2)])
    fix ps
    assume p: "path_join [CHR ''/'' # join ''/'' bs, s] = CHR ''/'' # join ''/'' (bs @ ps)" "list_all plain ps"
    show ?thesis
    proof (cases ps rule: rev_cases)
      case Nil
      with p t assms(3) show ?thesis by (simp add: inside_def)
    next
      case (snoc qs q)
      have "path_dir t = CHR ''/'' # join ''/'' (bs @ qs)"
        using dir_below [of "bs @ qs" q] p snoc t assms by (simp add: plain_def)
      with p t assms(3) below show ?thesis by simp
    qed
  qed
  have "\<forall>a \<in> set (snd (untar can dest strip es)). action_inside dest a" if "strip = [] \<or> (\<exists>d. strip = d @ ''/'')" for strip
    using that
  proof (induction es arbitrary: strip)
    case (Cons x es)
    note IH = Cons.IH [OF Cons.prems]
    show ?case
    proof (cases x)
      case (Some e)
      let ?name = "path_clean (tar_name e)"
      let ?rest = "trim_prefix ?name strip"
      let ?target = "path_join [dest, if strip \<noteq> [] then ?rest else ?name]"
      let ?acts = "case tar_kind e of TarDir \<Rightarrow> [MakeDir ?target]
        | TarFile \<Rightarrow> [MakeDir (path_dir ?target), WriteFile ?target (tar_data e)] | TarOther \<Rightarrow> []"
      consider "has_prefix ?name ''..''" | "\<not> has_prefix ?name ''..''" "strip = [] \<and> tar_kind e = TarDir"
        | "\<not> has_prefix ?name ''..''" "\<not> (strip = [] \<and> tar_kind e = TarDir)" by blast
      then show ?thesis
      proof cases
        case 1
        with IH Some show ?thesis by (simp add: Let_def)
      next
        case 2
        with Some Cons.IH [of "?name @ ''/''"] show ?thesis by (simp add: Let_def)
      next
        case 3
        have "inward (if strip \<noteq> [] then ?rest else ?name)"
          using clean_inward [OF 3(1)] Cons.prems inward_trim by auto
        from target [OF refl this, of "tar_data e"] have "\<forall>a \<in> set ?acts. action_inside dest a"
          by (cases "tar_kind e") simp_all
        then have "\<forall>a \<in> set (snd (perform can ?acts (untar can dest strip es))). action_inside dest a"
          using perform_actions [of can ?acts "untar can dest strip es"] IH by blast
        with 3 Some IH show ?thesis by (simp add: Let_def)
      qed
    qed simp
  qed simp
  from this [of "[]"] show ?thesis by (simp add: untar_dir_def list_all_iff)
qed

theorem archive_stays_inside_witness:
  "untar_dir (\<lambda>_. True) ''/data/m1'' [Some \<lparr>tar_name = ''m1/'', tar_kind = TarDir, tar_data = []\<rparr>,
       Some \<lparr>tar_name = ''m1/../../etc/passwd'', tar_kind = TarFile, tar_data = ''x''\<rparr>,
       Some \<lparr>tar_name = ''m1/sub/a.txt'', tar_kind = TarFile, tar_data = ''hi''\<rparr>]
     = (True, [MakeDir ''/data/m1/sub'', WriteFile ''/data/m1/sub/a.txt'' ''hi''])
   \<and> list_all (action_inside ''/data/m1'') (snd (untar_dir (\<lambda>_. True) ''/data/m1''
       [Some \<lparr>tar_name = ''m1/../../etc/passwd'', tar_kind = TarFile, tar_data = ''x''\<rparr>]))"
proof
  show "untar_dir (\<lambda>_. True) ''/data/m1'' [Some \<lparr>tar_name = ''m1/'', tar_kind = TarDir, tar_data = []\<rparr>,
       Some \<lparr>tar_name = ''m1/../../etc/passwd'', tar_kind = TarFile, tar_data = ''x''\<rparr>,
       Some \<lparr>tar_name = ''m1/sub/a.txt'', tar_kind = TarFile, tar_data = ''hi''\<rparr>]
     = (True, [MakeDir ''/data/m1/sub'', WriteFile ''/data/m1/sub/a.txt'' ''hi''])" by code_simp
  show "list_all (action_inside ''/data/m1'') (snd (untar_dir (\<lambda>_. True) ''/data/m1''
       [Some \<lparr>tar_name = ''m1/../../etc/passwd'', tar_kind = TarFile, tar_data = ''x''\<rparr>]))"
    by (rule archive_stays_inside [of "[''data'', ''m1'']"]) (simp_all add: plain_def)
qed

end
