(* ===== verification/Skills.thy ===== *)
theory Skills
  imports Prompt Go_Path "HOL-Library.AList"
begin

text \<open>
  The skill service, \<open>internal/domain/service/skill\<close> and \<open>pkg/yaml\<close>: skills are directories with a
  \<open>SKILL.md\<close>; the global ones are copied into each tenant's directory, marked by a state file.
  The YAML library, SHA-256 and failures of the file system are parameters.
\<close>

record skill_state =
  ss_source :: string
  ss_hash :: string
  ss_synced_at :: string

text \<open>
  A directory entry: its files by relative path, and its state file, which is not there when it
  cannot be read.
\<close>

record skill_dir =
  sd_is_dir :: bool
  sd_files :: "(string \<times> string) list"
  sd_state :: "skill_state option"

type_synonym skill_root = "(string \<times> skill_dir) list"

record skill_env =
  se_yaml :: "string \<Rightarrow> (string \<times> string) option"
  se_hash :: "string \<Rightarrow> string"
  se_readable :: "string \<Rightarrow> bool"
  se_can_remove :: "string \<Rightarrow> bool"
  se_copied :: "string \<Rightarrow> nat option"
  se_state_written :: "string \<Rightarrow> bool"
  se_now :: string

section \<open>Front matter\<close>

definition parse_frontmatter :: "skill_env \<Rightarrow> string \<Rightarrow> (string \<times> string) option" where
  "parse_frontmatter E content = (let open_mark = ''---'' @ [CHR 0x0A] in
     if \<not> has_prefix content open_mark then Some ([], [])
     else let rest = drop 4 content
       in (case index_of rest (CHR 0x0A # ''---'') of
            None \<Rightarrow> Some ([], [])
          | Some i \<Rightarrow> se_yaml E (take i rest)))"

section \<open>Scanning\<close>

definition valid_dir_name :: "string \<Rightarrow> bool" where
  "valid_dir_name n \<longleftrightarrow> \<not> contains_str n ''..'' \<and> \<not> contains_str n ''/''"

definition skill_md :: "skill_env \<Rightarrow> string \<Rightarrow> string \<Rightarrow> skill_dir \<Rightarrow> string option" where
  "skill_md E root n d = (if se_readable E (path_join [root, n, ''SKILL.md'']) then map_of (sd_files d) ''SKILL.md'' else None)"

definition scan_entry :: "skill_env \<Rightarrow> skill_level \<Rightarrow> string \<Rightarrow> string \<times> skill_dir \<Rightarrow> skill option" where
  "scan_entry E lvl root e = (case e of (n, d) \<Rightarrow>
     if \<not> sd_is_dir d \<or> \<not> valid_dir_name n then None
     else Option.bind (skill_md E root n d) (\<lambda>content.
       map_option (\<lambda>(name, desc). \<lparr>sk_name = n, sk_display = (if name = [] then n else name), sk_description = desc,
           sk_level = lvl, sk_path = path_join [root, n]\<rparr>)
         (parse_frontmatter E content)))"

text \<open>None is a directory that cannot be read; one that is not there has no skills.\<close>

definition scan_skill_dir :: "skill_env \<Rightarrow> skill_level \<Rightarrow> string \<Rightarrow> skill_root option \<Rightarrow> skill list option" where
  "scan_skill_dir E lvl root entries = map_option (List.map_filter (scan_entry E lvl root)) entries"

section \<open>Listing and resolving\<close>

definition merge_skills :: "skill list \<Rightarrow> (string \<times> skill) list \<Rightarrow> (string \<times> skill) list" where
  "merge_skills ss m = fold (\<lambda>s. AList.update (to_lower (sk_name s)) s) ss m"

text \<open>\<open>order\<close> is the order of the map range; the sort by lowered name comes after it.\<close>

definition list_skills :: "((string \<times> skill) list \<Rightarrow> skill list) \<Rightarrow> skill list option \<Rightarrow> skill list option
    \<Rightarrow> string + skill list" where
  "list_skills order tenant_skills user_skills = (case tenant_skills of
       None \<Rightarrow> Inl ''scan tenant skills''
     | Some ts \<Rightarrow> (case user_skills of
         None \<Rightarrow> Inl ''scan user skills''
       | Some us \<Rightarrow> Inr (sort_key (\<lambda>s. to_lower (sk_name s)) (order (merge_skills us (merge_skills ts []))))))"

definition named_skill :: "string \<Rightarrow> skill list \<Rightarrow> skill option" where
  "named_skill name ss = find (\<lambda>s. to_lower (sk_name s) = to_lower name) ss"

definition resolve_skill :: "string \<Rightarrow> skill list option \<Rightarrow> skill list option \<Rightarrow> string + skill option" where
  "resolve_skill name user_skills tenant_skills = (case user_skills of
       None \<Rightarrow> Inl ''scan user skills''
     | Some us \<Rightarrow> (case named_skill name us of
         Some s \<Rightarrow> Inr (Some s)
       | None \<Rightarrow> (case tenant_skills of
           None \<Rightarrow> Inl ''scan tenant skills''
         | Some ts \<Rightarrow> Inr (named_skill name ts))))"

section \<open>Synchronisation\<close>

definition hash_file :: "skill_env \<Rightarrow> string \<Rightarrow> string \<times> skill_dir \<Rightarrow> string" where
  "hash_file E root e = (case skill_md E root (fst e) (snd e) of None \<Rightarrow> [] | Some c \<Rightarrow> se_hash E c)"

text \<open>
  \<open>copyDir\<close> and \<open>writeState\<close>: a copy that fails leaves the files copied so far and no state; a
  state that cannot be written leaves the one copied, if any.
\<close>

definition copied_dir :: "skill_env \<Rightarrow> string \<Rightarrow> string \<Rightarrow> skill_dir \<Rightarrow> skill_dir" where
  "copied_dir E n hash g = (case se_copied E n of
       Some k \<Rightarrow> \<lparr>sd_is_dir = True, sd_files = take k (sd_files g), sd_state = None\<rparr>
     | None \<Rightarrow> \<lparr>sd_is_dir = True, sd_files = sd_files g,
         sd_state = (if se_state_written E n then Some \<lparr>ss_source = ''global'', ss_hash = hash, ss_synced_at = se_now E\<rparr>
           else sd_state g)\<rparr>)"

definition from_global :: "skill_dir \<Rightarrow> bool" where
  "from_global d \<longleftrightarrow> (case sd_state d of None \<Rightarrow> False | Some st \<Rightarrow> ss_source st = ''global'')"

definition sync_one :: "skill_env \<Rightarrow> string \<times> skill_dir \<Rightarrow> string \<Rightarrow> skill_root \<Rightarrow> skill_root" where
  "sync_one E g hash t = (case map_of t (fst g) of
       None \<Rightarrow> AList.update (fst g) (copied_dir E (fst g) hash (snd g)) t
     | Some d \<Rightarrow> (case sd_state d of
         None \<Rightarrow> t
       | Some st \<Rightarrow>
           if ss_source st = ''global'' \<and> ss_hash st = hash then t
           else if ss_source st = ''global'' then
             (if se_can_remove E (fst g) then AList.update (fst g) (copied_dir E (fst g) hash (snd g)) t else t)
           else t))"

definition skill_allowed :: "string list \<Rightarrow> string \<Rightarrow> bool" where
  "skill_allowed allowed n \<longleftrightarrow> allowed = [] \<or> to_lower n \<in> set (map to_lower allowed)"

definition wanted :: "skill_env \<Rightarrow> string list \<Rightarrow> string \<Rightarrow> skill_root \<Rightarrow> skill_root" where
  "wanted E allowed global_dir gs =
     filter (\<lambda>g. scan_entry E SkillTenant global_dir g \<noteq> None \<and> skill_allowed allowed (fst g)) gs"

definition cleanup :: "skill_env \<Rightarrow> string list \<Rightarrow> skill_root \<Rightarrow> skill_root" where
  "cleanup E synced t = filter (\<lambda>(n, d). \<not> (sd_is_dir d \<and> n \<notin> set synced \<and> from_global d \<and> se_can_remove E n)) t"

text \<open>
  \<open>syncTenant\<close> for a tenant that is found, with the global directory, none when it cannot be
  read, and whether the tenant's directory can be made and then listed.
\<close>

definition sync_tenant :: "skill_env \<Rightarrow> tenant option \<Rightarrow> string \<Rightarrow> skill_root option \<Rightarrow> bool \<Rightarrow> bool \<Rightarrow> skill_root \<Rightarrow> skill_root" where
  "sync_tenant E tn global_dir gs made listed t = (case tn of
       None \<Rightarrow> t
     | Some tn \<Rightarrow> (case gs of
         None \<Rightarrow> t
       | Some gs \<Rightarrow>
           if \<not> made then t
           else let ws = wanted E (tn_allowed_skills tn) global_dir gs;
                    t1 = fold (\<lambda>g. sync_one E g (hash_file E global_dir g)) ws t
             in if listed then cleanup E (map fst ws) t1 else t1))"

text \<open>\<open>EnsureSync\<close>: at most one synchronisation of a tenant at a time, and none within the hour.\<close>

record tenant_cache =
  tg_last :: instant
  tg_syncing :: bool

definition no_cache :: tenant_cache where
  "no_cache = \<lparr>tg_last = zero_time, tg_syncing = False\<rparr>"

definition cache_of :: "string \<Rightarrow> (string \<rightharpoonup> tenant_cache) \<Rightarrow> tenant_cache" where
  "cache_of tid m = (case m tid of None \<Rightarrow> no_cache | Some c \<Rightarrow> c)"

definition ensure_sync :: "instant \<Rightarrow> string \<Rightarrow> (string \<rightharpoonup> tenant_cache) \<Rightarrow> bool \<times> (string \<rightharpoonup> tenant_cache)" where
  "ensure_sync now tid m = (let c = cache_of tid m in
     if tg_syncing c \<or> now - tg_last c < hour_ns then (False, m(tid \<mapsto> c))
     else (True, m(tid \<mapsto> c\<lparr>tg_syncing := True\<rparr>)))"

definition sync_done :: "instant \<Rightarrow> string \<Rightarrow> (string \<rightharpoonup> tenant_cache) \<Rightarrow> (string \<rightharpoonup> tenant_cache)" where
  "sync_done now tid m = m(tid \<mapsto> \<lparr>tg_last = now, tg_syncing = False\<rparr>)"

section \<open>What tenants own\<close>

lemma sync_one_other: "n \<noteq> fst g \<Longrightarrow> map_of (sync_one E g hash t) n = map_of t n"
  by (auto simp: sync_one_def update_conv' split: option.split)

lemma sync_one_owned:
  "map_of t n = Some d \<Longrightarrow> \<not> from_global d \<Longrightarrow> map_of (sync_one E g hash t) n = Some d"
proof (cases "n = fst g")
  case True
  assume "map_of t n = Some d" "\<not> from_global d"
  with True show ?thesis by (auto simp: sync_one_def from_global_def split: option.splits)
qed (simp add: sync_one_other)

lemma sync_all_owned:
  "map_of t n = Some d \<Longrightarrow> \<not> from_global d \<Longrightarrow> map_of (fold (\<lambda>g. sync_one E g (h g)) ws t) n = Some d"
  by (induction ws arbitrary: t) (simp_all add: sync_one_owned)

lemma cleanup_owned: "map_of t n = Some d \<Longrightarrow> \<not> from_global d \<Longrightarrow> map_of (cleanup E synced t) n = Some d"
  unfolding cleanup_def by (induction t) (auto split: if_splits)

text \<open>
  Whatever fails on the way, synchronising leaves a skill alone that the tenant put into its
  directory: one without a state file, or with one that names another source.
\<close>

theorem sync_spares_tenant_skills:
  assumes "map_of t n = Some d" "\<not> from_global d"
  shows "map_of (sync_tenant E tn global_dir gs made listed t) n = Some d"
  using sync_all_owned [OF assms] cleanup_owned assms
  by (auto simp: sync_tenant_def Let_def split: option.split)

section \<open>What a synchronisation establishes\<close>

definition fault_free :: "skill_env \<Rightarrow> bool" where
  "fault_free E \<longleftrightarrow> (\<forall>n. se_can_remove E n \<and> se_copied E n = None \<and> se_state_written E n)"

definition current :: "string \<Rightarrow> skill_dir \<Rightarrow> bool" where
  "current hash d \<longleftrightarrow> (case sd_state d of None \<Rightarrow> False | Some st \<Rightarrow> ss_source st = ''global'' \<and> ss_hash st = hash)"

lemma sync_one_current:
  assumes "fault_free E"
  shows "\<exists>d. map_of (sync_one E g hash t) (fst g) = Some d \<and> (current hash d \<or> \<not> from_global d)"
  using assms
  by (auto simp: sync_one_def fault_free_def current_def from_global_def copied_dir_def update_conv' split: option.split)

lemma sync_all_current:
  assumes "fault_free E" "distinct (map fst ws)" "g \<in> set ws"
  shows "\<exists>d. map_of (fold (\<lambda>g. sync_one E g (h g)) ws t) (fst g) = Some d \<and> (current (h g) d \<or> \<not> from_global d)"
  using assms(2,3)
proof (induction ws rule: rev_induct)
  case (snoc w ws)
  show ?case
  proof (cases "g = w")
    case True
    then show ?thesis using sync_one_current [OF assms(1)] by simp
  next
    case False
    then have "fst g \<noteq> fst w" "g \<in> set ws" using snoc.prems by (auto simp: image_iff)
    then show ?thesis using snoc by (simp add: sync_one_other)
  qed
qed simp

lemma map_of_filter_key:
  assumes "distinct (map fst t)" "map_of t n = Some d"
  shows "map_of (filter P t) n = (if P (n, d) then Some d else None)"
  using assms
proof (induction t)
  case (Cons x t)
  have "map_of (filter P t) n = None" if "n \<notin> fst ` set t" using that by (auto simp: map_of_eq_None_iff)
  with Cons show ?case by (cases x) (auto simp: image_iff split: if_splits)
qed simp

lemma sync_one_distinct: "distinct (map fst t) \<Longrightarrow> distinct (map fst (sync_one E g hash t))"
  by (auto simp: sync_one_def distinct_update split: option.split)

lemma sync_all_distinct: "distinct (map fst t) \<Longrightarrow> distinct (map fst (fold (\<lambda>g. sync_one E g (h g)) ws t))"
  by (induction ws arbitrary: t) (simp_all add: sync_one_distinct)

lemma copied_is_dir: "sd_is_dir (copied_dir E n hash g)"
  by (simp add: copied_dir_def split: option.split)



section \<open>A tenant with a skill of its own\<close>

definition demo_skill_env :: skill_env where
  "demo_skill_env = \<lparr>se_yaml = (\<lambda>_. Some ([], [])), se_hash = (\<lambda>s. s), se_readable = (\<lambda>_. True), se_can_remove = (\<lambda>_. True),
     se_copied = (\<lambda>_. None), se_state_written = (\<lambda>_. True), se_now = []\<rparr>"

definition demo_dir :: "string \<Rightarrow> skill_dir" where
  "demo_dir content = \<lparr>sd_is_dir = True, sd_files = [(''SKILL.md'', content)], sd_state = None\<rparr>"

definition demo_skill_tenant :: tenant where
  "demo_skill_tenant = \<lparr>tn_id = ''t1'', tn_name = ''Acme'', tn_instructions = [], tn_default_agent = ''a1'',
     tn_join_policy = JoinPolicyOpen, tn_rejection = [], tn_group_mode = GroupModeAll,
     tn_allowed_skills = [], tn_allowed_tools = [], tn_deleted_at = None, tn_created_at = 0\<rparr>"

theorem sync_spares_tenant_skills_witness:
  "map_of (sync_tenant demo_skill_env (Some demo_skill_tenant) ''/g'' (Some [(''a'', demo_dir ''x''), (''b'', demo_dir ''y'')]) True True
     [(''b'', demo_dir ''mine'')]) ''b'' = Some (demo_dir ''mine'')"
  by (rule sync_spares_tenant_skills) (simp_all add: demo_dir_def from_global_def)

lemma demo_wanted: "wanted demo_skill_env (tn_allowed_skills demo_skill_tenant) ''/g'' [(''a'', demo_dir ''x'')] = [(''a'', demo_dir ''x'')]"
  by code_simp



end
