(* ===== verification/Middleware.thy ===== *)
theory Middleware
  imports Sanitize Agent_Loop
begin

text \<open>
  The middleware plugins, \<open>internal/infra/plugins/middleware\<close> and \<open>pkg/plugins/middleware\<close>: each
  \<open>Wrap\<close> as a function from the next handler to a handler. The transcription service and the
  layout of dates are parameters; the regular expressions are written out as matchers.
\<close>

type_synonym 's handler = "message \<Rightarrow> 's \<Rightarrow> (string + unit) \<times> 's"

definition is_answer :: "message \<Rightarrow> bool" where
  "is_answer m \<longleftrightarrow> ms_role m = RoleAssistant \<and> ms_kind m = KindMessage"

section \<open>Tags\<close>

text \<open>\<open>\s*\]\]\<close> at the head: the length of the match.\<close>

definition match_close :: "string \<Rightarrow> nat option" where
  "match_close s = (let k = spaces s in if has_prefix (drop k s) '']]'' then Some (k + 2) else None)"

text \<open>\<open>\[\[\s*\<close> and a word: what is left after them, and their length.\<close>

definition match_open :: "string \<Rightarrow> string \<Rightarrow> nat option" where
  "match_open word s =
     (if has_prefix s ''[['' then (let k = spaces (drop 2 s) in
        if has_prefix (drop (2 + k) s) word then Some (2 + k + length word) else None) else None)"

definition match_no_reply :: "string \<Rightarrow> nat option" where
  "match_no_reply s = Option.bind (match_open ''no_reply'' s) (\<lambda>n. map_option (\<lambda>k. n + k) (match_close (drop n s)))"

text \<open>
  The lazy group \<open>(.+?)\<close> followed by the close: its shortest length from \<open>n\<close> on, with the length
  of the close. No character of it is a line feed.
\<close>

function lazy_group :: "nat \<Rightarrow> string \<Rightarrow> (nat \<times> nat) option" where
  "lazy_group n s =
     (if length s < n \<or> CHR 0x0A \<in> set (take n s) then None
      else case match_close (drop n s) of Some k \<Rightarrow> Some (n, k) | None \<Rightarrow> lazy_group (Suc n) s)"
  by pat_completeness auto
termination by (relation "measure (\<lambda>(n, s). Suc (length s) - n)") auto

declare lazy_group.simps [simp del]

text \<open>The spaces before the group are matched greedily, then ever fewer of them.\<close>

fun group_after :: "nat \<Rightarrow> string \<Rightarrow> (nat \<times> nat \<times> nat) option" where
  "group_after 0 s = map_option (\<lambda>(n, k). (0, n, k)) (lazy_group 1 s)"
| "group_after (Suc j) s = (case lazy_group 1 (drop (Suc j) s) of
       Some (n, k) \<Rightarrow> Some (Suc j, n, k) | None \<Rightarrow> group_after j s)"

text \<open>The length of a reply tag at the head and its identifier, none for the current message.\<close>

definition reply_tag :: "string \<Rightarrow> (nat \<times> string option) option" where
  "reply_tag s = Option.bind (match_open ''reply_to'' s) (\<lambda>a.
     let r = drop a s in
     case (if has_prefix r ''_current'' then match_close (drop 8 r) else None) of
       Some k \<Rightarrow> Some (a + 8 + k, None)
     | None \<Rightarrow> if \<not> has_prefix r '':'' then None
         else let r1 = drop 1 r in
           map_option (\<lambda>(j, n, k). (a + 1 + j + n + k, Some (take n (drop j r1)))) (group_after (spaces r1) r1))"

definition match_reply_tag :: "string \<Rightarrow> nat option" where
  "match_reply_tag s = map_option fst (reply_tag s)"

text \<open>The leftmost match in a text.\<close>

fun first_match :: "(string \<Rightarrow> 'a option) \<Rightarrow> string \<Rightarrow> 'a option" where
  "first_match m [] = m []"
| "first_match m (c # s) = (case m (c # s) of Some x \<Rightarrow> Some x | None \<Rightarrow> first_match m s)"

section \<open>Answers\<close>

definition noreply_wrap :: "'s handler \<Rightarrow> 's handler" where
  "noreply_wrap next m s =
     (if \<not> is_answer m then next m s
      else if first_match match_no_reply (ms_content m) = None then next m s
      else let cleaned = trim_space (remove_matches match_no_reply (ms_content m))
        in if cleaned = [] then (Inr (), s) else next (m\<lparr>ms_content := cleaned\<rparr>) s)"

definition reacted_wrap :: "'s handler \<Rightarrow> 's handler" where
  "reacted_wrap next m s =
     (if is_answer m \<and> trim_space (ms_content m) = ''[[reacted]]'' then (Inr (), s) else next m s)"

definition replyto_wrap :: "'s handler \<Rightarrow> 's handler" where
  "replyto_wrap next m s =
     (if \<not> is_answer m then next m s
      else case first_match reply_tag (ms_content m) of
        None \<Rightarrow> next m s
      | Some (_, target) \<Rightarrow> next (m\<lparr>ms_target := (case target of None \<Rightarrow> ms_caused_by m | Some i \<Rightarrow> trim_space i),
          ms_content := trim_space (remove_matches match_reply_tag (ms_content m))\<rparr>) s)"

section \<open>Voice\<close>

text \<open>\<open>stt\<close> is the transcription of an attachment, none when it fails.\<close>

definition transcribable :: "attachment \<Rightarrow> bool" where
  "transcribable a \<longleftrightarrow> at_kind a = ''voice'' \<or> at_kind a = ''video_note''"

definition append_content :: "string \<Rightarrow> string \<Rightarrow> string" where
  "append_content existing addition = (if existing = [] then addition else existing @ [CHR 0x0A] @ addition)"

fun transcribe_all :: "(attachment \<Rightarrow> 's \<Rightarrow> string option \<times> 's) \<Rightarrow> attachment list \<Rightarrow> string \<Rightarrow> 's
    \<Rightarrow> string \<times> attachment list \<times> 's" where
  "transcribe_all stt [] content s = (content, [], s)"
| "transcribe_all stt (a # as) content s =
     (if \<not> transcribable a then (case transcribe_all stt as content s of (c, kept, s1) \<Rightarrow> (c, a # kept, s1))
      else (case stt a s of
        (None, s1) \<Rightarrow> (case transcribe_all stt as (append_content content ''[transcription failed]'') s1 of
            (c, kept, s2) \<Rightarrow> (c, a # kept, s2))
      | (Some text, s1) \<Rightarrow> transcribe_all stt as (append_content content text) s1))"

definition whisper_wrap :: "(attachment \<Rightarrow> 's \<Rightarrow> string option \<times> 's) \<Rightarrow> 's handler \<Rightarrow> 's handler" where
  "whisper_wrap stt next m s =
     (if \<not> (\<exists>a \<in> set (ms_attachments m). transcribable a) then next m s
      else (case transcribe_all stt (ms_attachments m) (ms_content m) s of
        (content, kept, s1) \<Rightarrow> next (m\<lparr>ms_content := content, ms_attachments := kept\<rparr>) s1))"

section \<open>Commands\<close>

definition parse_logs_limit :: "string list \<Rightarrow> int" where
  "parse_logs_limit words =
     (if length words < 2 then 10
      else case atoi (words ! 1) of None \<Rightarrow> 10
        | Some n \<Rightarrow> if n \<le> 0 then 10 else if n > 100 then 100 else n)"

definition format_error_log :: "(instant \<Rightarrow> string) \<Rightarrow> error_log_entry list \<Rightarrow> string" where
  "format_error_log date es = join [CHR 0x0A] (map (\<lambda>e. ''['' @ date (el_created_at e) @ ''] '' @ el_content e
     @ (if el_ref_type e \<noteq> [] then '' ('' @ el_ref_type e @ '': '' @ el_ref_id e @ '')'' else [])) es)"

text \<open>A reply carries tenant, chat and channel context, and no identifier of its own.\<close>

definition command_reply :: "message \<Rightarrow> string \<Rightarrow> ('h, 'w) loop_state \<Rightarrow> (string + unit) \<times> ('h, 'w) loop_state" where
  "command_reply m content s = (case publish_out (zero_message\<lparr>ms_tenant := ms_tenant m, ms_chat := ms_chat m,
       ms_ext_user := ms_ext_user m, ms_ext_message := ms_ext_message m, ms_ext_reply_to := ms_ext_reply_to m,
       ms_role := RoleAssistant, ms_content := content, ms_kind := KindMessage\<rparr>) s of
     (Inl _, s1) \<Rightarrow> (Inl ''publish'', s1) | (Inr _, s1) \<Rightarrow> (Inr (), s1))"

definition with_convs :: "convs \<Rightarrow> world \<Rightarrow> ('h, 'w) loop_state \<Rightarrow> ('h, 'w) loop_state" where
  "with_convs c w s = s\<lparr>al_services := (al_services s)\<lparr>sv_convs := c, sv_world := w\<rparr>\<rparr>"

definition new_command :: "message \<Rightarrow> ('h, 'w) loop_state \<Rightarrow> (string + unit) \<times> ('h, 'w) loop_state" where
  "new_command m s = (case resolve_conversation m (sv_convs (al_services s), sv_world (al_services s)) of
     (Inl _, c, w) \<Rightarrow> (Inl ''resolve conversation'', with_convs c w s)
   | (Inr conv, c, w) \<Rightarrow> (case reset_conversation conv (c, w) of
       (c1, w1) \<Rightarrow> command_reply m ''Session reset. Starting fresh.'' (with_convs c1 w1 s)))"

definition logs_command :: "(instant \<Rightarrow> string) \<Rightarrow> bool \<Rightarrow> string list \<Rightarrow> message \<Rightarrow> ('h, 'w) loop_state
    \<Rightarrow> (string + unit) \<times> ('h, 'w) loop_state" where
  "logs_command date has_store words m s =
     (if ms_is_group m \<or> ms_user m = [] then command_reply m ''Error log is only available in direct messages.'' s
      else if \<not> has_store then command_reply m ''Error log not available.'' s
      else (case get_error_log (ms_tenant m) (ms_user m) [] (parse_logs_limit words) (al_world s) of
        (Inl _, w) \<Rightarrow> command_reply m ''Failed to retrieve error log.'' (with_world w s)
      | (Inr es, w) \<Rightarrow> command_reply m (if es = [] then ''No recent errors.'' else format_error_log date es) (with_world w s)))"

definition command_wrap :: "(instant \<Rightarrow> string) \<Rightarrow> bool \<Rightarrow> ('h, 'w) loop_state handler \<Rightarrow> ('h, 'w) loop_state handler" where
  "command_wrap date has_store next m s =
     (if ms_role m \<noteq> RoleUser \<or> \<not> has_prefix (ms_content m) ''/'' then next m s
      else case str_fields (ms_content m) of
        [] \<Rightarrow> next m s
      | f # fs \<Rightarrow> let cmd = trim_prefix f ''/'' in
          if cmd = ''new'' then new_command m s
          else if cmd = ''logs'' then logs_command date has_store (f # fs) m s
          else next m s)"

section \<open>What the tags do\<close>

lemma tag_examples:
  "first_match reply_tag ''ok [[ reply_to:  m7 ]]'' = Some (19, Some ''m7'')"
  "first_match reply_tag ''[[reply_to_current]]'' = Some (20, None)"
  "first_match match_no_reply ''a [[ no_reply ]]'' = Some 14"
  by (simp_all add: reply_tag_def match_open_def match_close_def match_no_reply_def spaces_def re_space_def
      lazy_group.simps Let_def)

lemma first_match_None: "first_match m s = None \<Longrightarrow> remove_matches m s = s"
  by (induction s) (auto split: option.splits)

lemma first_match_map: "first_match (\<lambda>s. map_option f (m s)) s = map_option f (first_match m s)"
  by (induction s) (auto split: option.splits)

text \<open>
  An answer goes on to the channel once or, when it says nothing but that no reply is wanted
  or that a reaction was the reply, not at all; what goes on differs from it only in the target
  and the text, and what is no answer goes on as it is.
\<close>

theorem tags_only_strip:
  assumes "reacted_wrap (noreply_wrap (replyto_wrap (\<lambda>m s. (Inr (), s @ [m])))) m s = (r, s')"
  shows "r = Inr () \<and> (s' = s \<and> is_answer m
      \<or> (\<exists>target text. s' = s @ [m\<lparr>ms_target := target, ms_content := text\<rparr>] \<and> length text \<le> length (ms_content m)
        \<and> (\<not> is_answer m \<longrightarrow> target = ms_target m \<and> text = ms_content m)
        \<and> (first_match reply_tag (ms_content m) = None \<and> first_match match_no_reply (ms_content m) = None
          \<longrightarrow> target = ms_target m \<and> text = ms_content m)))"
proof -
  have shorter: "length (remove_matches f t) \<le> length t" for f t
    by (induction f t rule: remove_matches.induct) (auto split: option.split)
  have short: "length (trim_space (remove_matches f t)) \<le> length t" for f t
    using le_trans [OF length_trim_space shorter] .
  have same: "m = m\<lparr>ms_target := ms_target m, ms_content := ms_content m\<rparr>" by simp
  let ?go = "\<lambda>s2 c. \<exists>target text. s2 = s @ [m\<lparr>ms_target := target, ms_content := text\<rparr>] \<and> length text \<le> length c
        \<and> (first_match reply_tag c = None \<longrightarrow> target = ms_target m \<and> text = c)"
  have reply: "r2 = Inr () \<and> ?go s2 c"
    if "replyto_wrap (\<lambda>m s. (Inr (), s @ [m])) (m\<lparr>ms_content := c\<rparr>) s = (r2, s2)" "is_answer m" for c r2 s2
  proof (cases "first_match reply_tag c")
    case None
    with that have "r2 = Inr ()" "s2 = s @ [m\<lparr>ms_target := ms_target m, ms_content := c\<rparr>]"
      by (auto simp: replyto_wrap_def is_answer_def)
    then show ?thesis by blast
  next
    case (Some x)
    then show ?thesis
      using that short [of match_reply_tag c] by (cases x) (auto simp: replyto_wrap_def is_answer_def)
  qed
  show ?thesis
  proof (cases "is_answer m")
    case False
    then have "r = Inr ()" "s' = s @ [m\<lparr>ms_target := ms_target m, ms_content := ms_content m\<rparr>]"
      using assms by (auto simp: reacted_wrap_def noreply_wrap_def replyto_wrap_def)
    with False show ?thesis by blast
  next
    case True
    let ?base = "\<lambda>m s. (Inr (), s @ [m])" and ?cleaned = "trim_space (remove_matches match_no_reply (ms_content m))"
    have "reacted_wrap (noreply_wrap (replyto_wrap ?base)) m s =
        (if trim_space (ms_content m) = ''[[reacted]]'' then (Inr (), s)
         else if first_match match_no_reply (ms_content m) = None then replyto_wrap ?base (m\<lparr>ms_content := ms_content m\<rparr>) s
         else if ?cleaned = [] then (Inr (), s) else replyto_wrap ?base (m\<lparr>ms_content := ?cleaned\<rparr>) s)"
      using True by (simp add: reacted_wrap_def noreply_wrap_def Let_def)
    with assms consider "r = Inr ()" "s' = s"
      | "replyto_wrap ?base (m\<lparr>ms_content := ms_content m\<rparr>) s = (r, s')"
      | "first_match match_no_reply (ms_content m) \<noteq> None" "replyto_wrap ?base (m\<lparr>ms_content := ?cleaned\<rparr>) s = (r, s')"
      by (metis prod.inject)
    then show ?thesis
    proof cases
      case 1
      with True show ?thesis by simp
    next
      case 2
      from reply [OF 2 True] obtain target t where go: "r = Inr ()"
        "s' = s @ [m\<lparr>ms_target := target, ms_content := t\<rparr>]" "length t \<le> length (ms_content m)"
        "first_match reply_tag (ms_content m) = None \<longrightarrow> target = ms_target m \<and> t = ms_content m" by (elim conjE exE)
      show ?thesis
        by (rule conjI, rule go(1), rule disjI2, rule exI [of _ target], rule exI [of _ t]) (use go True in simp)
    next
      case 3
      from reply [OF 3(2) True] obtain target t where go: "r = Inr ()"
        "s' = s @ [m\<lparr>ms_target := target, ms_content := t\<rparr>]"
        "length t \<le> length (trim_space (remove_matches match_no_reply (ms_content m)))" by (elim conjE exE)
      show ?thesis
        by (rule conjI, rule go(1), rule disjI2, rule exI [of _ target], rule exI [of _ t])
          (use go True 3(1) le_trans [OF go(3) short] in auto)
    qed
  qed
qed

theorem tags_only_strip_witness:
  "\<exists>s'. reacted_wrap (noreply_wrap (replyto_wrap (\<lambda>m s. (Inr (), s @ [m]))))
     (zero_message\<lparr>ms_role := RoleAssistant, ms_kind := KindMessage, ms_content := ''yes [[reply_to_current]]''\<rparr>) [] = (Inr (), s')"
proof -
  let ?r = "reacted_wrap (noreply_wrap (replyto_wrap (\<lambda>m s. (Inr (), s @ [m]))))
     (zero_message\<lparr>ms_role := RoleAssistant, ms_kind := KindMessage, ms_content := ''yes [[reply_to_current]]''\<rparr>) []"
  obtain r s' where r: "?r = (r, s')" by (metis surj_pair)
  from tags_only_strip [OF r] have "r = Inr ()" by (rule conjunct1)
  with r show ?thesis by blast
qed

end
