(* ===== verification/Telegram.thy ===== *)
theory Telegram
  imports Go_Path Render "HOL-Library.AList"
begin

text \<open>
  The Telegram channel, \<open>pkg/plugins/channel/telegram\<close>. The Bot API is a parameter: it answers a
  call with the envelope of its response, none when the exchange or its decoding fails, and the
  raw result is read by the decoders below. So are the temporary directory, the download of a
  file and the handler of the runtime. Of a quoted message only the identifier and the author are
  kept.
\<close>

section \<open>Updates\<close>

record tg_user =
  tu_id :: int
  tu_is_bot :: bool
  tu_first_name :: string
  tu_last_name :: string
  tu_username :: string
  tu_language :: string

record tg_chat =
  tch_id :: int
  tch_type :: string
  tch_title :: string
  tch_username :: string

record tg_photo =
  tph_file :: string
  tph_width :: int
  tph_height :: int
  tph_size :: int

text \<open>A voice or video note, document, video or audio: what the plugin reads of it.\<close>

record tg_file =
  tf_file :: string
  tf_size :: int
  tf_name :: string
  tf_mime :: string

record tg_origin =
  tor_type :: string
  tor_date :: int
  tor_user :: "tg_user option"
  tor_user_name :: string
  tor_chat :: "tg_chat option"
  tor_signature :: string

record tg_message =
  tm_id :: int
  tm_from :: "tg_user option"
  tm_chat :: tg_chat
  tm_date :: int
  tm_text :: string
  tm_photo :: "tg_photo list"
  tm_voice :: "tg_file option"
  tm_video_note :: "tg_file option"
  tm_document :: "tg_file option"
  tm_video :: "tg_file option"
  tm_audio :: "tg_file option"
  tm_caption :: string
  tm_reply_to :: "(int \<times> tg_user option) option"
  tm_entities :: "string list"
  tm_origin :: "tg_origin option"

record tg_update =
  tup_id :: int
  tup_message :: "tg_message option"
  tup_edited :: "tg_message option"

section \<open>The Bot API\<close>

datatype tg_call = ChatAction string string | GetUpdates int
  | SendMessage string string bool "string option" | SetReaction string string string | GetFile string | GetMe

record api_response =
  ap_ok :: bool
  ap_result :: string
  ap_description :: string
  ap_error_code :: int

record upload =
  up_method :: string
  up_chat :: string
  up_caption :: string
  up_field :: string
  up_path :: string

record 's bot_api =
  bp_do :: "tg_call \<Rightarrow> 's \<Rightarrow> api_response option \<times> 's"
  bp_upload :: "upload \<Rightarrow> 's \<Rightarrow> api_response option \<times> 's"
  bp_download :: "string \<Rightarrow> string \<Rightarrow> 's \<Rightarrow> bool \<times> 's"
  bp_temp_dir :: "'s \<Rightarrow> string option \<times> 's"
  bp_read_message_id :: "string \<Rightarrow> int option"
  bp_read_updates :: "string \<Rightarrow> tg_update list option"
  bp_read_file :: "string \<Rightarrow> (string \<times> int) option"
  bp_read_user :: "string \<Rightarrow> tg_user option"
  bp_now :: "'s \<Rightarrow> instant"
  bp_handler :: "(incoming_message \<Rightarrow> 's \<Rightarrow> bool \<times> 's) option"

text \<open>Rate limited is an error even when the envelope says otherwise.\<close>

datatype tg_error = Transport | RateLimited string | ApiError int string | BadNumber | BadResult | NoChat

definition read_envelope :: "api_response option \<Rightarrow> tg_error + string" where
  "read_envelope r = (case r of
       None \<Rightarrow> Inl Transport
     | Some a \<Rightarrow> if ap_error_code a = 429 then Inl (RateLimited (ap_description a))
         else if \<not> ap_ok a then Inl (ApiError (ap_error_code a) (ap_description a))
         else Inr (ap_result a))"

text \<open>\<open>json.Number\<close> is checked when the parameters are written, before anything is sent.\<close>

definition digits_off :: "string \<Rightarrow> string" where
  "digits_off s = dropWhile is_digit s"

definition exponent_ok :: "string \<Rightarrow> bool" where
  "exponent_ok s = (case s of [] \<Rightarrow> True
     | e # r \<Rightarrow> (e = CHR ''e'' \<or> e = CHR ''E'') \<and>
         (let d = (case r of c # r' \<Rightarrow> if c = CHR ''+'' \<or> c = CHR ''-'' then r' else r | [] \<Rightarrow> [])
          in d \<noteq> [] \<and> list_all is_digit d))"

definition fraction_ok :: "string \<Rightarrow> bool" where
  "fraction_ok s = (case s of c # d # r \<Rightarrow> if c = CHR ''.'' \<and> is_digit d then exponent_ok (digits_off r) else exponent_ok s
     | _ \<Rightarrow> exponent_ok s)"

definition valid_number :: "string \<Rightarrow> bool" where
  "valid_number s = (let t = (case s of c # r \<Rightarrow> if c = CHR ''-'' then r else s | [] \<Rightarrow> [])
     in case t of [] \<Rightarrow> False
        | d # r \<Rightarrow> if d = CHR ''0'' then fraction_ok r else is_digit d \<and> fraction_ok (digits_off r))"

definition api_call :: "'s bot_api \<Rightarrow> tg_call \<Rightarrow> 's \<Rightarrow> (tg_error + string) \<times> 's" where
  "api_call A c s =
     (if (case c of SendMessage _ _ _ (Some n) \<Rightarrow> \<not> valid_number n | _ \<Rightarrow> False) then (Inl BadNumber, s)
      else case bp_do A c s of (r, s1) \<Rightarrow> (read_envelope r, s1))"

definition upload_file :: "'s bot_api \<Rightarrow> upload \<Rightarrow> 's \<Rightarrow> (tg_error + string) \<times> 's" where
  "upload_file A u s = (case bp_upload A u s of (r, s1) \<Rightarrow> (read_envelope r, s1))"

definition get_file :: "'s bot_api \<Rightarrow> string \<Rightarrow> 's \<Rightarrow> (tg_error + string \<times> int) \<times> 's" where
  "get_file A fid s = if_ok (api_call A (GetFile fid) s) (\<lambda>e s1. (Inl e, s1))
     (\<lambda>raw s1. (case bp_read_file A raw of None \<Rightarrow> Inl BadResult | Some f \<Rightarrow> Inr f, s1))"

definition get_me :: "'s bot_api \<Rightarrow> 's \<Rightarrow> (tg_error + tg_user) \<times> 's" where
  "get_me A s = if_ok (api_call A GetMe s) (\<lambda>e s1. (Inl e, s1))
     (\<lambda>raw s1. (case bp_read_user A raw of None \<Rightarrow> Inl BadResult | Some u \<Rightarrow> Inr u, s1))"

section \<open>Incoming messages\<close>

definition full_name :: "tg_user \<Rightarrow> string" where
  "full_name u = trim_space (tu_first_name u @ '' '' @ tu_last_name u)"

definition is_bot_mentioned :: "tg_message \<Rightarrow> bool" where
  "is_bot_mentioned m \<longleftrightarrow>
     (case tm_reply_to m of Some (_, Some u) \<Rightarrow> tu_is_bot u | _ \<Rightarrow> False)
     \<or> (\<exists>e \<in> set (tm_entities m). e = ''bot_command'' \<or> e = ''mention'')"

definition rfc3339_text :: "int \<Rightarrow> string" where
  "rfc3339_text seconds = (let t = seconds * nanos
     in if is_zero_time t then ''0001-01-01T00:00:00Z'' else format_timestamp t)"

definition show_bool :: "bool \<Rightarrow> string" where
  "show_bool b = (if b then ''true'' else ''false'')"

definition forward_name :: "tg_origin \<Rightarrow> string" where
  "forward_name o' =
     (if tor_type o' = ''user'' then (case tor_user o' of None \<Rightarrow> [] | Some u \<Rightarrow> full_name u)
      else if tor_type o' = ''hidden_user'' then tor_user_name o'
      else if tor_type o' = ''chat'' then (case tor_chat o' of None \<Rightarrow> [] | Some c \<Rightarrow> tch_title c)
      else if tor_type o' = ''channel'' then (case tor_chat o' of None \<Rightarrow> [] | Some c \<Rightarrow>
        tch_title c @ (if tor_signature o' \<noteq> [] then '' ('' @ tor_signature o' @ '')'' else []))
      else [])"

definition if_given :: "string \<Rightarrow> string \<Rightarrow> string_map" where
  "if_given k v = (if v = [] then [] else [(k, v)])"

text \<open>\<open>buildMetadata\<close>; the two constant texts are parameters.\<close>

definition build_metadata :: "string \<Rightarrow> string \<Rightarrow> tg_message \<Rightarrow> bool \<Rightarrow> bool \<Rightarrow> string_map" where
  "build_metadata response_format reactions m is_group is_mention =
     [(''response_format'', response_format)]
     @ if_given ''chat_type'' (tch_type (tm_chat m)) @ if_given ''chat_title'' (tch_title (tm_chat m))
     @ if_given ''chat_username'' (tch_username (tm_chat m))
     @ (case tm_from m of None \<Rightarrow> [] | Some u \<Rightarrow> if_given ''sender_name'' (full_name u)
          @ if_given ''sender_username'' (tu_username u) @ [(''sender_is_bot'', show_bool (tu_is_bot u))]
          @ if_given ''sender_language'' (tu_language u))
     @ [(''message_date'', rfc3339_text (tm_date m))]
     @ (case tm_origin m of None \<Rightarrow> [] | Some o' \<Rightarrow> [(''is_forwarded'', ''true''), (''forward_date'', rfc3339_text (tor_date o'))]
          @ if_given ''forward_from_name'' (forward_name o'))
     @ (if is_group then [(''is_mentioned'', show_bool is_mention)] else [])
     @ [(''allowed_reactions'', reactions)]"

text \<open>\<open>bestPhoto\<close>: the first of the largest.\<close>

definition photo_area :: "tg_photo \<Rightarrow> int" where
  "photo_area p = wrap64 (tph_width p * tph_height p)"

definition best_photo :: "tg_photo \<Rightarrow> tg_photo list \<Rightarrow> tg_photo" where
  "best_photo p ps = fold (\<lambda>q best. if photo_area q > photo_area best then q else best) ps p"

record file_info =
  fi_kind :: string
  fi_file :: string
  fi_size :: int
  fi_name :: string
  fi_mime :: string

definition file_of :: "string \<Rightarrow> tg_file option \<Rightarrow> bool \<Rightarrow> bool \<Rightarrow> file_info list" where
  "file_of kind f named mimed = (case f of None \<Rightarrow> []
     | Some f \<Rightarrow> [\<lparr>fi_kind = kind, fi_file = tf_file f, fi_size = tf_size f, fi_name = (if named then tf_name f else []),
         fi_mime = (if mimed then tf_mime f else [])\<rparr>])"

definition message_files :: "tg_message \<Rightarrow> file_info list" where
  "message_files m =
     (case tm_photo m of [] \<Rightarrow> [] | p # ps \<Rightarrow> let b = best_photo p ps in
        [\<lparr>fi_kind = ''photo'', fi_file = tph_file b, fi_size = tph_size b, fi_name = [], fi_mime = []\<rparr>])
     @ file_of ''voice'' (tm_voice m) False True @ file_of ''video_note'' (tm_video_note m) False False
     @ file_of ''document'' (tm_document m) True True @ file_of ''video'' (tm_video m) True True
     @ file_of ''audio'' (tm_audio m) True True"

record tg_config =
  tgc_bot_id :: string
  tgc_bot_name :: string
  tgc_max_download :: int

text \<open>One file: skipped when too large, when it cannot be found, stored or loaded.\<close>

definition fetch_file :: "'s bot_api \<Rightarrow> tg_config \<Rightarrow> string \<Rightarrow> tg_message \<Rightarrow> nat \<Rightarrow> file_info \<Rightarrow> 's \<Rightarrow> attachment option \<times> 's" where
  "fetch_file A C chat m i f s =
     (if tgc_max_download C > 0 \<and> fi_size f > tgc_max_download C then
        (None, snd (api_call A (SendMessage chat (''File too large (max '' @ show_int (tgc_max_download C div 1048576) @ '' MB)'') False None) s))
      else if_ok (get_file A (fi_file f) s) (\<lambda>_ s1. (None, s1)) (\<lambda>(remote, size) s1.
        case bp_temp_dir A s1 of
          (None, s2) \<Rightarrow> (None, s2)
        | (Some dir, s2) \<Rightarrow>
            let name = (if fi_name f = [] then path_base remote else fi_name f); path = path_join [dir, name]
            in (case bp_download A remote path s2 of
                 (False, s3) \<Rightarrow> (None, s3)
               | (True, s3) \<Rightarrow> (Some \<lparr>at_id = [], at_kind = fi_kind f, at_filename = name, at_mime = fi_mime f,
                   at_size = (if fi_size f = 0 then size else fi_size f), at_path = path,
                   at_caption = (if i = 0 then tm_caption m else [])\<rparr>, s3))))"

fun fetch_files :: "'s bot_api \<Rightarrow> tg_config \<Rightarrow> string \<Rightarrow> tg_message \<Rightarrow> nat \<Rightarrow> file_info list \<Rightarrow> 's \<Rightarrow> attachment list \<times> 's" where
  "fetch_files A C chat m i [] s = ([], s)"
| "fetch_files A C chat m i (f # fs) s =
     (let (a, s1) = fetch_file A C chat m i f s; (rest, s2) = fetch_files A C chat m (Suc i) fs s1
      in (case a of None \<Rightarrow> rest | Some x \<Rightarrow> x # rest, s2))"

definition incoming_of :: "string \<Rightarrow> string \<Rightarrow> tg_config \<Rightarrow> tg_message \<Rightarrow> attachment list \<Rightarrow> instant \<Rightarrow> incoming_message" where
  "incoming_of response_format reactions C m files now =
     (let chat = show_int (tch_id (tm_chat m)); is_group = (tch_type (tm_chat m) = ''group'' \<or> tch_type (tm_chat m) = ''supergroup'');
          is_mention = (\<not> is_group \<or> is_bot_mentioned m)
      in \<lparr>in_id = show_int (tm_id m), in_tenant = tgc_bot_id C,
          in_user = (case tm_from m of None \<Rightarrow> [] | Some u \<Rightarrow> show_int (tu_id u)), in_chat = chat,
          in_content = (if tm_text m = [] then tm_caption m else tm_text m), in_attachments = files,
          in_is_group = is_group, in_is_mention = is_mention,
          in_metadata = build_metadata response_format reactions m is_group is_mention,
          in_delivery = [(''chat_id'', chat)],
          in_reply_to = (case tm_reply_to m of None \<Rightarrow> [] | Some (i, _) \<Rightarrow> show_int i),
          in_indication = [(''chat_id'', chat)], in_agent_name = tgc_bot_name C, in_tenant_name = [],
          in_user_name = (case tm_from m of None \<Rightarrow> [] | Some u \<Rightarrow> full_name u),
          in_group_name = tch_title (tm_chat m), in_received_at = now\<rparr>)"

definition handle_update :: "'s bot_api \<Rightarrow> string \<Rightarrow> string \<Rightarrow> tg_config \<Rightarrow> tg_update \<Rightarrow> 's \<Rightarrow> 's" where
  "handle_update A response_format reactions C u s =
     (case (case tup_message u of None \<Rightarrow> tup_edited u | Some m \<Rightarrow> Some m) of
        None \<Rightarrow> s
      | Some m \<Rightarrow> (case fetch_files A C (show_int (tch_id (tm_chat m))) m 0 (message_files m) s of
          (files, s1) \<Rightarrow> (case bp_handler A of None \<Rightarrow> s1
            | Some h \<Rightarrow> snd (h (incoming_of response_format reactions C m files (bp_now A s1)) s1))))"

section \<open>Polling\<close>

fun handle_updates :: "(tg_update \<Rightarrow> 's \<Rightarrow> 's) \<Rightarrow> tg_update list \<Rightarrow> int \<Rightarrow> 's \<Rightarrow> int \<times> 's" where
  "handle_updates h [] offset s = (offset, s)"
| "handle_updates h (u # us) offset s = handle_updates h us (tup_id u + 1) (h u s)"

text \<open>One round of \<open>pollLoop\<close>: the next offset and whether the channel is degraded.\<close>

definition poll_round :: "'s bot_api \<Rightarrow> (tg_update \<Rightarrow> 's \<Rightarrow> 's) \<Rightarrow> int \<Rightarrow> 's \<Rightarrow> (int \<times> bool) \<times> 's" where
  "poll_round A h offset s = if_ok (api_call A (GetUpdates offset) s) (\<lambda>_ s1. ((offset, True), s1)) (\<lambda>raw s1.
     case bp_read_updates A raw of
       None \<Rightarrow> ((offset, False), s1)
     | Some us \<Rightarrow> (case handle_updates h us offset s1 of (o1, s2) \<Rightarrow> ((o1, False), s2)))"

fun poll_rounds :: "'s bot_api \<Rightarrow> (tg_update \<Rightarrow> 's \<Rightarrow> 's) \<Rightarrow> nat \<Rightarrow> int \<Rightarrow> 's \<Rightarrow> int \<times> 's" where
  "poll_rounds A h 0 offset s = (offset, s)"
| "poll_rounds A h (Suc n) offset s = (case poll_round A h offset s of ((o1, _), s1) \<Rightarrow> poll_rounds A h n o1 s1)"

definition telegram_start :: "'s bot_api \<Rightarrow> tg_config \<Rightarrow> 's \<Rightarrow> (tg_error + tg_config) \<times> 's" where
  "telegram_start A C s = if_ok (get_me A s) (\<lambda>e s1. (Inl e, s1)) (\<lambda>u s1. (Inr (C\<lparr>tgc_bot_name := full_name u\<rparr>), s1))"

text \<open>The bot identifier is what comes before the first colon of the token, if anything does.\<close>

definition telegram_init :: "string \<Rightarrow> int \<Rightarrow> tg_config option" where
  "telegram_init token max_size = (if token = [] then None
     else Some \<lparr>tgc_bot_id = (case split2 (CHR '':'') token of (a, Some _) \<Rightarrow> a | (_, None) \<Rightarrow> []),
       tgc_bot_name = [], tgc_max_download = max_size\<rparr>)"

section \<open>Outgoing messages\<close>

text \<open>\<open>strings.LastIndex\<close>.\<close>

fun last_index_of :: "string \<Rightarrow> string \<Rightarrow> nat option" where
  "last_index_of [] p = (if p = [] then Some 0 else None)"
| "last_index_of (c # s) p = (case last_index_of s p of Some i \<Rightarrow> Some (Suc i)
     | None \<Rightarrow> if has_prefix (c # s) p then Some 0 else None)"

definition cut_after :: "string \<Rightarrow> string \<Rightarrow> nat option" where
  "cut_after chunk p = (case last_index_of chunk p of Some (Suc i) \<Rightarrow> Some (Suc i + length p) | _ \<Rightarrow> None)"

definition cut_at :: "nat \<Rightarrow> string \<Rightarrow> nat" where
  "cut_at maxb content = (let chunk = take maxb content in
     case cut_after chunk [CHR 0x0A, CHR 0x0A] of Some n \<Rightarrow> n | None \<Rightarrow>
     (case cut_after chunk ''. '' of Some n \<Rightarrow> n | None \<Rightarrow>
     (case cut_after chunk [CHR 0x0A] of Some n \<Rightarrow> n | None \<Rightarrow> maxb)))"

lemma cut_after_pos: "cut_after chunk p = Some n \<Longrightarrow> 0 < n"
  by (auto simp: cut_after_def split: option.splits nat.splits)

lemma cut_at_pos: "0 < maxb \<Longrightarrow> 0 < cut_at maxb content"
  by (auto simp: cut_at_def Let_def dest: cut_after_pos split: option.split)

text \<open>\<open>splitMessage\<close>; the limit is positive wherever it is called.\<close>

function split_rest :: "nat \<Rightarrow> string \<Rightarrow> string list" where
  "split_rest maxb content =
     (if content = [] \<or> maxb = 0 then []
      else if length content \<le> maxb then [content]
      else take (cut_at maxb content) content # split_rest maxb (drop (cut_at maxb content) content))"
  by pat_completeness auto
termination
proof (relation "measure (\<lambda>(m, s). length s)")
  fix maxb :: nat and content :: string
  assume "\<not> (content = [] \<or> maxb = 0)"
  then show "((maxb, drop (cut_at maxb content) content), maxb, content) \<in> measure (\<lambda>(m, s). length s)"
    using cut_at_pos [of maxb content] by simp
qed simp

declare split_rest.simps [simp del]

definition split_message :: "nat \<Rightarrow> string \<Rightarrow> string list" where
  "split_message maxb content = (if length content \<le> maxb then [content] else split_rest maxb content)"

text \<open>As HTML, and once more as plain text when that fails.\<close>

definition send_part :: "'s bot_api \<Rightarrow> string \<Rightarrow> string \<Rightarrow> string option \<Rightarrow> 's \<Rightarrow> (tg_error + string) \<times> 's" where
  "send_part A chat part reply s = (case api_call A (SendMessage chat part True reply) s of
       (Inr raw, s1) \<Rightarrow> (Inr raw, s1)
     | (Inl _, s1) \<Rightarrow> api_call A (SendMessage chat part False reply) s1)"

fun send_parts :: "'s bot_api \<Rightarrow> string \<Rightarrow> string list \<Rightarrow> string option \<Rightarrow> string \<Rightarrow> 's \<Rightarrow> (tg_error + string) \<times> 's" where
  "send_parts A chat [] reply first s = (Inr first, s)"
| "send_parts A chat (p # ps) reply first s =
     if_ok (send_part A chat p reply s) (\<lambda>e s1. (Inl e, s1)) (\<lambda>raw s1.
       send_parts A chat ps None (if first = [] then (case bp_read_message_id A raw of
           None \<Rightarrow> [] | Some i \<Rightarrow> if i = 0 then [] else show_int i) else first) s1)"

definition send_text :: "'s bot_api \<Rightarrow> string \<Rightarrow> string \<Rightarrow> string \<Rightarrow> 's \<Rightarrow> (tg_error + string) \<times> 's" where
  "send_text A chat content reply s =
     send_parts A chat (split_message 4096 content) (if reply = [] then None else Some reply) [] s"

definition attachment_method :: "string \<Rightarrow> string \<times> string" where
  "attachment_method kind =
     (if kind = ''photo'' then (''sendPhoto'', ''photo'') else if kind = ''voice'' then (''sendVoice'', ''voice'')
      else if kind = ''video'' then (''sendVideo'', ''video'') else if kind = ''audio'' then (''sendAudio'', ''audio'')
      else if kind = ''video_note'' then (''sendVideoNote'', ''video_note'') else (''sendDocument'', ''document''))"

definition send_attachment :: "'s bot_api \<Rightarrow> string \<Rightarrow> attachment \<Rightarrow> 's \<Rightarrow> 's" where
  "send_attachment A chat a s = snd (upload_file A \<lparr>up_method = fst (attachment_method (at_kind a)), up_chat = chat,
     up_caption = at_caption a, up_field = snd (attachment_method (at_kind a)), up_path = at_path a\<rparr> s)"

text \<open>The identifier of the first part of the text, empty when there is none.\<close>

definition telegram_send :: "'s bot_api \<Rightarrow> outgoing_message \<Rightarrow> 's \<Rightarrow> (tg_error + string) \<times> 's" where
  "telegram_send A m s =
     (let chat = (case map_of (om_delivery m) ''chat_id'' of None \<Rightarrow> [] | Some c \<Rightarrow> c) in
      if chat = [] then (Inl NoChat, s)
      else if om_kind m = KindReaction then
        if_ok (api_call A (SetReaction chat (om_target m) (om_content m)) s) (\<lambda>e s1. (Inl e, s1)) (\<lambda>_ s1. (Inr [], s1))
      else if_ok (if om_content m = [] then (Inr [], s) else send_text A chat (om_content m) (om_target m) s)
        (\<lambda>e s1. (Inl e, s1))
        (\<lambda>mid s1. (Inr mid, fold (send_attachment A chat) (om_attachments m) s1)))"

section \<open>Splitting loses nothing\<close>

lemma has_prefix_length: "has_prefix s p \<Longrightarrow> length p \<le> length s"
  by (auto simp: has_prefix_iff)

lemma last_index_fits: "last_index_of s p = Some i \<Longrightarrow> i + length p \<le> length s"
proof (induction s arbitrary: i)
  case (Cons c s)
  then show ?case using has_prefix_length [of "c # s" p] by (auto split: option.splits if_splits)
qed (simp split: if_splits)

lemma cut_after_fits: "cut_after chunk p = Some n \<Longrightarrow> n \<le> length chunk"
  by (auto simp: cut_after_def dest: last_index_fits split: option.splits nat.splits)

lemma cut_at_fits: "cut_at maxb content \<le> maxb"
  using cut_after_fits [of "take maxb content"] by (auto simp: cut_at_def Let_def split: option.split dest!: cut_after_fits)

lemma split_message_whole:
  assumes "0 < maxb"
  shows "concat (split_message maxb s) = s \<and> (\<forall>p \<in> set (split_message maxb s). length p \<le> maxb)
    \<and> (s \<noteq> [] \<longrightarrow> [] \<notin> set (split_message maxb s))"
proof -
  have "concat (split_rest maxb s) = s \<and> (\<forall>p \<in> set (split_rest maxb s). length p \<le> maxb) \<and> [] \<notin> set (split_rest maxb s)"
    using assms
  proof (induction maxb s rule: split_rest.induct)
    case (1 maxb content)
    show ?case
    proof (cases "content = [] \<or> length content \<le> maxb")
      case True
      with 1(2) show ?thesis by (subst (1 2 3) split_rest.simps) auto
    next
      case False
      let ?n = "cut_at maxb content"
      have r: "split_rest maxb content = take ?n content # split_rest maxb (drop ?n content)"
        using False 1(2) by (subst split_rest.simps) simp
      have "take ?n content \<noteq> []" using cut_at_pos [OF 1(2), of content] False by simp
      moreover have "length (take ?n content) \<le> maxb" using cut_at_fits [of maxb content] by simp
      ultimately show ?thesis
        using 1(1) [OF _ _ 1(2)] False 1(2) unfolding r by simp
    qed
  qed
  with assms show ?thesis by (auto simp: split_message_def)
qed

text \<open>
  C35: The parts a long text is sent in are the text again when put together; none is longer than
  the limit, and none is empty.
\<close>

theorem message_split_lossless:
  assumes "0 < maxb"
  shows "concat (split_message maxb s) = s \<and> (\<forall>p \<in> set (split_message maxb s). length p \<le> maxb)
    \<and> (s \<noteq> [] \<longrightarrow> [] \<notin> set (split_message maxb s))"
  using assms by (rule split_message_whole)

theorem message_split_lossless_witness:
  "split_message 8 ''Hello. World'' = [''Hello. '', ''World''] \<and> concat (split_message 8 ''Hello. World'') = ''Hello. World''"
proof
  show "split_message 8 ''Hello. World'' = [''Hello. '', ''World'']"
    by (simp add: split_message_def split_rest.simps cut_at_def cut_after_def Let_def)
  show "concat (split_message 8 ''Hello. World'') = ''Hello. World''"
    using message_split_lossless [of 8 "''Hello. World''"] by simp
qed

text \<open>The limit counts bytes, and a cut without a boundary can fall inside a character.\<close>

lemma cut_inside_character:
  "split_message 4 (''abc'' @ [CHR 0xE2, CHR 0x82, CHR 0xAC]) = [''abc'' @ [CHR 0xE2], [CHR 0x82, CHR 0xAC]]"
  by (simp add: split_message_def split_rest.simps cut_at_def cut_after_def Let_def)

text \<open>Any mention in a group counts as one of the bot.\<close>

lemma any_mention_is_ours: "''mention'' \<in> set (tm_entities m) \<Longrightarrow> is_bot_mentioned m"
  by (auto simp: is_bot_mentioned_def)

text \<open>
  The offset of the next poll is one past the last update handled, so no update is handled
  again, and each of the updates of an answer is handled once and in order.
\<close>

theorem poll_acknowledges_handled:
  assumes "bp_do A (GetUpdates offset) s = (Some r, s1)" "ap_ok r" "ap_error_code r \<noteq> 429"
    and "bp_read_updates A (ap_result r) = Some us"
  shows "poll_round A h offset s = ((if us = [] then offset else tup_id (last us) + 1, False), fold h us s1)"
proof -
  have "handle_updates h us offset s1 = (if us = [] then offset else tup_id (last us) + 1, fold h us s1)" for offset s1
    by (induction us arbitrary: offset s1) simp_all
  then show ?thesis using assms by (simp add: poll_round_def api_call_def read_envelope_def)
qed

end
