(* ===== verification/Teams.thy ===== *)
theory Teams
  imports Telegram
begin

text \<open>
  The Teams channel, \<open>pkg/plugins/channel/teams\<close>: the check of bearer tokens and the keys it
  uses, the access token of the bot, the webhook, attachments and sending. HTTP, base64,
  \<open>encoding/json\<close>, certificates and the RSA check are parameters.
\<close>

record teams_config =
  tmc_app_id :: string
  tmc_password :: string
  tmc_path :: string
  tmc_tenant :: string
  tmc_max_download :: int

record conversation_ref =
  cf_service_url :: string
  cf_conversation :: string
  cf_bot :: string
  cf_recipient :: string

record account =
  ac_id :: string
  ac_name :: string
  ac_aad_object :: string

record teams_conversation =
  tcv_id :: string
  tcv_name :: string
  tcv_type :: string
  tcv_tenant :: string

record activity_file =
  af_content_type :: string
  af_content_url :: string
  af_name :: string

record activity =
  av_type :: string
  av_id :: string
  av_service_url :: string
  av_channel :: string
  av_from :: account
  av_conversation :: teams_conversation
  av_recipient :: account
  av_reply_to :: string
  av_text :: string
  av_entities :: "(string \<times> account option) list"
  av_attachments :: "activity_file list"

record jwt_claims =
  jc_aud :: string
  jc_iss :: string
  jc_exp :: string
  jc_nbf :: string
  jc_tid :: string

text \<open>What is posted to a conversation; a typing activity has neither text nor file.\<close>

record out_activity =
  oa_type :: string
  oa_text :: string
  oa_ref :: conversation_ref
  oa_reply_to :: string
  oa_file :: "(string \<times> string \<times> string) option"

record 's teams_env =
  tv_now :: "'s \<Rightarrow> instant"
  tv_get :: "string \<Rightarrow> 's \<Rightarrow> string option \<times> 's"
  tv_read_metadata :: "string \<Rightarrow> string option"
  tv_read_jwks :: "string \<Rightarrow> (string \<times> string list) list option"
  tv_base64_url :: "string \<Rightarrow> string option"
  tv_read_header :: "string \<Rightarrow> (string \<times> string) option"
  tv_read_claims :: "string \<Rightarrow> jwt_claims option"
  tv_rsa_key :: "string \<Rightarrow> string option"
  tv_verify :: "string \<Rightarrow> string \<Rightarrow> string \<Rightarrow> bool"
  tv_post_form :: "string \<Rightarrow> string_map \<Rightarrow> 's \<Rightarrow> (int \<times> string) option \<times> 's"
  tv_read_token :: "string \<Rightarrow> (string \<times> int) option"
  tv_post :: "string \<Rightarrow> string \<Rightarrow> out_activity \<Rightarrow> 's \<Rightarrow> (int \<times> string) option \<times> 's"
  tv_read_id :: "string \<Rightarrow> string option"
  tv_read_activity :: "string \<Rightarrow> activity option"
  tv_download :: "string \<Rightarrow> string \<Rightarrow> 's \<Rightarrow> (int \<times> string option) option \<times> 's"
  tv_temp_dir :: "'s \<Rightarrow> string option \<times> 's"
  tv_write :: "string \<Rightarrow> string \<Rightarrow> 's \<Rightarrow> bool \<times> 's"
  tv_uuid :: "'s \<Rightarrow> string \<times> 's"
  tv_handler :: "(incoming_message \<Rightarrow> 's \<Rightarrow> bool \<times> 's) option"

record teams =
  tms_refs :: "string \<rightharpoonup> conversation_ref"
  tms_keys :: "string \<rightharpoonup> string list"
  tms_fetched :: instant
  tms_token :: string
  tms_expires :: instant
  tms_degraded :: bool

definition new_teams :: teams where
  "new_teams = \<lparr>tms_refs = Map.empty, tms_keys = Map.empty, tms_fetched = zero_time, tms_token = [],
     tms_expires = zero_time, tms_degraded = False\<rparr>"

definition teams_init :: "teams_config \<Rightarrow> string + teams_config \<times> teams" where
  "teams_init C =
     (if tmc_app_id C = [] then Inl ''app_id is required''
      else if tmc_password C = [] then Inl ''app_password is required''
      else Inr (if tmc_path C = [] then C\<lparr>tmc_path := ''/channels/teams/webhook''\<rparr> else C, new_teams))"

section \<open>Signing keys\<close>

datatype key_error = NoMetadata | BadMetadata | NoKeysUri | NoKeys | BadKeys | UnknownKey string

text \<open>Keys without an identifier or without certificates are left out; a later one replaces an earlier one.\<close>

definition usable_keys :: "(string \<times> string list) list \<Rightarrow> string \<rightharpoonup> string list" where
  "usable_keys ks = map_of (rev (filter (\<lambda>(kid, certs). kid \<noteq> [] \<and> certs \<noteq> []) ks))"

definition refresh_keys :: "'s teams_env \<Rightarrow> teams \<Rightarrow> 's \<Rightarrow> (key_error + unit) \<times> teams \<times> 's" where
  "refresh_keys E t s =
     (case tv_get E ''https://login.botframework.com/v1/.well-known/openidconfiguration'' s of
        (None, s1) \<Rightarrow> (Inl NoMetadata, t, s1)
      | (Some body, s1) \<Rightarrow> (case tv_read_metadata E body of
          None \<Rightarrow> (Inl BadMetadata, t, s1)
        | Some uri \<Rightarrow>
            if uri = [] then (Inl NoKeysUri, t, s1)
            else (case tv_get E uri s1 of
              (None, s2) \<Rightarrow> (Inl NoKeys, t, s2)
            | (Some body2, s2) \<Rightarrow> (case tv_read_jwks E body2 of
                None \<Rightarrow> (Inl BadKeys, t, s2)
              | Some ks \<Rightarrow> (Inr (), t\<lparr>tms_keys := usable_keys ks, tms_fetched := tv_now E s2\<rparr>, s2)))))"

definition get_key :: "'s teams_env \<Rightarrow> string \<Rightarrow> teams \<Rightarrow> 's \<Rightarrow> (key_error + string list) \<times> teams \<times> 's" where
  "get_key E kid t s =
     (if tms_keys t kid \<noteq> None \<and> tv_now E s - tms_fetched t < 6 * hour_ns then (Inr (the (tms_keys t kid)), t, s)
      else case refresh_keys E t s of
        (Inl e, t1, s1) \<Rightarrow> (Inl e, t1, s1)
      | (Inr _, t1, s1) \<Rightarrow> (case tms_keys t1 kid of
          None \<Rightarrow> (Inl (UnknownKey kid), t1, s1)
        | Some certs \<Rightarrow> (Inr certs, t1, s1)))"

section \<open>Bearer tokens\<close>

datatype jwt_error = NoBearer | BadStructure | BadHeader | BadAlgorithm string | KeyLookup key_error
  | BadSignature | SignatureFailed | NoCertificate | BadPayload | BadAudience string | BadIssuer string
  | BadExp | Expired | BadNbf | NotYetValid | BadTenant string

text \<open>\<open>time.Unix\<close> adds the seconds from year 1 in 64 bits.\<close>

definition unix_time :: "int \<Rightarrow> instant" where
  "unix_time n = (wrap64 (n + 62135596800) - 62135596800) * nanos"

definition clock_skew :: int where "clock_skew = 5 * minute_ns"

definition check_claims :: "teams_config \<Rightarrow> instant \<Rightarrow> jwt_claims \<Rightarrow> jwt_error + unit" where
  "check_claims C now c =
     (if jc_aud c \<noteq> tmc_app_id C then Inl (BadAudience (jc_aud c))
      else if jc_iss c \<noteq> ''https://api.botframework.com'' then Inl (BadIssuer (jc_iss c))
      else case atoi (jc_exp c) of
        None \<Rightarrow> Inl BadExp
      | Some e \<Rightarrow> if unix_time e < now - clock_skew then Inl Expired
          else (case atoi (jc_nbf c) of
            None \<Rightarrow> Inl BadNbf
          | Some n \<Rightarrow> if unix_time n > now + clock_skew then Inl NotYetValid
              else if tmc_tenant C \<noteq> [] \<and> jc_tid c \<noteq> [] \<and> jc_tid c \<noteq> tmc_tenant C then Inl (BadTenant (jc_tid c))
              else Inr ()))"

definition validate_claims :: "'s teams_env \<Rightarrow> teams_config \<Rightarrow> instant \<Rightarrow> string \<Rightarrow> jwt_error + unit" where
  "validate_claims E C now payload =
     (case Option.bind (tv_base64_url E payload) (tv_read_claims E) of
        None \<Rightarrow> Inl BadPayload
      | Some c \<Rightarrow> check_claims C now c)"

text \<open>The certificates of a key in turn; one that cannot be read, or is not of an RSA key, is passed over.\<close>

fun verify_any :: "'s teams_env \<Rightarrow> string \<Rightarrow> string \<Rightarrow> string list \<Rightarrow> bool" where
  "verify_any E signed sig [] = False"
| "verify_any E signed sig (c # cs) = (case tv_rsa_key E c of
     None \<Rightarrow> verify_any E signed sig cs
   | Some k \<Rightarrow> tv_verify E k signed sig \<or> verify_any E signed sig cs)"

definition validate_jwt :: "'s teams_env \<Rightarrow> teams_config \<Rightarrow> string \<Rightarrow> teams \<Rightarrow> 's \<Rightarrow> (jwt_error + unit) \<times> teams \<times> 's" where
  "validate_jwt E C auth t s =
     (if \<not> has_prefix auth ''Bearer '' then (Inl NoBearer, t, s)
      else case split_on CHR ''.'' (trim_prefix auth ''Bearer '') of
        [h, p, g] \<Rightarrow> (case Option.bind (tv_base64_url E h) (tv_read_header E) of
            None \<Rightarrow> (Inl BadHeader, t, s)
          | Some (kid, alg) \<Rightarrow>
              if alg \<noteq> ''RS256'' then (Inl (BadAlgorithm alg), t, s)
              else (case get_key E kid t s of
                (Inl e, t1, s1) \<Rightarrow> (Inl (KeyLookup e), t1, s1)
              | (Inr certs, t1, s1) \<Rightarrow> (case tv_base64_url E g of
                  None \<Rightarrow> (Inl BadSignature, t1, s1)
                | Some sig \<Rightarrow>
                    (if verify_any E (h @ ''.'' @ p) sig certs then validate_claims E C (tv_now E s1) p
                     else if certs = [] then Inl NoCertificate else Inl SignatureFailed, t1, s1))))
      | _ \<Rightarrow> (Inl BadStructure, t, s))"

section \<open>The bot's own token\<close>

definition request_token :: "'s teams_env \<Rightarrow> teams_config \<Rightarrow> string \<Rightarrow> 's \<Rightarrow> (string \<times> int) option \<times> 's" where
  "request_token E C tenant_name s =
     (case tv_post_form E (''https://login.microsoftonline.com/'' @ tenant_name @ ''/oauth2/v2.0/token'')
         [(''grant_type'', ''client_credentials''), (''client_id'', tmc_app_id C), (''client_secret'', tmc_password C),
          (''scope'', ''https://api.botframework.com/.default'')] s of
        (None, s1) \<Rightarrow> (None, s1)
      | (Some (status, body), s1) \<Rightarrow> (if status = 200 then tv_read_token E body else None, s1))"

definition request_any :: "'s teams_env \<Rightarrow> teams_config \<Rightarrow> 's \<Rightarrow> (string \<times> int) option \<times> 's" where
  "request_any E C s = (case request_token E C ''botframework.com'' s of
       (Some r, s1) \<Rightarrow> (Some r, s1)
     | (None, s1) \<Rightarrow> if tmc_tenant C \<noteq> [] then request_token E C (tmc_tenant C) s1 else (None, s1))"

definition get_access_token :: "'s teams_env \<Rightarrow> teams_config \<Rightarrow> teams \<Rightarrow> 's \<Rightarrow> string option \<times> teams \<times> 's" where
  "get_access_token E C t s =
     (if tms_token t \<noteq> [] \<and> tv_now E s + 30 * nanos < tms_expires t then (Some (tms_token t), t, s)
      else case request_any E C s of
        (None, s1) \<Rightarrow> (None, t, s1)
      | (Some (k, n), s1) \<Rightarrow> (Some k, t\<lparr>tms_token := k, tms_expires := tv_now E s1 + wrap64 (n * nanos)\<rparr>, s1))"

section \<open>Incoming activities\<close>

text \<open>\<open>strings.TrimRight(s, "/")\<close>.\<close>

definition trim_slashes :: "string \<Rightarrow> string" where
  "trim_slashes s = rev (dropWhile (\<lambda>c. c = CHR ''/'') (rev s))"

definition normalize_bot_id :: "string \<Rightarrow> string" where
  "normalize_bot_id i = trim_prefix i ''28:''"

definition teams_mentioned :: "teams_config \<Rightarrow> activity \<Rightarrow> bool" where
  "teams_mentioned C a \<longleftrightarrow> (\<exists>(k, who) \<in> set (av_entities a). k = ''mention'' \<and>
     (case who of None \<Rightarrow> False | Some w \<Rightarrow> normalize_bot_id (ac_id w) = tmc_app_id C))"

definition teams_metadata :: "string \<Rightarrow> activity \<Rightarrow> bool \<Rightarrow> bool \<Rightarrow> string_map" where
  "teams_metadata response_format a is_group is_mention =
     [(''response_format'', response_format)]
     @ if_given ''sender_name'' (ac_name (av_from a)) @ if_given ''sender_id'' (ac_id (av_from a))
     @ if_given ''sender_aad_id'' (ac_aad_object (av_from a))
     @ if_given ''chat_type'' (tcv_type (av_conversation a)) @ if_given ''chat_name'' (tcv_name (av_conversation a))
     @ if_given ''teams_tenant_id'' (tcv_tenant (av_conversation a))
     @ if_given ''teams_channel_id'' (av_channel a)
     @ (if is_group then [(''is_mentioned'', show_bool is_mention)] else [])"

definition mime_to_kind :: "string \<Rightarrow> string" where
  "mime_to_kind m = (if has_prefix m ''image/'' then ''photo'' else if has_prefix m ''audio/'' then ''audio''
     else if has_prefix m ''video/'' then ''video'' else ''document'')"

definition too_large :: "teams_config \<Rightarrow> int \<Rightarrow> bool" where
  "too_large C n \<longleftrightarrow> tmc_max_download C > 0 \<and> n > tmc_max_download C"

definition extract_file :: "'s teams_env \<Rightarrow> teams_config \<Rightarrow> string \<Rightarrow> activity_file \<Rightarrow> 's \<Rightarrow> attachment option \<times> 's" where
  "extract_file E C token f s =
     (if contains_str (af_content_type f) ''card'' \<or> af_content_url f = [] then (None, s)
      else case tv_download E (af_content_url f) token s of
        (None, s1) \<Rightarrow> (None, s1)
      | (Some (announced, body), s1) \<Rightarrow>
          if too_large C announced then (None, s1)
          else (case tv_temp_dir E s1 of
            (None, s2) \<Rightarrow> (None, s2)
          | (Some dir, s2) \<Rightarrow> (case (if af_name f = [] then tv_uuid E s2 else (af_name f, s2)) of
              (name, s3) \<Rightarrow> (case body of
                None \<Rightarrow> (None, s3)
              | Some bytes \<Rightarrow>
                  if too_large C (int (length bytes)) then (None, s3)
                  else let path = dir @ ''/'' @ name in (case tv_write E path bytes s3 of
                    (False, s4) \<Rightarrow> (None, s4)
                  | (True, s4) \<Rightarrow> (Some \<lparr>at_id = [], at_kind = mime_to_kind (af_content_type f), at_filename = name,
                      at_mime = af_content_type f, at_size = int (length bytes), at_path = path, at_caption = []\<rparr>, s4))))))"

fun extract_files :: "'s teams_env \<Rightarrow> teams_config \<Rightarrow> string \<Rightarrow> activity_file list \<Rightarrow> 's \<Rightarrow> attachment list \<times> 's" where
  "extract_files E C token [] s = ([], s)"
| "extract_files E C token (f # fs) s =
     (let (a, s1) = extract_file E C token f s; (rest, s2) = extract_files E C token fs s1
      in (case a of None \<Rightarrow> rest | Some x \<Rightarrow> x # rest, s2))"

definition activity_ref :: "activity \<Rightarrow> conversation_ref" where
  "activity_ref a = \<lparr>cf_service_url = trim_slashes (av_service_url a), cf_conversation = tcv_id (av_conversation a),
     cf_bot = ac_id (av_recipient a), cf_recipient = ac_id (av_from a)\<rparr>"

definition ref_map :: "conversation_ref \<Rightarrow> string_map" where
  "ref_map r = [(''service_url'', cf_service_url r), (''conversation_id'', cf_conversation r),
     (''bot_id'', cf_bot r), (''recipient_id'', cf_recipient r)]"

definition teams_incoming :: "teams_config \<Rightarrow> string \<Rightarrow> string \<Rightarrow> activity \<Rightarrow> instant \<Rightarrow> incoming_message" where
  "teams_incoming C response_format mid a now =
     (let is_group = (tcv_type (av_conversation a) \<noteq> ''personal''); is_mention = (\<not> is_group \<or> teams_mentioned C a);
          delivery = ref_map (activity_ref a)
      in \<lparr>in_id = mid, in_tenant = tcv_tenant (av_conversation a),
          in_user = (if ac_aad_object (av_from a) = [] then ac_id (av_from a) else ac_aad_object (av_from a)),
          in_chat = tcv_id (av_conversation a), in_content = av_text a, in_attachments = [], in_is_group = is_group,
          in_is_mention = is_mention, in_metadata = teams_metadata response_format a is_group is_mention,
          in_delivery = delivery, in_reply_to = av_reply_to a, in_indication = delivery,
          in_agent_name = ac_name (av_recipient a), in_tenant_name = [], in_user_name = ac_name (av_from a),
          in_group_name = tcv_name (av_conversation a), in_received_at = now\<rparr>)"

definition with_files :: "'s teams_env \<Rightarrow> teams_config \<Rightarrow> activity \<Rightarrow> incoming_message \<Rightarrow> teams \<Rightarrow> 's \<Rightarrow> incoming_message \<times> teams \<times> 's" where
  "with_files E C a m t s =
     (if av_attachments a = [] then (m, t, s)
      else case get_access_token E C t s of
        (None, t1, s1) \<Rightarrow> (m, t1, s1)
      | (Some k, t1, s1) \<Rightarrow> (case extract_files E C k (av_attachments a) s1 of
          (files, s2) \<Rightarrow> (m\<lparr>in_attachments := files\<rparr>, t1, s2)))"

definition handle_message :: "'s teams_env \<Rightarrow> teams_config \<Rightarrow> string \<Rightarrow> activity \<Rightarrow> teams \<Rightarrow> 's \<Rightarrow> teams \<times> 's" where
  "handle_message E C response_format a t s =
     (case (if av_id a = [] then tv_uuid E s else (av_id a, s)) of (mid, s1) \<Rightarrow>
       (case with_files E C a (teams_incoming C response_format mid a (tv_now E s1)) t s1 of (m, t1, s2) \<Rightarrow>
         (case tv_handler E of None \<Rightarrow> (t1, s2) | Some h \<Rightarrow> (t1, snd (h m s2)))))"

section \<open>The webhook\<close>

record web_request =
  wq_method :: string
  wq_authorization :: string
  wq_body :: string

text \<open>The answer's status; a conversation is remembered before its activity is looked at.\<close>

definition handle_webhook :: "'s teams_env \<Rightarrow> teams_config \<Rightarrow> string \<Rightarrow> web_request \<Rightarrow> teams \<Rightarrow> 's \<Rightarrow> int \<times> teams \<times> 's" where
  "handle_webhook E C response_format q t s =
     (if wq_method q = ''GET'' then (200, t, s)
      else if wq_method q \<noteq> ''POST'' then (405, t, s)
      else if wq_authorization q = [] then (401, t, s)
      else case validate_jwt E C (wq_authorization q) t s of
        (Inl _, t1, s1) \<Rightarrow> (401, t1, s1)
      | (Inr _, t1, s1) \<Rightarrow> (case tv_read_activity E (wq_body q) of
          None \<Rightarrow> (400, t1, s1)
        | Some a \<Rightarrow>
            let t2 = t1\<lparr>tms_refs := (tms_refs t1)(tcv_id (av_conversation a) \<mapsto> activity_ref a)\<rparr> in
            if av_type a = ''message'' \<or> av_type a = ''messageUpdate''
            then (200, handle_message E C response_format a t2 s1)
            else (200, t2, s1)))"

section \<open>Sending\<close>

datatype teams_error = NoReference string | NoToken | PostFailed | Rejected int

definition map_get :: "string_map \<Rightarrow> string \<Rightarrow> string" where
  "map_get m k = (case map_of m k of None \<Rightarrow> [] | Some v \<Rightarrow> v)"

definition ref_from_map :: "string_map \<Rightarrow> conversation_ref" where
  "ref_from_map m = \<lparr>cf_service_url = trim_slashes (map_get m ''service_url''), cf_conversation = map_get m ''conversation_id'',
     cf_bot = map_get m ''bot_id'', cf_recipient = map_get m ''recipient_id''\<rparr>"

definition activities_url :: "conversation_ref \<Rightarrow> string" where
  "activities_url r = cf_service_url r @ ''/v3/conversations/'' @ cf_conversation r @ ''/activities''"

text \<open>The identifier of the message posted, empty when the answer does not tell it.\<close>

definition send_activity :: "'s teams_env \<Rightarrow> string \<Rightarrow> out_activity \<Rightarrow> 's \<Rightarrow> (teams_error + string) \<times> 's" where
  "send_activity E token o1 s = (case tv_post E (activities_url (oa_ref o1)) token o1 s of
       (None, s1) \<Rightarrow> (Inl PostFailed, s1)
     | (Some (status, body), s1) \<Rightarrow>
         (if status < 200 \<or> 300 \<le> status then Inl (Rejected status)
          else Inr (case tv_read_id E body of None \<Rightarrow> [] | Some i \<Rightarrow> i), s1))"

definition text_activity :: "conversation_ref \<Rightarrow> string \<Rightarrow> string \<Rightarrow> out_activity" where
  "text_activity r reply chunk = \<lparr>oa_type = ''message'', oa_text = chunk, oa_ref = r, oa_reply_to = reply, oa_file = None\<rparr>"

fun send_chunks :: "'s teams_env \<Rightarrow> string \<Rightarrow> conversation_ref \<Rightarrow> string \<Rightarrow> string list \<Rightarrow> 's \<Rightarrow> (teams_error + string) \<times> 's" where
  "send_chunks E token r reply [] s = (Inr [], s)"
| "send_chunks E token r reply (c # cs) s = if_ok (send_activity E token (text_activity r reply c) s)
     (\<lambda>e s1. (Inl e, s1))
     (\<lambda>i s1. if_ok (send_chunks E token r [] cs s1) (\<lambda>e s2. (Inl e, s2)) (\<lambda>_ s2. (Inr i, s2)))"

definition file_activity :: "conversation_ref \<Rightarrow> string \<Rightarrow> attachment \<Rightarrow> out_activity" where
  "file_activity r reply a = \<lparr>oa_type = ''message'', oa_text = [], oa_ref = r, oa_reply_to = reply,
     oa_file = Some (at_mime a, at_path a, at_filename a)\<rparr>"

definition send_file :: "'s teams_env \<Rightarrow> string \<Rightarrow> conversation_ref \<Rightarrow> string \<Rightarrow> attachment \<Rightarrow> 's \<Rightarrow> 's" where
  "send_file E token r reply a s =
     (if \<not> has_prefix (at_mime a) ''image/'' then s else snd (send_activity E token (file_activity r reply a) s))"

text \<open>\<open>splitMessage\<close> is the same function as that of the Telegram channel.\<close>

definition teams_split :: "nat \<Rightarrow> string \<Rightarrow> string list" where
  "teams_split = split_message"

definition choose_ref :: "outgoing_message \<Rightarrow> teams \<Rightarrow> conversation_ref option" where
  "choose_ref m t = (if om_delivery m \<noteq> [] then Some (ref_from_map (om_delivery m)) else tms_refs t (om_chat m))"

definition teams_send :: "'s teams_env \<Rightarrow> teams_config \<Rightarrow> outgoing_message \<Rightarrow> teams \<Rightarrow> 's \<Rightarrow> (teams_error + string) \<times> teams \<times> 's" where
  "teams_send E C m t s = (case choose_ref m t of
       None \<Rightarrow> (Inl (NoReference (om_chat m)), t, s)
     | Some r \<Rightarrow> (case get_access_token E C t s of
         (None, t1, s1) \<Rightarrow> (Inl NoToken, t1\<lparr>tms_degraded := True\<rparr>, s1)
       | (Some k, t1, s1) \<Rightarrow> (case send_chunks E k r (om_target m) (teams_split 4000 (om_content m)) s1 of
           (Inl e, s2) \<Rightarrow> (Inl e, t1, s2)
         | (Inr i, s2) \<Rightarrow> (Inr i, t1\<lparr>tms_degraded := False\<rparr>, fold (send_file E k r (om_target m)) (om_attachments m) s2))))"

definition send_typing :: "'s teams_env \<Rightarrow> teams_config \<Rightarrow> string_map \<Rightarrow> teams \<Rightarrow> 's \<Rightarrow> (teams_error + unit) \<times> teams \<times> 's" where
  "send_typing E C indication t s = (case get_access_token E C t s of
       (None, t1, s1) \<Rightarrow> (Inl NoToken, t1, s1)
     | (Some k, t1, s1) \<Rightarrow>
         let r = ref_from_map indication;
             o1 = \<lparr>oa_type = ''typing'', oa_text = [], oa_ref = r, oa_reply_to = [], oa_file = None\<rparr>
         in (case tv_post E (activities_url r) k o1 s1 of
           (None, s2) \<Rightarrow> (Inl PostFailed, t1, s2)
         | (Some (status, _), s2) \<Rightarrow> (if status < 200 \<or> 300 \<le> status then Inl (Rejected status) else Inr (), t1, s2)))"

section \<open>Only genuine tokens get through\<close>

text \<open>
  A token that the Bot Framework made for this bot and that is valid at an instant: signed with a
  certificate of the key it names, for the bot's application, and neither expired nor too early.
\<close>

definition genuine :: "'s teams_env \<Rightarrow> teams_config \<Rightarrow> (string \<rightharpoonup> string list) \<Rightarrow> instant \<Rightarrow> string \<Rightarrow> bool" where
  "genuine E C keys now auth \<longleftrightarrow> (\<exists>h p g header kid cert certs key sig payload c e n.
     auth = ''Bearer '' @ h @ ''.'' @ p @ ''.'' @ g
     \<and> tv_base64_url E h = Some header \<and> tv_read_header E header = Some (kid, ''RS256'')
     \<and> keys kid = Some certs \<and> cert \<in> set certs \<and> tv_rsa_key E cert = Some key
     \<and> tv_base64_url E g = Some sig \<and> tv_verify E key (h @ ''.'' @ p) sig
     \<and> tv_base64_url E p = Some payload \<and> tv_read_claims E payload = Some c
     \<and> jc_aud c = tmc_app_id C \<and> jc_iss c = ''https://api.botframework.com''
     \<and> atoi (jc_exp c) = Some e \<and> atoi (jc_nbf c) = Some n
     \<and> now - clock_skew \<le> unix_time e \<and> unix_time n \<le> now + clock_skew
     \<and> (tmc_tenant C \<noteq> [] \<and> jc_tid c \<noteq> [] \<longrightarrow> jc_tid c = tmc_tenant C))"

lemma check_claims_ok:
  assumes "check_claims C now c = Inr u"
  obtains e n where "jc_aud c = tmc_app_id C" "jc_iss c = ''https://api.botframework.com''"
    "atoi (jc_exp c) = Some e" "atoi (jc_nbf c) = Some n" "now - clock_skew \<le> unix_time e" "unix_time n \<le> now + clock_skew"
    "tmc_tenant C \<noteq> [] \<and> jc_tid c \<noteq> [] \<longrightarrow> jc_tid c = tmc_tenant C"
  using assms by (auto simp: check_claims_def split: if_splits option.splits)

lemma verify_any_iff:
  "verify_any E signed sig cs \<longleftrightarrow> (\<exists>c \<in> set cs. \<exists>k. tv_rsa_key E c = Some k \<and> tv_verify E k signed sig)"
  by (induction cs) (auto split: option.splits)

lemma refresh_keys_frame:
  assumes "refresh_keys E t s = (r, t1, s1)"
  shows "tms_refs t1 = tms_refs t \<and> tms_token t1 = tms_token t \<and> (r = Inr u \<longrightarrow> tms_fetched t1 = tv_now E s1)"
  using assms by (auto simp: refresh_keys_def split: prod.splits option.splits if_splits)

text \<open>The keys in use were fetched less than six hours ago.\<close>

lemma get_key_fresh:
  assumes "get_key E kid t s = (r, t1, s1)"
  shows "tms_refs t1 = tms_refs t \<and> tms_token t1 = tms_token t
    \<and> (r = Inr certs \<longrightarrow> tms_keys t1 kid = Some certs \<and> tv_now E s1 - tms_fetched t1 < 6 * hour_ns)"
proof (cases "tms_keys t kid \<noteq> None \<and> tv_now E s - tms_fetched t < 6 * hour_ns")
  case True
  with assms show ?thesis by (auto simp: get_key_def)
next
  case False
  obtain r2 t2 s2 where r2: "refresh_keys E t s = (r2, t2, s2)" by (rule prod_cases3)
  have k: "get_key E kid t s = (case r2 of Inl e \<Rightarrow> (Inl e, t2, s2)
      | Inr _ \<Rightarrow> (case tms_keys t2 kid of None \<Rightarrow> (Inl (UnknownKey kid), t2, s2) | Some certs \<Rightarrow> (Inr certs, t2, s2)))"
    using False by (auto simp: get_key_def r2 split: sum.split)
  from refresh_keys_frame [OF r2] show ?thesis
    using assms unfolding k by (auto simp: hour_ns_def split: sum.splits option.splits)
qed

lemma split_on_three:
  assumes "split_on c s = [h, p, g]"
  shows "s = h @ [c] @ p @ [c] @ g"
proof -
  have cons: "join [c] ((x # w) # ws) = x # join [c] (w # ws)" for x w ws by (cases ws) simp_all
  have "join [c] (split_on c s) = s"
  proof (induction s)
    case (Cons x s)
    obtain w ws where w: "split_on c s = w # ws" by (meson neq_Nil_conv split_on_nonempty)
    with Cons cons [of x w ws] show ?case by simp
  qed simp
  with assms show ?thesis by simp
qed

lemma validate_jwt_genuine:
  assumes "validate_jwt E C auth t s = (r, t1, s1)"
  shows "tms_refs t1 = tms_refs t \<and> tms_token t1 = tms_token t \<and> (s1 = s \<or> (\<exists>kid. s1 = snd (snd (get_key E kid t s))))
    \<and> (r = Inr u \<longrightarrow> genuine E C (tms_keys t1) (tv_now E s1) auth \<and> tv_now E s1 - tms_fetched t1 < 6 * hour_ns)"
proof (cases "\<exists>h p g header kid. has_prefix auth ''Bearer '' \<and> split_on CHR ''.'' (trim_prefix auth ''Bearer '') = [h, p, g]
    \<and> tv_base64_url E h = Some header \<and> tv_read_header E header = Some (kid, ''RS256'')")
  case False
  then have "\<exists>e. validate_jwt E C auth t s = (Inl e, t, s)"
    by (auto simp: validate_jwt_def Option.bind_eq_Some_conv split: list.split option.split)
  with assms show ?thesis by auto
next
  case True
  then obtain h p g header kid where b: "has_prefix auth ''Bearer ''"
    "split_on CHR ''.'' (trim_prefix auth ''Bearer '') = [h, p, g]"
    "tv_base64_url E h = Some header" "tv_read_header E header = Some (kid, ''RS256'')" by blast
  have auth: "auth = ''Bearer '' @ h @ ''.'' @ p @ ''.'' @ g"
    using b(1) split_on_three [OF b(2)] by (auto simp: has_prefix_iff trim_prefix_def)
  obtain k t2 s2 where k: "get_key E kid t s = (k, t2, s2)" by (rule prod_cases3)
  have v: "validate_jwt E C auth t s = (case k of Inl e \<Rightarrow> (Inl (KeyLookup e), t2, s2)
     | Inr certs \<Rightarrow> (case tv_base64_url E g of None \<Rightarrow> (Inl BadSignature, t2, s2)
       | Some sig \<Rightarrow> (if verify_any E (h @ ''.'' @ p) sig certs then validate_claims E C (tv_now E s2) p
           else if certs = [] then Inl NoCertificate else Inl SignatureFailed, t2, s2)))"
    using b by (simp add: validate_jwt_def k split: sum.split)
  have st: "t1 = t2" "s1 = s2" using assms unfolding v by (auto split: sum.splits option.splits)
  have "genuine E C (tms_keys t1) (tv_now E s1) auth \<and> tv_now E s1 - tms_fetched t1 < 6 * hour_ns" if r: "r = Inr u"
  proof -
    obtain certs sig where c: "k = Inr certs" "tv_base64_url E g = Some sig" "verify_any E (h @ ''.'' @ p) sig certs"
      "validate_claims E C (tv_now E s2) p = Inr u"
      using assms r unfolding v by (auto split: sum.splits option.splits if_splits)
    obtain payload cl where cl: "tv_base64_url E p = Some payload" "tv_read_claims E payload = Some cl"
      "check_claims C (tv_now E s2) cl = Inr u"
      using c(4) by (auto simp: validate_claims_def Option.bind_eq_Some_conv split: option.splits)
    obtain cert key where ck: "cert \<in> set certs" "tv_rsa_key E cert = Some key" "tv_verify E key (h @ ''.'' @ p) sig"
      using c(3) by (auto simp: verify_any_iff)
    from check_claims_ok [OF cl(3)] obtain e n where en: "jc_aud cl = tmc_app_id C" "jc_iss cl = ''https://api.botframework.com''"
      "atoi (jc_exp cl) = Some e" "atoi (jc_nbf cl) = Some n" "tv_now E s2 - clock_skew \<le> unix_time e"
      "unix_time n \<le> tv_now E s2 + clock_skew" "tmc_tenant C \<noteq> [] \<and> jc_tid cl \<noteq> [] \<longrightarrow> jc_tid cl = tmc_tenant C" .
    have fresh: "tms_keys t2 kid = Some certs" "tv_now E s2 - tms_fetched t2 < 6 * hour_ns"
      using get_key_fresh [OF k, of certs] c(1) by auto
    show ?thesis unfolding genuine_def st
      by (intro conjI exI) (rule auth b fresh ck c cl en)+
  qed
  moreover have "tms_refs t2 = tms_refs t" "tms_token t2 = tms_token t" using get_key_fresh [OF k] by auto
  moreover have "s2 = snd (snd (get_key E kid t s))" by (simp add: k)
  ultimately show ?thesis unfolding st by blast
qed

lemma handle_message_keys:
  assumes "handle_message E C f a t s = (t1, s1)"
  shows "tms_keys t1 = tms_keys t \<and> tms_fetched t1 = tms_fetched t"
proof -
  have token: "tms_keys t2 = tms_keys t \<and> tms_fetched t2 = tms_fetched t"
    if "get_access_token E C t s2 = (k, t2, s3)" for k t2 s2 s3
    using that by (auto simp: get_access_token_def split: if_splits prod.splits option.splits)
  have "tms_keys t2 = tms_keys t \<and> tms_fetched t2 = tms_fetched t"
    if "with_files E C a m t s2 = (m1, t2, s3)" for m m1 t2 s2 s3
    using that token by (auto simp: with_files_def split: if_splits prod.splits option.splits)
  then show ?thesis using assms by (auto simp: handle_message_def split: prod.splits option.splits)
qed

text \<open>
  C37: The webhook acts on a request only when it carries a genuine token, checked with keys fetched
  within the last six hours; any other request changes neither the known conversations nor the
  bot's token, and at most has signing keys fetched.
\<close>

theorem webhook_authenticated:
  assumes "handle_webhook E C f q t s = (status, t1, s1)" "wq_method q = ''POST''"
  shows "if status = 200
    then \<exists>s2. (s2 = s \<or> (\<exists>kid. s2 = snd (snd (get_key E kid t s))))
      \<and> genuine E C (tms_keys t1) (tv_now E s2) (wq_authorization q) \<and> tv_now E s2 - tms_fetched t1 < 6 * hour_ns
    else status \<in> {400, 401} \<and> tms_refs t1 = tms_refs t \<and> tms_token t1 = tms_token t
      \<and> (s1 = s \<or> (\<exists>kid. s1 = snd (snd (get_key E kid t s))))"
proof (cases "wq_authorization q = []")
  case True
  with assms show ?thesis by (auto simp: handle_webhook_def)
next
  case auth: False
  obtain r t2 s2 where v: "validate_jwt E C (wq_authorization q) t s = (r, t2, s2)" by (rule prod_cases3)
  note jwt = validate_jwt_genuine [OF v]
  show ?thesis
  proof (cases "(\<exists>e. r = Inl e) \<or> tv_read_activity E (wq_body q) = None")
    case True
    then have "status \<in> {400, 401}" "t1 = t2" "s1 = s2"
      using assms auth by (auto simp: handle_webhook_def v split: sum.splits)
    with jwt show ?thesis by auto
  next
    case False
    then obtain u a where a: "r = Inr u" "tv_read_activity E (wq_body q) = Some a" by (cases r) auto
    then have "status = 200 \<and> tms_keys t1 = tms_keys t2 \<and> tms_fetched t1 = tms_fetched t2"
      using assms auth by (auto simp: handle_webhook_def v Let_def split: if_splits dest: handle_message_keys)
    with jwt [of u] a(1) show ?thesis by auto
  qed
qed

definition demo_teams :: "unit teams_env" where
  "demo_teams = \<lparr>tv_now = (\<lambda>_. 0), tv_get = (\<lambda>_ s. (None, s)), tv_read_metadata = (\<lambda>_. None), tv_read_jwks = (\<lambda>_. None),
     tv_base64_url = Some, tv_read_header = (\<lambda>h. if h = ''h'' then Some (''k'', ''RS256'') else None),
     tv_read_claims = (\<lambda>p. if p = ''p'' then Some \<lparr>jc_aud = ''app'', jc_iss = ''https://api.botframework.com'',
       jc_exp = ''60'', jc_nbf = ''0'', jc_tid = []\<rparr> else None),
     tv_rsa_key = (\<lambda>c. if c = ''cert'' then Some ''key'' else None),
     tv_verify = (\<lambda>k signed sig. k = ''key'' \<and> signed = ''h.p'' \<and> sig = ''g''),
     tv_post_form = (\<lambda>_ _ s. (None, s)), tv_read_token = (\<lambda>_. None), tv_post = (\<lambda>_ _ _ s. (None, s)),
     tv_read_id = (\<lambda>_. None), tv_read_activity = (\<lambda>b. if b = ''typing'' then Some \<lparr>av_type = ''typing'', av_id = [],
       av_service_url = [], av_channel = [], av_from = \<lparr>ac_id = ''u'', ac_name = [], ac_aad_object = []\<rparr>,
       av_conversation = \<lparr>tcv_id = ''c'', tcv_name = [], tcv_type = [], tcv_tenant = []\<rparr>,
       av_recipient = \<lparr>ac_id = ''b'', ac_name = [], ac_aad_object = []\<rparr>, av_reply_to = [], av_text = [],
       av_entities = [], av_attachments = []\<rparr> else None),
     tv_download = (\<lambda>_ _ s. (None, s)), tv_temp_dir = (\<lambda>s. (None, s)), tv_write = (\<lambda>_ _ s. (False, s)),
     tv_uuid = (\<lambda>s. ([], s)), tv_handler = None\<rparr>"

definition demo_teams_config :: teams_config where
  "demo_teams_config = \<lparr>tmc_app_id = ''app'', tmc_password = ''x'', tmc_path = ''/t'', tmc_tenant = [], tmc_max_download = 0\<rparr>"

definition demo_teams_state :: teams where
  "demo_teams_state = new_teams\<lparr>tms_keys := [''k'' \<mapsto> [''old'', ''cert'']], tms_fetched := 0\<rparr>"

lemma webhook_authenticated_witness:
  "\<exists>keys. genuine demo_teams demo_teams_config keys 0 ''Bearer h.p.g''"
proof -
  let ?q = "\<lparr>wq_method = ''POST'', wq_authorization = ''Bearer h.p.g'', wq_body = ''typing''\<rparr>"
  obtain status t1 s1 where h: "handle_webhook demo_teams demo_teams_config [] ?q demo_teams_state () = (status, t1, s1)"
    by (rule prod_cases3)
  have "atoi ''60'' = Some 60" "atoi ''0'' = Some 0" by code_simp+
  with h have "status = 200"
    by (simp add: handle_webhook_def validate_jwt_def get_key_def validate_claims_def check_claims_def trim_prefix_def
        demo_teams_def demo_teams_config_def demo_teams_state_def new_teams_def hour_ns_def clock_skew_def minute_ns_def
        unix_time_def wrap64_def nanos_def Let_def)
  with webhook_authenticated [OF h] show ?thesis by (auto simp: demo_teams_def)
qed

section \<open>A long text arrives whole\<close>

lemma send_chunks_logged:
  assumes "\<And>url k a s log. snd (tv_post E url k a (s, log)) = (snd_state url k a s, log @ [a])"
    and "send_chunks E k r reply cs (s, log) = (Inr i, s1, log1)"
  shows "log1 = log @ (case cs of [] \<Rightarrow> [] | c # cs \<Rightarrow> text_activity r reply c # map (text_activity r []) cs)"
  using assms(2)
proof (induction cs arbitrary: reply s log i)
  case (Cons c cs)
  have post: "\<exists>x. tv_post E url k a (s, log) = (x, snd_state url k a s, log @ [a])" for url k a s log
    using assms(1) [of url k a s log] by (metis prod.collapse)
  obtain x s2 where x: "tv_post E (activities_url r) k (text_activity r reply c) (s, log) = (x, s2, log @ [text_activity r reply c])"
    using post [of "activities_url r" k "text_activity r reply c" s log] by blast
  then obtain i1 where "send_activity E k (text_activity r reply c) (s, log) = (Inr i1, s2, log @ [text_activity r reply c])"
    and "send_chunks E k r reply (c # cs) (s, log) = (case send_chunks E k r [] cs (s2, log @ [text_activity r reply c]) of
        (Inl e, s3) \<Rightarrow> (Inl e, s3) | (Inr _, s3) \<Rightarrow> (Inr i1, s3))"
    using Cons.prems by (auto simp: send_activity_def text_activity_def if_ok_def split: option.splits prod.splits sum.splits if_splits)
  then obtain j where "send_chunks E k r [] cs (s2, log @ [text_activity r reply c]) = (Inr j, s1, log1)"
    using Cons.prems by (auto split: prod.splits sum.splits)
  from Cons.IH [OF this] show ?case by (cases cs) simp_all
qed simp

text \<open>
  When sending a message succeeds, what was posted as text is the text of the message, in
  pieces of at most 4000 bytes and in order, and only the first piece is threaded under the message
  replied to.
\<close>

theorem teams_sends_whole_text:
  assumes "\<And>url k a s log. snd (tv_post E url k a (s, log)) = (snd_state url k a s, log @ [a])"
    and "send_chunks E k r (om_target m) (teams_split 4000 (om_content m)) (s, []) = (Inr i, s1, log)"
  shows "concat (map oa_text log) = om_content m \<and> (\<forall>a \<in> set log. length (oa_text a) \<le> 4000 \<and> oa_ref a = r)
    \<and> map oa_reply_to log = om_target m # replicate (length log - 1) []"
proof -
  let ?cs = "split_message 4000 (om_content m)"
  have ne: "?cs \<noteq> []" by (subst split_message_def) (simp add: split_rest.simps)
  then obtain c cs where c: "?cs = c # cs" by (cases ?cs) auto
  have log: "log = text_activity r (om_target m) c # map (text_activity r []) cs"
    using send_chunks_logged [OF assms(1) assms(2)] by (simp add: teams_split_def c)
  have whole: "concat (c # cs) = om_content m" "\<forall>p \<in> set (c # cs). length p \<le> 4000"
    using split_message_whole [of 4000 "om_content m"] unfolding c by auto
  have "map oa_text log = c # cs" by (simp add: log text_activity_def comp_def)
  with whole show ?thesis by (auto simp: log text_activity_def comp_def map_replicate_const)
qed

end
