(* ===== verification/Openai_Compat.thy ===== *)
theory Openai_Compat
  imports Llm Go_Path "HOL-Library.AList"
begin

text \<open>
  The provider plugin for OpenAI-compatible services, \<open>pkg/plugins/llm/openai_compat\<close>: the
  request it sends, the stream of events it reads and the answer it assembles from them. HTTP and
  \<open>encoding/json\<close> are parameters.
\<close>

section \<open>The request\<close>

record wire_message =
  wm_role :: role
  wm_content :: string
  wm_calls :: "tool_call list"
  wm_call_id :: string
  wm_name :: string

record wire_request =
  wr_model :: string
  wr_messages :: "wire_message list"
  wr_tools :: "tool_def list"
  wr_stream :: bool
  wr_include_usage :: bool

definition wire_message_of :: "message \<Rightarrow> wire_message" where
  "wire_message_of m = \<lparr>wm_role = ms_role m, wm_content = ms_content m, wm_calls = ms_tool_calls m,
     wm_call_id = ms_tool_call_id m, wm_name = (if ms_tool_call_id m \<noteq> [] then ms_tool_name m else [])\<rparr>"

definition build_request_body :: "request \<Rightarrow> wire_request" where
  "build_request_body q = \<lparr>wr_model = rq_model q, wr_messages = map wire_message_of (rq_messages q),
     wr_tools = rq_tools q, wr_stream = True, wr_include_usage = True\<rparr>"

section \<open>Chunks\<close>

record chunk_call =
  cc_index :: int
  cc_id :: string
  cc_name :: string
  cc_arguments :: string

record chunk_choice =
  ch_content :: string
  ch_calls :: "chunk_call list"
  ch_finish :: string

record chunk =
  ck_choices :: "chunk_choice list"
  ck_usage :: "(int \<times> int) option"

record accumulator =
  sa_content :: string
  sa_calls :: "(int \<times> tool_call) list"
  sa_finish :: string
  sa_in :: int
  sa_out :: int

definition new_accumulator :: accumulator where
  "new_accumulator = \<lparr>sa_content = [], sa_calls = [], sa_finish = [], sa_in = 0, sa_out = 0\<rparr>"

definition no_call :: tool_call where
  "no_call = \<lparr>tc_id = [], tc_name = [], tc_arguments = []\<rparr>"

definition call_at :: "int \<Rightarrow> (int \<times> tool_call) list \<Rightarrow> tool_call" where
  "call_at i cs = (case map_of cs i of None \<Rightarrow> no_call | Some c \<Rightarrow> c)"

definition extend_call :: "chunk_call \<Rightarrow> tool_call \<Rightarrow> tool_call" where
  "extend_call p c = \<lparr>tc_id = (if cc_id p \<noteq> [] then cc_id p else tc_id c),
     tc_name = (if cc_name p \<noteq> [] then cc_name p else tc_name c), tc_arguments = tc_arguments c @ cc_arguments p\<rparr>"

definition add_piece :: "chunk_call \<Rightarrow> (int \<times> tool_call) list \<Rightarrow> (int \<times> tool_call) list" where
  "add_piece p cs = AList.update (cc_index p) (extend_call p (call_at (cc_index p) cs)) cs"

definition add_usage :: "(int \<times> int) option \<Rightarrow> accumulator \<Rightarrow> accumulator" where
  "add_usage u a = (case u of None \<Rightarrow> a | Some (i, n) \<Rightarrow> a\<lparr>sa_in := i, sa_out := n\<rparr>)"

definition process_chunk :: "chunk \<Rightarrow> accumulator \<Rightarrow> accumulator" where
  "process_chunk k a = (case ck_choices k of
       [] \<Rightarrow> add_usage (ck_usage k) a
     | c # _ \<Rightarrow> add_usage (ck_usage k)
         (a\<lparr>sa_finish := (if ch_finish c \<noteq> [] then ch_finish c else sa_finish a),
            sa_content := sa_content a @ ch_content c, sa_calls := fold add_piece (ch_calls c) (sa_calls a)\<rparr>))"

definition finish_call :: "tool_call \<Rightarrow> tool_call" where
  "finish_call c = (if tc_arguments c = [] then c\<lparr>tc_arguments := ''{}''\<rparr> else c)"

text \<open>As many indices from zero as there are calls; a call with another index is left out.\<close>

definition stream_result :: "accumulator \<Rightarrow> response" where
  "stream_result a = \<lparr>rs_content = sa_content a,
     rs_tool_calls = map finish_call (List.map_filter (\<lambda>i. map_of (sa_calls a) (int i)) [0..<length (sa_calls a)]),
     rs_finish = sa_finish a, rs_tokens_in = sa_in a, rs_tokens_out = sa_out a, rs_endpoint = [], rs_model = []\<rparr>"

section \<open>The event stream\<close>

text \<open>
  \<open>bufio.ScanLines\<close> with a buffer of one megabyte: a line that fills the buffer is an error, a
  last line needs no end, a carriage return before the end is dropped.
\<close>

definition max_line :: nat where "max_line = 1048576"

definition drop_cr :: "string \<Rightarrow> string" where
  "drop_cr l = (if l \<noteq> [] \<and> last l = CHR 0x0D then butlast l else l)"

definition raw_lines :: "string \<Rightarrow> string list" where
  "raw_lines s = (let ls = split_on (CHR 0x0A) s in if last ls = [] then butlast ls else ls)"

datatype stream_error = LineTooLong | ReadFailed

text \<open>\<open>broken\<close>: reading the body fails after these lines.\<close>

fun read_events :: "(string \<Rightarrow> chunk option) \<Rightarrow> bool \<Rightarrow> string list \<Rightarrow> accumulator \<Rightarrow> stream_error + accumulator" where
  "read_events dec broken [] a = (if broken then Inl ReadFailed else Inr a)"
| "read_events dec broken (raw # ls) a =
     (if length raw \<ge> max_line then Inl LineTooLong
      else let line = drop_cr raw in
        if line = ''data: [DONE]'' then Inr a
        else if \<not> has_prefix line ''data: '' then read_events dec broken ls a
        else (case dec (trim_prefix line ''data: '') of
          None \<Rightarrow> read_events dec broken ls a
        | Some k \<Rightarrow> read_events dec broken ls (process_chunk k a)))"

definition parse_sse_stream :: "(string \<Rightarrow> chunk option) \<Rightarrow> string \<Rightarrow> bool \<Rightarrow> stream_error + response" where
  "parse_sse_stream dec bytes broken = (case read_events dec broken (raw_lines bytes) new_accumulator of
       Inl e \<Rightarrow> Inl e | Inr a \<Rightarrow> Inr (stream_result a))"

section \<open>The plugin\<close>

record openai_config =
  oc_endpoint_id :: string
  oc_api_base :: string
  oc_api_key :: string

definition openai_init :: "string \<Rightarrow> openai_config \<Rightarrow> string option" where
  "openai_init i C =
     (if oc_api_base C = [] then None
      else Some (if oc_endpoint_id C \<noteq> [] then ''llm.'' @ oc_endpoint_id C else if i \<noteq> [] then i else ''llm.openai_compat''))"

record llm_reply =
  lr_status :: int
  lr_retry_after :: string
  lr_body :: string
  lr_broken :: bool

text \<open>The service: a post with an optional bearer token, answered or not, and the clock.\<close>

record 'w llm_http =
  lh_post :: "string \<Rightarrow> string option \<Rightarrow> wire_request \<Rightarrow> 'w \<Rightarrow> llm_reply option \<times> 'w"
  lh_read_chunk :: "string \<Rightarrow> chunk option"
  lh_http_date :: "string \<Rightarrow> instant option"
  lh_now :: "'w \<Rightarrow> instant"

definition retry_after :: "'w llm_http \<Rightarrow> instant \<Rightarrow> llm_reply \<Rightarrow> int" where
  "retry_after H now r =
     (if lr_status r \<noteq> 429 \<or> lr_retry_after r = [] then 0
      else case atoi (lr_retry_after r) of
        Some n \<Rightarrow> wrap64 (n * nanos)
      | None \<Rightarrow> (case lh_http_date H (lr_retry_after r) of None \<Rightarrow> 0 | Some t \<Rightarrow> t - now))"

definition openai_complete :: "'w llm_http \<Rightarrow> openai_config \<Rightarrow> request \<Rightarrow> 'w \<Rightarrow> answer \<times> 'w" where
  "openai_complete H C q w =
     (case lh_post H (oc_api_base C @ ''/chat/completions'')
         (if oc_api_key C \<noteq> [] then Some (''Bearer '' @ oc_api_key C) else None) (build_request_body q) w of
        (None, w1) \<Rightarrow> (OtherErr, w1)
      | (Some r, w1) \<Rightarrow>
          (if lr_status r \<noteq> 200 then ProviderErr (retry_after H (lh_now H w1) r)
           else case parse_sse_stream (lh_read_chunk H) (lr_body r) (lr_broken r) of
             Inl _ \<Rightarrow> OtherErr | Inr rs \<Rightarrow> Answer rs, w1))"

section \<open>What the answer is made of\<close>

text \<open>The reference: a call is made of its pieces, in the order they came.\<close>

definition last_given :: "string list \<Rightarrow> string" where
  "last_given vs = (case rev (filter (\<lambda>v. v \<noteq> []) vs) of [] \<Rightarrow> [] | v # _ \<Rightarrow> v)"

definition call_of_pieces :: "chunk_call list \<Rightarrow> tool_call" where
  "call_of_pieces ps = \<lparr>tc_id = last_given (map cc_id ps), tc_name = last_given (map cc_name ps),
     tc_arguments = (let t = concat (map cc_arguments ps) in if t = [] then ''{}'' else t)\<rparr>"

definition calls_of :: "chunk \<Rightarrow> chunk_call list" where
  "calls_of k = (case ck_choices k of [] \<Rightarrow> [] | c # _ \<Rightarrow> ch_calls c)"

definition content_of :: "chunk \<Rightarrow> string" where
  "content_of k = (case ck_choices k of [] \<Rightarrow> [] | c # _ \<Rightarrow> ch_content c)"

lemma accumulated_calls: "sa_calls (fold process_chunk ks a) = fold add_piece (concat (map calls_of ks)) (sa_calls a)"
  by (induction ks arbitrary: a) (auto simp: process_chunk_def add_usage_def calls_of_def split: list.split option.split)

lemma accumulated_content: "sa_content (fold process_chunk ks a) = sa_content a @ concat (map content_of ks)"
  by (induction ks arbitrary: a) (auto simp: process_chunk_def add_usage_def content_of_def split: list.split option.split)

lemma extended_call:
  "fold extend_call ps no_call = \<lparr>tc_id = last_given (map cc_id ps), tc_name = last_given (map cc_name ps),
     tc_arguments = concat (map cc_arguments ps)\<rparr>"
  by (induction ps rule: rev_induct) (auto simp: no_call_def extend_call_def last_given_def)

lemma finished_call: "finish_call (fold extend_call ps no_call) = call_of_pieces ps"
proof -
  define t where "t = concat (map cc_arguments ps)"
  show ?thesis unfolding extended_call finish_call_def call_of_pieces_def Let_def t_def [symmetric] by simp
qed

lemma calls_by_index:
  "distinct (map fst (fold add_piece ps [])) \<and> fst ` set (fold add_piece ps []) = cc_index ` set ps
    \<and> (\<forall>i. map_of (fold add_piece ps []) i =
      (let qs = filter (\<lambda>p. cc_index p = i) ps in if qs = [] then None else Some (fold extend_call qs no_call)))"
proof (induction ps rule: rev_induct)
  case (snoc p ps)
  let ?cs = "fold add_piece ps []"
  have at: "call_at (cc_index p) ?cs = fold extend_call (filter (\<lambda>q. cc_index q = cc_index p) ps) no_call"
    using snoc by (simp add: call_at_def Let_def)
  have step: "fold add_piece (ps @ [p]) [] = AList.update (cc_index p) (extend_call p (call_at (cc_index p) ?cs)) ?cs"
    by (simp add: add_piece_def)
  have "fst ` set (fold add_piece (ps @ [p]) []) = insert (cc_index p) (fst ` set ?cs)"
    unfolding step by (simp add: update_conv' flip: dom_map_of_conv_image_fst)
  moreover have "map_of (fold add_piece (ps @ [p]) []) i =
      (let qs = filter (\<lambda>p. cc_index p = i) (ps @ [p]) in if qs = [] then None else Some (fold extend_call qs no_call))" for i
  proof (cases "cc_index p = i")
    case True
    then show ?thesis unfolding step using at by (simp add: update_conv')
  next
    case False
    then show ?thesis unfolding step using snoc by (simp add: update_conv')
  qed
  moreover have "distinct (map fst (fold add_piece (ps @ [p]) []))"
    unfolding step using snoc by (simp add: distinct_update)
  ultimately show ?case using snoc by simp
qed simp

lemma assembled_calls:
  assumes "cc_index ` set ps = int ` {0..<n}"
  shows "rs_tool_calls (stream_result (a\<lparr>sa_calls := fold add_piece ps []\<rparr>)) =
    map (\<lambda>i. call_of_pieces (filter (\<lambda>p. cc_index p = int i) ps)) [0..<n]"
proof -
  let ?cs = "fold add_piece ps []"
  have "length ?cs = card (fst ` set ?cs)"
    using calls_by_index [of ps] by (metis distinct_card length_map set_map)
  also have "\<dots> = n" using calls_by_index [of ps] assms by (simp add: card_image)
  finally have n: "length ?cs = n" .
  have got: "map_of ?cs (int i) = Some (fold extend_call (filter (\<lambda>p. cc_index p = int i) ps) no_call)" if "i < n" for i
  proof -
    have "int i \<in> cc_index ` set ps" using assms that by simp
    then have "filter (\<lambda>p. cc_index p = int i) ps \<noteq> []" by (auto simp: filter_empty_conv)
    with calls_by_index [of ps] show ?thesis by (simp add: Let_def)
  qed
  have "rs_tool_calls (stream_result (a\<lparr>sa_calls := ?cs\<rparr>)) = map finish_call (List.map_filter (\<lambda>i. map_of ?cs (int i)) [0..<n])"
    by (simp add: stream_result_def n)
  also have "List.map_filter (\<lambda>i. map_of ?cs (int i)) [0..<n] =
      map (\<lambda>i. fold extend_call (filter (\<lambda>p. cc_index p = int i) ps) no_call) [0..<n]"
    using got by (simp add: List.map_filter_def)
  also have "map finish_call \<dots> = map (\<lambda>i. call_of_pieces (filter (\<lambda>p. cc_index p = int i) ps)) [0..<n]"
    by (simp add: finished_call)
  finally show ?thesis .
qed

definition sse_event :: "string \<Rightarrow> string" where
  "sse_event d = ''data: '' @ d @ [CHR 0x0A, CHR 0x0A]"

lemma raw_lines_Cons:
  assumes "CHR 0x0A \<notin> set l"
  shows "raw_lines (l @ CHR 0x0A # s) = l # raw_lines s"
  using split_on_append [of "CHR 0x0A" l s] split_on_single [OF assms] split_on_nonempty [of "CHR 0x0A" s]
  by (auto simp: raw_lines_def Let_def)

definition plain_event :: "string \<Rightarrow> bool" where
  "plain_event d \<longleftrightarrow> CHR 0x0A \<notin> set d \<and> length d + 6 < max_line \<and> (d = [] \<or> last d \<noteq> CHR 0x0D) \<and> d \<noteq> ''[DONE]''"

lemma read_event:
  assumes "plain_event d" "dec d = Some k"
  shows "read_events dec broken (raw_lines (sse_event d @ s)) a = read_events dec broken (raw_lines s) (process_chunk k a)"
proof -
  have "raw_lines (sse_event d @ s) = (''data: '' @ d) # [] # raw_lines s"
    using assms(1) raw_lines_Cons [of "''data: '' @ d" "CHR 0x0A # s"] raw_lines_Cons [of "[]" s]
    by (simp add: sse_event_def plain_event_def)
  moreover have "drop_cr (''data: '' @ d) = ''data: '' @ d" using assms(1) by (auto simp: drop_cr_def plain_event_def)
  ultimately show ?thesis
    using assms by (simp add: plain_event_def max_line_def drop_cr_def has_prefix_iff trim_prefix_def Let_def)
qed


definition demo_chunk :: "string \<Rightarrow> chunk option" where
  "demo_chunk d =
     (if d = ''a'' then Some \<lparr>ck_choices = [\<lparr>ch_content = ''Wait'', ch_calls = [\<lparr>cc_index = 1, cc_id = ''c1'', cc_name = ''shell'', cc_arguments = ''{''\<rparr>], ch_finish = []\<rparr>], ck_usage = None\<rparr>
      else if d = ''b'' then Some \<lparr>ck_choices = [\<lparr>ch_content = [], ch_calls = [\<lparr>cc_index = 0, cc_id = ''c0'', cc_name = ''time'', cc_arguments = []\<rparr>], ch_finish = []\<rparr>], ck_usage = None\<rparr>
      else if d = ''c'' then Some \<lparr>ck_choices = [\<lparr>ch_content = ''...'', ch_calls = [\<lparr>cc_index = 1, cc_id = [], cc_name = [], cc_arguments = ''}''\<rparr>], ch_finish = ''tool_calls''\<rparr>], ck_usage = None\<rparr>
      else None)"


text \<open>A call whose number leaves a gap is lost.\<close>

lemma gap_loses_call:
  "rs_tool_calls (stream_result (process_chunk \<lparr>ck_choices = [\<lparr>ch_content = [],
     ch_calls = [\<lparr>cc_index = 1, cc_id = ''c'', cc_name = ''time'', cc_arguments = []\<rparr>], ch_finish = []\<rparr>], ck_usage = None\<rparr>
     new_accumulator)) = []"
  by (simp add: stream_result_def process_chunk_def add_usage_def new_accumulator_def add_piece_def call_at_def
      List.map_filter_simps)

end
