(* ===== verification/Secret_Form.thy ===== *)
theory Secret_Form
  imports Secrets
begin

text \<open>
  The page on which a user types secrets in, \<open>internal/app/gateway/secret.go\<close>. The one-time
  link of a request shows a form and takes its submission; the values go through the secret
  service and the conversation that asked is told. \<open>encoding/json\<close> is a parameter. A range
  over a Go map visits its keys in some order, and the three ranges of a submission need not agree.
\<close>

record form_env =
  fe_body :: "string \<Rightarrow> (string \<times> string) list option"
  fe_entry :: "string \<Rightarrow> (string \<times> string) option"
  fe_string :: "string \<Rightarrow> string option"
  fe_order :: "nat \<Rightarrow> string list \<Rightarrow> string list"
  fe_nonce :: "string \<Rightarrow> string"
  fe_callback :: "(message \<Rightarrow> world \<Rightarrow> bool \<times> world) option"

datatype form_page = ExpiredPage | FormPage "string list" string_map string

definition serve_form :: "string \<Rightarrow> world \<Rightarrow> form_page \<times> world" where
  "serve_form tok w = if_ok (validate_token tok w) (\<lambda>_ w1. (ExpiredPage, w1))
     (\<lambda>t w1. (FormPage (tk_keys t) (tk_modes t) tok, w1))"

section \<open>A submission\<close>

text \<open>A value is an object with a value or a mode, or else a plain string.\<close>

definition submission_of :: "form_env \<Rightarrow> string \<Rightarrow> (string \<times> string) option" where
  "submission_of E raw =
     (let flat = map_option (\<lambda>v. (v, SecretModeValue)) (fe_string E raw)
      in case fe_entry E raw of
        None \<Rightarrow> flat
      | Some (v, mode) \<Rightarrow> if v \<noteq> [] \<or> mode \<noteq> [] then Some (v, if mode = [] then SecretModeValue else mode) else flat)"

definition visit :: "(string list \<Rightarrow> string list) \<Rightarrow> (string \<times> 'a) list \<Rightarrow> (string \<times> 'a) list" where
  "visit order m = map (\<lambda>k. (k, the (map_of m k))) (order (map fst m))"

text \<open>The first key whose value cannot be read, or all of them read.\<close>

fun read_submissions :: "form_env \<Rightarrow> (string \<times> string) list \<Rightarrow> string + (string \<times> string \<times> string) list" where
  "read_submissions E [] = Inr []"
| "read_submissions E ((k, raw) # m) = (case submission_of E raw of
     None \<Rightarrow> Inl k
   | Some (v, mode) \<Rightarrow> (case read_submissions E m of Inl b \<Rightarrow> Inl b | Inr subs \<Rightarrow> Inr ((k, v, mode) # subs)))"

definition notify_message :: "secret_token \<Rightarrow> string \<Rightarrow> string list \<Rightarrow> message" where
  "notify_message t i names = zero_message\<lparr>ms_id := i, ms_kind := KindMessage, ms_role := RoleUser,
     ms_content := ''The secrets were set: '' @ join '', '' names
       @ ''. If there was a pending task that required these credentials, continue with it.'',
     ms_tenant := tk_tenant t, ms_user := tk_user t, ms_conv := tk_conv t, ms_chat := tk_chat t\<rparr>"

datatype submit_answer = BadBody | LinkDead | BadValue string | SaveFailed | Saved

definition submit_status :: "submit_answer \<Rightarrow> int" where
  "submit_status a = (case a of Saved \<Rightarrow> 200 | SaveFailed \<Rightarrow> 500 | _ \<Rightarrow> 400)"

definition told :: "form_env \<Rightarrow> message \<Rightarrow> world \<Rightarrow> world" where
  "told E m w = (case fe_callback E of None \<Rightarrow> w | Some f \<Rightarrow> snd (f m w))"

definition handle_submit :: "form_env \<Rightarrow> cipher \<Rightarrow> string \<Rightarrow> string \<Rightarrow> world \<Rightarrow> submit_answer \<times> world" where
  "handle_submit E ci tok body w = (case fe_body E body of
       None \<Rightarrow> (BadBody, w)
     | Some raw \<Rightarrow> if_ok (validate_token tok w) (\<lambda>_ w1. (LinkDead, w1)) (\<lambda>t w1.
         case read_submissions E (visit (fe_order E 0) raw) of
           Inl k \<Rightarrow> (BadValue k, w1)
         | Inr subs \<Rightarrow>
             if_ok (consume_token ci tok (map (\<lambda>(k, v, mode). (k, v, mode, fe_nonce E k)) (visit (fe_order E 1) subs)) w1)
               (\<lambda>_ w2. (SaveFailed, w2))
               (\<lambda>_ w2. case new_id w2 of (i, w3) \<Rightarrow>
                 (Saved, told E (notify_message t i (fe_order E 2 (map fst subs))) w3))))"

section \<open>What a saved submission has done\<close>

lemma visit_same:
  assumes "distinct (map fst m)" "mset (order (map fst m)) = mset (map fst m)"
  shows "mset (visit order m) = mset m"
proof -
  have "mset (visit order m) = image_mset (\<lambda>k. (k, the (map_of m k))) (mset (map fst m))"
    unfolding visit_def using assms(2) by (metis mset_map)
  also have "\<dots> = image_mset (\<lambda>p. (fst p, the (map_of m (fst p)))) (mset m)" by (simp add: multiset.map_comp comp_def)
  also have "\<dots> = image_mset id (mset m)"
    by (rule image_mset_cong) (use assms(1) in auto)
  finally show ?thesis by simp
qed

lemma read_submissions_ok:
  "read_submissions E m = Inr subs \<Longrightarrow> map fst subs = map fst m
    \<and> (\<forall>k raw. (k, raw) \<in> set m \<longrightarrow> (\<exists>v mode. submission_of E raw = Some (v, mode) \<and> (k, v, mode) \<in> set subs))"
proof (induction E m arbitrary: subs rule: read_submissions.induct)
  case (2 E k raw m)
  then obtain v mode subs' where s: "submission_of E raw = Some (v, mode)" "read_submissions E m = Inr subs'"
    "subs = (k, v, mode) # subs'" by (auto split: option.splits sum.splits)
  from "2.IH" [OF s(1) refl s(2)] s show ?case by fastforce
qed simp

lemma read_visited:
  assumes "read_submissions E (visit (order 0) raw) = Inr subs" "distinct (map fst raw)" "\<And>n ks. mset (order n ks) = mset ks"
  shows "distinct (map fst (visit (order 1) subs))
    \<and> (\<forall>k q. (k, q) \<in> set raw \<longrightarrow> (\<exists>v mode. submission_of E q = Some (v, mode) \<and> (k, v, mode) \<in> set (visit (order 1) subs)))"
proof -
  note read = read_submissions_ok [OF assms(1)]
  have raw: "mset (visit (order 0) raw) = mset raw" by (rule visit_same) (simp_all add: assms(2,3))
  then have "mset (map fst subs) = mset (map fst raw)" using read by (metis mset_map)
  then have ds: "distinct (map fst subs)" using assms(2) by (metis mset_eq_imp_distinct_iff)
  have subs: "mset (visit (order 1) subs) = mset subs" by (rule visit_same) (simp_all add: ds assms(3))
  then have "mset (map fst (visit (order 1) subs)) = mset (map fst subs)" by (metis mset_map)
  with ds have "distinct (map fst (visit (order 1) subs))" by (metis mset_eq_imp_distinct_iff)
  moreover have "set (visit (order 1) subs) = set subs" "set (visit (order 0) raw) = set raw"
    using subs raw by (metis set_mset_mset)+
  ultimately show ?thesis using read by simp
qed

lemma store_values_stored:
  assumes "store_values ci tid uid vs w = (Inr (), w')" "distinct (map fst vs)"
  shows "(k, v, mode, nonce) \<in> set vs \<Longrightarrow>
      \<exists>r. find (secret_at tid uid k) (d_secrets (w_db w')) = Some r \<and> sc_value r = encrypt ci nonce v"
    and "k \<notin> fst ` set vs \<Longrightarrow>
      find (secret_at tid uid k) (d_secrets (w_db w')) = find (secret_at tid uid k) (d_secrets (w_db w))"
    and "d_tokens (w_db w') = d_tokens (w_db w)"
proof -
  have "((k, v, mode, nonce) \<in> set vs \<longrightarrow>
      (\<exists>r. find (secret_at tid uid k) (d_secrets (w_db w')) = Some r \<and> sc_value r = encrypt ci nonce v))
    \<and> (k \<notin> fst ` set vs \<longrightarrow>
      find (secret_at tid uid k) (d_secrets (w_db w')) = find (secret_at tid uid k) (d_secrets (w_db w)))
    \<and> d_tokens (w_db w') = d_tokens (w_db w)" for k v mode nonce
    using assms
  proof (induction ci tid uid vs w rule: store_values.induct)
    case (2 ci tid uid k1 v1 mode1 nonce1 vs w)
    then obtain w1 where w1: "set_secret ci nonce1 tid uid k1 v1 (if mode1 = [] then SecretModeValue else mode1) w = (Inr (), w1)"
      "store_values ci tid uid vs w1 = (Inr (), w')"
      by (auto simp: if_ok_def split: prod.splits sum.splits)
    from "2.IH" [OF w1(2)] "2.prems"(2) have rest: "((k, v, mode, nonce) \<in> set vs \<longrightarrow>
      (\<exists>r. find (secret_at tid uid k) (d_secrets (w_db w')) = Some r \<and> sc_value r = encrypt ci nonce v))
    \<and> (k \<notin> fst ` set vs \<longrightarrow>
      find (secret_at tid uid k) (d_secrets (w_db w')) = find (secret_at tid uid k) (d_secrets (w_db w1)))
    \<and> d_tokens (w_db w') = d_tokens (w_db w1)" by simp
    note first = set_secret_stored [OF w1(1)]
    show ?case
    proof (cases "k = k1")
      case True
      then have "k \<notin> fst ` set vs" using "2.prems"(2) by simp
      then have "(k, v, mode, nonce) \<notin> set vs" by force
      with rest first(1) first(3) True \<open>k \<notin> fst ` set vs\<close> show ?thesis by auto
    next
      case False
      with first(2) [of tid uid k] first(3) rest show ?thesis by auto
    qed
  qed auto
  then show "(k, v, mode, nonce) \<in> set vs \<Longrightarrow>
      \<exists>r. find (secret_at tid uid k) (d_secrets (w_db w')) = Some r \<and> sc_value r = encrypt ci nonce v"
    and "k \<notin> fst ` set vs \<Longrightarrow>
      find (secret_at tid uid k) (d_secrets (w_db w')) = find (secret_at tid uid k) (d_secrets (w_db w))"
    and "d_tokens (w_db w') = d_tokens (w_db w)" by blast+
qed

lemma validated_token:
  assumes "validate_token tok w = (Inr t, w1)"
  shows "token_of tok (w_db w) = Some t \<and> \<not> tk_used t \<and> w_now w \<le> tk_expires_at t \<and> w_db w1 = w_db w \<and> w_now w1 = w_now w"
  using assms by (auto simp: validate_token_def get_secret_token_def db_query_def if_ok_def Let_def
      split: if_splits option.splits)

lemma consumed_token:
  assumes "consume_token ci tok vs w = (Inr (), w')" "distinct (map fst vs)"
  obtains t where "token_of tok (w_db w) = Some t"
    and "\<And>k v mode nonce. (k, v, mode, nonce) \<in> set vs \<Longrightarrow>
      \<exists>r. find (secret_at (tk_tenant t) (tk_user t) k) (d_secrets (w_db w')) = Some r \<and> sc_value r = encrypt ci nonce v"
    and "token_spent tok (w_db w')"
proof -
  obtain t w1 w2 where s: "validate_token tok w = (Inr t, w1)"
    "store_values ci (tk_tenant t) (tk_user t) vs w1 = (Inr (), w2)" "consume_secret_token tok w2 = (Inr (), w')"
    using assms(1) by (auto simp: consume_token_def if_ok_def split: prod.splits sum.splits)
  have "d_secrets (w_db w') = d_secrets (w_db w2)"
    using s(3) by (auto simp: consume_secret_token_def db_exec_def Let_def split: if_splits)
  then have "\<exists>r. find (secret_at (tk_tenant t) (tk_user t) k) (d_secrets (w_db w')) = Some r \<and> sc_value r = encrypt ci nonce v"
    if "(k, v, mode, nonce) \<in> set vs" for k v mode nonce
    using store_values_stored(1) [OF s(2) assms(2) that] by simp
  moreover have "token_spent tok (w_db w')" using token.marks [OF s(3)] by simp
  ultimately show ?thesis using that validated_token [OF s(1)] by blast
qed

lemma spent_link_dead:
  assumes "token_spent tok (w_db w)"
  shows "fst (handle_submit E ci tok body w) \<noteq> Saved"
proof -
  have "\<exists>e w1. validate_token tok w = (Inl e, w1)"
  proof (cases "token_of tok (w_db w)")
    case (Some t)
    then have "t \<in> set (d_tokens (w_db w))" "tk_id t = tok" by (auto simp: token_of_def find_Some_iff)
    then have "tk_used t" using assms by (auto simp: token_spent_def token_free_def list_ex_iff)
    with Some show ?thesis by (auto simp: validate_token_def get_secret_token_def db_query_def if_ok_def Let_def)
  qed (auto simp: validate_token_def get_secret_token_def db_query_def if_ok_def Let_def)
  then show ?thesis by (auto simp: handle_submit_def if_ok_def split: option.split)
qed

text \<open>
  C39: A submission that is answered with success came in time over an unused link; each value in
  it reads back, unsealed, under its key for the tenant and user who asked; the message handed on
  goes to the conversation that asked; and whatever the store does later, the link takes no second
  submission.
\<close>

theorem submission_saved_once:
  assumes "handle_submit E ci tok body w = (Saved, w')" "fe_body E body = Some raw" "distinct (map fst raw)"
    and "\<And>n ks. mset (fe_order E n ks) = mset ks"
    and "cipher_ok ci" "\<And>k. length (fe_nonce E k) = nonce_size"
  shows "\<exists>t w1 m. token_of tok (w_db w) = Some t \<and> \<not> tk_used t \<and> w_now w \<le> tk_expires_at t
    \<and> (\<forall>(k, r) \<in> set raw. \<exists>v mode. submission_of E r = Some (v, mode)
        \<and> (w_faults w1 = [] \<longrightarrow> fst (get_secret_value ci (tk_tenant t) (tk_user t) k w1) = Inr v))
    \<and> w' = told E m w1 \<and> ms_conv m = tk_conv t \<and> ms_tenant m = tk_tenant t \<and> ms_user m = tk_user t
    \<and> (\<forall>w2 E2 ci2 body2. store_step\<^sup>*\<^sup>* w1 w2 \<longrightarrow> fst (handle_submit E2 ci2 tok body2 w2) \<noteq> Saved)"
proof -
  obtain t w1 subs w2 where v: "validate_token tok w = (Inr t, w1)"
    and r: "read_submissions E (visit (fe_order E 0) raw) = Inr subs"
    and c: "consume_token ci tok (map (\<lambda>(k, v, mode). (k, v, mode, fe_nonce E k)) (visit (fe_order E 1) subs)) w1 = (Inr (), w2)"
    and w': "w' = told E (notify_message t (fst (new_id w2)) (fe_order E 2 (map fst subs))) (snd (new_id w2))"
    using assms(1) by (auto simp: handle_submit_def assms(2) if_ok_def split: prod.splits sum.splits)
  let ?vs = "map (\<lambda>(k, v, mode). (k, v, mode, fe_nonce E k)) (visit (fe_order E 1) subs)"
  note valid = validated_token [OF v] and read = read_visited [of E "fe_order E", OF r assms(3,4)]
  have keys: "map fst ?vs = map fst (visit (fe_order E 1) subs)" by (simp add: comp_def case_prod_beta)
  have "distinct (map fst ?vs)" unfolding keys using read by blast
  from consumed_token [OF c this] obtain t' where t': "token_of tok (w_db w1) = Some t'"
    "\<And>k v mode nonce. (k, v, mode, nonce) \<in> set ?vs \<Longrightarrow>
      \<exists>r. find (secret_at (tk_tenant t') (tk_user t') k) (d_secrets (w_db w2)) = Some r \<and> sc_value r = encrypt ci nonce v"
    "token_spent tok (w_db w2)" by blast
  from t'(1) valid have t: "t' = t" by simp
  let ?w3 = "snd (new_id w2)"
  have w3: "w_db ?w3 = w_db w2" by (simp add: new_id_def)
  have stored: "\<exists>v mode. submission_of E q = Some (v, mode)
      \<and> (w_faults ?w3 = [] \<longrightarrow> fst (get_secret_value ci (tk_tenant t) (tk_user t) k ?w3) = Inr v)" if "(k, q) \<in> set raw" for k q
  proof -
    from read that obtain v mode where s: "submission_of E q = Some (v, mode)" "(k, v, mode) \<in> set (visit (fe_order E 1) subs)"
      by blast
    from s(2) have "(k, v, mode, fe_nonce E k) \<in> set ?vs" by force
    from t'(2) [OF this] obtain r where "find (secret_at (tk_tenant t) (tk_user t) k) (d_secrets (w_db w2)) = Some r"
      "sc_value r = encrypt ci (fe_nonce E k) v" unfolding t by blast
    then have "w_faults ?w3 = [] \<longrightarrow> fst (get_secret_value ci (tk_tenant t) (tk_user t) k ?w3) = Inr v"
      using decrypt_encrypt [OF assms(5,6)]
      by (simp add: get_secret_value_def get_secret_def db_query_def faulty_def if_ok_def Let_def w3)
    with s(1) show ?thesis by blast
  qed
  have "token_spent tok (w_db u)" if "store_step\<^sup>*\<^sup>* ?w3 u" for u
    by (rule token.lasting_steps [OF that]) (simp add: w3 t'(3))
  then have dead: "\<forall>u E2 ci2 body2. store_step\<^sup>*\<^sup>* ?w3 u \<longrightarrow> fst (handle_submit E2 ci2 tok body2 u) \<noteq> Saved"
    using spent_link_dead by blast
  show ?thesis
    by (rule exI [of _ t], rule exI [of _ ?w3], rule exI [of _ "notify_message t (fst (new_id w2)) (fe_order E 2 (map fst subs))"])
      (use valid stored w' dead in \<open>auto simp: notify_message_def\<close>)
qed

definition demo_form :: form_env where
  "demo_form = \<lparr>fe_body = (\<lambda>b. if b = ''post'' then Some [(''API_KEY'', ''hunter2'')] else None), fe_entry = (\<lambda>_. None),
     fe_string = Some, fe_order = (\<lambda>_ ks. ks), fe_nonce = (\<lambda>_. ''0123456789ab''), fe_callback = None\<rparr>"

definition demo_asked :: world where
  "demo_asked = demo_world\<lparr>w_db := empty_db\<lparr>d_tokens := [demo_token]\<rparr>\<rparr>"

lemma submission_saved_once_witness:
  "\<exists>w1. token_of ''tok'' (w_db demo_asked) \<noteq> None \<and> fst (handle_submit demo_form demo_cipher ''tok'' ''post'' w1) \<noteq> Saved
    \<and> fst (handle_submit demo_form demo_cipher ''tok'' ''post'' demo_asked) = Saved"
proof -
  define w' where "w' = snd (handle_submit demo_form demo_cipher ''tok'' ''post'' demo_asked)"
  have ok: "fst (handle_submit demo_form demo_cipher ''tok'' ''post'' demo_asked) = Saved" by code_simp
  then have h: "handle_submit demo_form demo_cipher ''tok'' ''post'' demo_asked = (Saved, w')"
    by (simp add: w'_def prod_eq_iff)
  have "\<exists>t w1 m. token_of ''tok'' (w_db demo_asked) = Some t \<and> \<not> tk_used t \<and> w_now demo_asked \<le> tk_expires_at t
    \<and> (\<forall>(k, r) \<in> set [(''API_KEY'', ''hunter2'')]. \<exists>v mode. submission_of demo_form r = Some (v, mode)
        \<and> (w_faults w1 = [] \<longrightarrow> fst (get_secret_value demo_cipher (tk_tenant t) (tk_user t) k w1) = Inr v))
    \<and> w' = told demo_form m w1 \<and> ms_conv m = tk_conv t \<and> ms_tenant m = tk_tenant t \<and> ms_user m = tk_user t
    \<and> (\<forall>w2 E2 ci2 body2. store_step\<^sup>*\<^sup>* w1 w2 \<longrightarrow> fst (handle_submit E2 ci2 ''tok'' body2 w2) \<noteq> Saved)"
    by (rule submission_saved_once [OF h])
      (simp_all add: demo_form_def demo_cipher_def cipher_ok_def nonce_size_def)
  with ok show ?thesis by (metis option.distinct(1) rtranclp.rtrancl_refl)
qed

end
