(* ===== verification/Runtime.thy ===== *)
theory Runtime
  imports Config Bus
begin

text \<open>
  Bringing the process up and down, \<open>internal/app/agent/runtime.go\<close> and \<open>builtin.go\<close>,
  \<open>pkg/runtime\<close> and the health endpoints of \<open>internal/app/gateway\<close>. What a plugin does
  when it is initialised, started or stopped, and the interfaces its object has, are parameters;
  a plugin's interfaces are named in \<open>pl_implements\<close>. The dependencies that
  \<open>Start\<close> hands to plugins are listed, not followed.
\<close>

section \<open>State of the process\<close>

datatype runtime_state = StateStarting | StateStopped | StateReady | StateDraining

definition state_string :: "runtime_state \<Rightarrow> string" where
  "state_string s = (case s of StateStarting \<Rightarrow> ''starting'' | StateStopped \<Rightarrow> ''stopped''
     | StateReady \<Rightarrow> ''ready'' | StateDraining \<Rightarrow> ''draining'')"

text \<open>\<open>/readyz\<close>: the status, the state and the state of each plugin.\<close>

definition readyz :: "runtime_state \<Rightarrow> (string \<times> string) list \<Rightarrow> int \<times> string \<times> (string \<times> string) list" where
  "readyz s plugins = (if s \<noteq> StateReady then 503 else 200, state_string s, plugins)"

section \<open>Built-in plugins\<close>

definition registered_tools :: "(string \<Rightarrow> plugin) \<Rightarrow> (string \<Rightarrow> string) \<Rightarrow> string \<Rightarrow> builtin list" where
  "registered_tools new_plugin timezone_json tz =
     (let cfg = (if tz \<noteq> [] then Some (timezone_json tz) else None);
          plain = (\<lambda>i. \<lparr>bi_plugin = new_plugin i, bi_id = i, bi_config = None\<rparr>);
          timed = (\<lambda>i. \<lparr>bi_plugin = new_plugin i, bi_id = i, bi_config = cfg\<rparr>)
      in [plain ''tool.memory_get'', plain ''tool.memory_update'', plain ''tool.journal_append'',
          plain ''tool.journal_search'', plain ''tool.message'', timed ''tool.time'', plain ''tool.history_search'',
          plain ''tool.history_get'', timed ''tool.cron_create'', timed ''tool.cron_list'',
          timed ''tool.cron_set_status'', plain ''tool.secret_request'', plain ''tool.secret_set'',
          plain ''tool.secret_list'', plain ''tool.secret_delete''])"

definition builtin_middlewares :: "(string \<Rightarrow> plugin) \<Rightarrow> builtin list" where
  "builtin_middlewares new_plugin = map (\<lambda>i. \<lparr>bi_plugin = new_plugin i, bi_id = i, bi_config = None\<rparr>)
     [''middleware.replyto'', ''middleware.reacted'', ''middleware.noreply'']"

section \<open>What is taken from the registry\<close>

record channel_entry =
  ce_plugin :: plugin
  ce_indication :: bool
  ce_reactions :: bool

definition typed_plugin :: "registry \<Rightarrow> string \<Rightarrow> string \<Rightarrow> plugin option" where
  "typed_plugin r kind i = (case rg_by_id r (qualify_id kind i) of
       None \<Rightarrow> None | Some p \<Rightarrow> if kind \<in> set (pl_implements p) then Some p else None)"

definition tool_map :: "(plugin \<Rightarrow> string) \<Rightarrow> registry \<Rightarrow> string \<Rightarrow> plugin option" where
  "tool_map name r = fold (\<lambda>p m. if PluginKindTool \<in> set (pl_implements p) then m(name p \<mapsto> p) else m)
     (rg_by_kind r PluginKindTool) (\<lambda>_. None)"

text \<open>The middlewares the configuration names, in its order, then those it does not name.\<close>

definition middleware_at :: "registry \<Rightarrow> string \<Rightarrow> plugin option" where
  "middleware_at r i = (case rg_by_id r i of
       None \<Rightarrow> None | Some p \<Rightarrow> if PluginKindMiddleware \<in> set (pl_implements p) then Some p else None)"

definition middleware_chain :: "registry \<Rightarrow> string list \<Rightarrow> plugin list" where
  "middleware_chain r ids =
     (let named = map (\<lambda>i. ''middleware.'' @ i) ids
      in List.map_filter (middleware_at r) named
         @ filter (\<lambda>p. config_id r p \<notin> set named \<and> PluginKindMiddleware \<in> set (pl_implements p))
             (rg_by_kind r PluginKindMiddleware))"

definition channel_map :: "(plugin \<Rightarrow> string) \<Rightarrow> registry \<Rightarrow> string \<Rightarrow> channel_entry option" where
  "channel_map live_id r = fold (\<lambda>p m. if PluginKindChannel \<in> set (pl_implements p)
       then m(live_id p \<mapsto> \<lparr>ce_plugin = p, ce_indication = (''indicator'' \<in> set (pl_implements p)),
         ce_reactions = (''reaction'' \<in> set (pl_implements p))\<rparr>) else m)
     (rg_by_kind r PluginKindChannel) (\<lambda>_. None)"

text \<open>The setters called on a plugin, in order.\<close>

definition injections :: "plugin \<Rightarrow> string list" where
  "injections p = filter (\<lambda>a. a \<in> set (pl_implements p))
     [''StoreAware'', ''TransportAware'', ''ConversationAware'', ''SandboxAware'', ''SecretAware'']"

section \<open>Start\<close>

datatype start_failure = LoadFailed load_error | InitFailed string | NoTransport | NoStore | BadEncryptionKey
  | NoLlmPlugin | NoSandbox | NoAbsolutePath | SubscribeFailed string | BadRouting route_error | BadCompaction
  | BadTurnTimeout | BadPollInterval | PluginStartFailed string

record 'w host =
  ho_lib :: "string \<Rightarrow> shared_object option"
  ho_lifecycle :: "'w lifecycle"
  ho_name :: "plugin \<Rightarrow> string"
  ho_live_id :: "plugin \<Rightarrow> string"
  ho_middleware_ids :: "plugin \<Rightarrow> string list option"
  ho_abs :: "string \<Rightarrow> string option"
  ho_duration :: "string \<Rightarrow> int option"
  ho_subscribe :: "plugin \<Rightarrow> string \<Rightarrow> 'w \<Rightarrow> bool \<times> 'w"
  ho_scheduler_start :: "'w \<Rightarrow> 'w"
  ho_scheduler_stop :: "'w \<Rightarrow> 'w"
  ho_drain :: "'w \<Rightarrow> string option \<times> 'w"
  ho_set_state :: "runtime_state \<Rightarrow> 'w \<Rightarrow> 'w"

record agent_runtime =
  ag_registry :: registry
  ag_transport :: plugin
  ag_store :: plugin
  ag_sandbox :: plugin
  ag_llm :: "string \<Rightarrow> plugin option"
  ag_tools :: "string \<Rightarrow> plugin option"
  ag_middleware :: "plugin list option"
  ag_channels :: "string \<Rightarrow> channel_entry option"

definition wire :: "'w host \<Rightarrow> config \<Rightarrow> registry \<Rightarrow> start_failure + agent_runtime" where
  "wire H c r = (case typed_plugin r PluginKindTransport (ps_plugin_id (cf_transport c)) of
       None \<Rightarrow> Inl NoTransport
     | Some tp \<Rightarrow> (case typed_plugin r PluginKindStore (ps_plugin_id (cf_store c)) of
         None \<Rightarrow> Inl NoStore
       | Some st \<Rightarrow>
           if hex_length (rs_encryption_key (cf_runtime c)) \<noteq> Some 32 then Inl BadEncryptionKey
           else if list_all (\<lambda>e. llm_plugins c r (ep_id e) = None) (concat (map dr_endpoints (cf_drivers c)))
           then Inl NoLlmPlugin
           else (case typed_plugin r PluginKindSandbox (ps_plugin_id (cf_sandbox c)) of
             None \<Rightarrow> Inl NoSandbox
           | Some sb \<Rightarrow>
               if ho_abs H (rs_data_dir (cf_runtime c)) = None \<or> ho_abs H (rs_skills_dir (cf_runtime c)) = None
               then Inl NoAbsolutePath
               else Inr \<lparr>ag_registry = r, ag_transport = tp, ag_store = st, ag_sandbox = sb, ag_llm = llm_plugins c r,
                 ag_tools = tool_map (ho_name H) r,
                 ag_middleware = map_option (middleware_chain r) (ho_middleware_ids H tp),
                 ag_channels = channel_map (ho_live_id H) r\<rparr>)))"

text \<open>The router, the compaction service and the configuration of the loop.\<close>

definition new_services :: "'w host \<Rightarrow> config \<Rightarrow> start_failure + route list" where
  "new_services H c = (case new_router (ro_primary (cf_routing c)) (ro_fallback (cf_routing c)) of
       Inl e \<Rightarrow> Inl (BadRouting e)
     | Inr chain \<Rightarrow>
         if (case cf_compaction c of None \<Rightarrow> False | Some cc \<Rightarrow> trim_space (cs_model cc) = [] \<or> cs_preserve cc \<le> 0)
         then Inl BadCompaction
         else if ho_duration H (as_turn_timeout (cf_agent c)) = None then Inl BadTurnTimeout
         else Inr chain)"

definition subscribe_all :: "'w host \<Rightarrow> config \<Rightarrow> agent_runtime \<Rightarrow> 'w \<Rightarrow> (start_failure + unit) \<times> 'w" where
  "subscribe_all H c rt w = (case ho_subscribe H (ag_transport rt) TopicOutbound w of
       (False, w1) \<Rightarrow> (Inl (SubscribeFailed TopicOutbound), w1)
     | (True, w1) \<Rightarrow> (case new_services H c of
         Inl e \<Rightarrow> (Inl e, w1)
       | Inr _ \<Rightarrow> (case ho_subscribe H (ag_transport rt) TopicInbound w1 of
           (False, w2) \<Rightarrow> (Inl (SubscribeFailed TopicInbound), w2)
         | (True, w2) \<Rightarrow>
             (if ho_duration H (rs_poll_interval (cf_runtime c)) = None then Inl BadPollInterval else Inr (), w2))))"

text \<open>When starting fails, \<open>cleanup\<close> stops the manager once more; then nothing is left to stop.\<close>

definition start_runtime :: "'w host \<Rightarrow> builtin list \<Rightarrow> builtin list \<Rightarrow> nat \<Rightarrow> config \<Rightarrow> 'w
    \<Rightarrow> (start_failure + agent_runtime) \<times> 'w manager" where
  "start_runtime H tools mws addr c w =
     (let L = ho_lifecycle H; m = \<lparr>mg_started = [], mg_world = w\<rparr> in
      case load_into (ho_lib H) addr (loader_entries c) (register_builtins (tools @ mws) new_registry) of
        (Inl e, _) \<Rightarrow> (Inl (LoadFailed e), m)
      | (Inr _, r) \<Rightarrow> (case manager_init L r (merged_configs tools c) m of
          (Inl e, m1) \<Rightarrow> (Inl (InitFailed e), m1)
        | (Inr _, m1) \<Rightarrow> (case wire H c r of
            Inl e \<Rightarrow> (Inl e, m1)
          | Inr rt \<Rightarrow> (case subscribe_all H c rt (mg_world m1) of
              (Inl e, w2) \<Rightarrow> (Inl e, m1\<lparr>mg_world := w2\<rparr>)
            | (Inr _, w2) \<Rightarrow> (case manager_start L r (m1\<lparr>mg_world := w2\<rparr>) of
                (Inl e, m3) \<Rightarrow> (Inl (PluginStartFailed e), snd (manager_stop L m3))
              | (Inr _, m3) \<Rightarrow> (Inr rt, m3\<lparr>mg_world := ho_scheduler_start H (mg_world m3)\<rparr>))))))"

section \<open>Shutdown\<close>

text \<open>The channels in the order of a range over their map.\<close>

definition shutdown_runtime :: "'w host \<Rightarrow> plugin list \<Rightarrow> 'w manager \<Rightarrow> string list \<times> 'w manager" where
  "shutdown_runtime H channels m =
     (let L = ho_lifecycle H;
          (e1, w1) = stop_plugins L channels (ho_set_state H StateDraining (mg_world m));
          (e2, w2) = ho_drain H (ho_scheduler_stop H w1);
          (e3, m3) = manager_stop L (m\<lparr>mg_world := w2\<rparr>)
      in (e1 @ (case e2 of None \<Rightarrow> [] | Some e \<Rightarrow> [e]) @ (case e3 of Inl es \<Rightarrow> es | Inr _ \<Rightarrow> []),
          m3\<lparr>mg_world := ho_set_state H StateStopped (mg_world m3)\<rparr>))"

section \<open>An accepted configuration is wired\<close>

lemma accepted_wired:
  assumes "finish_load c0 = Inr c" "\<forall>s \<in> set (ro_primary (cf_routing c) # ro_fallback (cf_routing c)). names_model s"
    and "load_into (ho_lib H) addr (loader_entries c) (register_builtins bs new_registry) = (Inr (), r)"
    and "ho_abs H (rs_data_dir (cf_runtime c)) \<noteq> None" "ho_abs H (rs_skills_dir (cf_runtime c)) \<noteq> None"
  shows "\<exists>rt. wire H c r = Inr rt"
proof -
  have "validate c = []" using assms(1) by (auto simp: finish_load_def Let_def split: if_splits)
  then obtain chain where "new_router (ro_primary (cf_routing c)) (ro_fallback (cf_routing c)) = Inr chain"
    "rt_endpoint ` set chain \<subseteq> set (enabled_endpoints c)"
    using validated_routes_parse [OF _ assms(2)] by blast
  moreover from this obtain rt rts where "chain = rt # rts"
    by (cases chain) (auto simp: new_router_def split: option.splits sum.splits)
  ultimately have "rt_endpoint rt \<in> set (enabled_endpoints c)" by simp
  from endpoint_served [OF assms(3) this] obtain p where p: "llm_plugins c r (rt_endpoint rt) = Some p" by blast
  then obtain e where e: "e \<in> set (concat (map dr_endpoints (cf_drivers c)))" "ep_id e = rt_endpoint rt"
    by (auto simp: llm_plugins_def split: if_splits)
  then have "llm_plugins c r (ep_id e) \<noteq> None" using p by simp
  with e(1) have llm: "\<not> list_all (\<lambda>e. llm_plugins c r (ep_id e) = None) (concat (map dr_endpoints (cf_drivers c)))"
    unfolding list_all_iff by (metis (no_types, lifting))
  have single: "\<exists>p. typed_plugin r k (ps_plugin_id s) = Some p" if "singleton_entry k s \<in> set (loader_entries c)" for k s
    using entry_served [OF assms(3) that] by (auto simp: serves_def typed_plugin_def singleton_entry_def)
  have "\<exists>p. typed_plugin r PluginKindTransport (ps_plugin_id (cf_transport c)) = Some p"
    "\<exists>p. typed_plugin r PluginKindStore (ps_plugin_id (cf_store c)) = Some p"
    "\<exists>p. typed_plugin r PluginKindSandbox (ps_plugin_id (cf_sandbox c)) = Some p"
    by (rule single, simp add: loader_entries_def)+
  then show ?thesis using llm assms(4,5) accepted_numbers_in_range [OF assms(1)] by (auto simp: wire_def)
qed

lemma accepted_services:
  assumes "finish_load c0 = Inr c" "\<forall>s \<in> set (ro_primary (cf_routing c) # ro_fallback (cf_routing c)). names_model s"
    and "ho_duration H (as_turn_timeout (cf_agent c)) \<noteq> None"
  shows "\<exists>chain. new_services H c = Inr chain"
proof -
  have v: "validate c = []" using assms(1) by (auto simp: finish_load_def Let_def split: if_splits)
  have "trim_space (cs_model cc) \<noteq> [] \<and> 0 < cs_preserve cc" if "cf_compaction c = Some cc" for cc
    using v that by (auto simp: validate_def check_compaction_def split: if_splits)
  then show ?thesis using validated_routes_parse [OF v assms(2)] assms(3)
    by (auto simp: new_services_def split: option.split)
qed


section \<open>Every middleware runs once\<close>

lemma register_builtins_ok:
  assumes "registry_ok r" "plugins_typed r" "distinct (map bi_plugin bs)"
    "\<forall>b \<in> set bs. rg_config_ids r (bi_plugin b) = None \<and> pl_kind (bi_plugin b) \<in> set (pl_implements (bi_plugin b))"
  shows "registry_ok (register_builtins bs r) \<and> plugins_typed (register_builtins bs r)"
  using assms
proof (induction bs arbitrary: r)
  case (Cons b bs)
  then have new: "rg_config_ids r (bi_plugin b) = None" by simp
  note f = register_fields [OF Cons.prems(1) new, of "bi_id b"]
  have "registry_ok (register (bi_plugin b) (bi_id b) r)" by (rule registered_ok [OF Cons.prems(1) new])
  moreover have "plugins_typed (register (bi_plugin b) (bi_id b) r)"
    using Cons.prems(2,4) unfolding plugins_typed_def f by auto
  moreover have "\<forall>x \<in> set bs. rg_config_ids (register (bi_plugin b) (bi_id b) r) (bi_plugin x) = None
      \<and> pl_kind (bi_plugin x) \<in> set (pl_implements (bi_plugin x))"
  proof
    fix x assume x: "x \<in> set bs"
    then have "bi_plugin x \<noteq> bi_plugin b" using Cons.prems(3) by (metis distinct.simps(2) image_eqI list.set_map list.simps(9))
    with x show "rg_config_ids (register (bi_plugin b) (bi_id b) r) (bi_plugin x) = None
        \<and> pl_kind (bi_plugin x) \<in> set (pl_implements (bi_plugin x))"
      using Cons.prems(4) unfolding f by simp
  qed
  ultimately show ?case using Cons.IH Cons.prems(3) by (simp add: register_builtins_def)
qed (simp add: register_builtins_def)

lemma config_id_registered: "registry_ok r \<Longrightarrow> rg_by_id r i = Some p \<Longrightarrow> config_id r p = i"
  by (auto simp: registry_ok_def config_id_def)

lemma in_map_filter: "y \<in> set (List.map_filter f xs) \<longleftrightarrow> (\<exists>x \<in> set xs. f x = Some y)"
  by (induction xs) (auto simp: List.map_filter_simps split: option.split)

lemma named_middlewares:
  assumes "registry_ok r" "distinct is'"
  shows "distinct (List.map_filter (middleware_at r) is') \<and>
    map (config_id r) (List.map_filter (middleware_at r) is') = filter (\<lambda>i. middleware_at r i \<noteq> None) is'"
  using assms(2)
proof (induction is')
  case (Cons i js)
  show ?case
  proof (cases "middleware_at r i")
    case (Some p)
    then have "rg_by_id r i = Some p" by (auto simp: middleware_at_def split: option.splits if_splits)
    then have i: "config_id r p = i" using config_id_registered [OF assms(1)] by blast
    have "p \<notin> set (List.map_filter (middleware_at r) js)"
    proof
      assume "p \<in> set (List.map_filter (middleware_at r) js)"
      then have "i \<in> set (map (config_id r) (List.map_filter (middleware_at r) js))" using i by force
      with Cons show False by simp
    qed
    with Cons Some i show ?thesis by (simp add: List.map_filter_simps)
  qed (use Cons in \<open>simp add: List.map_filter_simps\<close>)
qed (simp add: List.map_filter_simps)

lemma middleware_at_registered:
  assumes "registry_ok r" "plugins_typed r" "\<forall>p. rg_by_id r i = Some p \<longrightarrow> pl_kind p = PluginKindMiddleware"
  shows "middleware_at r i = rg_by_id r i"
proof (cases "rg_by_id r i")
  case (Some p)
  then have "pl_kind p = PluginKindMiddleware" "rg_config_ids r p = Some i" using assms(1,3) by (auto simp: registry_ok_def)
  with assms(2) Some show ?thesis by (auto simp: middleware_at_def plugins_typed_def)
qed (simp add: middleware_at_def)

lemma named_or_not:
  assumes "registry_ok r" "\<forall>i \<in> set named. \<forall>p. rg_by_id r i = Some p \<longrightarrow> pl_kind p = PluginKindMiddleware"
  shows "(\<exists>i \<in> set named. rg_by_id r i = Some p) \<longleftrightarrow> p \<in> set (rg_by_kind r PluginKindMiddleware) \<and> config_id r p \<in> set named"
proof
  assume "\<exists>i \<in> set named. rg_by_id r i = Some p"
  then obtain i where i: "i \<in> set named" "rg_by_id r i = Some p" by blast
  moreover have "pl_kind p = PluginKindMiddleware" using i assms(2) by blast
  moreover have "rg_config_ids r p = Some i" using i(2) assms(1) by (simp add: registry_ok_def)
  ultimately show "p \<in> set (rg_by_kind r PluginKindMiddleware) \<and> config_id r p \<in> set named"
    using assms(1) by (simp add: registry_ok_def config_id_def)
next
  assume p: "p \<in> set (rg_by_kind r PluginKindMiddleware) \<and> config_id r p \<in> set named"
  then obtain j where j: "rg_config_ids r p = Some j" using assms(1) by (auto simp: registry_ok_def)
  then have "rg_by_id r j = Some p" using assms(1) by (simp add: registry_ok_def)
  with p j show "\<exists>i \<in> set named. rg_by_id r i = Some p" by (auto simp: config_id_def)
qed

text \<open>
  Of a consistent registry, every middleware is in the chain exactly once: first those that the
  configuration names, in the order it names them, then the others in the order they were registered.
\<close>

theorem middleware_runs_once:
  assumes "registry_ok r" "plugins_typed r" "distinct ids"
    and "\<forall>i \<in> set ids. \<forall>p. rg_by_id r (''middleware.'' @ i) = Some p \<longrightarrow> pl_kind p = PluginKindMiddleware"
  shows "distinct (middleware_chain r ids) \<and> set (middleware_chain r ids) = set (rg_by_kind r PluginKindMiddleware)
    \<and> (\<exists>rest. map (config_id r) (middleware_chain r ids) =
        filter (\<lambda>i. rg_by_id r i \<noteq> None) (map (\<lambda>i. ''middleware.'' @ i) ids) @ rest
      \<and> set rest \<inter> set (map (\<lambda>i. ''middleware.'' @ i) ids) = {})"
proof -
  let ?mw = "rg_by_kind r PluginKindMiddleware"
  define named where "named = map (\<lambda>i. ''middleware.'' @ i) ids"
  define others where "others = filter (\<lambda>p. config_id r p \<notin> set named \<and> PluginKindMiddleware \<in> set (pl_implements p)) ?mw"
  let ?first = "List.map_filter (middleware_at r) named"
  have chain: "middleware_chain r ids = ?first @ others" by (simp add: middleware_chain_def Let_def named_def others_def)
  have named: "distinct named" "\<forall>i \<in> set named. \<forall>p. rg_by_id r i = Some p \<longrightarrow> pl_kind p = PluginKindMiddleware"
    using assms(3,4) by (simp_all add: named_def distinct_map inj_on_def)
  then have at: "middleware_at r i = rg_by_id r i" if "i \<in> set named" for i
    using middleware_at_registered [OF assms(1,2)] that by blast
  have "filter (\<lambda>i. middleware_at r i \<noteq> None) named = filter (\<lambda>i. rg_by_id r i \<noteq> None) named"
    by (rule filter_cong [OF refl]) (simp only: at)
  with named_middlewares [OF assms(1) named(1)] have first: "distinct ?first"
    "map (config_id r) ?first = filter (\<lambda>i. rg_by_id r i \<noteq> None) named" by simp_all
  have in_first: "p \<in> set ?first \<longleftrightarrow> p \<in> set ?mw \<and> config_id r p \<in> set named" for p
    using named_or_not [OF assms(1) named(2)] at by (simp add: in_map_filter)
  have mw: "distinct ?mw" "p \<in> set ?mw \<Longrightarrow> PluginKindMiddleware \<in> set (pl_implements p)" for p
    using assms(1,2) by (auto simp: registry_ok_def plugins_typed_def)
  have "distinct (?first @ others)" using first(1) mw(1) in_first by (auto simp: others_def)
  moreover have "set (?first @ others) = set ?mw" using in_first mw(2) by (auto simp: others_def)
  moreover have "set (map (config_id r) others) \<inter> set named = {}" by (auto simp: others_def)
  ultimately show ?thesis unfolding chain map_append first(2) named_def [symmetric] by blast
qed

section \<open>Shutdown happens in order\<close>

datatype shutdown_event = Entered runtime_state | Halted plugin | SchedulerHalted | Drained

lemma stop_plugins_logged:
  assumes "\<And>p w. seen (snd (li_stop L p w)) = seen w @ [Halted p]"
  shows "seen (snd (stop_plugins L ps w)) = seen w @ map Halted ps"
proof (induction ps arbitrary: w)
  case (Cons p ps)
  obtain e w1 where s: "li_stop L p w = (e, w1)" by fastforce
  with assms [of p w] have "seen w1 = seen w @ [Halted p]" by simp
  with Cons.IH [of w1] show ?case by (simp add: s split_beta)
qed simp

text \<open>
  Shutting down goes on whatever fails: the process drains, the channels stop, then the
  scheduler, then the loop is drained, then every plugin that was started stops in reverse order,
  and the process is stopped.
\<close>

theorem shutdown_in_order:
  assumes "\<And>p w. seen (snd (li_stop (ho_lifecycle H) p w)) = seen w @ [Halted p]"
    and "\<And>w. seen (ho_scheduler_stop H w) = seen w @ [SchedulerHalted]"
    and "\<And>w. seen (snd (ho_drain H w)) = seen w @ [Drained]"
    and "\<And>s w. seen (ho_set_state H s w) = seen w @ [Entered s]"
    and "shutdown_runtime H channels m = (errs, m1)"
  shows "seen (mg_world m1) = seen (mg_world m) @ [Entered StateDraining] @ map Halted channels
      @ [SchedulerHalted, Drained] @ map Halted (rev (mg_started m)) @ [Entered StateStopped]
    \<and> mg_started m1 = []"
proof -
  let ?L = "ho_lifecycle H"
  obtain e1 w1 where s1: "stop_plugins ?L channels (ho_set_state H StateDraining (mg_world m)) = (e1, w1)" by fastforce
  obtain e2 w2 where s2: "ho_drain H (ho_scheduler_stop H w1) = (e2, w2)" by fastforce
  obtain e3 m3 where s3: "manager_stop ?L (m\<lparr>mg_world := w2\<rparr>) = (e3, m3)" by fastforce
  have m1: "m1 = m3\<lparr>mg_world := ho_set_state H StateStopped (mg_world m3)\<rparr>"
    using assms(5) by (simp add: shutdown_runtime_def s1 s2 s3 Let_def)
  have "seen w1 = seen (mg_world m) @ [Entered StateDraining] @ map Halted channels"
    using stop_plugins_logged [OF assms(1), of channels "ho_set_state H StateDraining (mg_world m)"] by (simp add: s1 assms(4))
  moreover have "seen w2 = seen w1 @ [SchedulerHalted, Drained]"
    using assms(3) [of "ho_scheduler_stop H w1"] by (simp add: s2 assms(2))
  moreover have "seen (mg_world m3) = seen w2 @ map Halted (rev (mg_started m)) \<and> mg_started m3 = []"
    using stop_plugins_logged [OF assms(1), of "rev (mg_started m)" w2] s3 by (auto simp: manager_stop_def split_beta)
  ultimately show ?thesis by (simp add: m1 assms(4))
qed

section \<open>Examples\<close>

definition demo_host :: "shutdown_event list host" where
  "demo_host = \<lparr>ho_lib = demo_objects,
     ho_lifecycle = \<lparr>li_init = (\<lambda>_ _ _ w. (None, w)), li_start = (\<lambda>p w. (if pl_kind p = PluginKindSandbox then Some ''no'' else None, w)),
       li_stop = (\<lambda>p w. (Some ''busy'', w @ [Halted p]))\<rparr>,
     ho_name = pl_id, ho_live_id = pl_id, ho_middleware_ids = (\<lambda>_. Some []), ho_abs = Some, ho_duration = (\<lambda>_. Some 1),
     ho_subscribe = (\<lambda>_ _ w. (True, w)), ho_scheduler_start = (\<lambda>w. w), ho_scheduler_stop = (\<lambda>w. w @ [SchedulerHalted]),
     ho_drain = (\<lambda>w. (None, w @ [Drained])), ho_set_state = (\<lambda>s w. w @ [Entered s])\<rparr>"


lemma shutdown_in_order_witness:
  "mg_world (snd (shutdown_runtime demo_host [demo_plugin 1 PluginKindChannel]
      \<lparr>mg_started = [demo_plugin 0 PluginKindStore, demo_plugin 1 PluginKindChannel], mg_world = []\<rparr>)) =
    [Entered StateDraining, Halted (demo_plugin 1 PluginKindChannel), SchedulerHalted, Drained,
     Halted (demo_plugin 1 PluginKindChannel), Halted (demo_plugin 0 PluginKindStore), Entered StateStopped]"
proof -
  let ?m = "\<lparr>mg_started = [demo_plugin 0 PluginKindStore, demo_plugin 1 PluginKindChannel], mg_world = [] :: shutdown_event list\<rparr>"
  obtain errs m1 where s: "shutdown_runtime demo_host [demo_plugin 1 PluginKindChannel] ?m = (errs, m1)" by fastforce
  note order = shutdown_in_order [where seen = "\<lambda>w. w", OF _ _ _ _ s]
  have "mg_world m1 = mg_world ?m @ [Entered StateDraining] @ map Halted [demo_plugin 1 PluginKindChannel]
      @ [SchedulerHalted, Drained] @ map Halted (rev (mg_started ?m)) @ [Entered StateStopped] \<and> mg_started m1 = []"
    by (rule order) (simp_all add: demo_host_def)
  with s show ?thesis by simp
qed

definition demo_middlewares :: "builtin list" where
  "demo_middlewares = builtin_middlewares (\<lambda>i. \<lparr>pl_ref = length i, pl_id = i, pl_kind = PluginKindMiddleware,
     pl_implements = [PluginKindMiddleware]\<rparr>)"

lemma middleware_runs_once_witness:
  "\<exists>rest. map (config_id (register_builtins demo_middlewares new_registry))
      (middleware_chain (register_builtins demo_middlewares new_registry) [''noreply'', ''absent''])
    = ''middleware.noreply'' # rest \<and> ''middleware.noreply'' \<notin> set rest"
proof -
  let ?r = "register_builtins demo_middlewares new_registry"
  have "registry_ok ?r \<and> plugins_typed ?r"
    by (rule register_builtins_ok [OF new_registry_ok])
      (simp_all add: plugins_typed_def new_registry_def demo_middlewares_def builtin_middlewares_def)
  then have ok: "registry_ok ?r" "plugins_typed ?r" by blast+
  have at: "rg_by_id ?r ''middleware.noreply'' \<noteq> None" "rg_by_id ?r ''middleware.absent'' = None" by code_simp+
  have kind: "\<forall>i \<in> set [''noreply'', ''absent'']. \<forall>p. rg_by_id ?r (''middleware.'' @ i) = Some p \<longrightarrow> pl_kind p = PluginKindMiddleware"
  proof -
    have "map_option pl_kind (rg_by_id ?r ''middleware.noreply'') = Some PluginKindMiddleware" by code_simp
    with at show ?thesis by auto
  qed
  have "distinct [''noreply'', ''absent'']" by simp
  from middleware_runs_once [OF ok this kind] at show ?thesis by auto
qed

end
