(* ===== verification/Tool_Plugins.thy ===== *)
theory Tool_Plugins
  imports Tools Sanitize Sandbox_Pool
begin

text \<open>
  The tools that are loaded as plugins, \<open>pkg/plugins/tool\<close>: reading files and running
  commands in the sandbox, listing a directory, fetching and searching the web, reactions, searching
  users and groups, and model profiles. Arguments are decoded; the sandbox, HTTP and the file
  system are parameters, and a left result is an error with its text.
\<close>

section \<open>Files and commands\<close>

type_synonym 's sandbox_run = "string \<Rightarrow> exec_request \<Rightarrow> 's \<Rightarrow> (string + exec_result) \<times> 's"

definition plain_command :: "string \<Rightarrow> string list \<Rightarrow> exec_request" where
  "plain_command c as = \<lparr>xr_command = c, xr_args = as, xr_env = [], xr_dir = []\<rparr>"

definition read_failed :: "exec_result \<Rightarrow> string" where
  "read_failed r = ''Error reading file: '' @ (if xo_stderr r = [] then xo_stdout r else xo_stderr r)"

text \<open>\<open>%6d\<close>.\<close>

definition pad6 :: "int \<Rightarrow> string" where
  "pad6 n = (let d = show_int n in replicate (6 - length d) (CHR '' '') @ d)"

fun numbered :: "int \<Rightarrow> string list \<Rightarrow> string" where
  "numbered n [] = []"
| "numbered n (l # ls) = pad6 n @ [CHR 0x09] @ l @ nl @ numbered (n + 1) ls"

definition page_footer :: "int \<Rightarrow> int \<Rightarrow> int \<Rightarrow> int \<Rightarrow> string" where
  "page_footer n a b tot = ''--- '' @ show_int n @ '' lines ('' @ show_int a @ ''-'' @ show_int b @ '' of ''
     @ show_int tot @ '') ---''"

definition trim_newlines :: "string \<Rightarrow> string" where
  "trim_newlines s = rev (dropWhile (\<lambda>c. c = newline) (rev s))"

text \<open>What is shown of the lines that \<open>sed\<close> printed, from line \<open>off\<close>.\<close>

definition show_page :: "int \<Rightarrow> int \<Rightarrow> string \<Rightarrow> string" where
  "show_page off tot out =
     (let raw = trim_newlines out; ls = split_on newline raw
      in if raw = [] then page_footer 0 off (off - 1) tot
         else numbered off ls @ page_footer (int (length ls)) off (off + int (length ls) - 1) tot)"

text \<open>Only the end of the page can leave the range of integers.\<close>

definition file_read :: "'s sandbox_run option \<Rightarrow> int \<Rightarrow> string \<Rightarrow> string \<Rightarrow> int \<Rightarrow> int \<Rightarrow> 's \<Rightarrow> (string + string) \<times> 's" where
  "file_read sandbox lines_limit uid path offset limit s = (case sandbox of
       None \<Rightarrow> (Inl ''file_read requires sandbox'', s)
     | Some run \<Rightarrow>
         if path = [] then (Inl ''file_read: path is required'', s)
         else let off = (if offset \<le> 0 then 1 else offset); lim = (if limit \<le> 0 then lines_limit else limit) in
         if_ok (run uid (plain_command ''wc'' [''-l'', path]) s) (\<lambda>e s1. (Inl (''file_read: exec wc: '' @ e), s1)) (\<lambda>r s1.
           if xo_code r \<noteq> 0 then (Inr (read_failed r), s1)
           else case str_fields (trim_space (xo_stdout r)) of
             [] \<Rightarrow> (Inr ''Error reading file: unexpected wc output'', s1)
           | f # _ \<Rightarrow> (case atoi f of
               None \<Rightarrow> (Inr (''Error reading file: cannot parse line count: '' @ f), s1)
             | Some tot \<Rightarrow>
                 if off > tot
                 then (Inr (''Offset '' @ show_int off @ '' exceeds file length of '' @ show_int tot @ '' lines''), s1)
                 else if_ok (run uid (plain_command ''sed''
                     [''-n'', show_int off @ '','' @ show_int (wrap64 (off + lim - 1)) @ ''p'', path]) s1)
                   (\<lambda>e s2. (Inl (''file_read: exec sed: '' @ e), s2))
                   (\<lambda>r2 s2. (Inr (if xo_code r2 \<noteq> 0 then read_failed r2 else show_page off tot (xo_stdout r2)), s2)))))"

definition format_output :: "exec_result \<Rightarrow> string" where
  "format_output r =
     (let a = xo_stdout r;
          b = (if xo_stderr r \<noteq> [] then (if a \<noteq> [] then a @ nl else a) @ ''STDERR:'' @ nl @ xo_stderr r else a);
          c = (if b \<noteq> [] then b @ nl else b)
      in c @ ''Exit code: '' @ show_int (xo_code r))"

definition shell_settings :: "int \<Rightarrow> int \<Rightarrow> int \<times> int" where
  "shell_settings max_output timeout = (if max_output > 0 then max_output else 10000, if timeout > 0 then timeout else 30)"

text \<open>The sandbox ends the command after the seconds given.\<close>

definition shell_tool :: "(int \<Rightarrow> 's sandbox_run) option \<Rightarrow> int \<times> int \<Rightarrow> string \<Rightarrow> string \<Rightarrow> 's \<Rightarrow> (string + string) \<times> 's" where
  "shell_tool sandbox cfg uid command s = (case sandbox of
       None \<Rightarrow> (Inl ''shell: requires sandbox'', s)
     | Some run \<Rightarrow>
         if command = [] then (Inl ''shell: command is required'', s)
         else if_ok (run (snd cfg) uid (plain_command ''sh'' [''-c'', command]) s)
           (\<lambda>e s1. (Inl (''shell: exec: '' @ e), s1))
           (\<lambda>r s1. let out = format_output r in
             (Inr (if fst cfg > 0 \<and> int (length out) > fst cfg then take (nat (fst cfg)) out @ nl @ ''[truncated]'' else out), s1)))"

text \<open>A path is a directory with its entries, each a directory or not, or a file.\<close>

datatype path_state = IsFile | IsDirectory "string + (string \<times> bool) list"

definition file_list :: "(string \<Rightarrow> string + path_state) \<Rightarrow> string \<Rightarrow> string + string" where
  "file_list stat path = (case stat path of
       Inl e \<Rightarrow> Inl (''file_list: '' @ e)
     | Inr IsFile \<Rightarrow> Inl ''file_list: path is a file, use file_read instead''
     | Inr (IsDirectory (Inl e)) \<Rightarrow> Inl (''file_list: '' @ e)
     | Inr (IsDirectory (Inr es)) \<Rightarrow> Inr (if es = [] then ''(empty directory)''
         else trim_newlines (concat (map (\<lambda>(n, dir). (if dir then n @ ''/ (directory)'' else n @ '' (file)'') @ nl) es))))"

section \<open>The web\<close>

text \<open>
  The bytes at the start that a pattern of letters without case matches; \<open>s\<close> also matches the
  long s, U+017F.
\<close>

fun fold_word :: "string \<Rightarrow> string \<Rightarrow> nat option" where
  "fold_word [] s = Some 0"
| "fold_word (p # ps) [] = None"
| "fold_word (p # ps) (c # s) =
     (if lower_char c = p then map_option Suc (fold_word ps s)
      else if p = CHR ''s'' \<and> c = CHR 0xC5 \<and> has_prefix s [CHR 0xBF] then map_option (\<lambda>n. n + 2) (fold_word ps (tl s))
      else None)"

fun close_at :: "string \<Rightarrow> string \<Rightarrow> nat option" where
  "close_at tag [] = None"
| "close_at tag (c # s) = (case fold_word (''</'' @ tag @ ''>'') (c # s) of
     Some n \<Rightarrow> Some n | None \<Rightarrow> map_option Suc (close_at tag s))"

text \<open>\<open>(?is)<tag[^>]*>.*?</tag>\<close>.\<close>

definition match_element :: "string \<Rightarrow> string \<Rightarrow> nat option" where
  "match_element tag s = (case fold_word (CHR ''<'' # tag) s of
       None \<Rightarrow> None
     | Some n \<Rightarrow> (case index_of (drop n s) ''>'' of
         None \<Rightarrow> None
       | Some i \<Rightarrow> map_option (\<lambda>j. n + i + 1 + j) (close_at tag (drop (n + i + 1) s))))"

text \<open>\<open><[^>]+>\<close>.\<close>

definition tag_len :: "string \<Rightarrow> nat option" where
  "tag_len s = (case s of
       [] \<Rightarrow> None
     | c # t \<Rightarrow> let b = takeWhile (\<lambda>c. c \<noteq> CHR ''>'') t in
         if c = CHR ''<'' \<and> b \<noteq> [] \<and> length b < length t then Some (length b + 2) else None)"

function strip_tags :: "string \<Rightarrow> string" where
  "strip_tags [] = []"
| "strip_tags (c # s) = (case tag_len (c # s) of
     None \<Rightarrow> c # strip_tags s | Some n \<Rightarrow> CHR '' '' # strip_tags (drop (n - 1) s))"
  by pat_completeness auto
termination by (relation "measure length") auto

function collapse_space :: "string \<Rightarrow> string" where
  "collapse_space [] = []"
| "collapse_space (c # s) =
     (if re_space c then CHR '' '' # collapse_space (dropWhile re_space s) else c # collapse_space s)"
  by pat_completeness auto
termination by (relation "measure length") (auto simp: length_dropWhile_le le_imp_less_Suc)

definition strip_html :: "string \<Rightarrow> string" where
  "strip_html s = trim_space (collapse_space (strip_tags
     (remove_matches (match_element ''style'') (remove_matches (match_element ''script'') s))))"

record web_reply =
  wp_status :: int
  wp_status_text :: string
  wp_type :: string
  wp_body :: "string + string"

type_synonym 's web_get = "string \<Rightarrow> string_map \<Rightarrow> 's \<Rightarrow> (string + web_reply) \<times> 's"

record fetch_config =
  ft_agent :: string
  ft_max_chars :: int

definition fetch_settings :: "string \<Rightarrow> int \<Rightarrow> fetch_config" where
  "fetch_settings agent n = \<lparr>ft_agent = (if agent \<noteq> [] then agent else ''whiteagent/1.0''),
     ft_max_chars = (if n > 0 then n else 5000)\<rparr>"

definition page_text :: "int \<Rightarrow> web_reply \<Rightarrow> string \<Rightarrow> string" where
  "page_text max_chars r body =
     (let t = (if contains_str (wp_type r) ''application/json'' then body else strip_html body)
      in if int (length t) > max_chars then take (nat max_chars) t else t)"

definition web_fetch :: "'s web_get \<Rightarrow> fetch_config \<Rightarrow> string \<Rightarrow> int \<Rightarrow> 's \<Rightarrow> string \<times> 's" where
  "web_fetch get F url max_chars s =
     (if \<not> has_prefix url ''http://'' \<and> \<not> has_prefix url ''https://''
      then (''error: URL must start with http:// or https://'', s)
      else if_ok (get url [(''User-Agent'', ft_agent F)] s) (\<lambda>e s1. (''error: '' @ e, s1)) (\<lambda>r s1.
        if wp_status r < 200 \<or> wp_status r \<ge> 300
        then (''error: HTTP '' @ show_int (wp_status r) @ '' '' @ wp_status_text r, s1)
        else (case wp_body r of
            Inl e \<Rightarrow> ''error: reading response: '' @ e
          | Inr body \<Rightarrow> page_text (if max_chars > 0 then max_chars else ft_max_chars F) r body, s1)))"

fun show_results :: "int \<Rightarrow> (string \<times> string \<times> string) list \<Rightarrow> string list" where
  "show_results n [] = []"
| "show_results n ((title, url, about) # rs) =
     (show_int n @ ''. '' @ title @ nl @ url @ nl @ about) # show_results (n + 1) rs"

definition web_search :: "'s web_get \<Rightarrow> (string \<Rightarrow> string + (string \<times> string \<times> string) list) \<Rightarrow> string \<Rightarrow> string \<Rightarrow> int
    \<Rightarrow> 's \<Rightarrow> string \<times> 's" where
  "web_search get read_results api_key query wanted_count s =
     (if trim_space query = [] then (''error: query must not be empty'', s)
      else if api_key = [] then (''error: web_search plugin is not configured (missing api_key)'', s)
      else let n = (if wanted_count < 1 \<or> wanted_count > 10 then 5 else wanted_count) in
        if_ok (get (''https://api.search.brave.com/res/v1/web/search?q='' @ query_escape query @ ''&count='' @ show_int n)
            [(''Accept'', ''application/json''), (''X-Subscription-Token'', api_key)] s)
          (\<lambda>e s1. (''error: '' @ e, s1))
          (\<lambda>r s1. if wp_status r < 200 \<or> wp_status r \<ge> 300
            then (''error: Brave API returned HTTP '' @ show_int (wp_status r), s1)
            else (case wp_body r of
                Inl e \<Rightarrow> ''error: reading response: '' @ e
              | Inr body \<Rightarrow> (case read_results body of
                  Inl e \<Rightarrow> ''error: parsing response: '' @ e
                | Inr rs \<Rightarrow> if rs = [] then ''No results found.'' else join (nl @ nl) (show_results 1 rs)), s1)))"

section \<open>People, chats and reactions\<close>

definition reaction_tool :: "tool_env \<Rightarrow> tool_context \<Rightarrow> string \<Rightarrow> string \<Rightarrow> ('h, 'w) loop_state
    \<Rightarrow> (string + string) \<times> ('h, 'w) loop_state" where
  "reaction_tool E tc emoji target s =
     (case publish_out (zero_message\<lparr>ms_tenant := tx_tenant tc, ms_user := tx_user tc, ms_chat := tx_chat tc,
         ms_kind := KindReaction, ms_target := (if target \<noteq> [] then target else tx_message tc), ms_content := emoji\<rparr>) s of
        (Inl e, s1) \<Rightarrow> (Inl (te_bus_text E e), s1)
      | (Inr _, s1) \<Rightarrow> (Inr ''Reaction added.'', s1))"

text \<open>A chat that cannot be looked up is left out.\<close>

fun show_users :: "string \<Rightarrow> user list \<Rightarrow> world \<Rightarrow> string list \<times> world" where
  "show_users tid [] w = ([], w)"
| "show_users tid (u # us) w =
     (let (c, w1) = get_dm_chat tid (us_id u) w; (rest, w2) = show_users tid us w1;
          chat = (case c of Inr (Some c) \<Rightarrow> '', Chat: '' @ ch_id c | _ \<Rightarrow> [])
      in ((''- '' @ us_name u @ '' (ID: '' @ us_id u @ chat @ '')'') # rest, w2))"

definition users_search :: "tool_env \<Rightarrow> tool_context \<Rightarrow> string \<Rightarrow> world \<Rightarrow> tool_answer" where
  "users_search E tc q w = if_ok (search_users (tx_tenant tc) q w) (db_failed E []) (\<lambda>us w1.
     if us = [] then (Inr ''No users found.'', w1)
     else let (ls, w2) = show_users (tx_tenant tc) us w1 in (Inr (join nl ls), w2))"

definition groups_search :: "tool_env \<Rightarrow> tool_context \<Rightarrow> string \<Rightarrow> world \<Rightarrow> tool_answer" where
  "groups_search E tc q w = if_ok (search_chats (tx_tenant tc) (tx_user tc) q w) (db_failed E []) (\<lambda>cs w1.
     (Inr (if cs = [] then ''No groups found.''
       else join nl (map (\<lambda>c. ''- '' @ ch_name c @ '' (ID: '' @ ch_id c @ '')'') cs)), w1))"

section \<open>Model profiles\<close>

record model_profile =
  mp_alias :: string
  mp_description :: string
  mp_endpoints :: "string list"

datatype profile_error = NoProfiles | NoAlias nat | NoDescription nat | NoEndpoints nat | DuplicateAlias string

fun add_profiles :: "nat \<Rightarrow> model_profile list \<Rightarrow> model_profile list \<Rightarrow> profile_error + model_profile list" where
  "add_profiles i [] seen = Inr seen"
| "add_profiles i (m # ms) seen =
     (if mp_alias m = [] then Inl (NoAlias i)
      else if mp_description m = [] then Inl (NoDescription i)
      else if mp_endpoints m = [] then Inl (NoEndpoints i)
      else if list_ex (\<lambda>p. mp_alias p = mp_alias m) seen then Inl (DuplicateAlias (mp_alias m))
      else add_profiles (Suc i) ms (seen @ [m]))"

definition profiles_init :: "model_profile list \<Rightarrow> profile_error + model_profile list" where
  "profiles_init ms = (if ms = [] then Inl NoProfiles else add_profiles 0 ms [])"

text \<open>The holder of the override: absent, or its entries.\<close>

definition set_model_profile :: "(string \<Rightarrow> string) \<Rightarrow> model_profile list \<Rightarrow> string \<Rightarrow> string list option
    \<Rightarrow> (string + string) \<times> string list option" where
  "set_model_profile quote ps alias holder = (case find (\<lambda>p. mp_alias p = alias) ps of
       None \<Rightarrow> (Inl (''set_model_profile: unknown profile '' @ quote alias), holder)
     | Some p \<Rightarrow> (case holder of
         None \<Rightarrow> (Inl ''set_model_profile: model override not available'', None)
       | Some _ \<Rightarrow> (Inr (''Model profile set to '' @ mp_alias p @ ''.''), Some (mp_endpoints p))))"

lemma add_profiles_all:
  "add_profiles i ms seen = Inr ps \<Longrightarrow> ps = seen @ ms \<and> (\<forall>p \<in> set ms. mp_endpoints p \<noteq> [])"
proof (induction ms arbitrary: i seen)
  case (Cons m ms)
  then have "add_profiles (Suc i) ms (seen @ [m]) = Inr ps" "mp_endpoints m \<noteq> []" by (auto split: if_splits)
  with Cons.IH show ?case by fastforce
qed simp

text \<open>
  Once a profile was set, the model is asked along the routes of the profile that parse, and then
  along the configured ones.
\<close>

lemma profile_routes_first:
  assumes "profiles_init ms = Inr ps" "set_model_profile quote ps alias (Some old) = (Inr r, holder)"
  shows "\<exists>p \<in> set ms. mp_alias p = alias
    \<and> select_routes chain holder = List.map_filter parse_route (mp_endpoints p) @ chain"
proof -
  have ps: "ps = ms" "\<forall>p \<in> set ms. mp_endpoints p \<noteq> []"
    using assms(1) add_profiles_all [of 0 ms "[]" ps] by (auto simp: profiles_init_def split: if_splits)
  from assms(2) obtain p where p: "find (\<lambda>p. mp_alias p = alias) ms = Some p" "holder = Some (mp_endpoints p)"
    by (auto simp: set_model_profile_def ps split: option.splits)
  then have "p \<in> set ms" "mp_alias p = alias" by (auto simp: find_Some_iff)
  with p ps(2) show ?thesis by (auto simp: select_routes_def holder_get_def)
qed

section \<open>A page of a file\<close>

lemma trim_newlines_append: "l \<noteq> [] \<Longrightarrow> last l \<noteq> newline \<Longrightarrow> trim_newlines (s @ l @ nl) = s @ l"
  by (cases l rule: rev_cases) (auto simp: trim_newlines_def)

lemma split_lines:
  assumes "\<forall>l \<in> set ls. newline \<notin> set l" "newline \<notin> set l"
  shows "split_on newline (concat (map (\<lambda>l. l @ nl) ls) @ l) = ls @ [l]"
  using assms(1)
proof (induction ls)
  case Nil
  from assms(2) show ?case by (induction l) auto
next
  case (Cons k ls)
  have "split_on newline (k @ newline # s) = k # split_on newline s" if "newline \<notin> set k" for k s
    using that by (induction k) auto
  with Cons show ?case by simp
qed

text \<open>
  What \<open>wc -l\<close> and \<open>sed -n\<close> do with a file of lines that all end in a newline: the
  first counts them, the second prints the lines from one number to the other.
\<close>

definition file_of_lines :: "'s sandbox_run \<Rightarrow> string \<Rightarrow> string list \<Rightarrow> bool" where
  "file_of_lines run path ls \<longleftrightarrow> (\<forall>l \<in> set ls. newline \<notin> set l)
     \<and> (\<forall>uid s. \<exists>r f fs s1. run uid (plain_command ''wc'' [''-l'', path]) s = (Inr r, s1) \<and> xo_code r = 0
          \<and> str_fields (trim_space (xo_stdout r)) = f # fs \<and> atoi f = Some (int (length ls)))
     \<and> (\<forall>uid s a b. 1 \<le> a \<and> a \<le> b \<longrightarrow> (\<exists>r s1.
          run uid (plain_command ''sed'' [''-n'', show_int a @ '','' @ show_int b @ ''p'', path]) s = (Inr r, s1)
          \<and> xo_code r = 0
          \<and> xo_stdout r = concat (map (\<lambda>l. l @ nl) (take (nat (b - a + 1)) (drop (nat (a - 1)) ls)))))"

lemma page_shown:
  assumes "\<forall>l \<in> set shown. newline \<notin> set l" "shown \<noteq> []" "last shown \<noteq> []"
  shows "show_page off tot (concat (map (\<lambda>l. l @ nl) shown)) =
    numbered off shown @ page_footer (int (length shown)) off (off + int (length shown) - 1) tot"
proof -
  obtain ls l where shown: "shown = ls @ [l]" using assms(2) by (cases shown rule: rev_cases) auto
  then have l: "l \<noteq> []" "newline \<notin> set l" "\<forall>l \<in> set ls. newline \<notin> set l" using assms by auto
  then have "last l \<noteq> newline" by (metis last_in_set)
  with l(1) have raw: "trim_newlines (concat (map (\<lambda>l. l @ nl) shown)) = concat (map (\<lambda>l. l @ nl) ls) @ l"
    using trim_newlines_append [of l "concat (map (\<lambda>l. l @ nl) ls)"] by (simp add: shown)
  have "split_on newline (concat (map (\<lambda>l. l @ nl) ls) @ l) = shown" using split_lines [OF l(3,2)] by (simp add: shown)
  moreover have "concat (map (\<lambda>l. l @ nl) ls) @ l \<noteq> []" using l(1) by simp
  ultimately show ?thesis by (simp only: show_page_def raw Let_def if_False)
qed

text \<open>
  Reading a file shows, with their numbers, exactly the lines from the one asked for, as many
  as asked for, when the last of them is not blank.
\<close>

theorem file_page_exact:
  assumes "file_of_lines run path ls" "path \<noteq> []" "1 \<le> off" "off \<le> int (length ls)" "0 < lim" "off + lim - 1 \<le> int_max"
    and "shown = take (nat lim) (drop (nat (off - 1)) ls)" "last shown \<noteq> []"
  shows "fst (file_read (Some run) dflt uid path off lim s) =
    Inr (numbered off shown @ page_footer (int (length shown)) off (off + int (length shown) - 1) (int (length ls)))"
proof -
  obtain r f fs s1 where wc: "run uid (plain_command ''wc'' [''-l'', path]) s = (Inr r, s1)" "xo_code r = 0"
    "str_fields (trim_space (xo_stdout r)) = f # fs" "atoi f = Some (int (length ls))"
    using assms(1) unfolding file_of_lines_def by metis
  have w: "wrap64 (off + lim - 1) = off + lim - 1" using assms(3,5,6) by (simp add: wrap64_id int_min_def)
  have "1 \<le> off \<and> off \<le> off + lim - 1" using assms(3,5) by simp
  then obtain r2 s2 where sed: "run uid (plain_command ''sed'' [''-n'', show_int off @ '','' @ show_int (off + lim - 1) @ ''p'', path]) s1 = (Inr r2, s2)"
    "xo_code r2 = 0" "xo_stdout r2 = concat (map (\<lambda>l. l @ nl) (take (nat (off + lim - 1 - off + 1)) (drop (nat (off - 1)) ls)))"
    using assms(1) unfolding file_of_lines_def by metis
  have out: "xo_stdout r2 = concat (map (\<lambda>l. l @ nl) shown)" using sed(3) by (simp add: assms(7))
  have "nat (off - 1) < length ls" using assms(3,4) by linarith
  then have "shown \<noteq> []" using assms(5) by (simp add: assms(7))
  moreover have "\<forall>l \<in> set shown. newline \<notin> set l"
    using assms(1) by (auto simp: file_of_lines_def assms(7) dest!: in_set_takeD in_set_dropD)
  ultimately have "show_page off (int (length ls)) (xo_stdout r2) =
      numbered off shown @ page_footer (int (length shown)) off (off + int (length shown) - 1) (int (length ls))"
    unfolding out using page_shown assms(8) by blast
  then show ?thesis using assms(2-5) by (simp add: file_read_def if_ok_def wc sed(1) [simplified] sed(2) w)
qed

text \<open>A file without a newline at its end: \<open>wc -l\<close> does not count its last line.\<close>

lemma unterminated_line_unread:
  assumes "run uid (plain_command ''wc'' [''-l'', ''f'']) s = (Inr \<lparr>xo_stdout = ''0 f'' @ nl, xo_stderr = [], xo_code = 0\<rparr>, s1)"
  shows "fst (file_read (Some run) 1000 uid ''f'' 0 0 s) = Inr ''Offset 1 exceeds file length of 0 lines''"
proof -
  have f: "str_fields (trim_space (''0 f'' @ nl)) = [''0'', ''f'']" "atoi ''0'' = Some 0"
    "show_int 1 = ''1''" "show_int 0 = ''0''" by code_simp+
  show ?thesis by (simp add: file_read_def if_ok_def assms f [simplified])
qed

section \<open>A fetched page has no tags\<close>

definition tag_free :: "string \<Rightarrow> bool" where
  "tag_free s \<longleftrightarrow> (\<forall>n. tag_len (drop n s) = None)"

lemma tag_len_None: "tag_len (c # s) = None \<longleftrightarrow> c \<noteq> CHR ''<'' \<or> s = [] \<or> hd s = CHR ''>'' \<or> CHR ''>'' \<notin> set s"
proof -
  have "takeWhile (\<lambda>c. c \<noteq> CHR ''>'') s = [] \<longleftrightarrow> s = [] \<or> hd s = CHR ''>''" by (cases s) auto
  moreover have "length (takeWhile (\<lambda>c. c \<noteq> CHR ''>'') s) < length s \<longleftrightarrow> CHR ''>'' \<in> set s"
    by (induction s) auto
  ultimately show ?thesis by (auto simp: tag_len_def Let_def)
qed

lemma tag_free_Nil [simp]: "tag_free []"
  by (simp add: tag_free_def tag_len_def)

lemma tag_free_Cons: "tag_free (c # s) \<longleftrightarrow> tag_len (c # s) = None \<and> tag_free s"
proof -
  have "tag_len (drop n (c # s)) = None" if "tag_len (c # s) = None" "tag_free s" for n
    using that by (cases n) (simp_all add: tag_free_def)
  moreover have "tag_len (c # s) = None \<and> tag_free s" if "tag_free (c # s)"
    using that [unfolded tag_free_def, rule_format, of 0] that [unfolded tag_free_def, rule_format, of "Suc n" for n]
    by (simp add: tag_free_def)
  ultimately show ?thesis unfolding tag_free_def [of "c # s"] by blast
qed

lemma tag_free_drop: "tag_free s \<Longrightarrow> tag_free (drop n s)"
  by (simp add: tag_free_def)

lemma tag_free_take: "tag_free s \<Longrightarrow> tag_free (take n s)"
proof (induction s arbitrary: n)
  case (Cons c s)
  show ?case
  proof (cases n)
    case (Suc m)
    have "tag_len (c # take m s) = None"
      using Cons.prems by (auto simp: tag_free_Cons tag_len_None hd_take dest: in_set_takeD)
    with Suc Cons show ?thesis by (simp add: tag_free_Cons)
  qed simp
qed simp

lemma strip_tags_plain: "CHR ''>'' \<notin> set s \<Longrightarrow> strip_tags s = s"
proof (induction s)
  case (Cons c s)
  then have "tag_len (c # s) = None" by (simp add: tag_len_None)
  with Cons show ?case by simp
qed simp

lemma strip_tags_free: "tag_free (strip_tags s)"
proof (induction s rule: strip_tags.induct)
  case (2 c s)
  show ?case
  proof (cases "tag_len (c # s)")
    case None
    have "tag_len (c # strip_tags s) = None"
    proof (cases "hd s = CHR ''>'' \<and> s \<noteq> []")
      case True
      then obtain t where s: "s = CHR ''>'' # t" by (cases s) auto
      have t: "tag_len (CHR ''>'' # t) = None" by (simp add: tag_len_None)
      have "strip_tags (CHR ''>'' # t) = CHR ''>'' # strip_tags t" by (simp only: strip_tags.simps t option.case)
      then show ?thesis unfolding s tag_len_None by simp
    next
      case False
      then have "c \<noteq> CHR ''<'' \<or> CHR ''>'' \<notin> set s" using None by (auto simp: tag_len_None)
      then show ?thesis using strip_tags_plain [of s] by (auto simp: tag_len_None)
    qed
    with None "2.IH"(1) show ?thesis by (simp add: tag_free_Cons)
  next
    case (Some n)
    with "2.IH"(2) show ?thesis by (simp add: tag_free_Cons tag_len_None)
  qed
qed simp

lemma collapse_space_gt: "CHR ''>'' \<in> set (collapse_space s) \<Longrightarrow> CHR ''>'' \<in> set s"
  by (induction s rule: collapse_space.induct) (auto split: if_splits dest: set_dropWhileD)

lemma collapse_space_free: "tag_free s \<Longrightarrow> tag_free (collapse_space s)"
proof (induction s rule: collapse_space.induct)
  case (2 c s)
  have s: "tag_free s" using 2 by (simp add: tag_free_Cons)
  show ?case
  proof (cases "re_space c")
    case True
    have "tag_free (dropWhile re_space s)" using s tag_free_drop by (simp add: dropWhile_eq_drop)
    with True "2.IH"(1) show ?thesis by (simp add: tag_free_Cons tag_len_None)
  next
    case False
    have "tag_len (c # collapse_space s) = None"
      using 2 collapse_space_gt [of s] by (cases s) (auto simp: tag_free_Cons tag_len_None re_space_def)
    with False "2.IH"(2) s show ?thesis by (simp add: tag_free_Cons)
  qed
qed simp

lemma trim_left_drop: "\<exists>n. trim_left s = drop n s"
proof (induction s rule: trim_left.induct)
  case (1 s)
  show ?case
  proof (cases "space_len s = 0")
    case False
    with 1 obtain n where "trim_left (drop (space_len s) s) = drop n (drop (space_len s) s)" by blast
    with False show ?thesis by (subst trim_left.simps) auto
  qed (subst trim_left.simps, metis drop_0)
qed

lemma trim_rev_drop: "\<exists>n. trim_rev s = drop n s"
proof (induction s rule: trim_rev.induct)
  case (1 s)
  show ?case
  proof (cases "space_len_rev s = 0")
    case False
    with 1 obtain n where "trim_rev (drop (space_len_rev s) s) = drop n (drop (space_len_rev s) s)" by blast
    with False show ?thesis by (subst trim_rev.simps) auto
  qed (subst trim_rev.simps, metis drop_0)
qed

lemma trim_space_free: "tag_free s \<Longrightarrow> tag_free (trim_space s)"
proof -
  obtain n where n: "trim_left s = drop n s" using trim_left_drop by blast
  obtain k where k: "trim_rev (rev (drop n s)) = drop k (rev (drop n s))" using trim_rev_drop by blast
  have "rev (drop k (rev t)) = take (length t - k) t" for t :: string by (simp add: rev_drop)
  then have "trim_space s = take (length (drop n s) - k) (drop n s)"
    unfolding trim_space_def n k by blast
  then show "tag_free s \<Longrightarrow> tag_free (trim_space s)" by (simp add: tag_free_take tag_free_drop)
qed

lemma tag_free_no_tag: "tag_free s \<Longrightarrow> s = a @ CHR ''<'' # b @ CHR ''>'' # c \<Longrightarrow> b = [] \<or> CHR ''>'' \<in> set b"
proof -
  assume free: "tag_free s" and s: "s = a @ CHR ''<'' # b @ CHR ''>'' # c"
  have "drop (length a) s = CHR ''<'' # b @ CHR ''>'' # c" by (simp add: s)
  then have "tag_len (CHR ''<'' # b @ CHR ''>'' # c) = None" using free unfolding tag_free_def by metis
  then show ?thesis by (cases b) (auto simp: tag_len_None)
qed

text \<open>
  The text of a fetched page is at most as long as allowed, and unless the page is JSON it
  contains no tag: no angle brackets with anything but a closing bracket between them.
\<close>

theorem fetched_text_has_no_tags:
  assumes "web_fetch get F url n s = (out, s1)" "0 \<le> ft_max_chars F"
    and "get url [(''User-Agent'', ft_agent F)] s = (Inr r, s1)" "wp_body r = Inr body"
    and "200 \<le> wp_status r" "wp_status r < 300" "has_prefix url ''http://'' \<or> has_prefix url ''https://''"
  shows "int (length out) \<le> (if n > 0 then n else ft_max_chars F)
    \<and> (contains_str (wp_type r) ''application/json'' \<or>
        (\<forall>a b c. out = a @ CHR ''<'' # b @ CHR ''>'' # c \<longrightarrow> b = [] \<or> CHR ''>'' \<in> set b))"
proof -
  let ?n = "if n > 0 then n else ft_max_chars F"
  have out: "out = page_text ?n r body"
    using assms by (auto simp: web_fetch_def if_ok_def split: if_splits)
  have "tag_free (strip_html body)"
    unfolding strip_html_def by (intro trim_space_free collapse_space_free strip_tags_free)
  then have "tag_free out" if "\<not> contains_str (wp_type r) ''application/json''"
    using that by (simp add: out page_text_def Let_def tag_free_take)
  then have "contains_str (wp_type r) ''application/json'' \<or>
      (\<forall>a b c. out = a @ CHR ''<'' # b @ CHR ''>'' # c \<longrightarrow> b = [] \<or> CHR ''>'' \<in> set b)"
    using tag_free_no_tag by blast
  moreover have "int (length out) \<le> ?n" using assms(2) by (auto simp: out page_text_def Let_def)
  ultimately show ?thesis by blast
qed

definition demo_page :: "unit web_get" where
  "demo_page _ _ s = (Inr \<lparr>wp_status = 200, wp_status_text = ''OK'', wp_type = ''text/html'',
     wp_body = Inr ''<html><SCRIPT>x < y</script><b>Hello</b>  you <''\<rparr>, s)"

lemma fetched_text_has_no_tags_witness:
  "fst (web_fetch demo_page \<lparr>ft_agent = ''a'', ft_max_chars = 20\<rparr> ''https://x'' 0 ()) = ''Hello you <''
    \<and> (\<forall>a b c. ''Hello you <'' = a @ CHR ''<'' # b @ CHR ''>'' # c \<longrightarrow> b = [] \<or> CHR ''>'' \<in> set b)"
proof -
  obtain out s1 where w: "web_fetch demo_page \<lparr>ft_agent = ''a'', ft_max_chars = 20\<rparr> ''https://x'' 0 () = (out, s1)"
    by (metis surj_pair)
  have out: "fst (web_fetch demo_page \<lparr>ft_agent = ''a'', ft_max_chars = 20\<rparr> ''https://x'' 0 ()) = ''Hello you <''"
    by code_simp
  have json: "\<not> contains_str ''text/html'' ''application/json''" by code_simp
  have g: "demo_page ''https://x'' [(''User-Agent'', ft_agent \<lparr>ft_agent = ''a'', ft_max_chars = 20\<rparr>)] () =
      (Inr \<lparr>wp_status = 200, wp_status_text = ''OK'', wp_type = ''text/html'',
        wp_body = Inr ''<html><SCRIPT>x < y</script><b>Hello</b>  you <''\<rparr>, s1)"
    by (simp add: demo_page_def)
  have "out = ''Hello you <''" using out unfolding w by simp
  with fetched_text_has_no_tags [OF w _ g] json out show ?thesis by simp
qed

end
