(* ===== verification/Cli.thy ===== *)
theory Cli
  imports Onboarding
begin

text \<open>
  The administration commands besides those for invites, \<open>internal/app/cli\<close>: each once its
  flags are parsed and the store is open. What a table prints is the list of its rows.
\<close>

section \<open>Agents\<close>

definition agent_create :: "string \<Rightarrow> string \<Rightarrow> string \<Rightarrow> string \<Rightarrow> world \<Rightarrow> (string, string) outcome \<times> world" where
  "agent_create default_instructions tid name instructions w =
     (if tid = [] then (Fail ''--tenant is required'', w)
      else if name = [] then (Fail ''--name is required'', w)
      else let (aid, w1) = new_id w;
          a = \<lparr>ag_id = aid, ag_tenant = tid, ag_name = name,
            ag_instructions = (if instructions = [] then default_instructions else instructions), ag_created_at = w_now w\<rparr>
        in if_ok (save_agent tid a w1) (\<lambda>_ w2. (Fail ''save agent'', w2)) (\<lambda>_ w2. (Done aid, w2)))"

definition agent_list :: "string \<Rightarrow> world \<Rightarrow> (string, (string \<times> string \<times> instant) list) outcome \<times> world" where
  "agent_list tid w =
     (if tid = [] then (Fail ''--tenant is required'', w)
      else if_ok (list_agents tid w) (\<lambda>_ w1. (Fail ''list agents'', w1))
        (\<lambda>as w1. (Done (map (\<lambda>a. (ag_id a, ag_name a, ag_created_at a)) as), w1)))"

text \<open>The agent with the given identifiers, for the two commands that look at one.\<close>

definition with_agent :: "string \<Rightarrow> string \<Rightarrow> (agent \<Rightarrow> world \<Rightarrow> (string, 'r) outcome \<times> world) \<Rightarrow> world
    \<Rightarrow> (string, 'r) outcome \<times> world" where
  "with_agent tid aid k w =
     (if tid = [] then (Fail ''--tenant is required'', w)
      else if aid = [] then (Fail ''--agent is required'', w)
      else if_ok (get_agent tid aid w) (\<lambda>_ w1. (Fail ''get agent'', w1)) (\<lambda>r w1.
        case r of None \<Rightarrow> (Fail (''agent not found: '' @ aid), w1) | Some a \<Rightarrow> k a w1))"

definition agent_view :: "string \<Rightarrow> string \<Rightarrow> world \<Rightarrow> (string, string \<times> string) outcome \<times> world" where
  "agent_view tid aid = with_agent tid aid (\<lambda>a w.
     (Done (ag_name a, if length (ag_instructions a) > 200 then take 200 (ag_instructions a) @ ''...'' else ag_instructions a), w))"

definition agent_update :: "string \<Rightarrow> string \<Rightarrow> string \<Rightarrow> world \<Rightarrow> (string, string) outcome \<times> world" where
  "agent_update tid aid instructions = with_agent tid aid (\<lambda>a w.
     if_ok (save_agent tid (if instructions = [] then a else a\<lparr>ag_instructions := instructions\<rparr>) w)
       (\<lambda>_ w1. (Fail ''save agent'', w1)) (\<lambda>_ w1. (Done aid, w1)))"

section \<open>Tenants\<close>

definition tenant_list :: "world \<Rightarrow> (string, (string \<times> string \<times> string \<times> instant) list) outcome \<times> world" where
  "tenant_list w = if_ok (list_tenants w) (\<lambda>_ w1. (Fail ''list tenants'', w1))
     (\<lambda>ts w1. (Done (map (\<lambda>t. (tn_id t, tn_name t, tn_join_policy t, tn_created_at t)) ts), w1))"

definition tenant_delete :: "string list \<Rightarrow> world \<Rightarrow> (string, string) outcome \<times> world" where
  "tenant_delete args w = (case args of
       [] \<Rightarrow> (Fail ''usage: whiteagent tenant delete [--config path] <tenant-id>'', w)
     | tid # _ \<Rightarrow> if_ok (delete_tenant tid w) (\<lambda>_ w1. (Fail ''delete tenant'', w1)) (\<lambda>_ w1. (Done tid, w1)))"

record tenant_flags =
  fl_name :: string
  fl_instructions :: string
  fl_join_policy :: string
  fl_rejection :: string

text \<open>A flag that is empty was not given.\<close>

definition given :: "string \<Rightarrow> string \<Rightarrow> string" where
  "given new old = (if new \<noteq> [] then new else old)"

definition apply_flags :: "tenant_flags \<Rightarrow> tenant \<Rightarrow> tenant" where
  "apply_flags F t = t\<lparr>tn_name := given (fl_name F) (tn_name t), tn_instructions := given (fl_instructions F) (tn_instructions t),
     tn_join_policy := given (fl_join_policy F) (tn_join_policy t), tn_rejection := given (fl_rejection F) (tn_rejection t)\<rparr>"

definition tenant_update :: "tenant_flags \<Rightarrow> string list \<Rightarrow> world \<Rightarrow> (string, string) outcome \<times> world" where
  "tenant_update F args w = (case args of
       [] \<Rightarrow> (Fail ''usage: whiteagent tenant update [--config path] [flags] <tenant-id>'', w)
     | tid # _ \<Rightarrow>
         if fl_join_policy F \<notin> {[], JoinPolicyOpen, JoinPolicyInviteRequired, JoinPolicyClosed}
         then (Fail ''invalid join policy'', w)
         else if_ok (get_tenant tid w) (\<lambda>_ w1. (Fail ''get tenant'', w1)) (\<lambda>r w1. case r of
           None \<Rightarrow> (Fail (''tenant not found: '' @ tid), w1)
         | Some t \<Rightarrow> if_ok (save_tenant tid (apply_flags F t) w1)
             (\<lambda>_ w2. (Fail ''save tenant'', w2)) (\<lambda>_ w2. (Done tid, w2))))"

section \<open>Users and mappings\<close>

definition user_list :: "string \<Rightarrow> world \<Rightarrow> (string, (string \<times> string \<times> string \<times> instant) list) outcome \<times> world" where
  "user_list tid w =
     (if tid = [] then (Fail ''--tenant is required'', w)
      else if_ok (list_users tid w) (\<lambda>_ w1. (Fail ''list users'', w1))
        (\<lambda>us w1. (Done (map (\<lambda>u. (us_id u, us_name u, us_preferred_channel u, us_created_at u)) us), w1)))"

definition user_remove :: "string \<Rightarrow> string list \<Rightarrow> world \<Rightarrow> (string, string) outcome \<times> world" where
  "user_remove tid args w =
     (if tid = [] then (Fail ''--tenant is required'', w)
      else case args of
        [] \<Rightarrow> (Fail ''usage: whiteagent user remove --tenant <id> [--config path] <user-id>'', w)
      | uid # _ \<Rightarrow> if_ok (delete_user tid uid w) (\<lambda>_ w1. (Fail ''remove user'', w1)) (\<lambda>_ w1. (Done uid, w1)))"

definition tenant_mapping_list :: "string \<Rightarrow> world \<Rightarrow> (string, (string \<times> string \<times> string) list) outcome \<times> world" where
  "tenant_mapping_list tid w = if_ok (list_tenant_mappings tid w) (\<lambda>_ w1. (Fail ''list tenant mappings'', w1))
     (\<lambda>ms w1. (Done (map (\<lambda>m. (tm_channel m, tm_external m, tm_tenant m)) ms), w1))"

definition tenant_mapping_delete :: "string \<Rightarrow> string \<Rightarrow> world \<Rightarrow> (string, string) outcome \<times> world" where
  "tenant_mapping_delete chan workspace w =
     (if chan = [] then (Fail ''--channel is required'', w)
      else if workspace = [] then (Fail ''--workspace is required'', w)
      else if_ok (delete_tenant_mapping chan workspace w) (\<lambda>_ w1. (Fail ''delete tenant mapping'', w1))
        (\<lambda>_ w1. (Done (chan @ ''/'' @ workspace), w1)))"

section \<open>Commands are runs of store operations\<close>

lemma more_reaches [reach]:
  assumes "reaches u w"
  shows "reaches u (snd (delete_tenant tid w))" "reaches u (snd (delete_user tid uid w))"
    "reaches u (snd (delete_tenant_mapping chan ext w))" "reaches u (snd (list_agents tid w))"
    "reaches u (snd (list_tenants w))" "reaches u (snd (list_users tid w))" "reaches u (snd (list_tenant_mappings tid w))"
proof -
  show "reaches u (snd (delete_tenant tid w))" "reaches u (snd (delete_user tid uid w))"
    "reaches u (snd (delete_tenant_mapping chan ext w))"
    by (rule reaches_step [OF assms], rule store_step.intros, rule surjective_pairing)+
  show "reaches u (snd (list_agents tid w))" "reaches u (snd (list_tenants w))" "reaches u (snd (list_users tid w))"
    "reaches u (snd (list_tenant_mappings tid w))"
    using reaches_query [OF assms]
    by (simp_all add: list_agents_def list_tenants_def list_users_def list_tenant_mappings_def)
qed

lemma snd_pair_reaches [reach]: "reaches u w \<Longrightarrow> reaches u (snd (x, w))"
  by simp

text \<open>Whatever its arguments, a command keeps the invariant of the database.\<close>

theorem commands_keep_invariant:
  assumes "db_inv (w_db w)"
  shows "db_inv (w_db (snd (agent_create d tid name ins w)))" "db_inv (w_db (snd (agent_update tid aid ins w)))"
    "db_inv (w_db (snd (tenant_delete args w)))" "db_inv (w_db (snd (tenant_update F args w)))"
    "db_inv (w_db (snd (user_remove tid args w)))" "db_inv (w_db (snd (tenant_mapping_delete chan ext w)))"
proof -
  have new: "reaches w (snd (new_id w))" by (intro reach)
  have "reaches w (snd (agent_create d tid name ins w))"
    unfolding agent_create_def Let_def by (auto simp: case_prod_beta intro!: reach new)
  moreover have "reaches w (snd (agent_update tid aid ins w))"
    unfolding agent_update_def with_agent_def by (auto intro!: reach split: option.split)
  moreover have "reaches w (snd (tenant_delete args w))"
    unfolding tenant_delete_def by (auto intro!: reach split: list.split)
  moreover have "reaches w (snd (tenant_update F args w))"
    unfolding tenant_update_def by (auto intro!: reach split: list.split option.split)
  moreover have "reaches w (snd (user_remove tid args w))"
    unfolding user_remove_def by (auto intro!: reach split: list.split)
  moreover have "reaches w (snd (tenant_mapping_delete chan ext w))"
    unfolding tenant_mapping_delete_def by (auto intro!: reach)
  ultimately show "db_inv (w_db (snd (agent_create d tid name ins w)))" "db_inv (w_db (snd (agent_update tid aid ins w)))"
    "db_inv (w_db (snd (tenant_delete args w)))" "db_inv (w_db (snd (tenant_update F args w)))"
    "db_inv (w_db (snd (user_remove tid args w)))" "db_inv (w_db (snd (tenant_mapping_delete chan ext w)))"
    using reaches_inv assms by blast+
qed

section \<open>An update changes what it was given\<close>

lemma find_update:
  assumes "\<And>r. q (upd r) = q r" "\<And>r. q r \<Longrightarrow> p r" "find q rows = Some t"
  shows "find q (upsert p upd new rows) = Some (upd t)"
proof -
  have "\<exists>r \<in> set rows. p r" using find_SomeD [OF assms(3)] assms(2) by blast
  moreover have "find q (map (\<lambda>r. if p r then upd r else r) rows) = Some (upd t)"
    using assms by (induction rows) (auto split: if_splits)
  ultimately show ?thesis by (simp add: upsert_def)
qed

text \<open>
  After a successful update of a tenant its fields are those given and, where none was given, the
  old ones; no other tenant changes.
\<close>

theorem tenant_update_as_given:
  assumes "tenant_update F (tid # args) w = (Done x, w')"
  shows "\<exists>t. live_tenant tid (w_db w) = Some t \<and> live_tenant tid (w_db w') = Some (apply_flags F t)
    \<and> (\<forall>other. other \<noteq> tid \<longrightarrow> live_tenant other (w_db w') = live_tenant other (w_db w))"
proof -
  obtain t w1 where t: "get_tenant tid w = (Inr (Some t), w1)" and s: "save_tenant tid (apply_flags F t) w1 = (Inr (), w')"
    using assms by (auto simp: tenant_update_def if_ok_def split: if_splits prod.splits sum.splits option.splits)
  have w1: "w_db w1 = w_db w" "live_tenant tid (w_db w) = Some t"
    using t by (auto simp: get_tenant_def db_query_def Let_def split: if_splits)
  let ?upd = "\<lambda>r. r\<lparr>tn_name := tn_name (apply_flags F t), tn_instructions := tn_instructions (apply_flags F t),
      tn_default_agent := tn_default_agent (apply_flags F t), tn_join_policy := tn_join_policy (apply_flags F t),
      tn_rejection := tn_rejection (apply_flags F t), tn_group_mode := tn_group_mode (apply_flags F t),
      tn_allowed_skills := tn_allowed_skills (apply_flags F t), tn_allowed_tools := tn_allowed_tools (apply_flags F t)\<rparr>"
  obtain new where rows: "d_tenants (w_db w') = upsert (\<lambda>r. tn_id r = tid) ?upd new (d_tenants (w_db w))" "tn_id new = tid"
    using s w1 by (auto simp: save_tenant_def db_exec_def Let_def split: if_splits)
  have "live_tenant tid (w_db w') = Some (?upd t)"
    using w1(2) unfolding live_tenant_def rows by (intro find_update) auto
  moreover have "?upd t = apply_flags F t" by (simp add: apply_flags_def)
  moreover have "live_tenant other (w_db w') = live_tenant other (w_db w)" if "other \<noteq> tid" for other
    unfolding live_tenant_def rows by (rule find_upsert_other) (use that rows(2) in auto)
  ultimately show ?thesis using w1(2) by auto
qed

end
