(* ===== verification/Whisper.thy ===== *)
theory Whisper
  imports Middleware Go_Path
begin

text \<open>
  The transcription of voice messages, \<open>pkg/plugins/middleware/whisper\<close>: its settings, the
  request to the service, and what the middleware makes of the answers. Reading a file, HTTP and
  \<open>encoding/json\<close> are parameters.
\<close>

section \<open>Settings and request\<close>

record stt_config =
  st_api_base :: string
  st_api_key :: string
  st_model :: string

datatype stt_config_error = BadJson | NoApiBase | NoApiKey

definition whisper_init :: "stt_config option \<Rightarrow> stt_config_error + stt_config" where
  "whisper_init decoded = (case decoded of
       None \<Rightarrow> Inl BadJson
     | Some c \<Rightarrow>
         if st_api_base c = [] then Inl NoApiBase
         else if st_api_key c = [] then Inl NoApiKey
         else Inr (if st_model c = [] then c\<lparr>st_model := ''whisper-1''\<rparr> else c))"

text \<open>The form has the file under \<open>file\<close> and the model under \<open>model\<close>.\<close>

record stt_request =
  sq_url :: string
  sq_authorization :: string
  sq_filename :: string
  sq_file :: string
  sq_model :: string

definition stt_request_of :: "stt_config \<Rightarrow> attachment \<Rightarrow> string \<Rightarrow> stt_request" where
  "stt_request_of C a content = \<lparr>sq_url = rev (dropWhile (\<lambda>c. c = CHR ''/'') (rev (st_api_base C))) @ ''/audio/transcriptions'',
     sq_authorization = ''Bearer '' @ st_api_key C,
     sq_filename = (if at_filename a = [] then path_base (at_path a) else at_filename a),
     sq_file = content, sq_model = st_model C\<rparr>"

text \<open>The answer of the service: none, or a status and the decoded text.\<close>

definition transcribe :: "(string \<Rightarrow> 's \<Rightarrow> string option) \<Rightarrow> (stt_request \<Rightarrow> 's \<Rightarrow> (int \<times> string option) option \<times> 's)
    \<Rightarrow> stt_config \<Rightarrow> attachment \<Rightarrow> 's \<Rightarrow> string option \<times> 's" where
  "transcribe read post C a s = (case read (at_path a) s of
       None \<Rightarrow> (None, s)
     | Some content \<Rightarrow> (case post (stt_request_of C a content) s of
         (None, s1) \<Rightarrow> (None, s1)
       | (Some (status, decoded), s1) \<Rightarrow> (if status \<noteq> 200 then None else decoded, s1)))"

section \<open>No attachment is lost\<close>

datatype voice_outcome = Untouched | NotHeard | Heard string

definition said :: "voice_outcome \<Rightarrow> string list" where
  "said v = (case v of Untouched \<Rightarrow> [] | NotHeard \<Rightarrow> [''[transcription failed]''] | Heard t \<Rightarrow> [t])"

definition heard :: "voice_outcome \<Rightarrow> bool" where
  "heard v = (case v of Heard _ \<Rightarrow> True | _ \<Rightarrow> False)"

text \<open>What can have become of an attachment.\<close>

definition outcome_of :: "(attachment \<Rightarrow> 's \<Rightarrow> string option \<times> 's) \<Rightarrow> attachment \<Rightarrow> voice_outcome \<Rightarrow> bool" where
  "outcome_of stt a v = (case v of
       Untouched \<Rightarrow> \<not> transcribable a
     | NotHeard \<Rightarrow> transcribable a \<and> (\<exists>s. fst (stt a s) = None)
     | Heard t \<Rightarrow> transcribable a \<and> (\<exists>s. fst (stt a s) = Some t))"

lemma transcribe_all_outcomes:
  assumes "transcribe_all stt as content s = (c, kept, s1)"
  shows "\<exists>vs. list_all2 (outcome_of stt) as vs
    \<and> kept = map fst (filter (\<lambda>(a, v). \<not> heard v) (zip as vs))
    \<and> c = foldl append_content content (concat (map said vs))"
  using assms
proof (induction as arbitrary: content s c kept s1)
  case (Cons a as)
  obtain r s2 where r: "stt a s = (r, s2)" by fastforce
  have step: ?case if v: "outcome_of stt a v"
      and "transcribe_all stt as (foldl append_content content (said v)) s' = (c, kept', s1)"
      and "kept = (if heard v then kept' else a # kept')" for v s' kept'
  proof -
    from Cons.IH [OF that(2)] obtain vs where "list_all2 (outcome_of stt) as vs"
      "kept' = map fst (filter (\<lambda>(a, v). \<not> heard v) (zip as vs))"
      "c = foldl append_content (foldl append_content content (said v)) (concat (map said vs))" by blast
    with v that(3) show ?thesis by (intro exI [of _ "v # vs"]) simp
  qed
  show ?case
  proof (cases "transcribable a")
    case False
    then have "outcome_of stt a Untouched" by (simp add: outcome_of_def)
    moreover obtain c' k' s' where "transcribe_all stt as content s = (c', k', s')" by (metis prod_cases3)
    ultimately show ?thesis using Cons.prems False step [of Untouched s k'] by (simp add: said_def heard_def)
  next
    case True
    show ?thesis
    proof (cases r)
      case None
      have "outcome_of stt a NotHeard" using True r None by (simp add: outcome_of_def) (metis fst_conv)
      moreover obtain c' k' s' where "transcribe_all stt as (append_content content ''[transcription failed]'') s2 = (c', k', s')"
        by (metis prod_cases3)
      ultimately show ?thesis using Cons.prems True r None step [of NotHeard s2 k'] by (simp add: said_def heard_def)
    next
      case (Some t)
      moreover have "outcome_of stt a (Heard t)" using True r Some by (simp add: outcome_of_def) (metis fst_conv)
      ultimately show ?thesis using Cons.prems True r step [of "Heard t" s2 kept] by (simp add: said_def heard_def)
    qed
  qed
qed simp

text \<open>
  The message is handed on exactly once, with every attachment accounted for: a recording is dropped
  only for its transcription, which the text of the message then has in its place; one that could not
  be transcribed stays, with a notice; all others stay as they are.
\<close>

theorem recordings_accounted_for:
  "\<exists>vs s1. list_all2 (outcome_of stt) (ms_attachments m) vs
    \<and> whisper_wrap stt next m s =
        next (m\<lparr>ms_content := foldl append_content (ms_content m) (concat (map said vs)),
                ms_attachments := map fst (filter (\<lambda>(a, v). \<not> heard v) (zip (ms_attachments m) vs))\<rparr>) s1"
proof (cases "\<exists>a \<in> set (ms_attachments m). transcribable a")
  case True
  obtain c kept s1 where t: "transcribe_all stt (ms_attachments m) (ms_content m) s = (c, kept, s1)"
    by (metis prod_cases3)
  with transcribe_all_outcomes [OF t] True show ?thesis by (auto simp: whisper_wrap_def)
next
  case False
  let ?vs = "map (\<lambda>_. Untouched) (ms_attachments m)"
  have "list_all2 (outcome_of stt) as (map (\<lambda>_. Untouched) as)" if "\<forall>a \<in> set as. \<not> transcribable a" for as
    using that by (induction as) (simp_all add: outcome_of_def)
  then have "list_all2 (outcome_of stt) (ms_attachments m) ?vs" using False by blast
  moreover have "concat (map said ?vs) = []" by (induction "ms_attachments m") (simp_all add: said_def)
  moreover have "map fst (filter (\<lambda>(a, v). \<not> heard v) (zip as (map (\<lambda>_. Untouched) as))) = as" for as :: "attachment list"
    by (induction as) (simp_all add: heard_def)
  moreover have "whisper_wrap stt next m s = next (m\<lparr>ms_content := foldl append_content (ms_content m) [],
      ms_attachments := ms_attachments m\<rparr>) s" using False by (simp add: whisper_wrap_def)
  ultimately show ?thesis by metis
qed

end
