(* ===== verification/Shared_Tools.thy ===== *)
theory Shared_Tools
  imports Loop_Workers
begin

text \<open>
  The tools are shared by all turns, and a turn writes its own sandbox proxy and model override into
  them before it works and its sandbox back afterwards (\<open>runTurn\<close> in
  \<open>internal/domain/service/loop/loop.go\<close>). The machine of the workers is extended by these
  writes, one step each, and by the uses that tools make of what they hold.
\<close>

datatype slot = SandboxSlot string | OverrideSlot string
datatype held = SharedOne | TurnOwn nat
datatype turn_phase = Waiting | Setting bool "(slot \<times> held) list" | Working bool | Resetting "(slot \<times> held) list" | Over

record shared_tools =
  su_workers :: workers
  su_sandboxed :: "string list"
  su_overriding :: "string list"
  su_phase :: "nat \<Rightarrow> turn_phase"
  su_held :: "slot \<Rightarrow> held"
  su_uses :: "(nat \<times> bool \<times> slot \<times> held) list"

definition init_tools :: "nat \<Rightarrow> string list \<Rightarrow> string list \<Rightarrow> shared_tools" where
  "init_tools n ss os = \<lparr>su_workers = no_workers n, su_sandboxed = ss, su_overriding = os,
     su_phase = (\<lambda>_. Waiting), su_held = (\<lambda>_. SharedOne), su_uses = []\<rparr>"

definition set_phase :: "nat \<Rightarrow> turn_phase \<Rightarrow> shared_tools \<Rightarrow> shared_tools" where
  "set_phase h p s = s\<lparr>su_phase := (su_phase s)(h := p)\<rparr>"

definition hold :: "slot \<Rightarrow> held \<Rightarrow> shared_tools \<Rightarrow> shared_tools" where
  "hold x v s = s\<lparr>su_held := (su_held s)(x := v)\<rparr>"

text \<open>The slots of the tools of the running program.\<close>

definition live_slots :: "shared_tools \<Rightarrow> slot set" where
  "live_slots s = SandboxSlot ` set (su_sandboxed s) \<union> OverrideSlot ` set (su_overriding s)"

definition turn_writes :: "nat \<Rightarrow> bool \<Rightarrow> string list \<Rightarrow> string list \<Rightarrow> (slot \<times> held) list" where
  "turn_writes h proxied ss os =
     (if proxied then map (\<lambda>t. (SandboxSlot t, TurnOwn h)) ss else []) @ map (\<lambda>t. (OverrideSlot t, TurnOwn h)) os"

definition reset_writes :: "bool \<Rightarrow> string list \<Rightarrow> (slot \<times> held) list" where
  "reset_writes proxied ss = (if proxied then map (\<lambda>t. (SandboxSlot t, SharedOne)) ss else [])"

text \<open>
  A turn that fails before its proxy is made writes nothing (\<open>Skip\<close>); one without a sandbox, or
  whose container cannot be had, writes the override only. Ranging over the map of tools takes
  any order. A worker gives up its turn when the deferred writes are done.
\<close>

inductive tool_step :: "shared_tools \<Rightarrow> shared_tools \<Rightarrow> bool" where
  Worker: "worker_step (su_workers s) w \<Longrightarrow>
    (\<And>h. lw_state (su_workers s) h = Some Running \<Longrightarrow> lw_state w h \<noteq> Some Running \<Longrightarrow> su_phase s h = Over) \<Longrightarrow>
    tool_step s (s\<lparr>su_workers := w\<rparr>)"
| Skip: "lw_state (su_workers s) h = Some Running \<Longrightarrow> su_phase s h = Waiting \<Longrightarrow> tool_step s (set_phase h Over s)"
| Begin: "lw_state (su_workers s) h = Some Running \<Longrightarrow> su_phase s h = Waiting \<Longrightarrow>
    set ss = set (su_sandboxed s) \<Longrightarrow> set os = set (su_overriding s) \<Longrightarrow>
    tool_step s (set_phase h (Setting p (turn_writes h p ss os)) s)"
| Write: "su_phase s h = Setting p ((x, v) # ws) \<Longrightarrow> tool_step s (set_phase h (Setting p ws) (hold x v s))"
| Ready: "su_phase s h = Setting p [] \<Longrightarrow> tool_step s (set_phase h (Working p) s)"
| Use: "su_phase s h = Working p \<Longrightarrow> x \<in> live_slots s \<Longrightarrow>
    tool_step s (s\<lparr>su_uses := su_uses s @ [(h, p, x, su_held s x)]\<rparr>)"
| Reset: "su_phase s h = Working p \<Longrightarrow> set ss = set (su_sandboxed s) \<Longrightarrow>
    tool_step s (set_phase h (Resetting (reset_writes p ss)) s)"
| Restore: "su_phase s h = Resetting ((x, v) # ws) \<Longrightarrow> tool_step s (set_phase h (Resetting ws) (hold x v s))"
| Finish: "su_phase s h = Resetting [] \<Longrightarrow> tool_step s (set_phase h Over s)"

inductive tools_reach :: "nat \<Rightarrow> shared_tools \<Rightarrow> bool" for n where
  Init: "tools_reach n (init_tools n ss os)"
| Next: "tools_reach n s \<Longrightarrow> tool_step s s' \<Longrightarrow> tools_reach n s'"

lemma written_slots [simp]:
  "fst ` set (turn_writes h p ss os) = (if p then SandboxSlot ` set ss else {}) \<union> OverrideSlot ` set os"
  "fst ` set (reset_writes p ss) = (if p then SandboxSlot ` set ss else {})"
  by (simp_all add: turn_writes_def reset_writes_def image_Un image_image)

lemma set_phase_simps [simp]:
  "su_workers (set_phase h p s) = su_workers s" "su_sandboxed (set_phase h p s) = su_sandboxed s"
  "su_overriding (set_phase h p s) = su_overriding s" "su_phase (set_phase h p s) = (su_phase s)(h := p)"
  "su_held (set_phase h p s) = su_held s" "su_uses (set_phase h p s) = su_uses s"
  by (simp_all add: set_phase_def)

lemma hold_simps [simp]:
  "su_workers (hold x v s) = su_workers s" "su_sandboxed (hold x v s) = su_sandboxed s"
  "su_overriding (hold x v s) = su_overriding s" "su_phase (hold x v s) = su_phase s"
  "su_held (hold x v s) = (su_held s)(x := v)" "su_uses (hold x v s) = su_uses s"
  by (simp_all add: hold_def)

section \<open>One worker\<close>

text \<open>What a tool should hold during a turn.\<close>

definition due_held :: "nat \<Rightarrow> bool \<Rightarrow> slot \<Rightarrow> held" where
  "due_held h proxied x = (case x of SandboxSlot _ \<Rightarrow> if proxied then TurnOwn h else SharedOne | OverrideSlot _ \<Rightarrow> TurnOwn h)"

definition in_turn :: "turn_phase \<Rightarrow> bool" where
  "in_turn p \<longleftrightarrow> p \<noteq> Waiting \<and> p \<noteq> Over"

definition phase_ok :: "shared_tools \<Rightarrow> nat \<Rightarrow> bool" where
  "phase_ok s h \<longleftrightarrow> (case su_phase s h of
       Setting p ws \<Rightarrow> (\<forall>x \<in> live_slots s. x \<in> fst ` set ws \<or> su_held s x = due_held h p x) \<and> (\<forall>(x, v) \<in> set ws. v = due_held h p x)
     | Working p \<Rightarrow> \<forall>x \<in> live_slots s. su_held s x = due_held h p x
     | Resetting ws \<Rightarrow> (\<forall>t \<in> set (su_sandboxed s). SandboxSlot t \<in> fst ` set ws \<or> su_held s (SandboxSlot t) = SharedOne)
         \<and> (\<forall>(x, v) \<in> set ws. v = SharedOne)
     | _ \<Rightarrow> True)"

definition tools_ok :: "shared_tools \<Rightarrow> bool" where
  "tools_ok s \<longleftrightarrow> workers_ok 1 (su_workers s)
     \<and> (\<forall>h. in_turn (su_phase s h) \<longrightarrow> lw_state (su_workers s) h = Some Running \<and> phase_ok s h)
     \<and> ((\<forall>h. \<not> in_turn (su_phase s h)) \<longrightarrow> (\<forall>t \<in> set (su_sandboxed s). su_held s (SandboxSlot t) = SharedOne))
     \<and> (\<forall>(h, p, x, v) \<in> set (su_uses s). v = due_held h p x)"

lemma one_runner:
  assumes "workers_ok 1 w" "lw_state w h = Some Running" "lw_state w k = Some Running"
  shows "h = k"
proof -
  have "{h, k} \<subseteq> holders w" using assms(2,3) by (auto simp: holders_def)
  then have "card {h, k} \<le> 1" using assms(1) card_mono [of "holders w" "{h, k}"] by (simp add: workers_ok_def)
  then show ?thesis by (cases "h = k") simp_all
qed

text \<open>A step of the turn of \<open>h\<close>, when it is the only one that runs.\<close>

lemma tools_ok_turn:
  assumes "tools_ok s" "lw_state (su_workers s) h = Some Running"
    and "su_workers s' = su_workers s" "su_sandboxed s' = su_sandboxed s" "su_overriding s' = su_overriding s"
    and "\<And>k. k \<noteq> h \<Longrightarrow> su_phase s' k = su_phase s k" "phase_ok s' h"
    and "\<not> in_turn (su_phase s' h) \<Longrightarrow> \<forall>t \<in> set (su_sandboxed s). su_held s' (SandboxSlot t) = SharedOne"
    and "\<forall>(h, p, x, v) \<in> set (su_uses s'). v = due_held h p x"
  shows "tools_ok s'"
proof -
  have "\<not> in_turn (su_phase s k)" if "k \<noteq> h" for k
    using assms(1,2) one_runner [of "su_workers s" h k] that unfolding tools_ok_def by blast
  then have only: "k = h" if "in_turn (su_phase s' k)" for k using that assms(6) by metis
  show ?thesis using assms only unfolding tools_ok_def by metis
qed

lemma in_turn_simps [simp]:
  "\<not> in_turn Waiting" "\<not> in_turn Over" "in_turn (Setting p ws)" "in_turn (Working p)" "in_turn (Resetting ws)"
  by (simp_all add: in_turn_def)

lemma idle_shared:
  assumes "tools_ok s" "lw_state (su_workers s) h = Some Running" "\<not> in_turn (su_phase s h)" "t \<in> set (su_sandboxed s)"
  shows "su_held s (SandboxSlot t) = SharedOne"
proof -
  have "\<not> in_turn (su_phase s k)" for k
    using assms(1-3) one_runner [of "su_workers s" h k] unfolding tools_ok_def by metis
  then show ?thesis using assms(1,4) unfolding tools_ok_def by blast
qed

lemma tools_ok_step:
  assumes "tools_ok s" "tool_step s s'"
  shows "tools_ok s'"
  using assms(2)
proof cases
  case (Worker w)
  have "workers_ok 1 w" using workers_ok_step [of 1 "su_workers s" w] assms(1) Worker(2) by (simp add: tools_ok_def)
  moreover have "lw_state w h = Some Running" if "in_turn (su_phase s h)" for h
    using that assms(1) Worker(3) [of h] unfolding tools_ok_def in_turn_def by blast
  moreover have "phase_ok (s\<lparr>su_workers := w\<rparr>) h = phase_ok s h" for h
    unfolding phase_ok_def live_slots_def by (cases "su_phase s h") simp_all
  ultimately show ?thesis using assms(1) by (simp add: Worker(1) tools_ok_def)
next
  case (Skip h)
  show ?thesis
    by (rule tools_ok_turn [OF assms(1) Skip(2)])
      (use Skip assms(1) idle_shared [OF assms(1) Skip(2)] in \<open>simp_all add: phase_ok_def tools_ok_def\<close>)
next
  case (Begin h ss os p)
  have "\<forall>x \<in> live_slots s. x \<in> fst ` set (turn_writes h p ss os) \<or> su_held s x = due_held h p x"
    using Begin(3-5) idle_shared [OF assms(1) Begin(2)]
    by (auto simp: live_slots_def due_held_def)
  moreover have "\<forall>(x, v) \<in> set (turn_writes h p ss os). v = due_held h p x"
    by (auto simp: turn_writes_def due_held_def)
  ultimately show ?thesis
    by (intro tools_ok_turn [OF assms(1) Begin(2)])
      (use Begin assms(1) in \<open>simp_all add: phase_ok_def tools_ok_def live_slots_def del: written_slots\<close>)
next
  case (Write h p x v ws)
  have run: "lw_state (su_workers s) h = Some Running" "phase_ok s h"
    using assms(1) Write(2) unfolding tools_ok_def by (metis in_turn_simps(3))+
  show ?thesis
    by (rule tools_ok_turn [OF assms(1) run(1)])
      (use Write run(2) assms(1) in \<open>auto simp: phase_ok_def tools_ok_def live_slots_def\<close>)
next
  case (Ready h p)
  have run: "lw_state (su_workers s) h = Some Running" "phase_ok s h"
    using assms(1) Ready(2) unfolding tools_ok_def by (metis in_turn_simps(3))+
  show ?thesis
    by (rule tools_ok_turn [OF assms(1) run(1)])
      (use Ready run(2) assms(1) in \<open>auto simp: phase_ok_def tools_ok_def live_slots_def\<close>)
next
  case (Use h p x)
  have run: "lw_state (su_workers s) h = Some Running" "phase_ok s h"
    using assms(1) Use(2) unfolding tools_ok_def by (metis in_turn_simps(4))+
  show ?thesis
    by (rule tools_ok_turn [OF assms(1) run(1)])
      (use Use run(2) assms(1) in \<open>auto simp: phase_ok_def tools_ok_def live_slots_def\<close>)
next
  case (Reset h p ss)
  have run: "lw_state (su_workers s) h = Some Running" "phase_ok s h"
    using assms(1) Reset(2) unfolding tools_ok_def by (metis in_turn_simps(4))+
  have "\<forall>t \<in> set (su_sandboxed s). SandboxSlot t \<in> fst ` set (reset_writes p ss) \<or> su_held s (SandboxSlot t) = SharedOne"
    using run(2) Reset(2,3) by (auto simp: phase_ok_def live_slots_def due_held_def)
  moreover have "\<forall>(x, v) \<in> set (reset_writes p ss). v = SharedOne" by (auto simp: reset_writes_def)
  ultimately show ?thesis
    by (intro tools_ok_turn [OF assms(1) run(1)])
      (use Reset assms(1) in \<open>simp_all add: phase_ok_def tools_ok_def del: written_slots\<close>)
next
  case (Restore h x v ws)
  have run: "lw_state (su_workers s) h = Some Running" "phase_ok s h"
    using assms(1) Restore(2) unfolding tools_ok_def by (metis in_turn_simps(5))+
  show ?thesis
    by (rule tools_ok_turn [OF assms(1) run(1)])
      (use Restore run(2) assms(1) in \<open>auto simp: phase_ok_def tools_ok_def\<close>)
next
  case (Finish h)
  have run: "lw_state (su_workers s) h = Some Running" "phase_ok s h"
    using assms(1) Finish(2) unfolding tools_ok_def by (metis in_turn_simps(5))+
  show ?thesis
    by (rule tools_ok_turn [OF assms(1) run(1)])
      (use Finish run(2) assms(1) in \<open>auto simp: phase_ok_def tools_ok_def\<close>)
qed

text \<open>
  C26: With a single worker every tool works, throughout a turn, in the sandbox of this turn, if it
  has one, and with its model override, in every interleaving.
\<close>

theorem single_worker_keeps_tools:
  assumes "tools_reach 1 s" "(h, proxied, x, v) \<in> set (su_uses s)"
  shows "v = due_held h proxied x"
proof -
  have "tools_ok s" using assms(1)
  proof (induction rule: tools_reach.induct)
    case (Init ss os)
    then show ?case by (simp add: tools_ok_def init_tools_def workers_ok_def no_workers_def holders_def)
  next
    case (Next s s')
    then show ?case using tools_ok_step by blast
  qed
  with assms(2) show ?thesis unfolding tools_ok_def by blast
qed

section \<open>Two workers\<close>

text \<open>A handler gets as far as its turn when there is room.\<close>

definition with_runner :: "nat \<Rightarrow> string \<Rightarrow> workers \<Rightarrow> workers" where
  "with_runner h c w = set_worker h Running (w\<lparr>lw_chat := (lw_chat w)(h := c), lw_slots := lw_slots w + 1,
     lw_locked := (lw_locked w)(c := True)\<rparr>)"

lemma runner_reached:
  assumes "tools_reach n s" "lw_state (su_workers s) h = None" "\<not> lw_draining (su_workers s)"
    "lw_slots (su_workers s) < lw_max (su_workers s)" "\<not> lw_locked (su_workers s) c"
  shows "tools_reach n (s\<lparr>su_workers := with_runner h c (su_workers s)\<rparr>)"
proof -
  let ?w = "su_workers s"
  let ?w1 = "set_worker h Arrived (?w\<lparr>lw_chat := (lw_chat ?w)(h := c)\<rparr>)"
  let ?w2 = "set_worker h Checked ?w1"
  let ?w3 = "set_worker h Holding (?w2\<lparr>lw_slots := lw_slots ?w2 + 1\<rparr>)"
  let ?w4 = "set_worker h Running (?w3\<lparr>lw_locked := (lw_locked ?w3)(lw_chat ?w3 h := True)\<rparr>)"
  have go: "tools_reach n (s\<lparr>su_workers := b\<rparr>)" if "tools_reach n (s\<lparr>su_workers := a\<rparr>)" "worker_step a b"
    "\<And>k. lw_state a k = Some Running \<Longrightarrow> lw_state b k = Some Running" for a b
    using Next [OF that(1)] tool_step.Worker [of "s\<lparr>su_workers := a\<rparr>" b] that(2,3) by simp
  have "tools_reach n (s\<lparr>su_workers := ?w\<rparr>)" using assms(1) by simp
  then have "tools_reach n (s\<lparr>su_workers := ?w1\<rparr>)" by (rule go [OF _ Arrive]) (use assms(2) in auto)
  then have "tools_reach n (s\<lparr>su_workers := ?w2\<rparr>)" by (rule go [OF _ Check]) (use assms(2,3) in auto)
  then have "tools_reach n (s\<lparr>su_workers := ?w3\<rparr>)" by (rule go [OF _ Acquire]) (use assms(2,4) in auto)
  then have "tools_reach n (s\<lparr>su_workers := ?w4\<rparr>)" by (rule go [OF _ Lock]) (use assms(2,5) in auto)
  moreover have "?w4 = with_runner h c ?w" by (simp add: with_runner_def set_worker_def)
  ultimately show ?thesis by simp
qed

text \<open>
  With two workers a tool called by the turn of one chat can work in the sandbox of a turn of
  another chat.
\<close>

theorem turns_swap_sandboxes:
  "\<exists>s. tools_reach 2 s \<and> lw_chat (su_workers s) 1 \<noteq> lw_chat (su_workers s) 2
    \<and> (1, True, SandboxSlot ''shell'', TurnOwn 2) \<in> set (su_uses s)"
proof -
  let ?s0 = "init_tools 2 [''shell''] []"
  let ?s1 = "?s0\<lparr>su_workers := with_runner 1 ''a'' (su_workers ?s0)\<rparr>"
  let ?s2 = "?s1\<lparr>su_workers := with_runner 2 ''b'' (su_workers ?s1)\<rparr>"
  let ?ws = "\<lambda>h. turn_writes h True [''shell''] []"
  let ?s3 = "set_phase 1 (Setting True (?ws 1)) ?s2"
  let ?s4 = "set_phase 1 (Setting True []) (hold (SandboxSlot ''shell'') (TurnOwn 1) ?s3)"
  let ?s5 = "set_phase 1 (Working True) ?s4"
  let ?s6 = "set_phase 2 (Setting True (?ws 2)) ?s5"
  let ?s7 = "set_phase 2 (Setting True []) (hold (SandboxSlot ''shell'') (TurnOwn 2) ?s6)"
  let ?s8 = "?s7\<lparr>su_uses := su_uses ?s7 @ [(1, True, SandboxSlot ''shell'', su_held ?s7 (SandboxSlot ''shell''))]\<rparr>"
  note facts = init_tools_def no_workers_def with_runner_def turn_writes_def live_slots_def
  have "tools_reach 2 ?s0" by (rule Init)
  then have "tools_reach 2 ?s1" by (rule runner_reached) (simp_all add: facts)
  then have "tools_reach 2 ?s2" by (rule runner_reached) (simp_all add: facts)
  then have "tools_reach 2 ?s3" by (rule Next [OF _ Begin]) (simp_all add: facts)
  then have "tools_reach 2 ?s4" by (rule Next [OF _ Write]) (simp add: facts)
  then have "tools_reach 2 ?s5" by (rule Next [OF _ Ready]) (simp add: facts)
  then have "tools_reach 2 ?s6" by (rule Next [OF _ Begin]) (simp_all add: facts)
  then have "tools_reach 2 ?s7" by (rule Next [OF _ Write]) (simp add: facts)
  then have "tools_reach 2 ?s8" by (rule Next [OF _ Use]) (simp_all add: facts)
  then show ?thesis by (intro exI [of _ ?s8]) (simp add: facts)
qed

theorem single_worker_keeps_tools_witness:
  "\<exists>s v. tools_reach 1 s \<and> (1, True, SandboxSlot ''shell'', v) \<in> set (su_uses s) \<and> v = TurnOwn 1"
proof -
  let ?x = "SandboxSlot ''shell''"
  let ?s0 = "init_tools 1 [''shell''] []"
  let ?s1 = "?s0\<lparr>su_workers := with_runner 1 ''a'' (su_workers ?s0)\<rparr>"
  let ?s2 = "set_phase 1 (Setting True (turn_writes 1 True [''shell''] [])) ?s1"
  let ?s3 = "set_phase 1 (Setting True []) (hold ?x (TurnOwn 1) ?s2)"
  let ?s4 = "set_phase 1 (Working True) ?s3"
  let ?s5 = "?s4\<lparr>su_uses := su_uses ?s4 @ [(1, True, ?x, su_held ?s4 ?x)]\<rparr>"
  note facts = init_tools_def no_workers_def with_runner_def turn_writes_def live_slots_def
  have "tools_reach 1 ?s0" by (rule Init)
  then have "tools_reach 1 ?s1" by (rule runner_reached) (simp_all add: facts)
  then have "tools_reach 1 ?s2" by (rule Next [OF _ Begin]) (simp_all add: facts)
  then have "tools_reach 1 ?s3" by (rule Next [OF _ Write]) (simp add: facts)
  then have "tools_reach 1 ?s4" by (rule Next [OF _ Ready]) (simp add: facts)
  then have reach: "tools_reach 1 ?s5" by (rule Next [OF _ Use]) (simp_all add: facts)
  have use: "(1, True, ?x, su_held ?s4 ?x) \<in> set (su_uses ?s5)" by simp
  from single_worker_keeps_tools [OF reach use] reach use show ?thesis by (auto simp: due_held_def)
qed

end
