(* ===== verification/Outbox.thy ===== *)
theory Outbox
  imports Store Go_Path
begin

text \<open>
  The files a turn leaves in its outbox become attachments of its answer
  (\<open>harvestAttachments\<close> in \<open>internal/domain/service/loop/loop.go\<close>). The listing of the
  directory and the table of MIME types are parameters.
\<close>

text \<open>\<open>filepath.Ext\<close>: from the last dot of the last element, the dot included.\<close>

definition path_ext :: "string \<Rightarrow> string" where
  "path_ext p = (let r = rev p; e = takeWhile (\<lambda>c. c \<noteq> CHR ''.'' \<and> c \<noteq> CHR ''/'') r; rest = drop (length e) r
     in if rest \<noteq> [] \<and> hd rest = CHR ''.'' then CHR ''.'' # rev e else [])"

definition mime_from_filename :: "(string \<Rightarrow> string) \<Rightarrow> string \<Rightarrow> string" where
  "mime_from_filename mime_type name =
     (if path_ext name = [] then ''application/octet-stream''
      else if mime_type (path_ext name) = [] then ''application/octet-stream''
      else mime_type (path_ext name))"

text \<open>An entry: its name, whether it is a directory, and its size unless it cannot be read.\<close>

type_synonym dir_listing = "(string \<times> bool \<times> int option) list"

fun scan_entries :: "(string \<Rightarrow> string) \<Rightarrow> string \<Rightarrow> dir_listing \<Rightarrow> world \<Rightarrow> attachment list \<times> world" where
  "scan_entries mime_type dir [] w = ([], w)"
| "scan_entries mime_type dir ((name, is_dir, bytes) # es) w =
     (if is_dir \<or> bytes = None then scan_entries mime_type dir es w
      else let (i, w1) = new_id w; (as, w2) = scan_entries mime_type dir es w1 in
        (\<lparr>at_id = i, at_kind = ''document'', at_filename = name, at_mime = mime_from_filename mime_type name,
          at_size = the bytes, at_path = path_join [dir, name], at_caption = []\<rparr> # as, w2))"

datatype listing = Unreadable | NoSuchDir | Listing dir_listing

definition harvest_attachments :: "(string \<Rightarrow> string) \<Rightarrow> string \<Rightarrow> listing \<Rightarrow> world \<Rightarrow> (unit + attachment list) \<times> world" where
  "harvest_attachments mime_type dir l w = (case l of
       Unreadable \<Rightarrow> (Inl (), w)
     | NoSuchDir \<Rightarrow> (Inr [], w)
     | Listing es \<Rightarrow> (let (as, w1) = scan_entries mime_type dir es w in (Inr as, w1)))"

lemma path_ext_plain: "CHR ''.'' \<notin> set e \<Longrightarrow> CHR ''/'' \<notin> set e \<Longrightarrow> path_ext (b @ CHR ''.'' # e) = CHR ''.'' # e"
proof -
  assume e: "CHR ''.'' \<notin> set e" "CHR ''/'' \<notin> set e"
  then have "takeWhile (\<lambda>c. c \<noteq> CHR ''.'' \<and> c \<noteq> CHR ''/'') (rev e @ CHR ''.'' # rev b) = rev e"
    by (subst takeWhile_append2) auto
  then show ?thesis by (simp add: path_ext_def Let_def)
qed

text \<open>The files that can be read, in the order of the listing.\<close>

definition listed_files :: "dir_listing \<Rightarrow> (string \<times> int) list" where
  "listed_files es = List.map_filter (\<lambda>(n, d, b). if d then None else map_option (Pair n) b) es"

lemma scan_entries_files:
  assumes "scan_entries mime_type dir es w = (as, w1)"
  shows "map (\<lambda>a. (at_filename a, at_size a)) as = listed_files es
    \<and> (\<forall>a \<in> set as. at_path a = path_join [dir, at_filename a] \<and> at_mime a = mime_from_filename mime_type (at_filename a))
    \<and> w1 = w\<lparr>w_drawn := w_drawn w + length as\<rparr> \<and> map at_id as = map (w_ids w) [w_drawn w..<w_drawn w + length as]"
  using assms
proof (induction mime_type dir es w arbitrary: as w1 rule: scan_entries.induct)
  case (2 mime_type dir name is_dir bytes es w)
  show ?case
  proof (cases "is_dir \<or> bytes = None")
    case True
    with 2 show ?thesis by (auto simp: listed_files_def List.map_filter_simps)
  next
    case False
    obtain as' w2 where s: "scan_entries mime_type dir es (snd (new_id w)) = (as', w2)" by fastforce
    obtain b where b: "bytes = Some b" using False by auto
    obtain i w1' where i: "new_id w = (i, w1')" by fastforce
    have "map (\<lambda>a. (at_filename a, at_size a)) as' = listed_files es
      \<and> (\<forall>a \<in> set as'. at_path a = path_join [dir, at_filename a] \<and> at_mime a = mime_from_filename mime_type (at_filename a))
      \<and> w2 = w1'\<lparr>w_drawn := w_drawn w1' + length as'\<rparr> \<and> map at_id as' = map (w_ids w1') [w_drawn w1'..<w_drawn w1' + length as']"
      using "2.IH"(2) [OF False i [symmetric]] s i by simp
    moreover have "i = w_ids w (w_drawn w)" "w1' = w\<lparr>w_drawn := Suc (w_drawn w)\<rparr>" using i by (simp_all add: new_id_def)
    moreover have "as = \<lparr>at_id = i, at_kind = ''document'', at_filename = name, at_mime = mime_from_filename mime_type name,
        at_size = b, at_path = path_join [dir, name], at_caption = []\<rparr> # as'" "w1 = w2"
      using "2.prems" False s i b by auto
    ultimately show ?thesis using False b
      by (simp add: listed_files_def List.map_filter_simps upt_conv_Cons del: upt_Suc)
  qed
qed (auto simp: listed_files_def List.map_filter_simps)

text \<open>Every readable file of the outbox is attached once, under its own path, with an identifier of its own.\<close>

theorem outbox_attached:
  assumes "harvest_attachments mime_type dir (Listing es) w = (Inr as, w1)" "inj (w_ids w)"
  shows "map (\<lambda>a. (at_filename a, at_size a)) as = listed_files es \<and> distinct (map at_id as)
    \<and> (\<forall>a \<in> set as. at_path a = path_join [dir, at_filename a])"
proof -
  have "scan_entries mime_type dir es w = (as, w1)"
    using assms(1) by (simp add: harvest_attachments_def split: prod.splits)
  from scan_entries_files [OF this] assms(2) show ?thesis
    by (auto simp: distinct_map intro: inj_on_subset)
qed

end
