(* ===== verification/Migrations.thy ===== *)
theory Migrations
  imports Prelude "HOL-Library.List_Lexorder" "HOL-Library.Char_ord"
begin

text \<open>
  Bringing the schema up to date, \<open>pkg/plugins/store/sqlite/migrate.go\<close>. What the text of a
  migration does to a schema, and whether its foreign keys hold, are parameters; any call of the
  database may fail, as the list of failures to come says. There is one connection, so that the
  switch of foreign keys is part of the state.
\<close>

record 'x schema_db =
  md_schema :: 'x
  md_versions :: "string list"
  md_foreign_keys :: bool
  md_faults :: "bool list"

record 'x sql =
  sq_run :: "string \<Rightarrow> 'x \<Rightarrow> 'x option"
  sq_keys_hold :: "'x \<Rightarrow> bool"

datatype migrate_error = CallFailed | SqlFailed string | KeyViolation string

text \<open>A call of the database, given what follows when it does not fail.\<close>

definition db_call :: "('x schema_db \<Rightarrow> (migrate_error + 'a) \<times> 'x schema_db) \<Rightarrow> 'x schema_db
    \<Rightarrow> (migrate_error + 'a) \<times> 'x schema_db" where
  "db_call k d = (let d1 = d\<lparr>md_faults := tl (md_faults d)\<rparr> in
     if md_faults d \<noteq> [] \<and> hd (md_faults d) then (Inl CallFailed, d1) else k d1)"

text \<open>
  Between the start of the transaction and its end nothing is kept when something fails; the check
  of foreign keys comes after the end.
\<close>

definition commit_migration :: "'x sql \<Rightarrow> string \<Rightarrow> 'x \<Rightarrow> 'x schema_db \<Rightarrow> (migrate_error + unit) \<times> 'x schema_db" where
  "commit_migration S version x = db_call (\<lambda>d.
     (if version \<in> set (md_versions d) then (Inl CallFailed, d)
      else db_call (\<lambda>d. db_call (\<lambda>d. db_call (\<lambda>d.
          (if sq_keys_hold S x then Inr () else Inl (KeyViolation version), d)) (d\<lparr>md_foreign_keys := True\<rparr>))
        (d\<lparr>md_schema := x, md_versions := md_versions d @ [version]\<rparr>)) d))"

definition apply_migration :: "'x sql \<Rightarrow> string \<Rightarrow> string \<Rightarrow> 'x schema_db \<Rightarrow> (migrate_error + unit) \<times> 'x schema_db" where
  "apply_migration S version sql_text = db_call (db_call (\<lambda>d. db_call (db_call (\<lambda>d.
     case sq_run S sql_text (md_schema d) of
       None \<Rightarrow> (Inl (SqlFailed version), d)
     | Some x \<Rightarrow> commit_migration S version x d)) (d\<lparr>md_foreign_keys := False\<rparr>)))"

fun apply_pending :: "'x sql \<Rightarrow> (string \<times> string) list \<Rightarrow> 'x schema_db \<Rightarrow> (migrate_error + unit) \<times> 'x schema_db" where
  "apply_pending S [] d = (Inr (), d)"
| "apply_pending S ((version, sql_text) # ms) d =
     if_ok (apply_migration S version sql_text d) (\<lambda>e d1. (Inl e, d1)) (\<lambda>_ d1. apply_pending S ms d1)"

definition pending_migrations :: "(string \<times> string) list \<Rightarrow> string list \<Rightarrow> (string \<times> string) list" where
  "pending_migrations files applied = filter (\<lambda>m. fst m \<notin> set applied) (sort_key fst files)"

definition migrate_to_latest :: "'x sql \<Rightarrow> (string \<times> string) list \<Rightarrow> 'x schema_db \<Rightarrow> (migrate_error + unit) \<times> 'x schema_db" where
  "migrate_to_latest S files = db_call (db_call (\<lambda>d. apply_pending S (pending_migrations files (md_versions d)) d))"

section \<open>What a run leaves\<close>

text \<open>The schema after some migrations: each run in turn, all or none.\<close>

fun run_all :: "'x sql \<Rightarrow> (string \<times> string) list \<Rightarrow> 'x \<Rightarrow> 'x option" where
  "run_all S [] x = Some x"
| "run_all S ((v, t) # ms) x = Option.bind (sq_run S t x) (run_all S ms)"

text \<open>Exactly these migrations were made and recorded.\<close>

definition applied_on :: "'x sql \<Rightarrow> (string \<times> string) list \<Rightarrow> 'x schema_db \<Rightarrow> 'x schema_db \<Rightarrow> bool" where
  "applied_on S ms d d' \<longleftrightarrow> md_versions d' = md_versions d @ map fst ms \<and> run_all S ms (md_schema d) = Some (md_schema d')"

lemma db_call_elim:
  assumes "db_call k d = (r, d')"
  obtains "r = Inl CallFailed" "d' = d\<lparr>md_faults := tl (md_faults d)\<rparr>"
    | "k (d\<lparr>md_faults := tl (md_faults d)\<rparr>) = (r, d')"
  using assms by (cases "md_faults d \<noteq> [] \<and> hd (md_faults d)") (simp_all add: db_call_def Let_def)

lemma applied_on_only:
  assumes "md_versions d1 = md_versions d" "md_schema d1 = md_schema d"
  shows "applied_on S ms d1 d' \<longleftrightarrow> applied_on S ms d d'"
  using assms by (simp add: applied_on_def)

text \<open>A migration is made and recorded, or neither; the second only with an error.\<close>

lemma commit_migration_cases:
  assumes "commit_migration S v x d = (r, d')" "sq_run S t (md_schema d) = Some x"
  shows "applied_on S [(v, t)] d d' \<or> (\<exists>e. r = Inl e) \<and> applied_on S [] d d'"
  using assms(1) unfolding commit_migration_def
proof (rule db_call_elim, goal_cases)
  case 1
  then show ?case by (simp add: applied_on_def)
next
  case 2
  show ?case
  proof (cases "v \<in> set (md_versions d)")
    case True
    with 2 show ?thesis by (auto simp: applied_on_def)
  next
    case False
    with 2 have "db_call (\<lambda>d. db_call (\<lambda>d. db_call (\<lambda>d.
        (if sq_keys_hold S x then Inr () else Inl (KeyViolation v), d)) (d\<lparr>md_foreign_keys := True\<rparr>))
        (d\<lparr>md_schema := x, md_versions := md_versions d @ [v]\<rparr>)) (d\<lparr>md_faults := tl (md_faults d)\<rparr>) = (r, d')"
      by simp
    then show ?thesis
      using assms(2) by (elim db_call_elim) (auto simp: applied_on_def)
  qed
qed

lemma apply_migration_cases:
  assumes "apply_migration S v t d = (r, d')"
  shows "applied_on S [(v, t)] d d' \<or> (\<exists>e. r = Inl e) \<and> applied_on S [] d d'"
  using assms unfolding apply_migration_def
proof (elim db_call_elim, goal_cases)
  case 5
  show ?case
  proof (cases "sq_run S t (md_schema d)")
    case None
    with 5 show ?thesis by (auto simp: applied_on_def)
  next
    case (Some x)
    with 5 have c: "commit_migration S v x (d\<lparr>md_foreign_keys := False, md_faults := tl (tl (tl (tl (md_faults d))))\<rparr>) = (r, d')"
      by simp
    from commit_migration_cases [OF c, of t] Some show ?thesis by (simp add: applied_on_def)
  qed
qed (auto simp: applied_on_def)

lemma run_all_append: "run_all S (xs @ ys) x = Option.bind (run_all S xs x) (run_all S ys)"
  by (induction S xs x rule: run_all.induct) (auto split: option.splits bind_split)

lemma apply_pending_prefix:
  assumes "apply_pending S ms d = (r, d')"
  shows "\<exists>done1 rest. ms = done1 @ rest \<and> applied_on S done1 d d' \<and> (r = Inr () \<longrightarrow> rest = [])"
  using assms
proof (induction ms arbitrary: d)
  case Nil
  then show ?case by (simp add: applied_on_def)
next
  case (Cons m ms)
  obtain v t where m: "m = (v, t)" by fastforce
  obtain r1 d1 where a: "apply_migration S v t d = (r1, d1)" by fastforce
  show ?case
  proof (cases r1)
    case (Inl e)
    with Cons.prems have "r = Inl e" "d' = d1" by (simp_all add: m a if_ok_def)
    with apply_migration_cases [OF a] m show ?thesis by (metis append_Cons append_Nil Inl_Inr_False)
  next
    case (Inr u)
    then have "applied_on S [(v, t)] d d1" using apply_migration_cases [OF a] by blast
    moreover have "apply_pending S ms d1 = (r, d')" using Cons.prems Inr by (simp add: m a if_ok_def)
    with Cons.IH obtain done1 rest where "ms = done1 @ rest" "applied_on S done1 d1 d'" "r = Inr () \<longrightarrow> rest = []" by blast
    moreover have "applied_on S (m # done1) d d'" using calculation by (auto simp: applied_on_def m bind_eq_Some_conv)
    ultimately show ?thesis by (intro exI [of _ "m # done1"] exI [of _ rest]) simp
  qed
qed

text \<open>
  However the calls of the database fail, a run makes and records the first of the pending
  migrations in the order of their names, each whole; a run without error makes them all.
\<close>

theorem migrations_in_order:
  assumes "migrate_to_latest S files d = (r, d')"
  shows "\<exists>done1 rest. pending_migrations files (md_versions d) = done1 @ rest \<and> applied_on S done1 d d'
    \<and> (r = Inr () \<longrightarrow> rest = [])"
  using assms unfolding migrate_to_latest_def
proof (elim db_call_elim, goal_cases)
  case 3
  from apply_pending_prefix [OF 3] show ?case by (simp add: applied_on_def)
qed (auto simp: applied_on_def intro: exI [of _ "[]"])

lemma pending_rest:
  assumes "distinct (map fst files)" "pending_migrations files vs = done1 @ rest"
  shows "pending_migrations files (vs @ map fst done1) = rest"
proof -
  have d: "distinct (map fst (pending_migrations files vs))"
    using assms(1) by (auto simp: pending_migrations_def distinct_map intro: inj_on_subset)
  have "pending_migrations files (vs @ map fst done1) = filter (\<lambda>m. fst m \<notin> fst ` set done1) (pending_migrations files vs)"
    by (auto simp: pending_migrations_def intro: filter_cong)
  also have "\<dots> = rest" using d by (force simp: assms(2) filter_empty_conv filter_id_conv)
  finally show ?thesis .
qed

text \<open>
  C34: A run that failed is resumed: the next run without error ends with the schema and the versions that
  one run without error would have given.
\<close>

theorem migration_resumes:
  assumes "migrate_to_latest S files d = (r1, d1)" "migrate_to_latest S files d1 = (Inr (), d2)" "distinct (map fst files)"
  shows "applied_on S (pending_migrations files (md_versions d)) d d2"
proof -
  obtain a rest where a: "pending_migrations files (md_versions d) = a @ rest" "applied_on S a d d1"
    using migrations_in_order [OF assms(1)] by blast
  then have "pending_migrations files (md_versions d1) = rest"
    using pending_rest [OF assms(3) a(1)] by (simp add: applied_on_def)
  then have "applied_on S rest d1 d2" using migrations_in_order [OF assms(2)] by auto
  with a show ?thesis by (auto simp: applied_on_def run_all_append)
qed

text \<open>Stopped between two migrations by the start of the second, and run again.\<close>

lemma migration_resumes_witness:
  "let S = \<lparr>sq_run = \<lambda>t (x :: string list). Some (x @ [t]), sq_keys_hold = \<lambda>_. True\<rparr>;
       d = \<lparr>md_schema = [], md_versions = [], md_foreign_keys = True, md_faults = replicate 10 False @ [True]\<rparr>;
       files = [(''b'', ''two''), (''a'', ''one'')];
       d1 = snd (migrate_to_latest S files d); d2 = snd (migrate_to_latest S files d1) in
   md_versions d1 = [''a''] \<and> md_versions d2 = [''a'', ''b''] \<and> applied_on S (pending_migrations files (md_versions d)) d d2"
proof -
  let ?S = "\<lparr>sq_run = \<lambda>t (x :: string list). Some (x @ [t]), sq_keys_hold = \<lambda>_. True\<rparr>"
  let ?d = "\<lparr>md_schema = [] :: string list, md_versions = [], md_foreign_keys = True, md_faults = replicate 10 False @ [True]\<rparr>"
  let ?d1 = "\<lparr>md_schema = [''one''], md_versions = [''a''], md_foreign_keys = True, md_faults = []\<rparr>"
  let ?d2 = "\<lparr>md_schema = [''one'', ''two''], md_versions = [''a'', ''b''], md_foreign_keys = True, md_faults = []\<rparr>"
  let ?files = "[(''b'', ''two''), (''a'', ''one'')]"
  have 1: "migrate_to_latest ?S ?files ?d = (Inl CallFailed, ?d1)" by code_simp
  have 2: "migrate_to_latest ?S ?files ?d1 = (Inr (), ?d2)" by code_simp
  show ?thesis using migration_resumes [OF 1 2] by (simp add: Let_def 1 2)
qed

text \<open>
  A migration that leaves broken foreign keys is recorded before they are checked: the first run
  reports it, and the next one does not.
\<close>

lemma violation_reported_once:
  assumes "\<not> sq_keys_hold S x" "sq_run S t (md_schema d) = Some x" "md_faults d = []" "md_versions d = []"
  shows "fst (migrate_to_latest S [(v, t)] d) = Inl (KeyViolation v)"
    and "fst (migrate_to_latest S [(v, t)] (snd (migrate_to_latest S [(v, t)] d))) = Inr ()"
  using assms by (simp_all add: migrate_to_latest_def pending_migrations_def apply_migration_def commit_migration_def db_call_def
      if_ok_def Let_def)

end
