(* ===== verification/Startup.thy ===== *)
theory Startup
  imports Runtime Migrations Go_Path
begin

text \<open>
  The outermost layer: opening the database (\<open>pkg/plugins/store/sqlite/plugin.go\<close>), the store
  for administration commands (\<open>internal/app/cli/cli.go\<close>), the extraction of the embedded skills
  (\<open>skills/skills.go\<close>) and the process of \<open>whiteagent serve\<close>
  (\<open>cmd/whiteagent/main.go\<close>). The operating system, the flags and the log are parameters or left out.
\<close>

section \<open>The database\<close>

definition open_dsn :: "string \<Rightarrow> string" where
  "open_dsn path = ''file:'' @ path @ ''?_pragma=journal_mode(WAL)'' @ ''&_pragma=busy_timeout(5000)''
     @ ''&_pragma=synchronous(NORMAL)'' @ ''&_pragma=cache_size(-64000)'' @ ''&_pragma=foreign_keys(ON)''
     @ ''&_pragma=temp_store(MEMORY)''"

text \<open>The plugin keeps its database after closing it.\<close>

record 'x sqlite_plugin =
  sp_id :: string
  sp_path :: string
  sp_db :: "'x schema_db option"
  sp_closed :: bool

definition new_sqlite :: "string \<Rightarrow> 'x sqlite_plugin" where
  "new_sqlite i = \<lparr>sp_id = i, sp_path = [], sp_db = None, sp_closed = False\<rparr>"

datatype sqlite_error = ConfigRequired | ConfigUnreadable | PathEmpty | DbNotOpened | MigrateFailed migrate_error

text \<open>
  \<open>decode\<close> reads the configuration into the path that was there before; \<open>connect\<close> opens what a
  data source name says.
\<close>

definition sqlite_init :: "(string \<Rightarrow> string \<Rightarrow> string option) \<Rightarrow> (string \<Rightarrow> 'x schema_db option) \<Rightarrow> 'x sql
    \<Rightarrow> (string \<times> string) list \<Rightarrow> string \<Rightarrow> string \<Rightarrow> 'x sqlite_plugin \<Rightarrow> (sqlite_error + unit) \<times> 'x sqlite_plugin" where
  "sqlite_init decode connect S files i raw p =
     (let p1 = (if i \<noteq> [] then p\<lparr>sp_id := i\<rparr> else p) in
      if raw = [] then (Inl ConfigRequired, p1)
      else case decode raw (sp_path p1) of
        None \<Rightarrow> (Inl ConfigUnreadable, p1)
      | Some path \<Rightarrow>
          let p2 = p1\<lparr>sp_path := path\<rparr> in
          if path = [] then (Inl PathEmpty, p2)
          else case connect (open_dsn path) of
            None \<Rightarrow> (Inl DbNotOpened, p2)
          | Some d \<Rightarrow> (case migrate_to_latest S files d of
              (Inl e, d1) \<Rightarrow> (Inl (MigrateFailed e), p2\<lparr>sp_db := Some d1, sp_closed := True\<rparr>)
            | (Inr _, d1) \<Rightarrow> (Inr (), p2\<lparr>sp_db := Some d1, sp_closed := False\<rparr>)))"

definition sqlite_stop :: "'x sqlite_plugin \<Rightarrow> 'x sqlite_plugin" where
  "sqlite_stop p = (if sp_db p \<noteq> None then p\<lparr>sp_closed := True\<rparr> else p)"

definition connected :: "'x sqlite_plugin \<Rightarrow> bool" where
  "connected p \<longleftrightarrow> sp_db p \<noteq> None \<and> \<not> sp_closed p"

text \<open>
  A new store is connected exactly when it was initialised without error, and then every embedded
  migration has been made; stopping disconnects it.
\<close>

lemma sqlite_stop_disconnects: "\<not> connected (sqlite_stop p)"
  by (simp add: connected_def sqlite_stop_def)

theorem initialised_is_migrated:
  assumes "sqlite_init decode connect S files i raw (new_sqlite j) = (r, p)"
  shows "connected p \<longleftrightarrow> r = Inr ()"
    and "r = Inr () \<Longrightarrow> \<exists>d d1. connect (open_dsn (sp_path p)) = Some d \<and> sp_db p = Some d1
      \<and> applied_on S (pending_migrations files (md_versions d)) d d1"
proof -
  have new: "sp_path (new_sqlite j) = []" "sp_db (new_sqlite j) = None" by (simp_all add: new_sqlite_def)
  show "connected p \<longleftrightarrow> r = Inr ()"
    using assms by (auto simp: sqlite_init_def Let_def connected_def new split: if_splits option.splits prod.splits sum.splits)
  assume ok: "r = Inr ()"
  obtain d d1 where d: "connect (open_dsn (sp_path p)) = Some d" "migrate_to_latest S files d = (Inr (), d1)"
    "sp_db p = Some d1"
    using assms ok by (auto simp: sqlite_init_def Let_def new split: if_splits option.splits prod.splits sum.splits)
  from migrations_in_order [OF d(2)] have "applied_on S (pending_migrations files (md_versions d)) d d1" by auto
  with d show "\<exists>d d1. connect (open_dsn (sp_path p)) = Some d \<and> sp_db p = Some d1
      \<and> applied_on S (pending_migrations files (md_versions d)) d d1" by blast
qed

section \<open>The store of the administration commands\<close>

datatype open_failure = NoConfig | StoreNotLoaded load_error | StoreNotInitialised string | NotAStore

definition init_store :: "'w host \<Rightarrow> nat \<Rightarrow> config option \<Rightarrow> 'w \<Rightarrow> (open_failure + plugin) \<times> 'w manager" where
  "init_store H addr loaded w =
     (let L = ho_lifecycle H; m = \<lparr>mg_started = [], mg_world = w\<rparr> in case loaded of
        None \<Rightarrow> (Inl NoConfig, m)
      | Some c \<Rightarrow>
          let i = ''store.'' @ ps_plugin_id (cf_store c);
              entry = \<lparr>pe_path = ps_path (cf_store c), pe_kind = PluginKindStore, pe_config = ps_config (cf_store c), pe_id = i\<rparr>
          in case load_into (ho_lib H) addr [entry] new_registry of
            (Inl e, _) \<Rightarrow> (Inl (StoreNotLoaded e), m)
          | (Inr _, r) \<Rightarrow> (case manager_init L r (configs_by_id c) m of
              (Inl e, m1) \<Rightarrow> (Inl (StoreNotInitialised e), m1)
            | (Inr _, m1) \<Rightarrow> (case rg_by_id r i of
                Some p \<Rightarrow> if PluginKindStore \<in> set (pl_implements p) then (Inr p, m1)
                  else (Inl NotAStore, snd (manager_stop L m1))
              | None \<Rightarrow> (Inl NotAStore, snd (manager_stop L m1)))))"

text \<open>What a command defers.\<close>

definition close_store :: "'w host \<Rightarrow> 'w manager \<Rightarrow> 'w manager" where
  "close_store H m = snd (manager_stop (ho_lifecycle H) m)"

lemma manager_init_started: "mg_started (snd (manager_init L r cfgs m)) = mg_started m"
  by (simp add: manager_init_def split_beta)

text \<open>
  The store was initialised but never started, so that closing it stops no plugin: the connection is
  left to the end of the process.
\<close>

theorem store_left_open:
  assumes "init_store H addr loaded w = (Inr p, m)"
  shows "close_store H m = m"
proof -
  have "mg_started m = []"
    using assms manager_init_started [of "ho_lifecycle H" _ _ "\<lparr>mg_started = [], mg_world = w\<rparr>"]
    by (auto simp: init_store_def Let_def split: option.splits prod.splits sum.splits if_splits) (metis snd_conv manager.select_convs(1))+
  then show ?thesis by (cases m) (simp add: close_store_def manager_stop_def)
qed

text \<open>
  The commands put the kind before the configured identifier where the runtime adds it only when it
  is missing: an identifier that already has it finds no configuration here.
\<close>

lemma prefixed_store_unconfigured:
  assumes "ps_plugin_id (cf_store c) = ''store.'' @ x" "\<forall>(i, _) \<in> set (config_writes c). i \<noteq> ''store.store.'' @ x"
  shows "configs_by_id c (''store.'' @ ps_plugin_id (cf_store c)) = None"
    and "qualify_id ''store'' (ps_plugin_id (cf_store c)) = ps_plugin_id (cf_store c)"
proof -
  have "map_of (rev (config_writes c)) (''store.'' @ ps_plugin_id (cf_store c)) = None"
    using assms by (auto simp: map_of_eq_None_iff)
  then show "configs_by_id c (''store.'' @ ps_plugin_id (cf_store c)) = None" by (simp add: configs_by_id_def)
  show "qualify_id ''store'' (ps_plugin_id (cf_store c)) = ps_plugin_id (cf_store c)"
    by (simp add: assms(1) qualify_id_def)
qed

text \<open>Nanoseconds; \<open>duration\<close> is \<open>time.ParseDuration\<close>. The product is one of 64-bit integers.\<close>

definition parse_expiry :: "(string \<Rightarrow> string + int) \<Rightarrow> string \<Rightarrow> string + int" where
  "parse_expiry duration s =
     (if has_suffix s ''d'' then
        (case atoi (butlast s) of
           None \<Rightarrow> Inl (''invalid duration: '' @ s)
         | Some days \<Rightarrow> if days \<le> 0 then Inl (''invalid duration: '' @ s) else Inr (wrap64 (wrap64 (days * 24) * 3600000000000)))
      else duration s)"

lemma parse_expiry_days:
  assumes "atoi ds = Some n" "0 < n" "n \<le> 106751"
  shows "parse_expiry duration (ds @ ''d'') = Inr (n * 86400 * 10 ^ 9)"
proof -
  have "wrap64 (n * 24) = n * 24" using assms by (intro wrap64_id) (simp_all add: int_min_def int_max_def)
  moreover have "wrap64 (n * 24 * 3600000000000) = n * 24 * 3600000000000"
    using assms by (intro wrap64_id) (simp_all add: int_min_def int_max_def)
  ultimately show ?thesis using assms by (simp add: parse_expiry_def has_suffix_def)
qed

lemma parse_expiry_wraps: "\<exists>n. parse_expiry duration ''106752d'' = Inr n \<and> n < 0"
proof -
  have "atoi ''106752'' = Some 106752" by code_simp
  then show ?thesis by (simp add: parse_expiry_def has_suffix_def wrap64_def)
qed

section \<open>The embedded skills\<close>

datatype tree_node = DirNode | FileNode string

text \<open>The file system by clean path; each call may fail, as the list of failures to come says.\<close>

type_synonym tree = "string \<Rightarrow> tree_node option"

definition tree_call :: "(tree \<Rightarrow> tree option) \<Rightarrow> tree \<times> bool list \<Rightarrow> bool \<times> tree \<times> bool list" where
  "tree_call f t = (case t of (a, faults) \<Rightarrow>
     if faults \<noteq> [] \<and> hd faults then (False, a, tl faults)
     else case f a of None \<Rightarrow> (False, a, tl faults) | Some a1 \<Rightarrow> (True, a1, tl faults))"

definition remove_all :: "string \<Rightarrow> tree \<Rightarrow> tree option" where
  "remove_all p a = Some (\<lambda>q. if q = path_clean p \<or> under_dir (path_clean p) q then None else a q)"

text \<open>A path and the directories above it.\<close>

definition ancestors :: "string \<Rightarrow> string list" where
  "ancestors p = (let cs = split_on (CHR ''/'') p
     in filter (\<lambda>q. q \<noteq> []) (map (\<lambda>n. join ''/'' (take (Suc n) cs)) [0..<length cs]))"

definition mkdir_all :: "string \<Rightarrow> tree \<Rightarrow> tree option" where
  "mkdir_all p a = (let ds = ancestors (path_clean p) in
     if list_all (\<lambda>q. a q = None \<or> a q = Some DirNode) ds
     then Some (\<lambda>q. if q \<in> set ds then Some DirNode else a q) else None)"

definition write_file :: "string \<Rightarrow> string \<Rightarrow> tree \<Rightarrow> tree option" where
  "write_file p c a =
     (if a p = Some DirNode \<or> path_dir p \<notin> {''.'', ''/''} \<and> a (path_dir p) \<noteq> Some DirNode then None
      else Some (a(p \<mapsto> FileNode c)))"

fun extract_entries :: "string \<Rightarrow> (string \<times> tree_node) list \<Rightarrow> tree \<times> bool list \<Rightarrow> bool \<times> tree \<times> bool list" where
  "extract_entries target [] t = (True, t)"
| "extract_entries target ((p, n) # es) t = (case n of
       DirNode \<Rightarrow> (case tree_call (mkdir_all (path_join [target, p])) t of
           (False, t1) \<Rightarrow> (False, t1) | (True, t1) \<Rightarrow> extract_entries target es t1)
     | FileNode c \<Rightarrow>
         if has_suffix p ''.go'' then extract_entries target es t
         else case tree_call (write_file (path_join [target, p]) c) t of
           (False, t1) \<Rightarrow> (False, t1) | (True, t1) \<Rightarrow> extract_entries target es t1)"

text \<open>The embedded file system is the list of its entries in the order of a walk.\<close>

definition extract_skills :: "string \<Rightarrow> (string \<times> tree_node) list \<Rightarrow> tree \<times> bool list \<Rightarrow> bool \<times> tree \<times> bool list" where
  "extract_skills target entries t = (case tree_call (remove_all target) t of
       (False, t1) \<Rightarrow> (False, t1)
     | (True, t1) \<Rightarrow> (case tree_call (mkdir_all target) t1 of
         (False, t2) \<Rightarrow> (False, t2) | (True, t2) \<Rightarrow> extract_entries target entries t2))"

lemma tree_call_ok: "tree_call f t = (True, t1) \<Longrightarrow> f (fst t) = Some (fst t1)"
  by (auto simp: tree_call_def split: prod.splits option.splits if_splits)

lemma mkdir_all_files: "mkdir_all p a = Some a1 \<Longrightarrow> a1 q = Some (FileNode c) \<longleftrightarrow> a q = Some (FileNode c)"
  by (fastforce simp: mkdir_all_def Let_def list_all_iff split: if_splits)

definition file_dests :: "string \<Rightarrow> (string \<times> tree_node) list \<Rightarrow> (string \<times> string) list" where
  "file_dests target es = List.map_filter (\<lambda>(p, n). case n of DirNode \<Rightarrow> None
     | FileNode c \<Rightarrow> if has_suffix p ''.go'' then None else Some (path_join [target, p], c)) es"

lemma file_dests_simps [simp]:
  "file_dests target [] = []"
  "file_dests target ((p, DirNode) # es) = file_dests target es"
  "file_dests target ((p, FileNode c) # es) = (if has_suffix p ''.go'' then file_dests target es
     else (path_join [target, p], c) # file_dests target es)"
  by (simp_all add: file_dests_def List.map_filter_simps)

lemma extract_entries_files:
  assumes "extract_entries target es t = (True, t1)" "distinct (map fst (file_dests target es))"
  shows "fst t1 q = Some (FileNode c) \<longleftrightarrow> (case map_of (file_dests target es) q of
    Some d \<Rightarrow> d = c | None \<Rightarrow> fst t q = Some (FileNode c))"
  using assms
proof (induction target es t rule: extract_entries.induct)
  case (2 target p n es t)
  show ?case
  proof (cases n)
    case DirNode
    then obtain t2 where t2: "tree_call (mkdir_all (path_join [target, p])) t = (True, t2)" "extract_entries target es t2 = (True, t1)"
      using "2.prems"(1) by (auto split: prod.splits bool.splits)
    have "fst t1 q = Some (FileNode c) \<longleftrightarrow> (case map_of (file_dests target es) q of
        Some d \<Rightarrow> d = c | None \<Rightarrow> fst t2 q = Some (FileNode c))"
      using "2.IH"(1) [OF DirNode t2(1) [symmetric] refl t2(2)] "2.prems"(2) DirNode by simp
    then show ?thesis using mkdir_all_files [OF tree_call_ok [OF t2(1)]] DirNode by (simp split: option.split)
  next
    case (FileNode d)
    show ?thesis
    proof (cases "has_suffix p ''.go''")
      case True
      then show ?thesis using "2.IH"(2) [OF FileNode True] "2.prems" FileNode by simp
    next
      case False
      then obtain t2 where t2: "tree_call (write_file (path_join [target, p]) d) t = (True, t2)" "extract_entries target es t2 = (True, t1)"
        using "2.prems"(1) FileNode by (auto split: prod.splits bool.splits)
      have "fst t1 q = Some (FileNode c) \<longleftrightarrow> (case map_of (file_dests target es) q of
          Some d \<Rightarrow> d = c | None \<Rightarrow> fst t2 q = Some (FileNode c))"
        using "2.IH"(3) [OF FileNode False t2(1) [symmetric] refl t2(2)] "2.prems"(2) FileNode False by simp
      moreover have "fst t2 = (fst t)(path_join [target, p] \<mapsto> FileNode d)"
        using tree_call_ok [OF t2(1)] by (auto simp: write_file_def split: if_splits)
      moreover have "map_of (file_dests target es) (path_join [target, p]) = None"
        using "2.prems"(2) FileNode False by (simp add: map_of_eq_None_iff)
      ultimately show ?thesis using FileNode False by (auto split: option.split)
    qed
  qed
qed simp

text \<open>
  After an extraction without error the files below the target are exactly the embedded ones besides
  Go sources, whatever was there before.
\<close>

theorem extraction_exact:
  assumes "extract_skills target es t = (True, t1)" "distinct (map fst (file_dests target es))"
    and "under_dir (path_clean target) q"
  shows "fst t1 q = Some (FileNode c) \<longleftrightarrow> (q, c) \<in> set (file_dests target es)"
proof -
  obtain t2 t3 where t: "tree_call (remove_all target) t = (True, t2)" "tree_call (mkdir_all target) t2 = (True, t3)"
    "extract_entries target es t3 = (True, t1)"
    using assms(1) by (auto simp: extract_skills_def split: prod.splits bool.splits)
  have "fst t2 = (\<lambda>q. if q = path_clean target \<or> under_dir (path_clean target) q then None else fst t q)"
    using tree_call_ok [OF t(1)] by (simp add: remove_all_def)
  then have "fst t2 q = None" using assms(3) by simp
  then have "fst t3 q \<noteq> Some (FileNode c)" using mkdir_all_files [OF tree_call_ok [OF t(2)]] by simp
  with extract_entries_files [OF t(3) assms(2)] show ?thesis
    by (auto simp: map_of_eq_Some_iff [OF assms(2), symmetric] split: option.split)
qed

section \<open>The process\<close>

text \<open>
  What the process does outside this model: extracting the skills, loading the configuration,
  starting and stopping the gateway, waiting for a signal; and the order in which it ranges over
  the channels. The timeout of the shutdown is part of what draining does.
\<close>

record 'w process =
  pc_extract :: "'w \<Rightarrow> bool \<times> 'w"
  pc_load :: "'w \<Rightarrow> config option \<times> 'w"
  pc_host :: "config \<Rightarrow> 'w host"
  pc_tools :: "config \<Rightarrow> builtin list"
  pc_middlewares :: "builtin list"
  pc_base :: nat
  pc_gateway_start :: "agent_runtime \<Rightarrow> 'w \<Rightarrow> bool \<times> 'w"
  pc_gateway_stop :: "'w \<Rightarrow> 'w"
  pc_wait :: "'w \<Rightarrow> 'w"
  pc_channels :: "(string \<Rightarrow> channel_entry option) \<Rightarrow> plugin list"

text \<open>The exit code and the manager that is left.\<close>

definition run_serve :: "'w process \<Rightarrow> 'w \<Rightarrow> int \<times> 'w manager" where
  "run_serve P w = (let idle = (\<lambda>w. \<lparr>mg_started = [], mg_world = w\<rparr>) in case pc_extract P w of
       (False, w1) \<Rightarrow> (1, idle w1)
     | (True, w1) \<Rightarrow> (case pc_load P w1 of
         (None, w2) \<Rightarrow> (1, idle w2)
       | (Some c, w2) \<Rightarrow> let H = pc_host P c in
           (case start_runtime H (pc_tools P c) (pc_middlewares P) (pc_base P) c w2 of
             (Inl e, m) \<Rightarrow> (1, m)
           | (Inr rt, m) \<Rightarrow> (case pc_gateway_start P rt (mg_world m) of
               (False, w3) \<Rightarrow> (1, m\<lparr>mg_world := w3\<rparr>)
             | (True, w3) \<Rightarrow>
                 let w4 = pc_gateway_stop P (pc_wait P (ho_set_state H StateReady w3));
                     (errs, m1) = shutdown_runtime H (pc_channels P (ag_channels rt)) (m\<lparr>mg_world := w4\<rparr>)
                 in (if errs = [] then 0 else 1, m1)))))"

lemma started_all:
  assumes "start_plugins L ps m = (Inr (), m1)"
  shows "mg_started m1 = mg_started m @ ps"
  using assms by (induction ps arbitrary: m) (auto split: prod.splits option.splits)

lemma wire_registry: "wire H c r = Inr rt \<Longrightarrow> ag_registry rt = r"
  by (auto simp: wire_def Let_def split: option.splits if_splits)

lemma runtime_started_all:
  assumes "start_runtime H tools mws addr c w = (Inr rt, m)"
  shows "mg_started m = lifecycle_order (ag_registry rt)"
proof -
  let ?L = "ho_lifecycle H" and ?m = "\<lparr>mg_started = [], mg_world = w\<rparr>"
  obtain lr r where l: "load_into (ho_lib H) addr (loader_entries c) (register_builtins (tools @ mws) new_registry) = (lr, r)"
    by fastforce
  obtain i m1 where i: "manager_init ?L r (merged_configs tools c) ?m = (i, m1)" by fastforce
  have m1: "mg_started m1 = []" using manager_init_started [of ?L r "merged_configs tools c" ?m] by (simp add: i)
  obtain u w2 where s: "lr = Inr u" "\<exists>v. i = Inr v" "wire H c r = Inr rt" "subscribe_all H c rt (mg_world m1) = (Inr (), w2)"
    "\<exists>m3. manager_start ?L r (m1\<lparr>mg_world := w2\<rparr>) = (Inr (), m3) \<and> mg_started m = mg_started m3"
    using assms by (auto simp: start_runtime_def Let_def l i split: sum.splits prod.splits)
  then show ?thesis using started_all [of ?L "lifecycle_order r" "m1\<lparr>mg_world := w2\<rparr>"] wire_registry [OF s(3)] m1
    by (auto simp: manager_start_def)
qed

text \<open>
  A process that ends with code zero has come up and gone down in order: everything in its registry
  was started and, after the signal, stopped in the reverse order, with the channels stopped
  and the loop drained before; nothing is left running.
\<close>

theorem serve_ends_in_order:
  assumes "\<And>c p w. seen (snd (li_stop (ho_lifecycle (pc_host P c)) p w)) = seen w @ [Halted p]"
    and "\<And>c w. seen (ho_scheduler_stop (pc_host P c) w) = seen w @ [SchedulerHalted]"
    and "\<And>c w. seen (snd (ho_drain (pc_host P c) w)) = seen w @ [Drained]"
    and "\<And>c s w. seen (ho_set_state (pc_host P c) s w) = seen w @ [Entered s]"
    and "\<And>w. seen (pc_wait P w) = seen w" "\<And>w. seen (pc_gateway_stop P w) = seen w"
    and "run_serve P w = (0, m)"
  shows "mg_started m = [] \<and> (\<exists>c rt w1 m1 before.
      start_runtime (pc_host P c) (pc_tools P c) (pc_middlewares P) (pc_base P) c w1 = (Inr rt, m1)
    \<and> seen (mg_world m) = before @ [Entered StateReady, Entered StateDraining] @ map Halted (pc_channels P (ag_channels rt))
        @ [SchedulerHalted, Drained] @ map Halted (rev (lifecycle_order (ag_registry rt))) @ [Entered StateStopped])"
proof -
  obtain c rt w1 m1 w3 where s: "start_runtime (pc_host P c) (pc_tools P c) (pc_middlewares P) (pc_base P) c w1 = (Inr rt, m1)"
    "shutdown_runtime (pc_host P c) (pc_channels P (ag_channels rt))
      (m1\<lparr>mg_world := pc_gateway_stop P (pc_wait P (ho_set_state (pc_host P c) StateReady w3))\<rparr>) = ([], m)"
    using assms(7) unfolding run_serve_def Let_def
    by (auto split: prod.splits bool.splits option.splits sum.splits if_splits)
  have "seen (mg_world m) = seen w3 @ [Entered StateReady] @ [Entered StateDraining] @ map Halted (pc_channels P (ag_channels rt))
      @ [SchedulerHalted, Drained] @ map Halted (rev (mg_started m1)) @ [Entered StateStopped] \<and> mg_started m = []"
    using shutdown_in_order [where seen = seen, OF assms(1-4) s(2)] by (simp add: assms(4-6))
  then show ?thesis using s(1) runtime_started_all [OF s(1)] by auto
qed

end
