(* ===== verification/Spec2Isabelle.thy ===== *)
theory Spec2Isabelle
  imports Cron Store_Contracts Scheduler Inbound Secrets Sanitize Agent_History Loop_Workers Config
    Tools_Laws Proxy_Laws Skills Middleware Telegram
    Teams Openai_Compat Secret_Form Runtime Tool_Plugins Cli Whisper Shared_Tools Outbox Startup
begin

text \<open>
  A verification library for whiteagent, a multi-tenant runtime for chat agents written in Go.

  \<^bold>\<open>The program.\<close> A channel plugin (Telegram, Teams) turns what a user writes into a message. The
  runtime resolves the identity behind it, lets strangers join with an invite code, chooses the
  conversation and publishes the message on an in-memory bus. The agent loop takes it from there:
  at most \<open>MaxWorkers\<close> turns run, one per chat; a turn builds a prompt from the stored history, asks
  a model through a router with failover, runs the tools the model calls, and publishes one answer,
  which the middlewares and the outbound router bring back to the chat. Everything that lasts is in a
  SQLite store. A scheduler publishes messages of its own at the times of cron expressions; compaction
  replaces old history by summaries; tools may run commands in Docker containers, to which a proxy
  gives the secrets of the user. All of these are plugins of one process, loaded, initialised,
  started and stopped in a fixed order of kinds.

  \<^bold>\<open>Conventions.\<close> A Go call that returns an error is a value of a sum type, \<open>Inl\<close> for the error;
  where the code can dereference a nil pointer the result has a third case for the panic
  (\<^verbatim>\<open>outcome\<close>). State is passed explicitly: \<^verbatim>\<open>world\<close> of \<^verbatim>\<open>Store\<close> holds the
  database, the clock, the supply of identifiers and a schedule of database calls that fail, so that
  a theorem about all worlds is one about all patterns of failure. Strings are lists of bytes. A Go
  \<open>int\<close> has 64 bits: where a sum or product can leave them the model wraps (\<^verbatim>\<open>wrap64\<close>).
  A range over a Go map takes an order that is a parameter. Concurrent parts are step relations,
  one step for each synchronisation, and what is proved of them holds in every interleaving.

  \<^bold>\<open>Foundations.\<close> \<^verbatim>\<open>Prelude\<close>: results, early return, tables as lists of rows, the collections
  of simplification and frame rules. \<^verbatim>\<open>Go_Strings\<close>, \<^verbatim>\<open>Go_Time\<close>, \<^verbatim>\<open>Go_Path\<close>: the
  standard library as far as it is used, with calendar arithmetic and path cleaning.
  \<^verbatim>\<open>Entities\<close>: the records of \<open>internal/domain/entity\<close> and \<open>dto\<close>.

  \<^bold>\<open>The store\<close> (\<open>pkg/plugins/store/sqlite\<close>). \<^verbatim>\<open>Store\<close>, \<^verbatim>\<open>Store_Records\<close> and
  \<^verbatim>\<open>Store_Ops\<close> have one operation for each method, with the constraints of the schema.
  \<^verbatim>\<open>Store_Laws\<close> shows that every run of operations keeps keys unique and references valid and that
  failed calls change nothing. \<^verbatim>\<open>Store_Contracts\<close> states what clients use as a locale
  (\<open>one_shot\<close>, interpreted for invite codes and form tokens) and the effect of merging users;
  \<^verbatim>\<open>Store_Tables\<close> has the tables read back by key (\<open>keyed_table\<close>, interpreted for
  memories, secrets and workspaces); \<^verbatim>\<open>Store_Steps\<close> carries laws of single operations to programs
  over the store. \<^verbatim>\<open>Migrations\<close> (\<open>migrate.go\<close>) shows that a migration run that failed anywhere
  is resumed by the next.

  \<^bold>\<open>Time and transport.\<close> \<^verbatim>\<open>Cron\<close> (\<open>pkg/cron\<close>): the parser returns on every input and the
  next firing time is the least one. \<^verbatim>\<open>Scheduler\<close> (\<open>service/scheduler\<close>, \<open>scopedfs\<close>): an entry
  whose message was published is no longer due; its schedules are a locale, interpreted in UTC.
  \<^verbatim>\<open>Bus\<close> (\<open>transport/memory\<close>): each topic is a bounded FIFO delivered once to each subscriber.

  \<^bold>\<open>From channel to conversation.\<close> \<^verbatim>\<open>Onboarding\<close> and \<^verbatim>\<open>Identity\<close> (\<open>service/onboarding\<close>,
  \<open>service/identity\<close>, \<open>cli/invite.go\<close>): joining spends a code once and keeps the invariant of the
  store. \<^verbatim>\<open>Conversation\<close>: the three maps agree, and history is paged from the end.
  \<^verbatim>\<open>Mapper\<close> and \<^verbatim>\<open>Inbound\<close> (\<open>service/mapper\<close>, \<open>outbound\<close>, the inbound handler of
  \<open>internal/app/agent/runtime.go\<close>): a message reaches the agent as the identity it resolved to, and
  an answer only its own chat. \<^verbatim>\<open>Telegram\<close> and \<^verbatim>\<open>Teams\<close> (\<open>pkg/plugins/channel\<close>): long
  messages are cut without loss, and the webhook acts on nothing but genuine tokens.
  \<^verbatim>\<open>Middleware\<close> and \<^verbatim>\<open>Whisper\<close>: the middlewares change only target and text and lose no
  recording.

  \<^bold>\<open>The agent.\<close> \<^verbatim>\<open>Llm\<close> (\<open>service/llm\<close>) and \<^verbatim>\<open>Openai_Compat\<close>
  (\<open>llm/openai_compat\<close>): routing, failover, and the answer assembled from a stream.
  \<^verbatim>\<open>Render\<close>, \<^verbatim>\<open>Window\<close>, \<^verbatim>\<open>Prompt\<close> and \<^verbatim>\<open>Sanitize\<close>
  (\<open>service/prompt\<close>, \<open>pkg/xml\<close>, \<open>pkg/token\<close>): the window is the longest suffix that fits, and a prompt
  shows its own conversation. \<^verbatim>\<open>Compaction\<close>: no message is lost or summarised twice.
  \<^verbatim>\<open>Secrets\<close>: sealed values, shadowing, redaction; \<^verbatim>\<open>Secret_Form\<close> (\<open>gateway/secret.go\<close>):
  a link takes one submission. \<^verbatim>\<open>Agent_Loop\<close> is a turn of \<open>service/loop/loop.go\<close>,
  \<^verbatim>\<open>Agent_Turn\<close> and \<^verbatim>\<open>Agent_History\<close> what it answers and stores. \<^verbatim>\<open>Loop_Workers\<close>
  is admission, exclusion and shutdown as a step relation; \<^verbatim>\<open>Shared_Tools\<close> extends it by what
  turns write into the tools they share, which is safe with one worker and not with two;
  \<^verbatim>\<open>Outbox\<close> is the scan for attachments. \<^verbatim>\<open>Tools\<close>, \<^verbatim>\<open>Tools_Laws\<close> and
  \<^verbatim>\<open>Tool_Plugins\<close> (\<open>internal/infra/plugins/tool\<close>, \<open>pkg/plugins/tool\<close>): each tool, its
  scope and owner checks, and that the built-in ones meet what the loop assumes.
  \<^verbatim>\<open>Skills\<close> (\<open>service/skill\<close>): what a synchronisation leaves and how names resolve.

  \<^bold>\<open>Sandboxes.\<close> \<^verbatim>\<open>Docker_Client\<close>, \<^verbatim>\<open>Sandbox_Pool\<close>, \<^verbatim>\<open>Sandbox_Plugin\<close> and
  \<^verbatim>\<open>Sandbox_Laws\<close> (\<open>sandbox/docker\<close>): framing of output, the books of the pool, and the
  confinement of everything the daemon is asked to do. \<^verbatim>\<open>Sandbox_Proxy\<close> and \<^verbatim>\<open>Proxy_Laws\<close>
  (\<open>service/loop/proxy.go\<close>, \<open>sandbox/local\<close>): secrets around a command and archives that stay
  inside; the real sandbox is the locale \<open>sandbox\<close>, interpreted for the Docker one.

  \<^bold>\<open>The process.\<close> \<^verbatim>\<open>Plugins\<close> (\<open>infra/loader\<close>), \<^verbatim>\<open>Config\<close> (\<open>app/config\<close>) and
  \<^verbatim>\<open>Runtime\<close> (\<open>app/agent\<close>): an accepted configuration is wired, and a start fails only for a
  plugin and leaves none running. \<^verbatim>\<open>Cli\<close> (\<open>app/cli\<close>): the commands are runs of store
  operations. \<^verbatim>\<open>Startup\<close> (\<open>cmd/whiteagent\<close>, \<open>sqlite/plugin.go\<close>, \<open>skills/skills.go\<close>): the
  database is connected exactly when it is migrated, and a process that ends with code zero has stopped
  what it started.

  \<^bold>\<open>Bounds.\<close> Loops are total functions by structure or by a measure, with these exceptions. The step
  loop of a cron field is a partial function whose divergence is a value, shown never to occur. The
  loop over iterations of a turn counts down \<open>MaxIterations\<close>, as the code does. Reading a stream
  of the Docker daemon ends with the stream, which is finite; waiting for a service to become healthy
  and polling for updates take the number of rounds as an argument, and what is proved holds for every
  number. The search for a firing time runs over at most five calendar years, which is the limit
  in the code.

  \<^bold>\<open>Parameters.\<close> Code outside the repository is an argument of the definitions that use it: HTTP
  transports, \<open>encoding/json\<close>, YAML, AES-GCM, RSA and certificates, the full-text index of SQLite,
  \<open>plugin.Open\<close>, the time zone database, embedded prose. Hypotheses about them are named in the
  theorems and met by concrete functions in the witnesses.

  \<^bold>\<open>Not modelled.\<close> Log lines and tracing; the tickers of typing indicators; parsing of flags and the
  layout of tables; the HTTP server and its page templates; opening files and sockets as such; Go's
  interfaces without code. The JSON schemas of tools are constants without behaviour. Calls of the
  completion service, of the identity caches and of the container pool are taken one at a time.
\<close>

end
